(* ===== verification/Prelude.thy ===== *)
theory Prelude
  imports
    Complex_Main
    "HOL-Library.Word"
    "HOL-Library.AList"
    "HOL-Library.Char_ord"
    "HOL-Library.List_Lexorder"
    "HOL-Library.Product_Lexorder"
    "HOL-Library.Sublist"
begin

text \<open>
  Shared vocabulary of the development: machine integer types, the result type of functions
  that throw, the character and string functions of the C++ standard library the sources call
  (in the default ``C'' locale, so ASCII only), and a small theory of \<open>std::unordered_map\<close> as
  an association list with distinct keys.
\<close>

unbundle bit_operations_syntax

named_theorems umap "equations for unordered maps"
named_theorems strs "equations for the string primitives"

section \<open>Machine types and results\<close>

type_synonym u8 = "8 word"
type_synonym u16 = "16 word"
type_synonym u32 = "32 word"
type_synonym u64 = "64 word"
type_synonym bytes = "u8 list"

text \<open>A \<open>std::chrono\<close> time point or duration is its tick count (nanoseconds), an \<open>int\<close>
  within the 64-bit range; sums go through \<open>tick_add\<close>, which wraps as the 64-bit clock
  representation does.\<close>

type_synonym ticks = int

definition wrap64 :: "int \<Rightarrow> int" where
  "wrap64 x = (x + 2 ^ 63) mod 2 ^ 64 - 2 ^ 63"

definition tick_add :: "ticks \<Rightarrow> ticks \<Rightarrow> ticks" where
  "tick_add a b = wrap64 (a + b)"

definition seconds :: "int \<Rightarrow> ticks" where
  "seconds n = n * 1000000000"

definition minutes :: "int \<Rightarrow> ticks" where
  "minutes n = seconds (60 * n)"

definition hours :: "int \<Rightarrow> ticks" where
  "hours n = minutes (60 * n)"

lemma wrap64_id: "- (2 ^ 63) \<le> x \<Longrightarrow> x < 2 ^ 63 \<Longrightarrow> wrap64 x = x"
  by (simp add: wrap64_def)

lemma tick_add_exact:
  "- (2 ^ 63) \<le> a + b \<Longrightarrow> a + b < 2 ^ 63 \<Longrightarrow> tick_add a b = a + b"
  by (simp add: tick_add_def wrap64_id)

lemma unat_u64_max: "unat (- 1 :: u64) = 2 ^ 64 - 1"
  by (simp add: unsigned_minus_1_eq_mask mask_eq_exp_minus_1)

lemma unat_u64_bound: "unat (s :: u64) < 2 ^ 64"
  using unsigned_less [of s] by simp

lemma u64_less_add_one: "s \<noteq> - 1 \<Longrightarrow> (s :: u64) < s + 1"
proof -
  assume "s \<noteq> - 1"
  then have "unat s \<noteq> unat (- 1 :: u64)" by (simp only: word_unat_eq_iff not_False_eq_True)
  then show ?thesis
    using unat_u64_bound [of s] by (simp add: unat_u64_max word_less_nat_alt unat_word_ariths)
qed

text \<open>The exceptions the sources throw, with their message.\<close>

datatype error =
    InvalidArgument string
  | RuntimeError string
  | LogicError string

type_synonym 'a result = "error + 'a"

abbreviation throw :: "error \<Rightarrow> 'a result" where
  "throw e \<equiv> Inl e"

definition bind_result :: "'a result \<Rightarrow> ('a \<Rightarrow> 'b result) \<Rightarrow> 'b result" where
  "bind_result r f = (case r of Inl e \<Rightarrow> Inl e | Inr x \<Rightarrow> f x)"

definition is_ok :: "'a result \<Rightarrow> bool" where
  "is_ok r = (case r of Inl _ \<Rightarrow> False | Inr _ \<Rightarrow> True)"

lemma bind_result_simps [simp]:
  "bind_result (Inl e) f = Inl e" "bind_result (Inr x) f = f x"
  by (simp_all add: bind_result_def)

lemma bind_result_Inr_iff:
  "bind_result r f = Inr y \<longleftrightarrow> (\<exists>x. r = Inr x \<and> f x = Inr y)"
  by (cases r) auto

lemma is_ok_simps [simp]: "\<not> is_ok (Inl e)" "is_ok (Inr x)"
  by (simp_all add: is_ok_def)

lemma is_ok_iff: "is_ok r \<longleftrightarrow> (\<exists>x. r = Inr x)"
  by (cases r) auto

section \<open>Characters and strings\<close>

abbreviation code :: "char \<Rightarrow> nat" where
  "code c \<equiv> of_char c"

definition tolower :: "char \<Rightarrow> char" where
  "tolower c = (if 65 \<le> code c \<and> code c \<le> 90 then char_of (code c + 32) else c)"

definition toupper :: "char \<Rightarrow> char" where
  "toupper c = (if 97 \<le> code c \<and> code c \<le> 122 then char_of (code c - 32) else c)"

definition isspace :: "char \<Rightarrow> bool" where
  "isspace c \<longleftrightarrow> code c = 32 \<or> 9 \<le> code c \<and> code c \<le> 13"

definition isdigit :: "char \<Rightarrow> bool" where
  "isdigit c \<longleftrightarrow> 48 \<le> code c \<and> code c \<le> 57"

definition isalnum :: "char \<Rightarrow> bool" where
  "isalnum c \<longleftrightarrow> isdigit c \<or> 65 \<le> code c \<and> code c \<le> 90 \<or> 97 \<le> code c \<and> code c \<le> 122"

lemma code_less [simp]: "code c < 256"
  by (rule nat_of_char_less_256)

lemma tolower_idem [simp]: "tolower (tolower c) = tolower c"
  by (simp add: tolower_def)

lemma tolower_not_upper: "\<not> (65 \<le> code (tolower c) \<and> code (tolower c) \<le> 90)"
  by (simp add: tolower_def)

text \<open>\<open>find_first p s\<close>: the index of the first character satisfying \<open>p\<close>
  (\<open>std::string::find\<close>, \<open>find_first_of\<close>); \<open>None\<close> is \<open>npos\<close>.\<close>

fun find_first :: "('a \<Rightarrow> bool) \<Rightarrow> 'a list \<Rightarrow> nat option" where
  "find_first p [] = None"
| "find_first p (x # xs) = (if p x then Some 0 else map_option Suc (find_first p xs))"

definition find_char :: "char \<Rightarrow> string \<Rightarrow> nat option" where
  "find_char c = find_first (\<lambda>x. x = c)"

definition rfind_char :: "char \<Rightarrow> string \<Rightarrow> nat option" where
  "rfind_char c s = map_option (\<lambda>i. length s - 1 - i) (find_char c (rev s))"

lemma find_first_None [strs]: "find_first p xs = None \<longleftrightarrow> (\<forall>x \<in> set xs. \<not> p x)"
  by (induction xs) auto

lemma find_first_Some:
  "find_first p xs = Some i \<Longrightarrow>
     i < length xs \<and> p (xs ! i) \<and> (\<forall>x \<in> set (take i xs). \<not> p x)"
  by (induction xs arbitrary: i) (auto split: if_splits)

lemma find_first_append:
  "(\<forall>x \<in> set xs. \<not> p x) \<Longrightarrow> p y \<Longrightarrow> find_first p (xs @ y # ys) = Some (length xs)"
  by (induction xs) auto

lemma find_char_None [strs]: "find_char c s = None \<longleftrightarrow> c \<notin> set s"
  by (auto simp: find_char_def find_first_None)

lemma find_char_split:
  assumes "find_char c s = Some i"
  shows "s = take i s @ c # drop (Suc i) s" and "c \<notin> set (take i s)" and "i < length s"
proof -
  from assms have i: "i < length s" "s ! i = c" "\<forall>x \<in> set (take i s). x \<noteq> c"
    by (auto simp: find_char_def dest: find_first_Some)
  then show "s = take i s @ c # drop (Suc i) s" "c \<notin> set (take i s)" "i < length s"
    by (auto simp: id_take_nth_drop)
qed

lemma find_char_append: "c \<notin> set xs \<Longrightarrow> find_char c (xs @ c # ys) = Some (length xs)"
  by (auto simp: find_char_def intro!: find_first_append)

text \<open>Skipping a set of characters at both ends of a string (the trimming loops of the sources).\<close>

definition strip :: "string \<Rightarrow> string" where
  "strip s = rev (dropWhile isspace (rev (dropWhile isspace s)))"

lemma strip_ends:
  "strip s \<noteq> [] \<Longrightarrow> \<not> isspace (hd (strip s)) \<and> \<not> isspace (last (strip s))"
proof -
  assume ne: "strip s \<noteq> []"
  let ?t = "dropWhile isspace s"
  let ?u = "dropWhile isspace (rev ?t)"
  from ne have u: "?u \<noteq> []" by (simp add: strip_def)
  then have last: "\<not> isspace (last (strip s))"
    by (simp add: strip_def last_rev hd_dropWhile)
  from u have t: "?t \<noteq> []" by (metis dropWhile.simps(1) rev.simps(1))
  have "suffix ?u (rev ?t)" by (rule suffix_dropWhile)
  then obtain zs where "rev ?t = zs @ ?u" by (auto simp: suffix_def)
  then have "?t = rev ?u @ rev zs" by (metis rev_append rev_rev_ident)
  with u have "hd ?t = hd (strip s)" by (metis strip_def hd_append2 rev_is_Nil_conv)
  moreover from t have "\<not> isspace (hd ?t)" by (rule hd_dropWhile)
  ultimately show ?thesis using last by simp
qed

lemma strip_id: "s = [] \<or> \<not> isspace (hd s) \<and> \<not> isspace (last s) \<Longrightarrow> strip s = s"
proof -
  assume "s = [] \<or> \<not> isspace (hd s) \<and> \<not> isspace (last s)"
  then have "dropWhile isspace s = s" and "dropWhile isspace (rev s) = rev s"
    by (auto simp: dropWhile_eq_self_iff hd_rev)
  then show ?thesis by (simp add: strip_def)
qed

lemma strip_idem [simp]: "strip (strip s) = strip s"
  by (rule strip_id) (use strip_ends in blast)

text \<open>\<open>std::to_string\<close> on unsigned and signed integers.\<close>

fun show_nat :: "nat \<Rightarrow> string" where
  "show_nat n = (if n < 10 then [char_of (48 + n)]
                 else show_nat (n div 10) @ [char_of (48 + n mod 10)])"

declare show_nat.simps [simp del]

definition show_int :: "int \<Rightarrow> string" where
  "show_int i = (if i < 0 then CHR ''-'' # show_nat (nat (- i)) else show_nat (nat i))"

definition digit_value :: "char \<Rightarrow> nat" where
  "digit_value c = code c - 48"

definition read_nat :: "string \<Rightarrow> nat" where
  "read_nat = foldl (\<lambda>n c. 10 * n + digit_value c) 0"

lemma read_nat_snoc: "read_nat (s @ [c]) = 10 * read_nat s + digit_value c"
  by (simp add: read_nat_def)

lemma read_show_nat [simp]: "read_nat (show_nat n) = n"
proof (induction n rule: show_nat.induct)
  case (1 n)
  show ?case
  proof (cases "n < 10")
    case True
    then show ?thesis
      by (simp add: show_nat.simps [of n] read_nat_def digit_value_def)
  next
    case False
    with "1.IH" have "read_nat (show_nat (n div 10)) = n div 10" by simp
    with False show ?thesis
      by (simp add: show_nat.simps [of n] read_nat_snoc digit_value_def)
  qed
qed

lemma show_nat_digits: "list_all isdigit (show_nat n)"
proof (induction n rule: show_nat.induct)
  case (1 n)
  then show ?case
    by (cases "n < 10") (simp_all add: show_nat.simps [of n] isdigit_def)
qed

lemma show_nat_nonempty [simp]: "show_nat n \<noteq> []"
  by (subst show_nat.simps) simp

section \<open>Unordered maps\<close>

text \<open>A \<open>std::unordered_map\<close> is an association list with distinct keys (\<open>um_ok\<close>); its
  iteration order is unspecified in C++ and no statement below depends on it.\<close>

type_synonym ('k, 'v) umap = "('k \<times> 'v) list"

abbreviation um_find :: "('k, 'v) umap \<Rightarrow> 'k \<Rightarrow> 'v option" where
  "um_find m k \<equiv> map_of m k"

definition um_put :: "'k \<Rightarrow> 'v \<Rightarrow> ('k, 'v) umap \<Rightarrow> ('k, 'v) umap" where
  "um_put k v m = AList.update k v m"

definition um_erase :: "'k \<Rightarrow> ('k, 'v) umap \<Rightarrow> ('k, 'v) umap" where
  "um_erase k m = AList.delete k m"

definition um_erase_if :: "('k \<times> 'v \<Rightarrow> bool) \<Rightarrow> ('k, 'v) umap \<Rightarrow> ('k, 'v) umap" where
  "um_erase_if p m = filter (\<lambda>e. \<not> p e) m"

definition um_ok :: "('k, 'v) umap \<Rightarrow> bool" where
  "um_ok m \<longleftrightarrow> distinct (map fst m)"

lemma um_find_put [umap]: "um_find (um_put k v m) k' = (if k' = k then Some v else um_find m k')"
  by (simp add: um_put_def update_conv')

lemma um_find_erase [umap]: "um_find (um_erase k m) k' = (if k' = k then None else um_find m k')"
  by (simp add: um_erase_def delete_conv')

lemma um_find_erase_if [umap]:
  "um_ok m \<Longrightarrow> um_find (um_erase_if p m) k =
     (case um_find m k of None \<Rightarrow> None | Some v \<Rightarrow> if p (k, v) then None else Some v)"
  unfolding um_ok_def um_erase_if_def
  by (induction m) (auto split: option.splits dest: map_of_SomeD simp: map_of_eq_None_iff image_iff)

lemma um_ok_Nil [umap, simp]: "um_ok []"
  by (simp add: um_ok_def)

lemma um_ok_put [umap, simp]: "um_ok m \<Longrightarrow> um_ok (um_put k v m)"
  by (simp add: um_ok_def um_put_def distinct_update)

lemma um_ok_erase [umap, simp]: "um_ok m \<Longrightarrow> um_ok (um_erase k m)"
  by (simp add: um_ok_def um_erase_def distinct_delete)

lemma um_ok_erase_if [umap, simp]: "um_ok m \<Longrightarrow> um_ok (um_erase_if p m)"
  by (simp add: um_ok_def um_erase_if_def distinct_map_filter)

lemma um_keys_put: "fst ` set (um_put k v m) = insert k (fst ` set m)"
  by (simp add: um_put_def dom_update)

lemma um_keys_erase: "fst ` set (um_erase k m) = fst ` set m - {k}"
  by (auto simp: um_erase_def AList.delete_eq)

lemma um_set_erase_if: "set (um_erase_if p m) = {e \<in> set m. \<not> p e}"
  by (simp add: um_erase_if_def)

lemma um_find_iff: "um_ok m \<Longrightarrow> um_find m k = Some v \<longleftrightarrow> (k, v) \<in> set m"
  by (simp add: um_ok_def)

lemma um_size_keys: "um_ok m \<Longrightarrow> length m = card (fst ` set m)"
  by (metis um_ok_def distinct_card length_map list.set_map)

end
