(* ===== verification/Runtime_Config.thy ===== *)
theory Runtime_Config
  imports Prelude
begin

text \<open>
  The configuration data model, \<^verbatim>\<open>config/runtime_config.hpp\<close>: one record per struct, fields in
  the order of the source with a short prefix for the struct they belong to, and the
  default member initialisers as \<open>default_...\<close> values.  \<open>unsigned short\<close> ports are
  16-bit words; \<open>int\<close> settings are \<open>int\<close>, and sizes are \<open>nat\<close>.

  An address (\<open>boost::asio::ip::address\<close>) is either a version 4 or a version 6 address; it is
  represented by the byte array that \<open>to_bytes()\<close> returns, in network order, and the scope
  id of a version 6 address.  Parsing and printing of addresses are functions of Boost and so
  are parameters of every definition that uses them.
\<close>

section \<open>Addresses\<close>

datatype ip_address =
    is_v4: V4 (v4_bytes: bytes)
  | is_v6: V6 (v6_bytes: bytes) (v6_scope: nat)

fun wf_address :: "ip_address \<Rightarrow> bool" where
  "wf_address (V4 b) = (length b = 4)"
| "wf_address (V6 b _) = (length b = 16)"

section \<open>Listeners, sites, limits\<close>

record HttpListenerConfig =
  http_enabled :: bool
  http_bind_host :: string
  http_port :: u16

definition default_http :: HttpListenerConfig where
  "default_http = \<lparr>http_enabled = True, http_bind_host = ''0.0.0.0'', http_port = 80\<rparr>"

record HttpsListenerConfig =
  https_enabled :: bool
  https_bind_host :: string
  https_port :: u16
  https_cert_file :: string
  https_key_file :: string

definition default_https :: HttpsListenerConfig where
  "default_https = \<lparr>https_enabled = True, https_bind_host = ''0.0.0.0'', https_port = 443,
     https_cert_file = ''certs/dev.crt'', https_key_file = ''certs/dev.key''\<rparr>"

record UpstreamConfig =
  up_host :: string
  up_port :: u16

definition default_upstream :: UpstreamConfig where
  "default_upstream = \<lparr>up_host = ''127.0.0.1'', up_port = 8000\<rparr>"

record SiteConfig =
  site_domain :: string
  site_enabled :: bool
  site_cert_file :: string
  site_key_file :: string
  site_upstream :: UpstreamConfig

definition default_site :: SiteConfig where
  "default_site = \<lparr>site_domain = [], site_enabled = True, site_cert_file = [],
     site_key_file = [], site_upstream = default_upstream\<rparr>"

record AdminConfig =
  admin_enabled :: bool
  admin_bind_host :: string
  admin_port :: u16
  admin_static_dir :: string
  admin_tls_cert_file :: string
  admin_tls_key_file :: string

definition default_admin :: AdminConfig where
  "default_admin = \<lparr>admin_enabled = True, admin_bind_host = ''127.0.0.1'', admin_port = 9000,
     admin_static_dir = ''webui'', admin_tls_cert_file = [], admin_tls_key_file = []\<rparr>"

record LimitsConfig =
  max_header_bytes :: nat
  max_body_bytes :: nat
  upstream_connect_timeout :: int
  request_timeout :: int

definition default_limits :: LimitsConfig where
  "default_limits = \<lparr>max_header_bytes = 16 * 1024, max_body_bytes = 10 * 1024 * 1024,
     upstream_connect_timeout = 5, request_timeout = 30\<rparr>"

section \<open>Blacklist and whitelist\<close>

text \<open>The default \<open>created_at\<close> of both entry types is the current time, so it is an argument.\<close>

record CidrRange =
  cidr_prefix :: ip_address
  cidr_prefix_len :: nat
  cidr_text :: string
  cidr_created_at :: ticks
  cidr_source :: string

record BlacklistEntry =
  entry_value :: string
  entry_created_at :: ticks
  entry_created_by :: string
  entry_source :: string

record BlacklistConfig =
  bl_ip_exact :: "BlacklistEntry list"
  bl_ip_cidrs :: "CidrRange list"
  bl_routes :: "BlacklistEntry list"
  bl_countries :: "BlacklistEntry list"
  bl_isps :: "BlacklistEntry list"
  bl_user_agents :: "BlacklistEntry list"
  bl_referrers :: "BlacklistEntry list"
  bl_body_patterns :: "BlacklistEntry list"
  bl_fake_routes :: "BlacklistEntry list"
  bl_max_body_size_bytes :: nat

definition default_blacklist :: BlacklistConfig where
  "default_blacklist = \<lparr>bl_ip_exact = [], bl_ip_cidrs = [], bl_routes = [], bl_countries = [],
     bl_isps = [], bl_user_agents = [], bl_referrers = [], bl_body_patterns = [],
     bl_fake_routes = [], bl_max_body_size_bytes = 0\<rparr>"

record WhitelistConfig =
  wl_ip_exact :: "BlacklistEntry list"
  wl_ip_cidrs :: "CidrRange list"
  wl_routes :: "BlacklistEntry list"

definition default_whitelist :: WhitelistConfig where
  "default_whitelist = \<lparr>wl_ip_exact = [], wl_ip_cidrs = [], wl_routes = []\<rparr>"

section \<open>Bans, checks, pages\<close>

definition kMaxBanDurationHours :: int where
  "kMaxBanDurationHours = 24 * 365 * 10"

text \<open>\<open>std::map<std::string, int>\<close>: a map from check names to points.\<close>

record BanConfig =
  ban_enabled :: bool
  ban_threshold :: int
  ban_duration_hours :: int
  ban_scores :: "(string, int) umap"

definition default_ban :: BanConfig where
  "default_ban = \<lparr>ban_enabled = False, ban_threshold = 100, ban_duration_hours = 24,
     ban_scores = [(''route_blacklist'', 50), (''user_agent_blacklist'', 100),
       (''body_blacklist'', 75), (''body_size_limit'', 60), (''country_blacklist'', 25),
       (''isp_blacklist'', 25), (''speed_check'', 40), (''referrer_blacklist'', 50),
       (''fake_route'', 100), (''method_not_allowed'', 50)]\<rparr>"

record MethodCheckConfig =
  mc_enabled :: bool
  mc_allowed_methods :: "string list"

definition default_method_check :: MethodCheckConfig where
  "default_method_check = \<lparr>mc_enabled = False, mc_allowed_methods = [''GET'', ''POST'', ''HEAD'']\<rparr>"

record SpeedCheckConfig =
  sc_enabled :: bool
  sc_max_requests :: int
  sc_window_seconds :: int

definition default_speed_check :: SpeedCheckConfig where
  "default_speed_check = \<lparr>sc_enabled = False, sc_max_requests = 20, sc_window_seconds = 10\<rparr>"

record EmergencyOffConfig =
  eo_enabled :: bool

record StatusPageEntry =
  sp_code :: int
  sp_html :: string
  sp_created_at :: ticks

record ResponsePagesConfig =
  blocked_html :: string
  banned_html :: string
  status_pages :: "StatusPageEntry list"

definition default_pages :: ResponsePagesConfig where
  "default_pages = \<lparr>blocked_html = [], banned_html = [], status_pages = []\<rparr>"

record RobotsTxtConfig =
  custom_content :: string

record RequestLogConfig =
  rl_enabled :: bool
  rl_csv_path :: string

definition default_request_log :: RequestLogConfig where
  "default_request_log = \<lparr>rl_enabled = False, rl_csv_path = ''config/requests.csv''\<rparr>"

record GeoIpConfig =
  mmdb_path :: string
  asn_mmdb_path :: string

definition default_geoip :: GeoIpConfig where
  "default_geoip = \<lparr>mmdb_path = [], asn_mmdb_path = []\<rparr>"

text \<open>A \<open>double\<close>: not a number, an infinity, or a finite (hence rational) value.\<close>

datatype double = NaN | NegInf | PosInf | Finite rat

record GlobeConfig =
  globe_public_enabled :: bool
  globe_public_bind_host :: string
  globe_public_port :: u16
  globe_public_tls_cert_file :: string
  globe_public_tls_key_file :: string
  globe_server_lat :: "double option"
  globe_server_lon :: "double option"
  globe_auto_detect_server_location :: bool
  globe_history_size :: nat

definition default_globe :: GlobeConfig where
  "default_globe = \<lparr>globe_public_enabled = False, globe_public_bind_host = ''0.0.0.0'',
     globe_public_port = 9443, globe_public_tls_cert_file = [], globe_public_tls_key_file = [],
     globe_server_lat = None, globe_server_lon = None,
     globe_auto_detect_server_location = True, globe_history_size = 500\<rparr>"

record SecurityConfig =
  require_2fa :: bool

record RuntimeConfig =
  cfg_http :: HttpListenerConfig
  cfg_https :: HttpsListenerConfig
  cfg_upstream :: UpstreamConfig
  cfg_sites :: "SiteConfig list"
  cfg_admin :: AdminConfig
  cfg_limits :: LimitsConfig
  cfg_blacklist :: BlacklistConfig
  cfg_whitelist :: WhitelistConfig
  cfg_ban :: BanConfig
  cfg_speed_check :: SpeedCheckConfig
  cfg_method_check :: MethodCheckConfig
  cfg_emergency_off :: EmergencyOffConfig
  cfg_pages :: ResponsePagesConfig
  cfg_request_log :: RequestLogConfig
  cfg_robots_txt :: RobotsTxtConfig
  cfg_geoip :: GeoIpConfig
  cfg_globe :: GlobeConfig
  cfg_security :: SecurityConfig

definition default_config :: RuntimeConfig where
  "default_config = \<lparr>cfg_http = default_http, cfg_https = default_https,
     cfg_upstream = default_upstream, cfg_sites = [], cfg_admin = default_admin,
     cfg_limits = default_limits, cfg_blacklist = default_blacklist,
     cfg_whitelist = default_whitelist, cfg_ban = default_ban,
     cfg_speed_check = default_speed_check, cfg_method_check = default_method_check,
     cfg_emergency_off = \<lparr>eo_enabled = False\<rparr>, cfg_pages = default_pages,
     cfg_request_log = default_request_log, cfg_robots_txt = \<lparr>custom_content = []\<rparr>,
     cfg_geoip = default_geoip, cfg_globe = default_globe,
     cfg_security = \<lparr>require_2fa = False\<rparr>\<rparr>"

lemmas default_config_simps =
  default_config_def default_http_def default_https_def default_upstream_def default_admin_def
  default_limits_def default_blacklist_def default_whitelist_def default_ban_def
  default_speed_check_def default_method_check_def default_pages_def default_request_log_def
  default_geoip_def default_globe_def

section \<open>\<open>util/numeric.hpp\<close>\<close>

text \<open>
  \<open>saturating_to_int\<close>: the two comparisons are those of the source; a comparison with NaN
  is false, and the cast of an in-range value truncates towards zero.
\<close>

definition int_min :: int where
  "int_min = - (2 ^ 31)"

definition int_max :: int where
  "int_max = 2 ^ 31 - 1"

fun fp_gt :: "double \<Rightarrow> rat \<Rightarrow> bool" where
  "fp_gt NaN r = False"
| "fp_gt NegInf r = False"
| "fp_gt PosInf r = True"
| "fp_gt (Finite q) r = (q > r)"

fun fp_ge :: "double \<Rightarrow> rat \<Rightarrow> bool" where
  "fp_ge NaN r = False"
| "fp_ge NegInf r = False"
| "fp_ge PosInf r = True"
| "fp_ge (Finite q) r = (q \<ge> r)"

definition truncate_rat :: "rat \<Rightarrow> int" where
  "truncate_rat q = (if 0 \<le> q then \<lfloor>q\<rfloor> else \<lceil>q\<rceil>)"

fun cast_int :: "double \<Rightarrow> int option" where
  "cast_int (Finite q) = (let i = truncate_rat q in
     if int_min \<le> i \<and> i \<le> int_max then Some i else None)"
| "cast_int _ = None"

text \<open>\<open>None\<close> is the undefined behaviour of an out-of-range cast.\<close>

definition saturating_to_int :: "double \<Rightarrow> int option" where
  "saturating_to_int v =
     (if \<not> fp_gt v (of_int int_min) then Some int_min
      else if fp_ge v (of_int int_max) then Some int_max
      else cast_int v)"

lemma truncate_rat_bounds:
  assumes "of_int int_min < q" and "q < of_int int_max"
  shows "int_min \<le> truncate_rat q \<and> truncate_rat q \<le> int_max"
proof (cases "0 \<le> q")
  case True
  then show ?thesis
    using assms by (auto simp: truncate_rat_def floor_le_iff le_floor_iff int_min_def int_max_def)
next
  case False
  then show ?thesis
    using assms by (auto simp: truncate_rat_def ceiling_le_iff le_ceiling_iff int_min_def int_max_def)
qed

text \<open>The conversion of a JSON number never reaches the undefined cast: for every double the
  result exists, and it is the truncation towards zero clamped to the range of \<open>int\<close>, with NaN
  and minus infinity at the minimum and plus infinity at the maximum.\<close>

theorem saturating_to_int_clamps:
  "saturating_to_int v = Some (case v of
       NaN \<Rightarrow> int_min
     | NegInf \<Rightarrow> int_min
     | PosInf \<Rightarrow> int_max
     | Finite q \<Rightarrow> max int_min (min int_max (truncate_rat q)))"
proof (cases v)
  case (Finite q)
  consider "q \<le> of_int int_min" | "of_int int_max \<le> q"
    | "of_int int_min < q" "q < of_int int_max" by linarith
  then show ?thesis
  proof cases
    case 1
    then have "truncate_rat q \<le> int_min"
      by (auto simp: truncate_rat_def ceiling_le_iff int_min_def)
    with 1 Finite show ?thesis by (simp add: saturating_to_int_def int_min_def int_max_def)
  next
    case 2
    then have "int_max \<le> truncate_rat q"
      by (auto simp: truncate_rat_def le_floor_iff int_max_def)
    with 2 Finite show ?thesis by (simp add: saturating_to_int_def int_min_def int_max_def)
  next
    case 3
    with truncate_rat_bounds [OF 3] Finite show ?thesis
      by (simp add: saturating_to_int_def Let_def)
  qed
qed (simp_all add: saturating_to_int_def)

end
