(* ===== verification/Net_Utils.thy ===== *)
theory Net_Utils
  imports Runtime_Config
begin

text \<open>
  \<^verbatim>\<open>pipeline/net_utils.cpp\<close>: CIDR parsing and matching, the client address
  normalisation, and the case-insensitive string comparisons every check is made of.
  \<open>make_address\<close> (Boost) is a parameter; it returns \<open>None\<close> where the library sets an error.
\<close>

section \<open>Case-insensitive strings\<close>

definition ci_eq :: "char \<Rightarrow> char \<Rightarrow> bool" where
  "ci_eq a b \<longleftrightarrow> tolower a = tolower b"

text \<open>\<open>std::search\<close>: the position of the first occurrence of the needle, \<open>None\<close> for the end
  iterator of a non-empty needle.\<close>

fun starts_by :: "('a \<Rightarrow> 'a \<Rightarrow> bool) \<Rightarrow> 'a list \<Rightarrow> 'a list \<Rightarrow> bool" where
  "starts_by eq xs [] = True"
| "starts_by eq [] (y # ys) = False"
| "starts_by eq (x # xs) (y # ys) = (eq x y \<and> starts_by eq xs ys)"

fun std_search :: "('a \<Rightarrow> 'a \<Rightarrow> bool) \<Rightarrow> 'a list \<Rightarrow> 'a list \<Rightarrow> nat option" where
  "std_search eq [] ys = (if ys = [] then Some 0 else None)"
| "std_search eq (x # xs) ys =
     (if starts_by eq (x # xs) ys then Some 0 else map_option Suc (std_search eq xs ys))"

definition icontains :: "string \<Rightarrow> string \<Rightarrow> bool" where
  "icontains haystack needle =
     (if needle = [] then True else std_search ci_eq haystack needle \<noteq> None)"

definition istarts_with :: "string \<Rightarrow> string \<Rightarrow> bool" where
  "istarts_with haystack pre =
     (if length pre > length haystack then False
      else list_all2 ci_eq pre (take (length pre) haystack))"

definition iequals :: "string \<Rightarrow> string \<Rightarrow> bool" where
  "iequals a b = (if length a \<noteq> length b then False else list_all2 ci_eq a b)"

definition to_lower :: "string \<Rightarrow> string" where
  "to_lower text = map tolower text"

lemma starts_by_ci: "starts_by ci_eq xs ys \<longleftrightarrow> prefix (to_lower ys) (to_lower xs)"
  by (induction "ci_eq" xs ys rule: starts_by.induct) (auto simp: ci_eq_def to_lower_def)

lemma std_search_ci:
  "std_search ci_eq xs ys \<noteq> None \<longleftrightarrow> sublist (to_lower ys) (to_lower xs)"
proof (induction xs)
  case Nil
  then show ?case by (simp add: to_lower_def)
next
  case (Cons x xs)
  have "to_lower (x # xs) = tolower x # to_lower xs" by (simp add: to_lower_def)
  with Cons starts_by_ci [of "x # xs" ys] show ?case by (simp add: sublist_Cons_right)
qed

lemma icontains_iff [strs]: "icontains h n \<longleftrightarrow> sublist (to_lower n) (to_lower h)"
  using std_search_ci [of h n] by (cases n) (simp_all add: icontains_def to_lower_def)

lemma list_all2_ci: "list_all2 ci_eq a b \<longleftrightarrow> to_lower a = to_lower b"
  by (induction a b rule: list_induct2') (auto simp: ci_eq_def to_lower_def)

lemma istarts_with_iff [strs]: "istarts_with h p \<longleftrightarrow> prefix (to_lower p) (to_lower h)"
proof -
  have "prefix (to_lower p) (to_lower h) \<longleftrightarrow>
      length p \<le> length h \<and> to_lower p = take (length p) (to_lower h)"
    by (auto simp: to_lower_def prefix_def append_eq_conv_conj dest: arg_cong [where f = length])
       (metis append_take_drop_id)
  then show ?thesis
    by (auto simp: istarts_with_def list_all2_ci) (simp_all add: to_lower_def take_map)
qed

lemma iequals_iff [strs]: "iequals a b \<longleftrightarrow> to_lower a = to_lower b"
  by (auto simp: iequals_def list_all2_ci to_lower_def dest: map_eq_imp_length_eq)

lemma to_lower_idem [simp]: "to_lower (to_lower s) = to_lower s"
  by (simp add: to_lower_def)

lemma to_lower_Nil_iff [simp]: "to_lower s = [] \<longleftrightarrow> s = []"
  by (simp add: to_lower_def)

lemma iequals_refl [simp]: "iequals a a"
  by (simp add: iequals_iff)

lemma iequals_sym: "iequals a b = iequals b a"
  by (auto simp: iequals_iff)

text \<open>The substring test of the blacklists is exactly ``the lower-cased pattern occurs in the
  lower-cased text'': the search neither misses an occurrence nor reports a wrong one, whatever
  the case of either string, and an empty pattern occurs in every text.\<close>

theorem icontains_correct:
  "icontains haystack needle \<longleftrightarrow>
     (\<exists>before after. to_lower haystack = before @ to_lower needle @ after)"
  by (simp add: icontains_iff sublist_def)

text \<open>The domain comparison is exact: appending or prepending anything to a name makes it
  different, so a request cannot spoof a configured domain by extending it.\<close>

theorem iequals_no_spoof:
  "iequals (before @ name @ after) name \<longleftrightarrow> before = [] \<and> after = []"
  by (auto simp: iequals_iff to_lower_def dest: arg_cong [where f = length])

section \<open>CIDR ranges\<close>

text \<open>\<open>std::from_chars\<close> for \<open>unsigned\<close>: the value of the longest run of digits and the rest of
  the text; no digits, or a value beyond 32 bits, is an error.\<close>

definition from_chars_unsigned :: "string \<Rightarrow> (nat \<times> string) option" where
  "from_chars_unsigned s =
     (let ds = takeWhile isdigit s in
      if ds = [] then None
      else if read_nat ds < 2 ^ 32 then Some (read_nat ds, dropWhile isdigit s) else None)"

definition parse_cidr ::
  "(string \<Rightarrow> ip_address option) \<Rightarrow> ticks \<Rightarrow> string \<Rightarrow> CidrRange option" where
  "parse_cidr make_address now text =
     (case find_char (CHR ''/'') text of
        None \<Rightarrow> None
      | Some slash \<Rightarrow>
          (let address_part = take slash text; prefix_part = drop (Suc slash) text in
           case make_address address_part of
             None \<Rightarrow> None
           | Some address \<Rightarrow>
               (case from_chars_unsigned prefix_part of
                  None \<Rightarrow> None
                | Some (prefix_len, rest) \<Rightarrow>
                    if rest \<noteq> [] then None
                    else (let max_bits = (if is_v4 address then 32 else 128) in
                          if prefix_len > max_bits then None
                          else Some \<lparr>cidr_prefix = address, cidr_prefix_len = prefix_len,
                                 cidr_text = text, cidr_created_at = now,
                                 cidr_source = ''manual''\<rparr>))))"

definition prefix_matches :: "bytes \<Rightarrow> bytes \<Rightarrow> nat \<Rightarrow> bool" where
  "prefix_matches a b prefix_len =
     (let full_bytes = prefix_len div 8; remaining_bits = prefix_len mod 8 in
      if \<exists>i \<in> set [0..<full_bytes]. a ! i \<noteq> b ! i then False
      else if remaining_bits = 0 then True
      else (let mask = ucast (drop_bit remaining_bits (0xFF00 :: u32)) :: u8 in
            (a ! full_bytes) AND mask = (b ! full_bytes) AND mask))"

definition address_in_cidr :: "ip_address \<Rightarrow> CidrRange \<Rightarrow> bool" where
  "address_in_cidr address rng =
     (if is_v4 address \<and> is_v4 (cidr_prefix rng)
      then prefix_matches (v4_bytes address) (v4_bytes (cidr_prefix rng)) (cidr_prefix_len rng)
      else if is_v6 address \<and> is_v6 (cidr_prefix rng)
      then prefix_matches (v6_bytes address) (v6_bytes (cidr_prefix rng)) (cidr_prefix_len rng)
      else False)"

text \<open>The specification: an address is its bits, most significant first, and lies in a range
  when the first \<open>prefix_len\<close> bits are those of the base address.\<close>

definition byte_bits :: "u8 \<Rightarrow> bool list" where
  "byte_bits b = map (\<lambda>i. bit b (7 - i)) [0..<8]"

definition address_bits :: "bytes \<Rightarrow> bool list" where
  "address_bits bs = concat (map byte_bits bs)"

lemma length_byte_bits [simp]: "length (byte_bits b) = 8"
  by (simp add: byte_bits_def)

lemma length_address_bits [simp]: "length (address_bits bs) = 8 * length bs"
  by (induction bs) (simp_all add: address_bits_def)

lemma address_bits_append: "address_bits (xs @ ys) = address_bits xs @ address_bits ys"
  by (simp add: address_bits_def)

lemma byte_bits_inj: "byte_bits a = byte_bits b \<longleftrightarrow> a = b"
proof
  assume eq: "byte_bits a = byte_bits b"
  show "a = b"
  proof (rule bit_word_eqI)
    fix n assume "n < LENGTH(8)"
    then have n: "7 - n < 8" "7 - (7 - n) = n" by simp_all
    from eq have "byte_bits a ! (7 - n) = byte_bits b ! (7 - n)" by simp
    with n show "bit a n = bit b n" by (simp add: byte_bits_def)
  qed
qed simp

lemma address_bits_inj:
  "length as = length bs \<Longrightarrow> address_bits as = address_bits bs \<longleftrightarrow> as = bs"
proof (induction as bs rule: list_induct2)
  case (Cons a as b bs)
  then show ?case by (simp add: address_bits_def byte_bits_inj)
qed simp

lemma bit_prefix_mask:
  "r < 8 \<Longrightarrow> bit (ucast (drop_bit r (0xFF00 :: u32)) :: u8) n \<longleftrightarrow> n < 8 \<and> 8 \<le> r + n"
proof -
  assume r: "r < 8"
  have e: "(0xFF00 :: u32) = push_bit 8 (mask 8)" by (simp add: mask_eq_exp_minus_1)
  show ?thesis
    unfolding e using r by (auto simp: bit_ucast_iff bit_drop_bit_eq bit_push_bit_iff bit_mask_iff)
qed

lemma take_byte_bits:
  "r < 8 \<Longrightarrow> take r (byte_bits a) = take r (byte_bits b) \<longleftrightarrow>
     (\<forall>n. n < 8 \<and> 8 \<le> r + n \<longrightarrow> bit a n = bit b n)"
proof -
  assume r: "r < 8"
  have "take r (byte_bits a) = take r (byte_bits b) \<longleftrightarrow>
      (\<forall>i < r. bit a (7 - i) = bit b (7 - i))"
    using r by (auto simp: byte_bits_def list_eq_iff_nth_eq)
  also have "\<dots> \<longleftrightarrow> (\<forall>n. n < 8 \<and> 8 \<le> r + n \<longrightarrow> bit a n = bit b n)"
  proof
    assume h: "\<forall>i < r. bit a (7 - i) = bit b (7 - i)"
    show "\<forall>n. n < 8 \<and> 8 \<le> r + n \<longrightarrow> bit a n = bit b n"
    proof (intro allI impI)
      fix n :: nat
      assume "n < 8 \<and> 8 \<le> r + n"
      then have "7 - n < r" "7 - (7 - n) = n" by auto
      then show "bit a n = bit b n" using h by metis
    qed
  next
    assume h: "\<forall>n. n < 8 \<and> 8 \<le> r + n \<longrightarrow> bit a n = bit b n"
    show "\<forall>i < r. bit a (7 - i) = bit b (7 - i)"
    proof (intro allI impI)
      fix i assume "i < r"
      with r have "7 - i < 8 \<and> 8 \<le> r + (7 - i)" by linarith
      with h show "bit a (7 - i) = bit b (7 - i)" by blast
    qed
  qed
  finally show ?thesis .
qed

lemma byte_mask_bits:
  assumes "r < 8"
  shows "a AND (ucast (drop_bit r (0xFF00 :: u32)) :: u8)
         = b AND (ucast (drop_bit r (0xFF00 :: u32)) :: u8)
     \<longleftrightarrow> take r (byte_bits a) = take r (byte_bits b)"
  unfolding take_byte_bits [OF assms]
  using assms by (auto simp: bit_eq_iff bit_and_iff bit_prefix_mask)

lemma take_address_bits:
  assumes "f \<le> length a"
  shows "take (8 * f + r) (address_bits a) =
     address_bits (take f a) @ take r (address_bits (drop f a))"
proof -
  have "address_bits a = address_bits (take f a) @ address_bits (drop f a)"
    by (simp flip: address_bits_append)
  with assms show ?thesis by (simp add: min_def)
qed

lemma prefix_matches_bits:
  assumes len: "length a = length b" and p: "p \<le> 8 * length b"
  shows "prefix_matches a b p \<longleftrightarrow> take p (address_bits a) = take p (address_bits b)"
proof -
  define f r where "f = p div 8" and "r = p mod 8"
  then have pfr: "p = 8 * f + r" "r < 8" by simp_all
  with p have f: "f \<le> length b" by simp
  have "take p (address_bits a) = take p (address_bits b) \<longleftrightarrow>
      address_bits (take f a) = address_bits (take f b) \<and>
      take r (address_bits (drop f a)) = take r (address_bits (drop f b))"
    using f len by (simp add: pfr(1) take_address_bits)
  also have "address_bits (take f a) = address_bits (take f b) \<longleftrightarrow> take f a = take f b"
    using f len by (intro address_bits_inj) simp
  also have "\<dots> \<longleftrightarrow> (\<forall>i < f. a ! i = b ! i)"
    using f len by (auto simp: list_eq_iff_nth_eq)
  also have "take r (address_bits (drop f a)) = take r (address_bits (drop f b)) \<longleftrightarrow>
      r = 0 \<or> take r (byte_bits (a ! f)) = take r (byte_bits (b ! f))"
  proof (cases "r = 0")
    case False
    with p pfr have "f < length b" by simp
    with len have "drop f a = a ! f # drop (Suc f) a" "drop f b = b ! f # drop (Suc f) b"
      by (simp_all add: Cons_nth_drop_Suc)
    with pfr False show ?thesis by (simp add: address_bits_def)
  qed simp
  finally show ?thesis
    using pfr(2) byte_mask_bits [OF pfr(2), of "a ! f" "b ! f"]
    by (auto simp: prefix_matches_def Let_def f_def [symmetric] r_def [symmetric])
qed

definition wf_cidr :: "CidrRange \<Rightarrow> bool" where
  "wf_cidr r \<longleftrightarrow> wf_address (cidr_prefix r) \<and>
     cidr_prefix_len r \<le> (if is_v4 (cidr_prefix r) then 32 else 128)"

text \<open>C34: Matching a client address against a range compares the first \<open>prefix_len\<close> bits of the
  two addresses of the same family, for every prefix length the parser accepts: whole bytes, the
  partial byte under the mask, \<open>/0\<close> and the full length.\<close>

theorem address_in_cidr_bits:
  assumes "wf_cidr r" and "wf_address a"
  shows "address_in_cidr a r \<longleftrightarrow>
     (case (a, cidr_prefix r) of
        (V4 x, V4 y) \<Rightarrow>
          take (cidr_prefix_len r) (address_bits x) = take (cidr_prefix_len r) (address_bits y)
      | (V6 x _, V6 y _) \<Rightarrow>
          take (cidr_prefix_len r) (address_bits x) = take (cidr_prefix_len r) (address_bits y)
      | _ \<Rightarrow> False)"
  using assms
  by (cases a; cases "cidr_prefix r")
     (simp_all add: address_in_cidr_def wf_cidr_def prefix_matches_bits)

lemma address_in_cidr_bits_witness:
  "address_in_cidr (V4 [10, 1, 2, 255]) \<lparr>cidr_prefix = V4 [10, 1, 2, 3], cidr_prefix_len = 20,
      cidr_text = ''10.1.2.3/20'', cidr_created_at = 0, cidr_source = ''manual''\<rparr>"
  by (subst address_in_cidr_bits)
     (simp_all add: wf_cidr_def address_bits_def byte_bits_def)

lemma address_in_cidr_family:
  "address_in_cidr a r \<Longrightarrow> is_v4 a = is_v4 (cidr_prefix r)"
  by (cases a; cases "cidr_prefix r") (simp_all add: address_in_cidr_def)

lemma from_chars_whole:
  "from_chars_unsigned s = Some (n, []) \<longleftrightarrow>
     s \<noteq> [] \<and> list_all isdigit s \<and> n = read_nat s \<and> n < 2 ^ 32"
proof -
  have "dropWhile isdigit s = [] \<longleftrightarrow> list_all isdigit s"
    by (simp add: dropWhile_eq_Nil_conv list_all_iff)
  moreover have "list_all isdigit s \<Longrightarrow> takeWhile isdigit s = s"
    by (simp add: takeWhile_eq_all_conv list_all_iff)
  ultimately show ?thesis
    by (cases "list_all isdigit s")
       (auto simp: from_chars_unsigned_def Let_def simp del: takeWhile_eq_all_conv
          dropWhile_eq_Nil_conv)
qed

lemma parse_cidr_iff:
  "parse_cidr mk now text = Some r \<longleftrightarrow>
     (\<exists>addr pre a.
        text = addr @ CHR ''/'' # pre \<and> CHR ''/'' \<notin> set addr \<and> mk addr = Some a
        \<and> pre \<noteq> [] \<and> list_all isdigit pre
        \<and> read_nat pre \<le> (if is_v4 a then 32 else 128)
        \<and> r = \<lparr>cidr_prefix = a, cidr_prefix_len = read_nat pre, cidr_text = text,
                cidr_created_at = now, cidr_source = ''manual''\<rparr>)"
  (is "?L \<longleftrightarrow> ?R")
proof
  assume ?L
  then obtain i a n where i: "find_char (CHR ''/'') text = Some i"
    and a: "mk (take i text) = Some a"
    and n: "from_chars_unsigned (drop (Suc i) text) = Some (n, [])"
    and b: "n \<le> (if is_v4 a then 32 else 128)"
    and r: "r = \<lparr>cidr_prefix = a, cidr_prefix_len = n, cidr_text = text,
                cidr_created_at = now, cidr_source = ''manual''\<rparr>"
    by (auto simp: parse_cidr_def Let_def split: option.splits if_splits)
  from find_char_split [OF i] a n b r show ?R
    by (intro exI [of _ "take i text"] exI [of _ "drop (Suc i) text"] exI [of _ a])
       (auto simp: from_chars_whole)
next
  assume ?R
  then obtain addr pre a where t: "text = addr @ CHR ''/'' # pre" and ns: "CHR ''/'' \<notin> set addr"
    and mk: "mk addr = Some a" and d: "pre \<noteq> []" "list_all isdigit pre"
    and b: "read_nat pre \<le> (if is_v4 a then 32 else 128)"
    and r: "r = \<lparr>cidr_prefix = a, cidr_prefix_len = read_nat pre, cidr_text = text,
                cidr_created_at = now, cidr_source = ''manual''\<rparr>" by blast
  have "read_nat pre < 2 ^ 32" using b by (auto split: if_splits)
  with d have "from_chars_unsigned pre = Some (read_nat pre, [])"
    by (simp add: from_chars_whole)
  with find_char_append [OF ns, of pre] mk b r t show ?L
    by (simp add: parse_cidr_def Let_def)
qed

text \<open>Parsing a CIDR text succeeds exactly on an address, one slash and a decimal prefix length
  within the family's width; the range carries the parsed address, that length and the text, and
  is well formed, so a stored range never reads outside the address bytes.\<close>

theorem parse_cidr_correct:
  assumes "\<And>t a. mk t = Some a \<Longrightarrow> wf_address a"
  shows "(parse_cidr mk now text = Some r) =
     (\<exists>addr pre a.
        text = addr @ CHR ''/'' # pre \<and> CHR ''/'' \<notin> set addr \<and> mk addr = Some a
        \<and> pre \<noteq> [] \<and> list_all isdigit pre
        \<and> r = \<lparr>cidr_prefix = a, cidr_prefix_len = read_nat pre, cidr_text = text,
                cidr_created_at = now, cidr_source = ''manual''\<rparr> \<and> wf_cidr r)"
  unfolding parse_cidr_iff using assms
  by (intro iff_exI) (auto simp: wf_cidr_def)

lemma parse_cidr_correct_witness:
  "parse_cidr (\<lambda>t. if t = ''10.0.0.0'' then Some (V4 [10, 0, 0, 0]) else None) 5 ''10.0.0.0/8''
     = Some \<lparr>cidr_prefix = V4 [10, 0, 0, 0], cidr_prefix_len = 8, cidr_text = ''10.0.0.0/8'',
             cidr_created_at = 5, cidr_source = ''manual''\<rparr>"
  by (subst parse_cidr_correct)
     (auto split: if_splits simp: read_nat_def digit_value_def isdigit_def wf_cidr_def
        intro!: exI [of _ "''10.0.0.0''"] exI [of _ "''8''"] exI [of _ "V4 [10, 0, 0, 0]"])

section \<open>The client address\<close>

text \<open>\<open>is_v4_mapped\<close> and \<open>make_address_v4(v4_mapped, \<dots>)\<close> are Boost's; their documented
  behaviour is that the mapped addresses are \<open>::ffff:0:0/96\<close> and that the conversion keeps the
  last four bytes.\<close>

definition normalize_client_address ::
  "(bytes \<Rightarrow> bool) \<Rightarrow> (bytes \<Rightarrow> bytes) \<Rightarrow> ip_address \<Rightarrow> ip_address" where
  "normalize_client_address is_v4_mapped make_address_v4 address =
     (case address of
        V6 v6 _ \<Rightarrow> if is_v4_mapped v6 then V4 (make_address_v4 v6) else address
      | V4 _ \<Rightarrow> address)"

definition mapped_prefix :: bytes where
  "mapped_prefix = replicate 10 0 @ [0xFF, 0xFF]"

text \<open>A version 4 client seen through a dual-stack socket gets its own version 4 address, so a
  ban or list entry stored for that address applies to it; no other address changes, and the
  result is never a mapped version 6 address again.\<close>

theorem normalize_client_address_identity:
  assumes mapped: "\<And>b. is_v4_mapped b \<longleftrightarrow> length b = 16 \<and> take 12 b = mapped_prefix"
    and unmap: "\<And>b. is_v4_mapped b \<Longrightarrow> make_address_v4 b = drop 12 b"
    and wf: "wf_address a"
  shows "normalize_client_address is_v4_mapped make_address_v4 a =
     (if \<exists>v s. length v = 4 \<and> a = V6 (mapped_prefix @ v) s
      then V4 (drop 12 (v6_bytes a)) else a)"
proof (cases a)
  case (V6 b s)
  have "(\<exists>v s'. length v = 4 \<and> a = V6 (mapped_prefix @ v) s') \<longleftrightarrow> is_v4_mapped b"
  proof
    assume "is_v4_mapped b"
    with mapped have "length b = 16" "take 12 b = mapped_prefix" by blast+
    then have "b = mapped_prefix @ drop 12 b" "length (drop 12 b) = 4"
      by (metis append_take_drop_id, simp)
    with V6 show "\<exists>v s'. length v = 4 \<and> a = V6 (mapped_prefix @ v) s'" by blast
  qed (auto simp: V6 mapped mapped_prefix_def)
  with V6 unmap show ?thesis by (auto simp: normalize_client_address_def)
qed (simp add: normalize_client_address_def)

lemma normalize_client_address_identity_witness:
  "normalize_client_address (\<lambda>b. length b = 16 \<and> take 12 b = mapped_prefix) (drop 12)
     (V6 (mapped_prefix @ [203, 0, 113, 7]) 0) = V4 [203, 0, 113, 7]"
  by (subst normalize_client_address_identity) (auto simp: mapped_prefix_def)

end
