(* ===== verification/Robots_Txt.thy ===== *)
theory Robots_Txt
  imports Net_Utils
begin

text \<open>
  \<^verbatim>\<open>pipeline/robots_txt.cpp\<close>: the \<^verbatim>\<open>/robots.txt\<close> body that advertises the honeypot routes
  inside the site's own file.  The file's local \<open>trim\<close> and \<open>to_lower\<close> are \<open>strip\<close> of the
  prelude and \<open>Net_Utils.to_lower\<close>.
\<close>

definition is_wildcard_user_agent_line :: "string \<Rightarrow> bool" where
  "is_wildcard_user_agent_line line =
     (let trimmed = strip line in
      case find_char (CHR '':'') trimmed of
        None \<Rightarrow> False
      | Some colon \<Rightarrow>
          to_lower (strip (take colon trimmed)) = ''user-agent''
          \<and> strip (drop (Suc colon) trimmed) = ''*'')"

text \<open>Repeated \<open>std::getline\<close>: a final segment without a newline counts only when non-empty.\<close>

function split_lines :: "string \<Rightarrow> string list" where
  "split_lines s =
     (if s = [] then []
      else takeWhile (\<lambda>c. c \<noteq> CHR 0x0A) s
           # split_lines (drop 1 (dropWhile (\<lambda>c. c \<noteq> CHR 0x0A) s)))"
  by pat_completeness auto
termination
proof (relation "measure length")
  fix s :: string assume s: "s \<noteq> []"
  have "length (dropWhile (\<lambda>c. c \<noteq> CHR 0x0A) s) \<le> length s" by (rule length_dropWhile_le)
  moreover have "0 < length s" using s by simp
  ultimately have "length (drop 1 (dropWhile (\<lambda>c. c \<noteq> CHR 0x0A) s)) < length s"
    unfolding length_drop by linarith
  then show "(drop 1 (dropWhile (\<lambda>c. c \<noteq> CHR 0x0A) s), s) \<in> measure length" by simp
qed simp

declare split_lines.simps [simp del]

definition join_lines :: "string list \<Rightarrow> string" where
  "join_lines ls = concat (map (\<lambda>l. l @ [CHR 0x0A]) ls)"

definition disallow_line :: "BlacklistEntry \<Rightarrow> string" where
  "disallow_line route = ''Disallow: '' @ entry_value route"

definition build_robots_txt_body :: "string \<Rightarrow> BlacklistEntry list \<Rightarrow> string" where
  "build_robots_txt_body base fake_routes =
     (if fake_routes = [] then base
      else
        (let disallow_lines = map disallow_line fake_routes in
         if base = [] then ''User-agent: *'' @ [CHR 0x0A] @ join_lines disallow_lines
         else
           (let lines = split_lines base;
                ends_with_newline = (last base = CHR 0x0A);
                it = find_first is_wildcard_user_agent_line lines;
                merged_into_existing = (it \<noteq> None);
                lines' = (case it of
                    Some i \<Rightarrow> take (Suc i) lines @ disallow_lines @ drop (Suc i) lines
                  | None \<Rightarrow> lines @ [''''] @ [''User-agent: *''] @ disallow_lines);
                out = join_lines lines'
            in if \<not> ends_with_newline \<and> merged_into_existing then butlast out else out)))"

section \<open>Lines\<close>

definition line_ok :: "string \<Rightarrow> bool" where
  "line_ok l \<longleftrightarrow> CHR 0x0A \<notin> set l"

lemma split_lines_Nil [simp]: "split_lines [] = []"
  by (simp add: split_lines.simps)

lemma split_lines_line: "line_ok l \<Longrightarrow> split_lines (l @ CHR 0x0A # s) = l # split_lines s"
  by (subst split_lines.simps) (auto simp: line_ok_def takeWhile_append dropWhile_append)

lemma split_lines_last: "line_ok l \<Longrightarrow> l \<noteq> [] \<Longrightarrow> split_lines l = [l]"
proof -
  assume l: "line_ok l" "l \<noteq> []"
  then have tw: "takeWhile (\<lambda>c. c \<noteq> CHR 0x0A) l = l" "dropWhile (\<lambda>c. c \<noteq> CHR 0x0A) l = []"
    by (auto simp: line_ok_def takeWhile_eq_all_conv dropWhile_eq_Nil_conv)
  with l(2) show ?thesis by (simp only: split_lines.simps [of l] tw) simp
qed

lemma split_join_lines_append:
  "list_all line_ok ls \<Longrightarrow> split_lines (join_lines ls @ s) = ls @ split_lines s"
  by (induction ls) (simp_all add: join_lines_def split_lines_line)

lemma split_join_lines: "list_all line_ok ls \<Longrightarrow> split_lines (join_lines ls) = ls"
  using split_join_lines_append [of ls "[]"] by simp

lemma split_join_butlast:
  assumes "list_all line_ok ls" "ls \<noteq> []" "last ls \<noteq> []"
  shows "split_lines (butlast (join_lines ls)) = ls"
proof -
  obtain init l where ls: "ls = init @ [l]" using assms(2) by (metis rev_exhaust)
  then have "butlast (join_lines ls) = join_lines init @ l"
    by (simp add: join_lines_def butlast_append)
  with assms ls show ?thesis by (simp add: split_join_lines_append split_lines_last)
qed

lemma split_lines_ok: "list_all line_ok (split_lines s)"
proof (induction s rule: split_lines.induct)
  case (1 s)
  then show ?case
    by (cases "s = []")
       (auto simp: split_lines.simps [of s] line_ok_def dest: set_takeWhileD)
qed

lemma split_lines_nonempty: "s \<noteq> [] \<Longrightarrow> split_lines s \<noteq> []"
  by (subst split_lines.simps) simp

lemma join_split_lines:
  "join_lines (split_lines s) = (if s = [] \<or> last s = CHR 0x0A then s else s @ [CHR 0x0A])"
proof (induction s rule: length_induct)
  case (1 s)
  show ?case
  proof (cases "CHR 0x0A \<in> set s")
    case True
    then obtain l t where s: "s = l @ CHR 0x0A # t" and l: "line_ok l"
      by (metis line_ok_def split_list_first)
    then have "join_lines (split_lines t) = (if t = [] \<or> last t = CHR 0x0A then t else t @ [CHR 0x0A])"
      using 1 by simp
    then show ?thesis by (simp add: s split_lines_line [OF l] join_lines_def)
  next
    case False
    then have "s = [] \<or> line_ok s \<and> s \<noteq> [] \<and> last s \<noteq> CHR 0x0A"
      by (auto simp: line_ok_def dest: last_in_set)
    then show ?thesis by (auto simp: split_lines_last join_lines_def)
  qed
qed

lemma join_lines_last: "ls \<noteq> [] \<Longrightarrow> join_lines ls \<noteq> [] \<and> last (join_lines ls) = CHR 0x0A"
  by (induction ls rule: rev_induct) (simp_all add: join_lines_def)

lemma split_lines_last_nonempty:
  assumes "s \<noteq> []" "last s \<noteq> CHR 0x0A"
  shows "last (split_lines s) \<noteq> []"
proof
  assume e: "last (split_lines s) = []"
  from split_lines_nonempty [OF assms(1)] obtain init where i: "split_lines s = init @ [[]]"
    using e by (metis append_butlast_last_id)
  have "s @ [CHR 0x0A] = join_lines init @ [CHR 0x0A]"
    using join_split_lines [of s] assms by (simp add: i join_lines_def)
  then have "s = join_lines init" by simp
  with assms join_lines_last [of init] show False by (cases "init = []") (auto simp: join_lines_def)
qed

section \<open>Properties\<close>

lemma robots_lines:
  assumes "fake_routes \<noteq> []" and "list_all (\<lambda>r. line_ok (entry_value r)) fake_routes"
  shows "split_lines (build_robots_txt_body base fake_routes) =
     (let lines = split_lines base; new = map disallow_line fake_routes in
      if base = [] then ''User-agent: *'' # new
      else case find_first is_wildcard_user_agent_line lines of
             Some i \<Rightarrow> take (Suc i) lines @ new @ drop (Suc i) lines
           | None \<Rightarrow> lines @ [[], ''User-agent: *''] @ new)"
proof -
  let ?new = "map disallow_line fake_routes"
  have new: "list_all line_ok ?new" "?new \<noteq> []" "last ?new \<noteq> []"
    using assms by (auto simp: list_all_iff disallow_line_def line_ok_def last_map)
  show ?thesis
  proof (cases "base = []")
    case True
    have "''User-agent: *'' @ [CHR 0x0A] @ join_lines ?new = join_lines (''User-agent: *'' # ?new)"
      by (simp add: join_lines_def)
    moreover have "line_ok ''User-agent: *''" by (simp add: line_ok_def)
    ultimately show ?thesis
      using True new assms(1)
      by (simp add: build_robots_txt_body_def split_join_lines del: append.simps)
  next
    case False
    let ?L = "split_lines base"
    have L: "list_all line_ok ?L" by (rule split_lines_ok)
    show ?thesis
    proof (cases "find_first is_wildcard_user_agent_line ?L")
      case None
      have "list_all line_ok (?L @ [[], ''User-agent: *''] @ ?new)"
        using L new by (simp add: line_ok_def)
      with None False assms(1) show ?thesis
        by (simp add: build_robots_txt_body_def split_join_lines)
    next
      case (Some i)
      let ?M = "take (Suc i) ?L @ ?new @ drop (Suc i) ?L"
      have M: "list_all line_ok ?M"
        using L new by (auto simp: list_all_iff dest: in_set_takeD in_set_dropD)
      have last: "last base \<noteq> CHR 0x0A \<Longrightarrow> last ?M \<noteq> []"
        using new split_lines_last_nonempty [OF False] by (simp add: last_append last_drop)
      have "?M \<noteq> []" using new by simp
      have "build_robots_txt_body base fake_routes =
          (if last base \<noteq> CHR 0x0A then butlast (join_lines ?M) else join_lines ?M)"
        using Some False assms(1) by (simp add: build_robots_txt_body_def Let_def)
      moreover have "split_lines (if last base \<noteq> CHR 0x0A then butlast (join_lines ?M)
          else join_lines ?M) = ?M"
        using split_join_lines [OF M] split_join_butlast [OF M \<open>?M \<noteq> []\<close>] last by simp
      ultimately show ?thesis using Some False by (simp add: Let_def)
    qed
  qed
qed

text \<open>The served file extends the site's own: its lines are the base's lines, all of them in
  their order, with one Disallow line per honeypot route inserted directly after the first
  wildcard user-agent line, or in a new wildcard group at the end when there is none; a base
  without a trailing newline still gives whole lines.\<close>

theorem build_robots_txt_body_lines:
  assumes "fake_routes \<noteq> []" and "list_all (\<lambda>r. line_ok (entry_value r)) fake_routes"
  shows "split_lines (build_robots_txt_body base fake_routes) =
     (let lines = split_lines base; new = map disallow_line fake_routes in
      if base = [] then ''User-agent: *'' # new
      else case find_first is_wildcard_user_agent_line lines of
             Some i \<Rightarrow> take (Suc i) lines @ new @ drop (Suc i) lines
           | None \<Rightarrow> lines @ [[], ''User-agent: *''] @ new)"
  using assms by (rule robots_lines)

lemma build_robots_txt_body_lines_witness:
  "split_lines (build_robots_txt_body ''user-agent : *''
      [\<lparr>entry_value = ''/trap'', entry_created_at = 0, entry_created_by = [],
        entry_source = ''manual''\<rparr>]) = [''user-agent : *'', ''Disallow: /trap'']"
  by (subst build_robots_txt_body_lines)
     (simp_all add: line_ok_def disallow_line_def split_lines_last
        is_wildcard_user_agent_line_def strip_def isspace_def find_char_def to_lower_def
        tolower_def)

text \<open>With no honeypot routes the configured file is served byte for byte; otherwise nothing
  of it is lost: its lines are a subsequence of the served lines and every route is advertised.\<close>

theorem build_robots_txt_body_extends:
  assumes "list_all (\<lambda>r. line_ok (entry_value r)) fake_routes"
  shows "(fake_routes = [] \<longrightarrow> build_robots_txt_body base fake_routes = base)
     \<and> subseq (split_lines base) (split_lines (build_robots_txt_body base fake_routes))
     \<and> set (map disallow_line fake_routes)
          \<subseteq> set (split_lines (build_robots_txt_body base fake_routes))"
proof (cases "fake_routes = []")
  case False
  note lines = robots_lines [OF False assms]
  have "subseq xs (take n xs @ ys @ drop n xs)" for n and xs ys :: "string list"
  proof -
    have "subseq (drop n xs) (ys @ drop n xs)" by (rule list_emb_append2) simp
    with subseq_order.refl [of "take n xs"]
    have "subseq (take n xs @ drop n xs) (take n xs @ ys @ drop n xs)"
      by (rule list_emb_append_mono)
    then show ?thesis by (simp only: append_take_drop_id)
  qed
  moreover have "subseq xs (xs @ ys)" for xs ys :: "string list"
    using subseq_append' [of xs "[]" ys] by simp
  ultimately show ?thesis
    using False by (auto simp: lines Let_def split: option.split)
qed (simp add: build_robots_txt_body_def)

lemma build_robots_txt_body_extends_witness:
  "subseq (split_lines ''Allow: /'') (split_lines (build_robots_txt_body ''Allow: /''
      [\<lparr>entry_value = ''/trap'', entry_created_at = 0, entry_created_by = [],
        entry_source = ''manual''\<rparr>]))"
  using build_robots_txt_body_extends [of "[\<lparr>entry_value = ''/trap'', entry_created_at = 0,
      entry_created_by = [], entry_source = ''manual''\<rparr>]" "''Allow: /''"]
  by (simp add: line_ok_def)

text \<open>The merge splits a group that names several agents: with consecutive user-agent lines
  sharing one rule, the Disallow lines land between them, so that rule is no longer in the
  wildcard agent's group.\<close>

lemma robots_txt_group_split:
  "split_lines (build_robots_txt_body
      (join_lines [''User-agent: *'', ''User-agent: foo'', ''Disallow: /private''])
      [\<lparr>entry_value = ''/trap'', entry_created_at = 0, entry_created_by = [],
        entry_source = ''manual''\<rparr>])
   = [''User-agent: *'', ''Disallow: /trap'', ''User-agent: foo'', ''Disallow: /private'']"
proof -
  have "split_lines (join_lines [''User-agent: *'', ''User-agent: foo'', ''Disallow: /private''])
      = [''User-agent: *'', ''User-agent: foo'', ''Disallow: /private'']"
    by (rule split_join_lines) (simp add: line_ok_def)
  moreover have "is_wildcard_user_agent_line ''User-agent: *''"
    by (simp add: is_wildcard_user_agent_line_def strip_def isspace_def find_char_def
        to_lower_def tolower_def char_of_def bit_0)
  ultimately show ?thesis
    by (subst robots_lines) (simp_all add: line_ok_def disallow_line_def join_lines_def)
qed

end
