(* ===== verification/Score_Tracker.thy ===== *)
theory Score_Tracker
  imports Runtime_Config
begin

text \<open>
  \<^verbatim>\<open>history/score_tracker.hpp/.cpp\<close>: the running score per client address.  The insertion
  queue \<open>order_\<close> and the 64-bit sequence counter are kept as in the source, stale queue items
  included.  \<open>add_points\<close> returns \<open>None\<close> when it would write through a reference to an
  entry its own eviction loop has erased; the invariant shows that this cannot happen.
\<close>

record score_entry =
  se_score :: int
  se_seq :: u64

record ScoreTracker =
  st_max_tracked_ips :: nat
  st_scores :: "(string, score_entry) umap"
  st_order :: "(string \<times> u64) list"
  st_next_seq :: u64

definition kDefaultMaxTrackedIps :: nat where
  "kDefaultMaxTrackedIps = 100000"

definition new_score_tracker :: "nat \<Rightarrow> ScoreTracker" where
  "new_score_tracker max_tracked_ips =
     \<lparr>st_max_tracked_ips = max 1 max_tracked_ips, st_scores = [], st_order = [], st_next_seq = 0\<rparr>"

definition clamp_int :: "int \<Rightarrow> int" where
  "clamp_int x = max int_min (min int_max x)"

text \<open>The loop \<open>while (order_.size() > max_tracked_ips_)\<close>.\<close>

fun evict_oldest ::
  "nat \<Rightarrow> (string \<times> u64) list \<Rightarrow> (string, score_entry) umap
     \<Rightarrow> (string \<times> u64) list \<times> (string, score_entry) umap" where
  "evict_oldest m [] scores = ([], scores)"
| "evict_oldest m (oldest # order) scores =
     (if length (oldest # order) > m then
        evict_oldest m order
          (case um_find scores (fst oldest) of
             None \<Rightarrow> scores
           | Some found \<Rightarrow>
               if se_seq found = snd oldest then um_erase (fst oldest) scores else scores)
      else (oldest # order, scores))"

definition add_points :: "string \<Rightarrow> int \<Rightarrow> ScoreTracker \<Rightarrow> (ScoreTracker \<times> int) option" where
  "add_points ip points t =
     (let t1 =
        (case um_find (st_scores t) ip of
           Some _ \<Rightarrow> t
         | None \<Rightarrow>
             (let seq = st_next_seq t;
                  (order, scores) =
                    evict_oldest (st_max_tracked_ips t) (st_order t @ [(ip, seq)])
                      (um_put ip \<lparr>se_score = 0, se_seq = seq\<rparr> (st_scores t))
              in t\<lparr>st_scores := scores, st_order := order, st_next_seq := seq + 1\<rparr>))
      in case um_find (st_scores t1) ip of
           None \<Rightarrow> None
         | Some it \<Rightarrow>
             (let total = clamp_int (se_score it + points)
              in Some (t1\<lparr>st_scores := um_put ip (it\<lparr>se_score := total\<rparr>) (st_scores t1)\<rparr>, total)))"

definition reset_score :: "string \<Rightarrow> ScoreTracker \<Rightarrow> ScoreTracker" where
  "reset_score ip t = t\<lparr>st_scores := um_erase ip (st_scores t)\<rparr>"

definition current_score :: "ScoreTracker \<Rightarrow> string \<Rightarrow> int" where
  "current_score t ip = (case um_find (st_scores t) ip of None \<Rightarrow> 0 | Some it \<Rightarrow> se_score it)"

definition tracked_ips :: "ScoreTracker \<Rightarrow> nat" where
  "tracked_ips t = length (st_scores t)"

section \<open>Invariant\<close>

definition score_ok :: "ScoreTracker \<Rightarrow> bool" where
  "score_ok t \<longleftrightarrow>
     1 \<le> st_max_tracked_ips t \<and> um_ok (st_scores t)
     \<and> length (st_order t) \<le> st_max_tracked_ips t
     \<and> (\<forall>k e. um_find (st_scores t) k = Some e \<longrightarrow>
           (k, se_seq e) \<in> set (st_order t) \<and> int_min \<le> se_score e \<and> se_score e \<le> int_max)
     \<and> (\<forall>(k, s) \<in> set (st_order t). s < st_next_seq t)"

lemma clamp_int_range [simp]: "int_min \<le> clamp_int x" "clamp_int x \<le> int_max"
  by (auto simp: clamp_int_def int_min_def int_max_def)

lemma score_ok_new [simp]: "score_ok (new_score_tracker m)"
  by (simp add: score_ok_def new_score_tracker_def)

lemma evict_order: "fst (evict_oldest m order scores) = drop (length order - m) order"
  by (induction m order scores rule: evict_oldest.induct) (auto simp: Suc_diff_le)

lemma evict_ok: "um_ok scores \<Longrightarrow> um_ok (snd (evict_oldest m order scores))"
  by (induction m order scores rule: evict_oldest.induct) (auto split: option.splits)

lemma evict_find:
  "um_find (snd (evict_oldest m order scores)) k =
     (case um_find scores k of
        None \<Rightarrow> None
      | Some e \<Rightarrow> if (k, se_seq e) \<in> set (take (length order - m) order) then None else Some e)"
proof (induction m order scores rule: evict_oldest.induct)
  case (2 m oldest order scores)
  show ?case
  proof (cases "length (oldest # order) > m")
    case True
    then have *: "length (oldest # order) - m = Suc (length order - m)" by (simp add: Suc_diff_le)
    let ?scores = "case um_find scores (fst oldest) of None \<Rightarrow> scores
        | Some found \<Rightarrow> if se_seq found = snd oldest then um_erase (fst oldest) scores else scores"
    have "um_find ?scores k = (case um_find scores k of None \<Rightarrow> None
        | Some e \<Rightarrow> if oldest = (k, se_seq e) then None else Some e)"
      by (cases oldest) (auto simp: umap split: option.splits)
    with * True 2 show ?thesis by (auto split: option.splits)
  qed (auto split: option.split)
qed (simp split: option.split)

text \<open>The state after the insertion and the eviction loop, for an address not tracked before.\<close>

lemma add_points_insert:
  assumes ok: "score_ok t" and new: "um_find (st_scores t) ip = None"
  defines "r \<equiv> evict_oldest (st_max_tracked_ips t) (st_order t @ [(ip, st_next_seq t)])
      (um_put ip \<lparr>se_score = 0, se_seq = st_next_seq t\<rparr> (st_scores t))"
  defines "full \<equiv> length (st_order t) = st_max_tracked_ips t"
  shows "fst r = (if full then tl (st_order t) else st_order t) @ [(ip, st_next_seq t)]"
    and "um_find (snd r) k =
      (if k = ip then Some \<lparr>se_score = 0, se_seq = st_next_seq t\<rparr>
       else case um_find (st_scores t) k of
              None \<Rightarrow> None
            | Some e \<Rightarrow> if full \<and> hd (st_order t) = (k, se_seq e) then None else Some e)"
    and "um_ok (snd r)"
proof -
  from ok have len: "length (st_order t) \<le> st_max_tracked_ips t" "1 \<le> st_max_tracked_ips t"
    and okm: "um_ok (st_scores t)" and lt: "\<forall>(k, s) \<in> set (st_order t). s < st_next_seq t"
    by (auto simp: score_ok_def)
  then have ne: "full \<Longrightarrow> st_order t \<noteq> []" by (auto simp: full_def)
  have d: "length (st_order t @ [(ip, st_next_seq t)]) - st_max_tracked_ips t = (if full then 1 else 0)"
    using len by (auto simp: full_def)
  show "fst r = (if full then tl (st_order t) else st_order t) @ [(ip, st_next_seq t)]"
    unfolding r_def evict_order d using ne by (cases "st_order t") auto
  show "um_ok (snd r)"
    unfolding r_def by (rule evict_ok) (simp add: okm)
  have "(ip, st_next_seq t) \<notin> set (st_order t)" using lt by auto
  then show "um_find (snd r) k =
      (if k = ip then Some \<lparr>se_score = 0, se_seq = st_next_seq t\<rparr>
       else case um_find (st_scores t) k of
              None \<Rightarrow> None
            | Some e \<Rightarrow> if full \<and> hd (st_order t) = (k, se_seq e) then None else Some e)"
    unfolding r_def evict_find d using ne
    by (cases "st_order t") (auto simp: umap split: option.splits)
qed

lemma add_points_tracked:
  assumes "score_ok t" "um_find (st_scores t) ip = Some e"
  shows "add_points ip points t =
     Some (t\<lparr>st_scores := um_put ip (e\<lparr>se_score := clamp_int (se_score e + points)\<rparr>) (st_scores t)\<rparr>,
           clamp_int (se_score e + points))"
  using assms by (simp add: add_points_def Let_def)

lemma add_points_total:
  assumes ok: "score_ok t"
  obtains t' where "add_points ip points t = Some (t', clamp_int (current_score t ip + points))"
proof (cases "um_find (st_scores t) ip")
  case (Some e)
  with add_points_tracked [OF ok Some] that show ?thesis by (simp add: current_score_def)
next
  case None
  from add_points_insert(2) [OF ok None, of ip] None that show ?thesis
    by (simp add: add_points_def current_score_def Let_def split_def)
qed

lemma add_points_score_ok:
  assumes ok: "score_ok t" and wrap: "st_next_seq t \<noteq> - 1"
    and add: "add_points ip points t = Some (t', tot)"
  shows "score_ok t'" and "st_max_tracked_ips t' = st_max_tracked_ips t"
    and "st_next_seq t' = st_next_seq t \<or> st_next_seq t' = st_next_seq t + 1"
proof -
  have "score_ok t' \<and> st_max_tracked_ips t' = st_max_tracked_ips t
      \<and> (st_next_seq t' = st_next_seq t \<or> st_next_seq t' = st_next_seq t + 1)"
  proof (cases "um_find (st_scores t) ip")
    case (Some e)
    with add add_points_tracked [OF ok Some] ok show ?thesis
      by (auto simp: score_ok_def umap split: if_splits)
  next
    case None
    let ?r = "evict_oldest (st_max_tracked_ips t) (st_order t @ [(ip, st_next_seq t)])
        (um_put ip \<lparr>se_score = 0, se_seq = st_next_seq t\<rparr> (st_scores t))"
    note ins = add_points_insert [OF ok None]
    have t': "t' = t\<lparr>st_scores := um_put ip \<lparr>se_score = clamp_int points, se_seq = st_next_seq t\<rparr> (snd ?r),
        st_order := fst ?r, st_next_seq := st_next_seq t + 1\<rparr>"
      using add ins(2) [of ip] None by (auto simp: add_points_def Let_def split_def)
    have lt: "s < st_next_seq t + 1" if "s \<le> st_next_seq t" for s
      using that u64_less_add_one [OF wrap] by simp
    have len: "length (fst ?r) \<le> st_max_tracked_ips t"
      using ok unfolding ins(1) by (cases "st_order t") (auto simp: score_ok_def)
    have stamps: "\<forall>(k, s) \<in> set (fst ?r). s < st_next_seq t + 1"
      using ok unfolding ins(1)
      by (cases "st_order t") (auto simp: score_ok_def intro!: lt less_imp_le split: if_splits)
    have ents: "(k, se_seq e) \<in> set (fst ?r) \<and> int_min \<le> se_score e \<and> se_score e \<le> int_max"
      if "um_find (snd ?r) k = Some e" for k e
    proof (cases "k = ip")
      case True
      with that ins(1) ins(2) [of ip] show ?thesis by (auto simp: int_min_def int_max_def)
    next
      case False
      with that ins(2) [of k] have e: "um_find (st_scores t) k = Some e"
        and nf: "\<not> (length (st_order t) = st_max_tracked_ips t \<and> hd (st_order t) = (k, se_seq e))"
        by (auto split: option.splits if_splits)
      with ok have "(k, se_seq e) \<in> set (st_order t)" "int_min \<le> se_score e \<and> se_score e \<le> int_max"
        by (auto simp: score_ok_def)
      with nf show ?thesis unfolding ins(1) by (cases "st_order t") auto
    qed
    show ?thesis
      using ok ins(3) len stamps ents by (auto simp: t' score_ok_def umap ins(1) split: if_splits)
  qed
  then show "score_ok t'" "st_max_tracked_ips t' = st_max_tracked_ips t"
    "st_next_seq t' = st_next_seq t \<or> st_next_seq t' = st_next_seq t + 1" by blast+
qed

lemma reset_score_ok: "score_ok t \<Longrightarrow> score_ok (reset_score ip t)"
  by (auto simp: score_ok_def reset_score_def umap split: if_splits)

lemma tracked_ips_bound: "score_ok t \<Longrightarrow> tracked_ips t \<le> st_max_tracked_ips t"
proof -
  assume ok: "score_ok t"
  let ?f = "\<lambda>(k, e). (k, se_seq e)"
  have "inj_on ?f (set (st_scores t))"
    using ok by (auto simp: score_ok_def inj_on_def um_find_iff [symmetric])
  moreover have "?f ` set (st_scores t) \<subseteq> set (st_order t)"
    using ok by (auto simp: score_ok_def um_find_iff [symmetric])
  ultimately have "card (set (st_scores t)) \<le> card (set (st_order t))"
    by (metis List.finite_set card_inj_on_le)
  also have "\<dots> \<le> length (st_order t)" by (rule card_length)
  also have "\<dots> \<le> st_max_tracked_ips t" using ok by (simp add: score_ok_def)
  finally show ?thesis
    using ok by (simp add: tracked_ips_def score_ok_def um_ok_def distinct_card distinct_map)
qed

section \<open>Properties\<close>

text \<open>Adding points: the new total is the old one plus the points, saturated at the limits of
  \<open>int\<close> instead of wrapping, and it is what is stored; no other address gains or loses points,
  except that a new address arriving at a full queue resets the oldest queue item's address.\<close>

theorem add_points_correct:
  assumes ok: "score_ok t"
  shows "\<exists>t'. add_points ip points t = Some (t', clamp_int (current_score t ip + points))
     \<and> current_score t' ip = clamp_int (current_score t ip + points)
     \<and> (\<forall>k. k \<noteq> ip \<longrightarrow> current_score t' k =
          (if um_find (st_scores t) ip = None
              \<and> length (st_order t) = st_max_tracked_ips t
              \<and> (\<exists>e. um_find (st_scores t) k = Some e \<and> hd (st_order t) = (k, se_seq e))
           then 0 else current_score t k))"
proof (cases "um_find (st_scores t) ip")
  case (Some e)
  with add_points_tracked [OF ok Some] show ?thesis by (simp add: current_score_def umap)
next
  case None
  note ins = add_points_insert(2) [OF ok None]
  from None ins [of ip] show ?thesis
    by (simp add: add_points_def current_score_def Let_def split_def umap)
       (auto simp: ins split: option.splits)
qed

lemma add_points_correct_witness:
  "\<exists>t'. add_points ''a'' 3000000000 (new_score_tracker 2) = Some (t', int_max)"
proof -
  have "clamp_int (current_score (new_score_tracker 2) ''a'' + 3000000000) = int_max"
    by (simp add: clamp_int_def current_score_def new_score_tracker_def int_max_def int_min_def)
  with add_points_correct [of "new_score_tracker 2" "''a''" 3000000000] show ?thesis by auto
qed

datatype score_op = AddPoints string int | ResetScore string

fun score_run :: "score_op list \<Rightarrow> ScoreTracker \<Rightarrow> ScoreTracker option" where
  "score_run [] t = Some t"
| "score_run (AddPoints ip p # ops) t =
     (case add_points ip p t of None \<Rightarrow> None | Some (t', _) \<Rightarrow> score_run ops t')"
| "score_run (ResetScore ip # ops) t = score_run ops (reset_score ip t)"

lemma score_run_ok:
  assumes "score_ok t" and "unat (st_next_seq t) + length ops < 2 ^ 64"
  shows "\<exists>t'. score_run ops t = Some t' \<and> score_ok t'
     \<and> st_max_tracked_ips t' = st_max_tracked_ips t"
  using assms
proof (induction ops t rule: score_run.induct)
  case (2 ip p ops t)
  obtain t' where t': "add_points ip p t = Some (t', clamp_int (current_score t ip + p))"
    using add_points_total [OF "2.prems"(1)] .
  have wrap: "st_next_seq t \<noteq> - 1" using "2.prems"(2) by (auto simp: unat_u64_max)
  note step = add_points_score_ok [OF "2.prems"(1) wrap t']
  have "unat (st_next_seq t') \<le> Suc (unat (st_next_seq t))"
    using step(3) by (auto simp: unat_word_ariths)
  with "2.prems"(2) have "unat (st_next_seq t') + length ops < 2 ^ 64" by simp
  with "2.IH" [OF t' refl step(1)] step(2) t' show ?case by simp
next
  case (3 ip ops t)
  then show ?case by (simp add: reset_score_ok) (simp add: reset_score_def)
qed simp

text \<open>Any sequence of additions and resets on a fresh tracker, shorter than the range of the
  64-bit counter, runs without touching an erased entry, and never tracks more addresses than
  the cap, however many distinct addresses a remote party uses.\<close>

theorem score_tracker_bounded:
  assumes "length ops < 2 ^ 64"
  shows "\<exists>t. score_run ops (new_score_tracker m) = Some t \<and> tracked_ips t \<le> max 1 m"
proof -
  from assms have "unat (st_next_seq (new_score_tracker m)) + length ops < 2 ^ 64"
    by (simp add: new_score_tracker_def)
  from score_run_ok [OF score_ok_new this] show ?thesis
    by (auto simp: new_score_tracker_def dest: tracked_ips_bound)
qed

lemma score_tracker_bounded_witness:
  "\<exists>t. score_run [AddPoints ''a'' 1, AddPoints ''b'' 1, AddPoints ''c'' 1] (new_score_tracker 0)
       = Some t \<and> tracked_ips t \<le> 1"
  using score_tracker_bounded [of "[AddPoints ''a'' 1, AddPoints ''b'' 1, AddPoints ''c'' 1]" 0]
  by simp

text \<open>The cap counts queue items, not tracked addresses: after a reset, an address loses its score
  although no more than \<open>max_tracked_ips\<close> addresses were ever tracked at once.\<close>

lemma score_dropped_below_cap:
  "map_option (\<lambda>t. (current_score t ''a'', tracked_ips t))
     (score_run [AddPoints ''a'' 90, AddPoints ''b'' 1, ResetScore ''b'', AddPoints ''c'' 1]
        (new_score_tracker 2)) = Some (0, 1)"
  by (simp add: add_points_def new_score_tracker_def reset_score_def current_score_def
      tracked_ips_def um_put_def um_erase_def clamp_int_def int_min_def int_max_def)

end
