(* ===== verification/Request_Rate_Tracker.thy ===== *)
theory Request_Rate_Tracker
  imports Runtime_Config
begin

text \<open>
  \<^verbatim>\<open>history/request_rate_tracker.hpp/.cpp\<close>: the sliding window of request times per client
  address.  The main result is that the count the tracker returns is the count over the whole
  history of requests: neither the front trimming nor the periodic sweep of the map ever loses a
  request that is still inside the window.

  Times are \<open>steady_clock\<close> ticks since boot and windows are below \<open>2 ^ 31\<close> seconds, so the
  difference of the two stays inside 64 bits and is written as plain subtraction.
\<close>

record RequestRateTracker =
  rr_history :: "(string, ticks list) umap"
  rr_last_sweep :: ticks

definition new_rate_tracker :: RequestRateTracker where
  "new_rate_tracker = \<lparr>rr_history = [], rr_last_sweep = 0\<rparr>"

definition sweep_locked ::
  "ticks \<Rightarrow> (string, ticks list) umap \<Rightarrow> (string, ticks list) umap" where
  "sweep_locked cutoff history =
     um_erase_if (\<lambda>(_, ts). ts = [] \<or> last ts < cutoff) history"

definition record_request ::
  "string \<Rightarrow> ticks \<Rightarrow> ticks \<Rightarrow> RequestRateTracker \<Rightarrow> RequestRateTracker \<times> nat" where
  "record_request ip now window t =
     (let cutoff = now - window;
          t1 = (if now - rr_last_sweep t \<ge> window
                then t\<lparr>rr_history := sweep_locked cutoff (rr_history t), rr_last_sweep := now\<rparr>
                else t);
          timestamps = (case um_find (rr_history t1) ip of None \<Rightarrow> [] | Some ts \<Rightarrow> ts) @ [now];
          timestamps' = dropWhile (\<lambda>ts. ts < cutoff) timestamps
      in (t1\<lparr>rr_history := um_put ip timestamps' (rr_history t1)\<rparr>, length timestamps'))"

definition tracked_rate_ips :: "RequestRateTracker \<Rightarrow> nat" where
  "tracked_rate_ips t = length (rr_history t)"

section \<open>The tracker against the full history\<close>

text \<open>The specification keeps every request ever made, oldest first.\<close>

type_synonym trace = "(string \<times> ticks) list"

definition times_of :: "trace \<Rightarrow> string \<Rightarrow> ticks list" where
  "times_of tr ip = map snd (filter (\<lambda>e. fst e = ip) tr)"

definition window_count :: "trace \<Rightarrow> string \<Rightarrow> ticks \<Rightarrow> nat" where
  "window_count tr ip cutoff = length (filter (\<lambda>e. fst e = ip \<and> cutoff \<le> snd e) tr)"

definition stored :: "RequestRateTracker \<Rightarrow> string \<Rightarrow> ticks list" where
  "stored t ip = (case um_find (rr_history t) ip of None \<Rightarrow> [] | Some ts \<Rightarrow> ts)"

definition rate_inv :: "RequestRateTracker \<Rightarrow> trace \<Rightarrow> ticks \<Rightarrow> bool" where
  "rate_inv t tr cutoff \<longleftrightarrow> um_ok (rr_history t) \<and>
     (\<forall>ip. sorted (stored t ip) \<and>
        (\<forall>c \<ge> cutoff. filter (\<lambda>x. c \<le> x) (stored t ip) = filter (\<lambda>x. c \<le> x) (times_of tr ip)))"

lemma dropWhile_sorted: "sorted xs \<Longrightarrow> dropWhile (\<lambda>x. x < c) xs = filter (\<lambda>x. c \<le> x) xs"
  for c :: int
proof (induction xs)
  case (Cons x xs)
  then show ?case by (auto intro!: filter_True [symmetric] simp: not_less)
qed simp

lemma filter_none_after_last:
  "sorted xs \<Longrightarrow> xs = [] \<or> last xs < c \<Longrightarrow> filter (\<lambda>x. c \<le> x) xs = []"
  for c :: int
  by (cases xs rule: rev_cases) (fastforce simp: sorted_append filter_empty_conv)+

lemma stored_sweep:
  assumes "um_ok (rr_history t)"
  shows "stored (t\<lparr>rr_history := sweep_locked c (rr_history t), rr_last_sweep := n\<rparr>) ip =
     (if stored t ip = [] \<or> last (stored t ip) < c then [] else stored t ip)"
  using assms by (auto simp: stored_def sweep_locked_def umap split: option.split)

lemma sweep_inv:
  assumes "rate_inv t tr cutoff" and "cutoff \<le> c"
  shows "rate_inv (t\<lparr>rr_history := sweep_locked c (rr_history t), rr_last_sweep := n\<rparr>) tr c"
proof -
  from assms(1) have ok: "um_ok (rr_history t)" and srt: "\<And>ip. sorted (stored t ip)"
    and eq: "\<And>ip d. cutoff \<le> d \<Longrightarrow>
      filter (\<lambda>x. d \<le> x) (stored t ip) = filter (\<lambda>x. d \<le> x) (times_of tr ip)"
    by (auto simp: rate_inv_def)
  have "filter (\<lambda>x. d \<le> x) (times_of tr ip) = []"
    if "c \<le> d" "stored t ip = [] \<or> last (stored t ip) < c" for ip d
  proof -
    have "filter (\<lambda>x. d \<le> x) (stored t ip) = []"
      using that srt by (intro filter_none_after_last) auto
    with eq [of d ip] that assms(2) show ?thesis by simp
  qed
  moreover have "um_ok (sweep_locked c (rr_history t))" using ok by (simp add: sweep_locked_def)
  ultimately show ?thesis
    using srt eq assms(2) by (simp add: rate_inv_def stored_sweep [OF ok])
qed

lemma rate_inv_mono: "rate_inv t tr c \<Longrightarrow> c \<le> d \<Longrightarrow> rate_inv t tr d"
  by (auto simp: rate_inv_def)

lemma window_count_times: "window_count tr ip c = length (filter (\<lambda>x. c \<le> x) (times_of tr ip))"
  by (induction tr) (auto simp: window_count_def times_of_def)

lemma record_request_inv:
  assumes inv: "rate_inv t tr cutoff" and c: "cutoff \<le> now - window" and w: "0 \<le> window"
    and now: "\<forall>e \<in> set tr. snd e \<le> now"
    and kept: "\<forall>ip. set (stored t ip) \<subseteq> set (times_of tr ip)"
    and rec: "record_request ip now window t = (t', n)"
  shows "rate_inv t' (tr @ [(ip, now)]) (now - window)"
    and "n = window_count (tr @ [(ip, now)]) ip (now - window)"
    and "\<forall>k. set (stored t' k) \<subseteq> set (times_of (tr @ [(ip, now)]) k)"
proof -
  let ?c = "now - window"
  define t1 where "t1 = (if now - rr_last_sweep t \<ge> window
      then t\<lparr>rr_history := sweep_locked ?c (rr_history t), rr_last_sweep := now\<rparr> else t)"
  have ok: "um_ok (rr_history t)" using inv by (simp add: rate_inv_def)
  have inv1: "rate_inv t1 tr ?c"
    using sweep_inv [OF inv c, of now] rate_inv_mono [OF inv c] by (simp add: t1_def)
  have kept1: "set (stored t1 k) \<subseteq> set (times_of tr k)" for k
    using kept by (auto simp: t1_def stored_sweep [OF ok])
  let ?ts = "stored t1 ip @ [now]"
  have le: "\<forall>x \<in> set (stored t1 ip). x \<le> now"
    using kept1 [of ip] now by (auto simp: times_of_def)
  have srt: "sorted ?ts" using inv1 le by (auto simp: rate_inv_def sorted_append)
  have drop: "dropWhile (\<lambda>x. x < ?c) ?ts = filter (\<lambda>x. ?c \<le> x) ?ts"
    by (rule dropWhile_sorted [OF srt])
  have t': "t' = t1\<lparr>rr_history := um_put ip (filter (\<lambda>x. ?c \<le> x) ?ts) (rr_history t1)\<rparr>"
    and n: "n = length (filter (\<lambda>x. ?c \<le> x) ?ts)"
    using rec drop
    by (auto simp: record_request_def Let_def t1_def [symmetric] stored_def [symmetric])
  have st: "stored t' k = (if k = ip then filter (\<lambda>x. ?c \<le> x) ?ts else stored t1 k)" for k
    by (simp add: t' stored_def umap)
  have times: "times_of (tr @ [(ip, now)]) k = (if k = ip then times_of tr ip @ [now] else times_of tr k)" for k
    by (simp add: times_of_def)
  have filters: "filter (\<lambda>x. d \<le> x) (filter (\<lambda>x. ?c \<le> x) xs) = filter (\<lambda>x. d \<le> x) xs"
    if "?c \<le> d" for d xs
    using that by (auto simp: filter_filter intro!: filter_cong)
  have eq1: "filter (\<lambda>x. d \<le> x) (stored t1 k) = filter (\<lambda>x. d \<le> x) (times_of tr k)"
    if "?c \<le> d" for d k
    using inv1 that by (simp add: rate_inv_def)
  have srt1: "sorted (stored t1 k)" for k using inv1 by (simp add: rate_inv_def)
  have "um_ok (rr_history t')" using inv1 by (simp add: t' rate_inv_def)
  moreover have "sorted (stored t' k)" for k
    using srt1 srt by (simp add: st sorted_wrt_filter del: filter_append)
  moreover have "filter (\<lambda>x. d \<le> x) (stored t' k)
      = filter (\<lambda>x. d \<le> x) (times_of (tr @ [(ip, now)]) k)" if "?c \<le> d" for d k
  proof (cases "k = ip")
    case True
    have "filter (\<lambda>x. d \<le> x) (stored t' k) = filter (\<lambda>x. d \<le> x) ?ts"
      unfolding True st if_P [OF refl] by (rule filters [OF that])
    also have "\<dots> = filter (\<lambda>x. d \<le> x) (times_of (tr @ [(ip, now)]) k)"
      using eq1 [OF that] by (simp add: True times)
    finally show ?thesis .
  qed (simp add: st times eq1 [OF that])
  ultimately show "rate_inv t' (tr @ [(ip, now)]) ?c" by (simp add: rate_inv_def)
  show "n = window_count (tr @ [(ip, now)]) ip ?c"
    unfolding n window_count_times times by (simp add: eq1)
  show "\<forall>k. set (stored t' k) \<subseteq> set (times_of (tr @ [(ip, now)]) k)"
    using kept1 by (auto simp: st times)
qed

fun rate_run :: "ticks \<Rightarrow> trace \<Rightarrow> RequestRateTracker \<Rightarrow> RequestRateTracker" where
  "rate_run window [] t = t"
| "rate_run window ((ip, now) # tr) t = rate_run window tr (fst (record_request ip now window t))"

lemma rate_run_append: "rate_run w (xs @ ys) t = rate_run w ys (rate_run w xs t)"
  by (induction w xs t rule: rate_run.induct) simp_all

lemma rate_run_inv:
  assumes "sorted (map snd tr)" and "0 \<le> window"
  shows "\<forall>now. (\<forall>e \<in> set tr. snd e \<le> now) \<longrightarrow>
       rate_inv (rate_run window tr new_rate_tracker) tr (now - window)"
    and "\<forall>k. set (stored (rate_run window tr new_rate_tracker) k) \<subseteq> set (times_of tr k)"
  using assms
proof (induction tr rule: rev_induct)
  case Nil
  {
    case 1
    then show ?case by (simp add: rate_inv_def new_rate_tracker_def stored_def times_of_def)
  next
    case 2
    then show ?case by (simp add: new_rate_tracker_def stored_def)
  }
next
  case (snoc e tr)
  obtain ip now where e: "e = (ip, now)" by (cases e)
  let ?t = "rate_run window tr new_rate_tracker"
  {
    fix n
    assume srt: "sorted (map snd (tr @ [e]))" and w: "0 \<le> window"
    then have le: "\<forall>x \<in> set tr. snd x \<le> now" and "sorted (map snd tr)"
      by (auto simp: sorted_append e)
    with snoc.IH w have "rate_inv ?t tr (now - window)"
      and "\<forall>k. set (stored ?t k) \<subseteq> set (times_of tr k)" by auto
    note step = record_request_inv [OF this(1) _ w le this(2), of ip
        "fst (record_request ip now window ?t)" "snd (record_request ip now window ?t)"]
    have "rate_inv (rate_run window (tr @ [e]) new_rate_tracker) (tr @ [e]) (now - window)"
      and "\<forall>k. set (stored (rate_run window (tr @ [e]) new_rate_tracker) k) \<subseteq> set (times_of (tr @ [e]) k)"
      using step(1,3) by (simp_all add: rate_run_append e)
  }
  note * = this
  {
    case 1
    show ?case
    proof (intro allI impI)
      fix n assume "\<forall>x \<in> set (tr @ [e]). snd x \<le> n"
      then have "now - window \<le> n - window" by (simp add: e)
      with * (1) [OF 1] show "rate_inv (rate_run window (tr @ [e]) new_rate_tracker) (tr @ [e]) (n - window)"
        by (blast intro: rate_inv_mono)
    qed
  next
    case 2
    then show ?case by (rule * (2))
  }
qed

lemma record_request_counts:
  assumes "sorted (map snd (tr @ [(ip, now)]))" and "0 \<le> window"
  shows "snd (record_request ip now window (rate_run window tr new_rate_tracker))
     = window_count (tr @ [(ip, now)]) ip (now - window)"
proof -
  have le: "\<forall>e \<in> set tr. snd e \<le> now" and srt: "sorted (map snd tr)"
    using assms(1) by (auto simp: sorted_append)
  with rate_run_inv [OF srt assms(2)]
  have "rate_inv (rate_run window tr new_rate_tracker) tr (now - window)"
    and "\<forall>k. set (stored (rate_run window tr new_rate_tracker) k) \<subseteq> set (times_of tr k)"
    by auto
  from record_request_inv(2) [OF this(1) _ assms(2) le this(2)] show ?thesis
    by (metis order.refl prod.collapse)
qed

text \<open>With requests in time order and a fixed window, the count reported for a request is the
  number of requests of that address, this one included, in the whole history within the window:
  the trimming and the sweep never lose one that still counts.\<close>

theorem record_request_counts_window:
  assumes "sorted (map snd (tr @ [(ip, now)]))" and "0 \<le> window"
  shows "snd (record_request ip now window (rate_run window tr new_rate_tracker))
     = window_count (tr @ [(ip, now)]) ip (now - window)"
  using assms by (rule record_request_counts)

lemma record_request_counts_window_witness:
  "snd (record_request ''a'' 12 10 (rate_run 10 [(''a'', 1), (''b'', 2), (''a'', 5)] new_rate_tracker)) = 2"
  using record_request_counts_window [of "[(''a'', 1), (''b'', 2), (''a'', 5)]" "''a''" 12 10]
  by (simp add: window_count_def)

text \<open>A sweep bounds the memory: right after it, the map holds only addresses with a request
  inside the window, besides the one just recorded.\<close>

theorem sweep_bounds_history:
  assumes "window \<le> now - rr_last_sweep t" and "um_ok (rr_history t)"
  shows "\<forall>(k, ts) \<in> set (rr_history (fst (record_request ip now window t))).
     k = ip \<or> ts \<noteq> [] \<and> now - window \<le> last ts"
proof -
  let ?h = "sweep_locked (now - window) (rr_history t)"
  have ok: "um_ok ?h" using assms(2) by (simp add: sweep_locked_def)
  then obtain ts where h: "rr_history (fst (record_request ip now window t)) = um_put ip ts ?h"
    using assms(1) by (simp add: record_request_def Let_def)
  have "k = ip \<or> (k, v) \<in> set ?h" if "(k, v) \<in> set (um_put ip ts ?h)" for k v
    using that ok by (auto simp: um_find_iff [symmetric] umap split: if_splits)
  then show ?thesis
    unfolding h by (auto simp: sweep_locked_def um_set_erase_if not_less)
qed

lemma sweep_bounds_history_witness:
  "list_all (\<lambda>(k, ts). k = ''b'' \<or> 10 \<le> last ts) (rr_history (fst (record_request ''b'' 20 10
       \<lparr>rr_history = [(''a'', [5])], rr_last_sweep = 0\<rparr>)))"
  using sweep_bounds_history [of 10 20 "\<lparr>rr_history = [(''a'', [5])], rr_last_sweep = 0\<rparr>" "''b''"]
  unfolding list_all_iff by (simp add: um_ok_def split_def) blast

end
