(* ===== verification/Ip_Block_Tracker.thy ===== *)
theory Ip_Block_Tracker
  imports Net_Utils "HOL-Library.Multiset"
begin

text \<open>
  \<^verbatim>\<open>history/ip_block_tracker.hpp/.cpp\<close>: the temporary bans, exact addresses in a hash map and
  CIDR ranges in a list.  Every operation that reads the clock takes the time as an argument.
  The abstract view of a tracker is the list of its blocks (\<open>all_blocks\<close>); the properties say
  which blocks an operation keeps, and that the gate every request passes through agrees with
  the list the administrator sees.
\<close>

record TemporaryIpBlock =
  tb_text :: string
  tb_is_cidr :: bool
  tb_address :: ip_address
  tb_prefix_len :: nat
  tb_source :: string
  tb_score_at_block :: int
  tb_created_at :: ticks
  tb_expires_at :: ticks

record CidrEntry =
  ce_block :: TemporaryIpBlock
  ce_range :: CidrRange

record IpBlockTracker =
  ib_prune_interval :: ticks
  ib_exact :: "(ip_address, TemporaryIpBlock) umap"
  ib_cidrs :: "CidrEntry list"
  ib_last_prune :: ticks

definition new_ip_block_tracker :: "ticks \<Rightarrow> IpBlockTracker" where
  "new_ip_block_tracker prune_interval =
     \<lparr>ib_prune_interval = prune_interval, ib_exact = [], ib_cidrs = [], ib_last_prune = 0\<rparr>"

definition prune_expired_locked :: "ticks \<Rightarrow> IpBlockTracker \<Rightarrow> IpBlockTracker" where
  "prune_expired_locked now t =
     t\<lparr>ib_exact := um_erase_if (\<lambda>(_, b). tb_expires_at b \<le> now) (ib_exact t),
       ib_cidrs := filter (\<lambda>e. \<not> tb_expires_at (ce_block e) \<le> now) (ib_cidrs t)\<rparr>"

definition range_of :: "TemporaryIpBlock \<Rightarrow> ticks \<Rightarrow> CidrRange" where
  "range_of block now =
     \<lparr>cidr_prefix = tb_address block, cidr_prefix_len = tb_prefix_len block,
      cidr_text = tb_text block, cidr_created_at = now, cidr_source = ''manual''\<rparr>"

definition add_block :: "TemporaryIpBlock \<Rightarrow> ticks \<Rightarrow> IpBlockTracker \<Rightarrow> IpBlockTracker" where
  "add_block block now t =
     (let t1 = (if now - ib_last_prune t \<ge> ib_prune_interval t
                then (prune_expired_locked now t)\<lparr>ib_last_prune := now\<rparr> else t)
      in if \<not> tb_is_cidr block
         then t1\<lparr>ib_exact := um_put (tb_address block) block (ib_exact t1)\<rparr>
         else t1\<lparr>ib_cidrs :=
                filter (\<lambda>e. \<not> tb_text (ce_block e) = tb_text block) (ib_cidrs t1)
                @ [\<lparr>ce_block = block, ce_range = range_of block now\<rparr>]\<rparr>)"

definition is_blocked :: "ip_address \<Rightarrow> ticks \<Rightarrow> IpBlockTracker \<Rightarrow> bool" where
  "is_blocked ip now t =
     (if (case um_find (ib_exact t) ip of None \<Rightarrow> False | Some b \<Rightarrow> tb_expires_at b > now) then True
      else (\<exists>e \<in> set (ib_cidrs t).
              tb_expires_at (ce_block e) > now \<and> address_in_cidr ip (ce_range e)))"

definition newest_first :: "TemporaryIpBlock \<Rightarrow> int \<times> string" where
  "newest_first b = (- tb_created_at b, tb_text b)"

definition list_active :: "ticks \<Rightarrow> IpBlockTracker \<Rightarrow> IpBlockTracker \<times> TemporaryIpBlock list" where
  "list_active now t =
     (let t1 = (prune_expired_locked now t)\<lparr>ib_last_prune := now\<rparr>;
          result = map snd (ib_exact t1) @ map ce_block (ib_cidrs t1)
      in (t1, sort_key newest_first result))"

definition remove_block ::
  "(string \<Rightarrow> ip_address option) \<Rightarrow> string \<Rightarrow> IpBlockTracker \<Rightarrow> IpBlockTracker \<times> bool" where
  "remove_block make_address text t =
     (case make_address text of
        Some address \<Rightarrow>
          (t\<lparr>ib_exact := um_erase address (ib_exact t)\<rparr>, um_find (ib_exact t) address \<noteq> None)
      | None \<Rightarrow>
          (t\<lparr>ib_cidrs := filter (\<lambda>e. \<not> tb_text (ce_block e) = text) (ib_cidrs t)\<rparr>,
           \<exists>e \<in> set (ib_cidrs t). tb_text (ce_block e) = text))"

definition block_count :: "IpBlockTracker \<Rightarrow> nat" where
  "block_count t = length (ib_exact t) + length (ib_cidrs t)"

section \<open>The blocks of a tracker\<close>

definition all_blocks :: "IpBlockTracker \<Rightarrow> TemporaryIpBlock list" where
  "all_blocks t = map snd (ib_exact t) @ map ce_block (ib_cidrs t)"

definition covers :: "TemporaryIpBlock \<Rightarrow> ip_address \<Rightarrow> bool" where
  "covers b ip = (if tb_is_cidr b then address_in_cidr ip (range_of b 0) else tb_address b = ip)"

definition active :: "ticks \<Rightarrow> TemporaryIpBlock \<Rightarrow> bool" where
  "active now b \<longleftrightarrow> now < tb_expires_at b"

text \<open>Two blocks with the same key: a new one replaces the old.\<close>

definition same_key :: "TemporaryIpBlock \<Rightarrow> TemporaryIpBlock \<Rightarrow> bool" where
  "same_key a b \<longleftrightarrow> tb_is_cidr a = tb_is_cidr b \<and>
     (if tb_is_cidr a then tb_text a = tb_text b else tb_address a = tb_address b)"

definition blocks_ok :: "IpBlockTracker \<Rightarrow> bool" where
  "blocks_ok t \<longleftrightarrow> um_ok (ib_exact t)
     \<and> (\<forall>(a, b) \<in> set (ib_exact t). \<not> tb_is_cidr b \<and> tb_address b = a)
     \<and> (\<forall>e \<in> set (ib_cidrs t). tb_is_cidr (ce_block e) \<and> (\<exists>n. ce_range e = range_of (ce_block e) n))
     \<and> distinct (map (tb_text \<circ> ce_block) (ib_cidrs t))"

lemma set_um_put:
  "um_ok m \<Longrightarrow> set (um_put k v m) = insert (k, v) {e \<in> set m. fst e \<noteq> k}"
  by (auto simp: um_find_iff [symmetric] umap split: if_splits)

lemma blocks_ok_new [simp]: "blocks_ok (new_ip_block_tracker n)"
  by (simp add: blocks_ok_def new_ip_block_tracker_def)

lemma prune_ok: "blocks_ok t \<Longrightarrow> blocks_ok (prune_expired_locked now t)"
  by (auto simp: blocks_ok_def prune_expired_locked_def um_set_erase_if distinct_map_filter)

lemma last_prune_ok [simp]: "blocks_ok (t\<lparr>ib_last_prune := n\<rparr>) = blocks_ok t"
  by (simp add: blocks_ok_def)

definition put_exact :: "TemporaryIpBlock \<Rightarrow> IpBlockTracker \<Rightarrow> IpBlockTracker" where
  "put_exact b t = t\<lparr>ib_exact := um_put (tb_address b) b (ib_exact t)\<rparr>"

definition put_cidr :: "TemporaryIpBlock \<Rightarrow> ticks \<Rightarrow> IpBlockTracker \<Rightarrow> IpBlockTracker" where
  "put_cidr b now t = t\<lparr>ib_cidrs :=
     filter (\<lambda>e. \<not> tb_text (ce_block e) = tb_text b) (ib_cidrs t)
     @ [\<lparr>ce_block = b, ce_range = range_of b now\<rparr>]\<rparr>"

lemma put_ok:
  assumes "blocks_ok t"
  shows "\<not> tb_is_cidr b \<Longrightarrow> blocks_ok (put_exact b t)"
    and "tb_is_cidr b \<Longrightarrow> blocks_ok (put_cidr b now t)"
  using assms by (auto simp: blocks_ok_def put_exact_def put_cidr_def set_um_put distinct_map_filter)

lemma add_block_split:
  "add_block b now t =
     (let t1 = (if now - ib_last_prune t \<ge> ib_prune_interval t
                then (prune_expired_locked now t)\<lparr>ib_last_prune := now\<rparr> else t)
      in if tb_is_cidr b then put_cidr b now t1 else put_exact b t1)"
  by (simp add: add_block_def put_exact_def put_cidr_def Let_def)

lemma add_block_ok: "blocks_ok t \<Longrightarrow> blocks_ok (add_block b now t)"
  by (simp add: add_block_split Let_def put_ok prune_ok)

lemma remove_block_ok: "blocks_ok t \<Longrightarrow> blocks_ok (fst (remove_block mk text t))"
  by (auto simp: blocks_ok_def remove_block_def distinct_map_filter um_erase_def AList.delete_eq
      intro: um_ok_erase [unfolded um_erase_def AList.delete_eq] split: option.split)

lemma list_active_ok: "blocks_ok t \<Longrightarrow> blocks_ok (fst (list_active now t))"
  by (simp add: list_active_def Let_def prune_ok)

lemma exact_iff:
  assumes "blocks_ok t" "\<not> tb_is_cidr b"
  shows "b \<in> set (all_blocks t) \<longleftrightarrow> (tb_address b, b) \<in> set (ib_exact t)"
proof
  assume "b \<in> set (all_blocks t)"
  with assms show "(tb_address b, b) \<in> set (ib_exact t)"
    by (auto simp: all_blocks_def blocks_ok_def)
qed (force simp: all_blocks_def)

lemma exact_mem:
  "blocks_ok t \<Longrightarrow> (a, b) \<in> set (ib_exact t) \<longleftrightarrow>
     \<not> tb_is_cidr b \<and> tb_address b = a \<and> b \<in> set (all_blocks t)"
  using exact_iff [of t b] by (auto simp: blocks_ok_def)

lemma cidr_iff:
  assumes "blocks_ok t" "tb_is_cidr b"
  shows "b \<in> set (all_blocks t) \<longleftrightarrow> (\<exists>e \<in> set (ib_cidrs t). ce_block e = b)"
  using assms by (auto simp: all_blocks_def blocks_ok_def)

lemma entry_covers:
  assumes "blocks_ok t" "e \<in> set (ib_cidrs t)"
  shows "tb_is_cidr (ce_block e)" and "address_in_cidr ip (ce_range e) = covers (ce_block e) ip"
proof -
  from assms obtain n where "tb_is_cidr (ce_block e)" "ce_range e = range_of (ce_block e) n"
    by (auto simp: blocks_ok_def)
  then show "tb_is_cidr (ce_block e)" "address_in_cidr ip (ce_range e) = covers (ce_block e) ip"
    by (simp_all add: covers_def address_in_cidr_def range_of_def)
qed

lemma is_blocked_iff:
  assumes ok: "blocks_ok t"
  shows "is_blocked ip now t \<longleftrightarrow> (\<exists>b \<in> set (all_blocks t). covers b ip \<and> active now b)"
proof -
  have um: "um_ok (ib_exact t)" using ok by (simp add: blocks_ok_def)
  have key: "um_find (ib_exact t) ip = Some b \<longleftrightarrow>
      \<not> tb_is_cidr b \<and> b \<in> set (all_blocks t) \<and> covers b ip" for b
    by (auto simp: um_find_iff [OF um] exact_mem [OF ok] covers_def)
  have ex: "(case um_find (ib_exact t) ip of None \<Rightarrow> False | Some b \<Rightarrow> tb_expires_at b > now) \<longleftrightarrow>
      (\<exists>b. um_find (ib_exact t) ip = Some b \<and> active now b)"
    by (simp add: active_def split: option.split)
  have "(tb_expires_at (ce_block e) > now \<and> address_in_cidr ip (ce_range e)) \<longleftrightarrow>
      tb_is_cidr (ce_block e) \<and> covers (ce_block e) ip \<and> active now (ce_block e)"
    if "e \<in> set (ib_cidrs t)" for e
    using entry_covers [OF ok that] by (auto simp: active_def)
  then have "(\<exists>e \<in> set (ib_cidrs t). tb_expires_at (ce_block e) > now
        \<and> address_in_cidr ip (ce_range e)) \<longleftrightarrow>
      (\<exists>e \<in> set (ib_cidrs t). tb_is_cidr (ce_block e) \<and> covers (ce_block e) ip \<and> active now (ce_block e))"
    by (intro bex_cong [OF refl])
  also have "\<dots> \<longleftrightarrow>
      (\<exists>b. tb_is_cidr b \<and> (\<exists>e \<in> set (ib_cidrs t). ce_block e = b) \<and> covers b ip \<and> active now b)"
    by blast
  also have "\<dots> \<longleftrightarrow> (\<exists>b. tb_is_cidr b \<and> b \<in> set (all_blocks t) \<and> covers b ip \<and> active now b)"
    using cidr_iff [OF ok] by (metis (no_types, lifting))
  finally show ?thesis
    unfolding is_blocked_def ex key by (simp only: if_bool_eq_disj) blast
qed

lemma prune_blocks: "all_blocks (prune_expired_locked now t) = filter (active now) (all_blocks t)"
  by (simp add: all_blocks_def prune_expired_locked_def um_erase_if_def active_def filter_map
      comp_def case_prod_beta not_le)

lemma list_active_list:
  "snd (list_active now t) = sort_key newest_first (filter (active now) (all_blocks t))"
proof -
  have "all_blocks ((prune_expired_locked now t)\<lparr>ib_last_prune := now\<rparr>)
      = filter (active now) (all_blocks t)"
    using prune_blocks [of now t] by (simp add: all_blocks_def)
  then show ?thesis by (simp add: list_active_def Let_def all_blocks_def)
qed

lemma insert_blocks:
  assumes ok: "blocks_ok t"
  shows "\<not> tb_is_cidr b \<Longrightarrow>
      set (all_blocks (put_exact b t)) = insert b {b' \<in> set (all_blocks t). \<not> same_key b b'}"
    and "tb_is_cidr b \<Longrightarrow>
      set (all_blocks (put_cidr b now t)) = insert b {b' \<in> set (all_blocks t). \<not> same_key b b'}"
proof -
  have um: "um_ok (ib_exact t)" using ok by (simp add: blocks_ok_def)
  show "set (all_blocks (put_exact b t)) = insert b {b' \<in> set (all_blocks t). \<not> same_key b b'}"
    if b: "\<not> tb_is_cidr b"
  proof (rule set_eqI)
    fix x
    show "x \<in> set (all_blocks (put_exact b t)) \<longleftrightarrow>
        x \<in> insert b {b' \<in> set (all_blocks t). \<not> same_key b b'}"
    proof (cases "tb_is_cidr x")
      case True
      then show ?thesis
        using b cidr_iff [OF ok True] cidr_iff [OF put_ok(1) [OF ok b] True]
        by (auto simp: same_key_def put_exact_def)
    next
      case False
      then show ?thesis
        using b exact_iff [OF ok False] exact_iff [OF put_ok(1) [OF ok b] False]
        by (auto simp: same_key_def put_exact_def set_um_put [OF um])
    qed
  qed
  show "set (all_blocks (put_cidr b now t)) = insert b {b' \<in> set (all_blocks t). \<not> same_key b b'}"
    if b: "tb_is_cidr b"
  proof (rule set_eqI)
    fix x
    show "x \<in> set (all_blocks (put_cidr b now t)) \<longleftrightarrow>
        x \<in> insert b {b' \<in> set (all_blocks t). \<not> same_key b b'}"
    proof (cases "tb_is_cidr x")
      case True
      then show ?thesis
        using b cidr_iff [OF ok True] cidr_iff [OF put_ok(2) [OF ok b] True]
        by (auto simp: same_key_def put_cidr_def)
    next
      case False
      then show ?thesis
        using b exact_iff [OF ok False] exact_iff [OF put_ok(2) [OF ok b] False]
        by (auto simp: same_key_def put_cidr_def)
    qed
  qed
qed

lemma last_prune_blocks [simp]: "all_blocks (t\<lparr>ib_last_prune := n\<rparr>) = all_blocks t"
  by (simp add: all_blocks_def)

lemma add_block_blocks:
  assumes ok: "blocks_ok t" and "now \<le> later"
  shows "{b' \<in> set (all_blocks (add_block b now t)). active later b'} =
     {b' \<in> insert b {b' \<in> set (all_blocks t). \<not> same_key b b'}. active later b'}"
proof -
  define t1 where "t1 = (if now - ib_last_prune t \<ge> ib_prune_interval t
                then (prune_expired_locked now t)\<lparr>ib_last_prune := now\<rparr> else t)"
  have ok1: "blocks_ok t1" using ok by (simp add: t1_def prune_ok)
  have "set (all_blocks (add_block b now t)) = insert b {b' \<in> set (all_blocks t1). \<not> same_key b b'}"
    using insert_blocks [OF ok1]
    by (simp add: add_block_split Let_def t1_def [symmetric])
  moreover have "b' \<in> set (all_blocks t1) \<longleftrightarrow> b' \<in> set (all_blocks t)" if "active later b'" for b'
    using that assms(2) by (auto simp: t1_def prune_blocks active_def)
  ultimately show ?thesis by auto
qed

text \<open>The blocks an unban request names.\<close>

definition unban_hits :: "(string \<Rightarrow> ip_address option) \<Rightarrow> string \<Rightarrow> TemporaryIpBlock \<Rightarrow> bool" where
  "unban_hits mk text b = (case mk text of
        Some a \<Rightarrow> \<not> tb_is_cidr b \<and> tb_address b = a
      | None \<Rightarrow> tb_is_cidr b \<and> tb_text b = text)"

lemma remove_block_blocks:
  assumes "blocks_ok t"
  shows "set (all_blocks (fst (remove_block mk text t))) =
     {b \<in> set (all_blocks t). \<not> unban_hits mk text b}"
proof -
  let ?t' = "fst (remove_block mk text t)"
  have ok': "blocks_ok ?t'" by (rule remove_block_ok [OF assms])
  show ?thesis
  proof (rule set_eqI)
    fix b
    show "b \<in> set (all_blocks ?t') \<longleftrightarrow> b \<in> {b \<in> set (all_blocks t). \<not> unban_hits mk text b}"
    proof (cases "tb_is_cidr b")
      case True
      then show ?thesis
        using cidr_iff [OF assms True] cidr_iff [OF ok' True]
        by (auto simp: remove_block_def unban_hits_def split: option.split)
    next
      case False
      then show ?thesis
        using exact_iff [OF assms False] exact_iff [OF ok' False]
        by (auto simp: remove_block_def unban_hits_def um_erase_def AList.delete_eq
            split: option.split)
    qed
  qed
qed

section \<open>Reachable trackers\<close>

datatype block_op = AddBlock TemporaryIpBlock ticks | ListActive ticks | RemoveBlock string

fun block_step :: "(string \<Rightarrow> ip_address option) \<Rightarrow> block_op \<Rightarrow> IpBlockTracker \<Rightarrow> IpBlockTracker" where
  "block_step mk (AddBlock b now) t = add_block b now t"
| "block_step mk (ListActive now) t = fst (list_active now t)"
| "block_step mk (RemoveBlock text) t = fst (remove_block mk text t)"

definition block_run :: "(string \<Rightarrow> ip_address option) \<Rightarrow> block_op list \<Rightarrow> IpBlockTracker \<Rightarrow> IpBlockTracker" where
  "block_run mk ops t = fold (block_step mk) ops t"

lemma block_step_ok: "blocks_ok t \<Longrightarrow> blocks_ok (block_step mk op t)"
  by (cases op) (simp_all add: add_block_ok list_active_ok remove_block_ok)

lemma block_run_ok: "blocks_ok t \<Longrightarrow> blocks_ok (block_run mk ops t)"
  by (induction ops arbitrary: t) (simp_all add: block_run_def block_step_ok)

text \<open>The tracker after any sequence of operations on a fresh one.\<close>

definition tracker_after :: "(string \<Rightarrow> ip_address option) \<Rightarrow> ticks \<Rightarrow> block_op list \<Rightarrow> IpBlockTracker" where
  "tracker_after mk prune_interval ops = block_run mk ops (new_ip_block_tracker prune_interval)"

lemma reachable_ok: "blocks_ok (tracker_after mk iv ops)"
  unfolding tracker_after_def by (rule block_run_ok [OF blocks_ok_new])

lemma is_blocked_listed:
  assumes "blocks_ok t"
  shows "is_blocked ip now t \<longleftrightarrow> (\<exists>b \<in> set (snd (list_active now t)). covers b ip)"
  using is_blocked_iff [OF assms] by (auto simp: list_active_list)

section \<open>Properties\<close>

text \<open>The gate and the administrator's list agree in every reachable tracker: an address is
  refused exactly when the list of active blocks, taken at the same time, has an entry for it.\<close>

theorem is_blocked_iff_listed:
  "is_blocked ip now (tracker_after mk iv ops) \<longleftrightarrow>
     (\<exists>b \<in> set (snd (list_active now (tracker_after mk iv ops))). covers b ip)"
  by (rule is_blocked_listed [OF reachable_ok])

text \<open>The administrator's list holds exactly the unexpired blocks, each as often as it is
  stored, newest first and by text within one time; expired blocks are gone from the tracker.\<close>

theorem list_active_correct:
  "mset (snd (list_active now t)) = mset (filter (active now) (all_blocks t))
   \<and> sorted_wrt (\<lambda>a b. tb_created_at a > tb_created_at b
        \<or> tb_created_at a = tb_created_at b \<and> tb_text a \<le> tb_text b) (snd (list_active now t))
   \<and> all_blocks (fst (list_active now t)) = filter (active now) (all_blocks t)"
proof -
  have "sorted (map newest_first (snd (list_active now t)))"
    unfolding list_active_list by (rule sorted_sort_key)
  then have "sorted_wrt (\<lambda>a b. tb_created_at a > tb_created_at b
        \<or> tb_created_at a = tb_created_at b \<and> tb_text a \<le> tb_text b) (snd (list_active now t))"
    unfolding sorted_map
    by (rule sorted_wrt_mono_rel [rotated]) (auto simp: newest_first_def)
  then show ?thesis
    unfolding list_active_list by (simp add: list_active_def Let_def prune_blocks)
qed

text \<open>After a ban is added, at any later time, an address is refused exactly when the ban is
  unexpired and covers it or an older unexpired block does that the new one does not replace:
  the pruning done on the way never lifts a ban.\<close>

theorem add_block_gate:
  assumes "now \<le> later"
  shows "is_blocked ip later (add_block b now (tracker_after mk iv ops)) \<longleftrightarrow>
     covers b ip \<and> later < tb_expires_at b
     \<or> (\<exists>b' \<in> set (all_blocks (tracker_after mk iv ops)). \<not> same_key b b' \<and> covers b' ip \<and> later < tb_expires_at b')"
proof -
  let ?t = "tracker_after mk iv ops"
  have ok: "blocks_ok ?t" by (rule reachable_ok)
  have "is_blocked ip later (add_block b now ?t) \<longleftrightarrow>
      (\<exists>b' \<in> {b' \<in> set (all_blocks (add_block b now ?t)). active later b'}. covers b' ip)"
    using is_blocked_iff [OF add_block_ok [OF ok]] by auto
  also have "\<dots> \<longleftrightarrow> (\<exists>b' \<in> {b' \<in> insert b {b' \<in> set (all_blocks ?t). \<not> same_key b b'}. active later b'}.
      covers b' ip)"
    by (simp only: add_block_blocks [OF ok assms])
  finally show ?thesis by (auto simp: active_def)
qed

definition sample_block :: "bytes \<Rightarrow> ticks \<Rightarrow> TemporaryIpBlock" where
  "sample_block a until = \<lparr>tb_text = ''10.0.0.1'', tb_is_cidr = False, tb_address = V4 a,
     tb_prefix_len = 0, tb_source = ''manual'', tb_score_at_block = 0, tb_created_at = 0,
     tb_expires_at = until\<rparr>"

lemma add_block_gate_witness:
  "is_blocked (V4 [10, 0, 0, 1]) 40 (add_block (sample_block [10, 0, 0, 1] 50) 5
     (tracker_after (\<lambda>_. None) 60 []))"
  by (subst add_block_gate) (simp_all add: covers_def sample_block_def)

text \<open>Unbanning removes every block with the given address, in any spelling, or the CIDR block
  with the given text, reports whether there was one, and leaves all others in force.\<close>

theorem remove_block_gate:
  "(snd (remove_block mk text (tracker_after mk' iv ops)) \<longleftrightarrow>
      (\<exists>b \<in> set (all_blocks (tracker_after mk' iv ops)). unban_hits mk text b))
   \<and> (is_blocked ip now (fst (remove_block mk text (tracker_after mk' iv ops))) \<longleftrightarrow>
      (\<exists>b \<in> set (all_blocks (tracker_after mk' iv ops)).
         \<not> unban_hits mk text b \<and> covers b ip \<and> now < tb_expires_at b))"
proof
  let ?t = "tracker_after mk' iv ops"
  have ok: "blocks_ok ?t" by (rule reachable_ok)
  then have um: "um_ok (ib_exact ?t)" by (simp add: blocks_ok_def)
  show "snd (remove_block mk text ?t) \<longleftrightarrow> (\<exists>b \<in> set (all_blocks ?t). unban_hits mk text b)"
  proof (cases "mk text")
    case None
    have "tb_is_cidr (ce_block e) \<and> ce_block e \<in> set (all_blocks ?t)"
      if "e \<in> set (ib_cidrs ?t)" for e
      using entry_covers(1) [OF ok that] that by (auto simp: all_blocks_def)
    with None show ?thesis
      using cidr_iff [OF ok] by (auto simp: remove_block_def unban_hits_def)
  next
    case (Some a)
    have "um_find (ib_exact ?t) a \<noteq> None \<longleftrightarrow> (\<exists>b. (a, b) \<in> set (ib_exact ?t))"
      by (simp add: um_find_iff [OF um])
    also have "\<dots> \<longleftrightarrow> (\<exists>b. \<not> tb_is_cidr b \<and> tb_address b = a \<and> b \<in> set (all_blocks ?t))"
      by (simp add: exact_mem [OF ok])
    finally show ?thesis using Some by (auto simp: remove_block_def unban_hits_def)
  qed
  show "is_blocked ip now (fst (remove_block mk text ?t)) \<longleftrightarrow>
      (\<exists>b \<in> set (all_blocks ?t). \<not> unban_hits mk text b \<and> covers b ip \<and> now < tb_expires_at b)"
    using remove_block_blocks [OF ok, of mk "text"]
    by (auto simp: is_blocked_iff [OF remove_block_ok [OF ok]] active_def)
qed

end
