(* ===== verification/Checks.thy ===== *)
theory Checks
  imports Net_Utils Request_Rate_Tracker
begin

text \<open>
  \<^verbatim>\<open>pipeline/checks.hpp/.cpp\<close>: the request checks and their cheap-first, short-circuiting
  evaluation.  \<open>boost::asio\<close>'s \<open>address::to_string\<close> is a parameter; a Beast request header is
  the method and target of the request line and the lookup of a field by name.
\<close>

datatype Verdict = Allow | Block

record CheckResult =
  verdict :: Verdict
  check_name :: string
  reason :: string

definition allow :: CheckResult where
  "allow = \<lparr>verdict = Allow, check_name = [], reason = []\<rparr>"

definition block_with :: "string \<Rightarrow> string \<Rightarrow> CheckResult" where
  "block_with name why = \<lparr>verdict = Block, check_name = name, reason = why\<rparr>"

definition blocked :: "CheckResult \<Rightarrow> bool" where
  "blocked r \<longleftrightarrow> verdict r = Block"

lemma blocked_simps [simp]: "\<not> blocked allow" "blocked (block_with n w)"
  "check_name (block_with n w) = n" "check_name allow = []"
  by (simp_all add: blocked_def allow_def block_with_def)

record request_header =
  hd_version :: nat
  hd_method_string :: string
  hd_target :: string
  hd_find :: "string \<Rightarrow> string option"

section \<open>The checks\<close>

text \<open>The loops over a configured list stop at the first matching entry.\<close>

fun first_match :: "('a \<Rightarrow> bool) \<Rightarrow> ('a \<Rightarrow> CheckResult) \<Rightarrow> 'a list \<Rightarrow> CheckResult \<Rightarrow> CheckResult" where
  "first_match p f [] rest = rest"
| "first_match p f (x # xs) rest = (if p x then f x else first_match p f xs rest)"

lemma first_match_blocked:
  assumes "\<And>x. blocked (f x)"
  shows "blocked (first_match p f xs rest) \<longleftrightarrow> (\<exists>x \<in> set xs. p x) \<or> blocked rest"
  using assms by (induction xs) auto

lemma first_match_name:
  assumes "\<And>x. check_name (f x) = n" and "blocked rest \<Longrightarrow> check_name rest = n"
  shows "blocked (first_match p f xs rest) \<Longrightarrow> check_name (first_match p f xs rest) = n"
  using assms by (induction xs) (auto split: if_splits)

definition is_ip_whitelisted ::
  "(ip_address \<Rightarrow> string) \<Rightarrow> WhitelistConfig \<Rightarrow> ip_address \<Rightarrow> bool" where
  "is_ip_whitelisted to_string config client_ip =
     (let ip_text = to_string client_ip in
      if \<exists>exact \<in> set (wl_ip_exact config). entry_value exact = ip_text then True
      else if \<exists>rng \<in> set (wl_ip_cidrs config). address_in_cidr client_ip rng then True
      else False)"

definition is_route_whitelisted :: "WhitelistConfig \<Rightarrow> string \<Rightarrow> bool" where
  "is_route_whitelisted config path =
     (\<exists>pattern \<in> set (wl_routes config). icontains path (entry_value pattern))"

definition check_ip_blacklist ::
  "(ip_address \<Rightarrow> string) \<Rightarrow> BlacklistConfig \<Rightarrow> ip_address \<Rightarrow> CheckResult" where
  "check_ip_blacklist to_string config client_ip =
     (let ip_text = to_string client_ip in
      first_match (\<lambda>exact. entry_value exact = ip_text)
        (\<lambda>exact. block_with ''ip_blacklist'' (''exact match: '' @ entry_value exact))
        (bl_ip_exact config)
        (first_match (\<lambda>rng. address_in_cidr client_ip rng)
          (\<lambda>rng. block_with ''ip_blacklist'' (''cidr match: '' @ cidr_text rng))
          (bl_ip_cidrs config) allow))"

text \<open>The common shape of the pattern checks: a case-insensitive substring of a text.\<close>

definition pattern_check :: "string \<Rightarrow> BlacklistEntry list \<Rightarrow> string \<Rightarrow> CheckResult" where
  "pattern_check name patterns subject =
     first_match (\<lambda>pattern. icontains subject (entry_value pattern))
       (\<lambda>pattern. block_with name (''pattern match: '' @ entry_value pattern)) patterns allow"

definition check_route_blacklist :: "BlacklistConfig \<Rightarrow> string \<Rightarrow> CheckResult" where
  "check_route_blacklist config path = pattern_check ''route_blacklist'' (bl_routes config) path"

definition check_fake_routes :: "BlacklistConfig \<Rightarrow> string \<Rightarrow> CheckResult" where
  "check_fake_routes config path =
     first_match (\<lambda>route. istarts_with path (entry_value route))
       (\<lambda>route. block_with ''fake_route'' (''honeypot path: '' @ entry_value route))
       (bl_fake_routes config) allow"

definition check_country_blacklist :: "BlacklistConfig \<Rightarrow> ip_address \<Rightarrow> CheckResult" where
  "check_country_blacklist config client_ip = allow"

definition check_isp_blacklist :: "BlacklistConfig \<Rightarrow> string \<Rightarrow> CheckResult" where
  "check_isp_blacklist config isp =
     (if isp = [] then allow else pattern_check ''isp_blacklist'' (bl_isps config) isp)"

definition check_user_agent_blacklist :: "BlacklistConfig \<Rightarrow> request_header \<Rightarrow> CheckResult" where
  "check_user_agent_blacklist config header =
     (case hd_find header ''User-Agent'' of
        None \<Rightarrow> allow
      | Some user_agent \<Rightarrow> pattern_check ''user_agent_blacklist'' (bl_user_agents config) user_agent)"

definition check_referrer_blacklist :: "BlacklistConfig \<Rightarrow> request_header \<Rightarrow> CheckResult" where
  "check_referrer_blacklist config header =
     (case hd_find header ''Referer'' of
        None \<Rightarrow> allow
      | Some referrer \<Rightarrow> pattern_check ''referrer_blacklist'' (bl_referrers config) referrer)"

fun allowed_list :: "string list \<Rightarrow> string \<Rightarrow> string" where
  "allowed_list [] acc = acc"
| "allowed_list (m # ms) acc = allowed_list ms (acc @ (if acc = [] then '''' else '', '') @ m)"

definition check_method_allowlist :: "MethodCheckConfig \<Rightarrow> string \<Rightarrow> CheckResult" where
  "check_method_allowlist config method =
     (if \<not> mc_enabled config then allow
      else if \<exists>allowed \<in> set (mc_allowed_methods config). iequals method allowed then allow
      else block_with ''method_not_allowed''
             (''method not in allowlist ['' @ allowed_list (mc_allowed_methods config) [] @ '']''))"

definition kExtensions :: "string list" where
  "kExtensions =
     [''.js'', ''.mjs'', ''.css'', ''.map'', ''.png'', ''.jpg'', ''.jpeg'', ''.gif'',
      ''.svg'', ''.ico'', ''.webp'', ''.avif'', ''.woff'', ''.woff2'', ''.ttf'', ''.otf'',
      ''.eot'', ''.mp4'', ''.webm'', ''.mp3'', ''.wav'', ''.json'']"

definition has_static_asset_extension :: "string \<Rightarrow> bool" where
  "has_static_asset_extension path =
     (case rfind_char (CHR ''.'') path of
        None \<Rightarrow> False
      | Some dot \<Rightarrow> \<exists>candidate \<in> set kExtensions. iequals (drop dot path) candidate)"

definition is_navigation_request :: "request_header \<Rightarrow> string \<Rightarrow> bool" where
  "is_navigation_request header path =
     (case hd_find header ''Sec-Fetch-Dest'' of
        Some dest \<Rightarrow> iequals dest ''document''
      | None \<Rightarrow> \<not> has_static_asset_extension path)"

text \<open>\<open>static_cast<int>(count)\<close> wraps at 32 bits.\<close>

definition size_to_int :: "nat \<Rightarrow> int" where
  "size_to_int n = (int n + 2 ^ 31) mod 2 ^ 32 - 2 ^ 31"

definition check_request_rate ::
  "(ip_address \<Rightarrow> string) \<Rightarrow> SpeedCheckConfig \<Rightarrow> RequestRateTracker \<Rightarrow> ip_address \<Rightarrow> string
     \<Rightarrow> request_header \<Rightarrow> ticks \<Rightarrow> RequestRateTracker \<times> CheckResult" where
  "check_request_rate to_string config tracker client_ip path header now =
     (if \<not> sc_enabled config then (tracker, allow)
      else if \<not> is_navigation_request header path then (tracker, allow)
      else
        (let (tracker', count) =
               record_request (to_string client_ip) now (seconds (sc_window_seconds config)) tracker
         in if size_to_int count > sc_max_requests config
            then (tracker', block_with ''speed_check''
                    (show_nat count @ '' requests in '' @ show_int (sc_window_seconds config)
                     @ ''s exceeds limit '' @ show_int (sc_max_requests config)))
            else (tracker', allow)))"

definition check_body_size :: "BlacklistConfig \<Rightarrow> nat \<Rightarrow> CheckResult" where
  "check_body_size config body_size =
     (if bl_max_body_size_bytes config > 0 \<and> body_size > bl_max_body_size_bytes config
      then block_with ''body_size_limit''
             (''body size '' @ show_nat body_size @ '' exceeds limit ''
              @ show_nat (bl_max_body_size_bytes config))
      else allow)"

definition check_body_blacklist :: "BlacklistConfig \<Rightarrow> string \<Rightarrow> CheckResult" where
  "check_body_blacklist config body = pattern_check ''body_blacklist'' (bl_body_patterns config) body"

text \<open>\<open>if (auto result = check(); result.blocked()) return result;\<close> in sequence.\<close>

fun first_blocked :: "CheckResult list \<Rightarrow> CheckResult" where
  "first_blocked [] = allow"
| "first_blocked (r # rs) = (if blocked r then r else first_blocked rs)"

definition evaluate_header_checks ::
  "(ip_address \<Rightarrow> string) \<Rightarrow> BlacklistConfig \<Rightarrow> ip_address \<Rightarrow> string \<Rightarrow> request_header \<Rightarrow> string
     \<Rightarrow> CheckResult" where
  "evaluate_header_checks to_string config client_ip path header isp =
     first_blocked
       [check_ip_blacklist to_string config client_ip,
        check_route_blacklist config path,
        check_fake_routes config path,
        check_country_blacklist config client_ip,
        check_isp_blacklist config isp,
        check_user_agent_blacklist config header,
        check_referrer_blacklist config header]"

definition evaluate_body_checks :: "BlacklistConfig \<Rightarrow> string \<Rightarrow> CheckResult" where
  "evaluate_body_checks config body =
     first_blocked [check_body_size config (length body), check_body_blacklist config body]"

section \<open>What each check decides\<close>

lemma pattern_check_blocked:
  "blocked (pattern_check name ps s) \<longleftrightarrow> (\<exists>p \<in> set ps. icontains s (entry_value p))"
  by (simp add: pattern_check_def first_match_blocked)

lemma pattern_check_name:
  "blocked (pattern_check name ps s) \<Longrightarrow> check_name (pattern_check name ps s) = name"
  unfolding pattern_check_def by (rule first_match_name) simp_all

lemma check_ip_blacklist_blocked:
  "blocked (check_ip_blacklist ts config ip) \<longleftrightarrow>
     (\<exists>e \<in> set (bl_ip_exact config). entry_value e = ts ip)
     \<or> (\<exists>r \<in> set (bl_ip_cidrs config). address_in_cidr ip r)"
  by (simp add: check_ip_blacklist_def Let_def first_match_blocked)

lemma check_ip_blacklist_name:
  "blocked (check_ip_blacklist ts config ip) \<Longrightarrow> check_name (check_ip_blacklist ts config ip) = ''ip_blacklist''"
  unfolding check_ip_blacklist_def Let_def
  by (erule first_match_name [rotated 2]) (simp, rule first_match_name, simp_all)

lemma check_fake_routes_blocked:
  "blocked (check_fake_routes config path) \<longleftrightarrow>
     (\<exists>r \<in> set (bl_fake_routes config). istarts_with path (entry_value r))"
  by (simp add: check_fake_routes_def first_match_blocked)

lemma check_fake_routes_name:
  "blocked (check_fake_routes config path) \<Longrightarrow> check_name (check_fake_routes config path) = ''fake_route''"
  unfolding check_fake_routes_def by (rule first_match_name) simp_all

lemma first_blocked_iff: "blocked (first_blocked rs) \<longleftrightarrow> (\<exists>r \<in> set rs. blocked r)"
  by (induction rs) auto

lemma first_blocked_mem: "blocked (first_blocked rs) \<Longrightarrow> first_blocked rs \<in> set rs"
  by (induction rs) (auto split: if_splits)

lemmas check_defs =
  check_route_blacklist_def check_isp_blacklist_def check_user_agent_blacklist_def
  check_referrer_blacklist_def check_body_blacklist_def check_country_blacklist_def

lemmas check_blocked = pattern_check_blocked check_ip_blacklist_blocked check_fake_routes_blocked

section \<open>Properties\<close>

text \<open>The header phase refuses a request exactly when some configured entry matches it: the
  client's address text or a range containing it, a route pattern in the path, a honeypot prefix
  of the path, an ISP pattern in a resolved organisation, or a pattern in a present User-Agent or
  Referer field; an unresolved ISP, an absent field and the inert country list never refuse.\<close>

theorem evaluate_header_checks_blocked:
  "blocked (evaluate_header_checks to_string config ip path header isp) \<longleftrightarrow>
     (\<exists>e \<in> set (bl_ip_exact config). entry_value e = to_string ip)
     \<or> (\<exists>r \<in> set (bl_ip_cidrs config). address_in_cidr ip r)
     \<or> (\<exists>e \<in> set (bl_routes config). sublist (to_lower (entry_value e)) (to_lower path))
     \<or> (\<exists>e \<in> set (bl_fake_routes config). prefix (to_lower (entry_value e)) (to_lower path))
     \<or> (isp \<noteq> [] \<and> (\<exists>e \<in> set (bl_isps config). sublist (to_lower (entry_value e)) (to_lower isp)))
     \<or> (\<exists>ua. hd_find header ''User-Agent'' = Some ua
          \<and> (\<exists>e \<in> set (bl_user_agents config). sublist (to_lower (entry_value e)) (to_lower ua)))
     \<or> (\<exists>ref. hd_find header ''Referer'' = Some ref
          \<and> (\<exists>e \<in> set (bl_referrers config). sublist (to_lower (entry_value e)) (to_lower ref)))"
  unfolding evaluate_header_checks_def first_blocked_iff
  by (simp add: check_defs check_blocked icontains_iff istarts_with_iff split: option.split)

text \<open>The order of the checks is the order of blame: the name reported (and scored) is that
  of the first check in the documented order that refuses, so an address on the blacklist is never
  scored for its path, nor a path for its user agent.\<close>

theorem evaluate_header_checks_first:
  "check_name (evaluate_header_checks to_string config ip path header isp) =
     (if blocked (check_ip_blacklist to_string config ip) then ''ip_blacklist''
      else if blocked (check_route_blacklist config path) then ''route_blacklist''
      else if blocked (check_fake_routes config path) then ''fake_route''
      else if blocked (check_isp_blacklist config isp) then ''isp_blacklist''
      else if blocked (check_user_agent_blacklist config header) then ''user_agent_blacklist''
      else if blocked (check_referrer_blacklist config header) then ''referrer_blacklist''
      else [])"
  by (auto simp: evaluate_header_checks_def check_ip_blacklist_name check_fake_routes_name
      check_defs pattern_check_name split: option.split if_splits)

text \<open>The body phase: with the soft limit set, a body over it is refused by size whatever it
  contains; any other body is refused exactly when a body pattern occurs in it.\<close>

theorem evaluate_body_checks_correct:
  "(blocked (evaluate_body_checks config body) \<longleftrightarrow>
      (0 < bl_max_body_size_bytes config \<and> bl_max_body_size_bytes config < length body)
      \<or> (\<exists>e \<in> set (bl_body_patterns config). sublist (to_lower (entry_value e)) (to_lower body)))
   \<and> check_name (evaluate_body_checks config body) =
      (if 0 < bl_max_body_size_bytes config \<and> bl_max_body_size_bytes config < length body
       then ''body_size_limit''
       else if blocked (check_body_blacklist config body) then ''body_blacklist'' else [])"
  by (auto simp: evaluate_body_checks_def check_body_size_def check_body_blacklist_def
      pattern_check_blocked pattern_check_name icontains_iff)

text \<open>The method check refuses exactly the methods equal to no allowed one up to case, and only
  when enabled; enabled with an empty list it refuses every method.\<close>

theorem check_method_allowlist_blocked:
  "blocked (check_method_allowlist config method) \<longleftrightarrow>
     mc_enabled config \<and> to_lower method \<notin> to_lower ` set (mc_allowed_methods config)"
  by (auto simp: check_method_allowlist_def iequals_iff)

text \<open>The speed check counts navigations only: a subresource load leaves the tracker as it was
  and is never refused; a navigation is recorded and, with requests in time order and counts in
  the range of \<open>int\<close>, refused exactly when more than the configured number of the client's
  navigations, this one included, lie in the window.\<close>

theorem check_request_rate_correct:
  assumes "sorted (map snd (tr @ [(to_string ip, now)]))" and "0 \<le> sc_window_seconds config"
    and "length tr < 2 ^ 31 - 1" and "sc_enabled config"
  shows "let t = rate_run (seconds (sc_window_seconds config)) tr new_rate_tracker;
             r = check_request_rate to_string config t ip path header now
         in if is_navigation_request header path
            then blocked (snd r) =
              (sc_max_requests config < int (window_count (tr @ [(to_string ip, now)]) (to_string ip)
                 (now - seconds (sc_window_seconds config))))
            else r = (t, allow)"
proof (cases "is_navigation_request header path")
  case True
  let ?w = "seconds (sc_window_seconds config)"
  let ?r = "record_request (to_string ip) now ?w (rate_run ?w tr new_rate_tracker)"
  have "0 \<le> ?w" using assms(2) by (simp add: seconds_def)
  with assms(1) have n: "snd ?r = window_count (tr @ [(to_string ip, now)]) (to_string ip) (now - ?w)"
    by (rule record_request_counts)
  have "window_count (tr @ [(to_string ip, now)]) (to_string ip) (now - ?w) \<le> length (tr @ [(to_string ip, now)])"
    unfolding window_count_def by (rule length_filter_le)
  then have "snd ?r < 2 ^ 31" using assms(3) unfolding n by simp
  then have "size_to_int (snd ?r) = int (snd ?r)" by (simp add: size_to_int_def)
  with True assms(4) n show ?thesis
    by (simp add: check_request_rate_def Let_def split_def)
qed (simp add: check_request_rate_def)

lemma check_request_rate_correct_witness:
  "blocked (snd (check_request_rate (\<lambda>_. ''a'')
      \<lparr>sc_enabled = True, sc_max_requests = 1, sc_window_seconds = 10\<rparr>
      (rate_run (seconds 10) [(''a'', 3)] new_rate_tracker) (V4 [10, 0, 0, 1]) ''/''
      \<lparr>hd_version = 11, hd_method_string = ''GET'', hd_target = ''/'', hd_find = (\<lambda>_. None)\<rparr> 7))"
  using check_request_rate_correct [of "[(''a'', 3)]" "\<lambda>_. ''a''" "V4 [10, 0, 0, 1]" 7
      "\<lparr>sc_enabled = True, sc_max_requests = 1, sc_window_seconds = 10\<rparr>"
      "''/''" "\<lparr>hd_version = 11, hd_method_string = ''GET'', hd_target = ''/'', hd_find = (\<lambda>_. None)\<rparr>"]
  by (simp add: is_navigation_request_def has_static_asset_extension_def rfind_char_def
      find_char_def window_count_def seconds_def)

end
