(* ===== verification/Event_Logs.thy ===== *)
theory Event_Logs
  imports Runtime_Config
begin

text \<open>
  The in-memory ring buffers \<^verbatim>\<open>history/globe_event_log.*\<close> and \<^verbatim>\<open>history/login_history.*\<close>, and
  the event stream \<^verbatim>\<open>history/sse_stream.hpp\<close> that polls one of them.  The template parameter
  \<open>Log\<close> of \<open>run_sse_session\<close> is the locale \<open>sequenced_log\<close>: what the stream calls, and what it
  relies on.  The request log (theory \<open>Request_Log\<close>) is its other provider.
  Sequence numbers are 64-bit words.
\<close>

section \<open>Ring buffers\<close>

text \<open>\<open>while (buffer_.size() > capacity_) buffer_.pop_front();\<close>\<close>

fun trim_front :: "nat \<Rightarrow> 'a list \<Rightarrow> 'a list" where
  "trim_front capacity [] = []"
| "trim_front capacity (x # xs) =
     (if length (x # xs) > capacity then trim_front capacity xs else x # xs)"

definition recent_of :: "nat \<Rightarrow> 'a list \<Rightarrow> 'a list" where
  "recent_of limit buffer = (let count = min limit (length buffer) in drop (length buffer - count) buffer)"

fun collect_since :: "('a \<Rightarrow> u64) \<Rightarrow> u64 \<Rightarrow> nat \<Rightarrow> 'a list \<Rightarrow> 'a list \<Rightarrow> 'a list" where
  "collect_since seq since_seq limit [] result = result"
| "collect_since seq since_seq limit (event # events) result =
     (if seq event > since_seq
      then (let result' = result @ [event] in
            if length result' \<ge> limit then result'
            else collect_since seq since_seq limit events result')
      else collect_since seq since_seq limit events result)"

lemma trim_front_drop: "trim_front c xs = drop (length xs - c) xs"
  by (induction c xs rule: trim_front.induct) (auto simp: Suc_diff_le)

lemma collect_since_aux:
  "length acc < max 1 limit \<Longrightarrow>
     collect_since seq s limit es acc = acc @ take (max 1 limit - length acc) (filter (\<lambda>e. s < seq e) es)"
proof (induction seq s limit es acc rule: collect_since.induct)
  case (2 seq s limit e es acc)
  show ?case
  proof (cases "s < seq e")
    case True
    have "max 1 limit - length acc = Suc (max 1 limit - Suc (length acc))" using "2.prems" by simp
    with True 2 show ?thesis by (cases "limit \<le> Suc (length acc)") (auto simp: max_def split: if_splits)
  qed (use 2 in simp)
qed simp

lemma collect_since_eq:
  fixes seq :: "'a \<Rightarrow> u64"
  shows "collect_since seq s limit es [] = take (max 1 limit) (filter (\<lambda>e. s < seq e) es)"
proof -
  have "length ([] :: 'a list) < max 1 limit" by (simp add: less_max_iff_disj)
  from collect_since_aux [OF this, of seq s es] show ?thesis by simp
qed

lemma recent_of_bound: "length (recent_of limit b) = min limit (length b) \<and> suffix (recent_of limit b) b"
  by (simp add: recent_of_def suffix_drop)

section \<open>\<open>GlobeEventLog\<close>, \<open>ServerLocationCache\<close>, \<open>LoginHistory\<close>\<close>

record GlobeArcEvent =
  arc_seq :: u64
  arc_timestamp :: ticks
  arc_lat :: double
  arc_lon :: double
  arc_blocked :: bool

record GlobeEventLog =
  gl_buffer :: "GlobeArcEvent list"
  gl_capacity :: nat
  gl_next_seq :: u64

definition new_globe_event_log :: "nat \<Rightarrow> GlobeEventLog" where
  "new_globe_event_log capacity = \<lparr>gl_buffer = [], gl_capacity = capacity, gl_next_seq = 1\<rparr>"

definition globe_record :: "GlobeArcEvent \<Rightarrow> GlobeEventLog \<Rightarrow> GlobeEventLog" where
  "globe_record event l =
     l\<lparr>gl_next_seq := gl_next_seq l + 1,
       gl_buffer := trim_front (gl_capacity l) (gl_buffer l @ [event\<lparr>arc_seq := gl_next_seq l\<rparr>])\<rparr>"

definition globe_recent :: "nat \<Rightarrow> GlobeEventLog \<Rightarrow> GlobeArcEvent list" where
  "globe_recent limit l = recent_of limit (gl_buffer l)"

definition globe_events_since :: "GlobeEventLog \<Rightarrow> u64 \<Rightarrow> nat \<Rightarrow> GlobeArcEvent list" where
  "globe_events_since l since_seq limit = collect_since arc_seq since_seq limit (gl_buffer l) []"

definition globe_latest_seq :: "GlobeEventLog \<Rightarrow> u64" where
  "globe_latest_seq l = gl_next_seq l - 1"

record GeoLocation =
  geo_lat :: double
  geo_lon :: double
  geo_country :: string

type_synonym ServerLocationCache = "GeoLocation option"

definition location_set :: "GeoLocation \<Rightarrow> ServerLocationCache \<Rightarrow> ServerLocationCache" where
  "location_set location c = Some location"

definition location_get :: "ServerLocationCache \<Rightarrow> GeoLocation option" where
  "location_get c = c"

record LoginEvent =
  le_seq :: u64
  le_timestamp :: ticks
  le_username :: string
  le_client_ip :: string

record LoginHistory =
  lh_buffer :: "LoginEvent list"
  lh_capacity :: nat
  lh_next_seq :: u64

definition login_record :: "LoginEvent \<Rightarrow> LoginHistory \<Rightarrow> LoginHistory" where
  "login_record event h =
     h\<lparr>lh_next_seq := lh_next_seq h + 1,
       lh_buffer := trim_front (lh_capacity h) (lh_buffer h @ [event\<lparr>le_seq := lh_next_seq h\<rparr>])\<rparr>"

definition login_recent :: "nat \<Rightarrow> LoginHistory \<Rightarrow> LoginEvent list" where
  "login_recent limit h = recent_of limit (lh_buffer h)"

section \<open>The event stream\<close>

text \<open>Between the polls of a stream other threads record events.  The frames are what is written
  to the client: the header block once, then per poll a ping or one data frame per event.\<close>

datatype 'e sse_step = Record 'e | Poll

datatype 'e sse_frame = Header string | Ping | Data 'e

definition sse_limit :: nat where
  "sse_limit = 500"

definition sse_header :: "string \<Rightarrow> string" where
  "sse_header extra_headers =
     ''HTTP/1.1 200 OK'' @ [CHR 0x0D, CHR 0x0A] @
     ''Content-Type: text/event-stream'' @ [CHR 0x0D, CHR 0x0A] @
     ''Cache-Control: no-cache'' @ [CHR 0x0D, CHR 0x0A] @
     ''Connection: keep-alive'' @ [CHR 0x0D, CHR 0x0A] @ extra_headers @ [CHR 0x0D, CHR 0x0A]"

fun sse_loop ::
  "('e \<Rightarrow> 'l \<Rightarrow> 'l) \<Rightarrow> ('l \<Rightarrow> u64 \<Rightarrow> nat \<Rightarrow> 'e list) \<Rightarrow> ('e \<Rightarrow> u64)
     \<Rightarrow> 'e sse_step list \<Rightarrow> 'l \<Rightarrow> u64 \<Rightarrow> 'e sse_frame list" where
  "sse_loop push since seq [] l last_seq = []"
| "sse_loop push since seq (Record e # steps) l last_seq =
     sse_loop push since seq steps (push e l) last_seq"
| "sse_loop push since seq (Poll # steps) l last_seq =
     (let events = since l last_seq sse_limit in
      if events = [] then Ping # sse_loop push since seq steps l last_seq
      else map Data events @ sse_loop push since seq steps l (seq (last events)))"

definition run_sse_session ::
  "('e \<Rightarrow> 'l \<Rightarrow> 'l) \<Rightarrow> ('l \<Rightarrow> u64 \<Rightarrow> nat \<Rightarrow> 'e list) \<Rightarrow> ('l \<Rightarrow> u64) \<Rightarrow> ('e \<Rightarrow> u64)
     \<Rightarrow> string \<Rightarrow> 'e sse_step list \<Rightarrow> 'l \<Rightarrow> 'e sse_frame list" where
  "run_sse_session push since latest seq extra_headers steps l =
     Header (sse_header extra_headers) # sse_loop push since seq steps l (latest l)"

fun data_of :: "'e sse_frame list \<Rightarrow> 'e list" where
  "data_of [] = []"
| "data_of (Data e # fs) = e # data_of fs"
| "data_of (_ # fs) = data_of fs"

fun records_of :: "'e sse_step list \<Rightarrow> 'e list" where
  "records_of [] = []"
| "records_of (Record e # ss) = e # records_of ss"
| "records_of (Poll # ss) = records_of ss"

text \<open>The undelivered events after the steps, starting from \<open>b\<close>; and the condition that they
  never outgrow a buffer of the given capacity.\<close>

fun backlog :: "nat \<Rightarrow> 'e sse_step list \<Rightarrow> nat" where
  "backlog b [] = b"
| "backlog b (Record e # ss) = backlog (Suc b) ss"
| "backlog b (Poll # ss) = backlog (b - sse_limit) ss"

fun paced :: "nat \<Rightarrow> nat \<Rightarrow> 'e sse_step list \<Rightarrow> bool" where
  "paced capacity b [] = True"
| "paced capacity b (Record e # ss) = (b < capacity \<and> paced capacity (Suc b) ss)"
| "paced capacity b (Poll # ss) = paced capacity (b - sse_limit) ss"

text \<open>The events as the log stores them: stamped with consecutive numbers.\<close>

fun stamped :: "('e \<Rightarrow> u64 \<Rightarrow> 'e) \<Rightarrow> u64 \<Rightarrow> 'e list \<Rightarrow> 'e list" where
  "stamped stamp s [] = []"
| "stamped stamp s (e # es) = stamp e (s + 1) # stamped stamp (s + 1) es"

lemma data_of_append [simp]: "data_of (xs @ ys) = data_of xs @ data_of ys"
  by (induction xs rule: data_of.induct) simp_all

lemma data_of_map [simp]: "data_of (map Data es) = es"
  by (induction es) simp_all

lemma length_stamped [simp]: "length (stamped stamp s es) = length es"
  by (induction es arbitrary: s) simp_all

lemma backlog_le: "backlog b ss \<le> b + length (records_of ss)"
proof (induction b ss rule: backlog.induct)
  case (3 b ss)
  then show ?case by simp
qed simp_all

lemma take_split_join:
  assumes "b \<le> length (drop k P) + n"
  shows "take k P @ take (length (drop k P) + n - b) (drop k P @ R) = take (length P + n - b) (P @ R)"
proof -
  have "P @ R = take k P @ (drop k P @ R)" by simp
  moreover have "length P + n - b = length (take k P) + (length (drop k P) + n - b)"
    using assms by simp
  ultimately show ?thesis by (metis append_take_drop_id length_append length_take min.commute take_add
        append_eq_conv_conj drop_append take_append)
qed

locale sequenced_log =
  fixes push :: "'e \<Rightarrow> 'l \<Rightarrow> 'l"
    and since :: "'l \<Rightarrow> u64 \<Rightarrow> nat \<Rightarrow> 'e list"
    and latest :: "'l \<Rightarrow> u64"
    and seq :: "'e \<Rightarrow> u64"
    and stamp :: "'e \<Rightarrow> u64 \<Rightarrow> 'e"
    and contents :: "'l \<Rightarrow> 'e list"
    and capacity :: "'l \<Rightarrow> nat"
    and ok :: "'l \<Rightarrow> bool"
  assumes ok_push: "ok l \<Longrightarrow> unat (latest l) + 2 < 2 ^ 64 \<Longrightarrow> ok (push e l)"
    and latest_push: "ok l \<Longrightarrow> unat (latest l) + 2 < 2 ^ 64 \<Longrightarrow> latest (push e l) = latest l + 1"
    and contents_push: "contents (push e l) =
        drop (Suc (length (contents l)) - capacity l) (contents l @ [stamp e (latest l + 1)])"
    and capacity_push: "capacity (push e l) = capacity l"
    and seq_stamp: "seq (stamp e s) = s"
    and since_eq: "since l s n = take (max 1 n) (filter (\<lambda>e. s < seq e) (contents l))"
    and contents_old: "ok l \<Longrightarrow> e \<in> set (contents l) \<Longrightarrow> seq e \<le> latest l"
begin

text \<open>\<open>pending l s P\<close>: \<open>P\<close> is what a client that has seen everything up to \<open>s\<close> still misses,
  and the buffer still holds all of it.\<close>

definition pending :: "'l \<Rightarrow> u64 \<Rightarrow> 'e list \<Rightarrow> bool" where
  "pending l s P \<longleftrightarrow> (\<exists>C. contents l = C @ P \<and> (\<forall>e \<in> set C. seq e \<le> s)
     \<and> sorted_wrt (\<lambda>a b. seq a < seq b) P \<and> (\<forall>e \<in> set P. s < seq e \<and> seq e \<le> latest l))"

lemma pending_start: "ok l \<Longrightarrow> pending l (latest l) []"
  using contents_old by (simp add: pending_def)

lemma pending_filter: "pending l s P \<Longrightarrow> filter (\<lambda>e. s < seq e) (contents l) = P"
  by (auto simp: pending_def not_less filter_empty_conv filter_id_conv)

lemma latest_less: "ok l \<Longrightarrow> unat (latest l) + 2 < 2 ^ 64 \<Longrightarrow> latest l < latest l + 1"
  by (rule u64_less_add_one) (auto simp: unat_u64_max)

lemma pending_push:
  assumes ok: "ok l" and wrap: "unat (latest l) + 2 < 2 ^ 64" and p: "pending l s P"
    and s: "s \<le> latest l" and room: "length P < capacity l"
  shows "pending (push e l) s (P @ [stamp e (latest l + 1)])"
proof -
  from p obtain C where C: "contents l = C @ P" "\<forall>e \<in> set C. seq e \<le> s"
    "sorted_wrt (\<lambda>a b. seq a < seq b) P" "\<forall>e \<in> set P. s < seq e \<and> seq e \<le> latest l"
    by (auto simp: pending_def)
  let ?k = "Suc (length (contents l)) - capacity l"
  have "?k \<le> length C" using room C(1) by simp
  then have "contents (push e l) = drop ?k C @ P @ [stamp e (latest l + 1)]"
    unfolding contents_push using C(1) by simp
  moreover have "\<forall>e \<in> set (drop ?k C). seq e \<le> s" using C(2) by (meson in_set_dropD)
  moreover have lt: "latest l < latest l + 1" using ok wrap by (rule latest_less)
  ultimately show ?thesis
    using C(3,4) s by (auto simp: pending_def seq_stamp latest_push [OF ok wrap] sorted_wrt_append
        intro: order.strict_trans1 order.trans less_imp_le)
qed

lemma pending_poll:
  assumes p: "pending l s P" and ne: "P \<noteq> []"
  shows "pending l (seq (last (take sse_limit P))) (drop sse_limit P)"
    and "seq (last (take sse_limit P)) \<le> latest l"
proof -
  from p obtain C where C: "contents l = C @ P" "\<forall>e \<in> set C. seq e \<le> s"
    "sorted_wrt (\<lambda>a b. seq a < seq b) P" "\<forall>e \<in> set P. s < seq e \<and> seq e \<le> latest l"
    by (auto simp: pending_def)
  let ?T = "take sse_limit P" and ?D = "drop sse_limit P"
  from ne have T: "?T \<noteq> []" by (simp add: sse_limit_def)
  then have m: "last ?T \<in> set P" by (meson in_set_takeD last_in_set)
  have srt: "sorted_wrt (\<lambda>a b. seq a < seq b) (?T @ ?D)" using C(3) by simp
  from T have "?T = butlast ?T @ [last ?T]" by simp
  with srt have "\<forall>e \<in> set ?T. seq e \<le> seq (last ?T)"
    by (metis (no_types, lifting) Un_iff empty_iff empty_set less_imp_le list.set(2) order_refl
        set_append singletonD sorted_wrt_append insert_iff)
  moreover have "\<forall>e \<in> set ?D. seq (last ?T) < seq e"
    using iffD1 [OF sorted_wrt_append srt] last_in_set [OF T] by blast
  moreover have "\<forall>e \<in> set C. seq e \<le> seq (last ?T)" using C(2,4) m by fastforce
  ultimately show "pending l (seq (last ?T)) ?D"
    using C srt by (auto simp: pending_def sorted_wrt_append intro!: exI [of _ "C @ ?T"] dest: in_set_dropD)
  show "seq (last ?T) \<le> latest l" using C(4) m by blast
qed

lemma sse_loop_delivers:
  assumes "ok l" and "unat (latest l) + length (records_of steps) + 2 < 2 ^ 64"
    and "pending l s P" and "s \<le> latest l" and "paced (capacity l) (length P) steps"
  shows "data_of (sse_loop push since seq steps l s) =
     take (length P + length (records_of steps) - backlog (length P) steps)
       (P @ stamped stamp (latest l) (records_of steps))"
  using assms
proof (induction steps arbitrary: l s P)
  case (Cons step steps)
  show ?case
  proof (cases step)
    case (Record e)
    have wrap: "unat (latest l) + 2 < 2 ^ 64" using Cons.prems(2) by simp
    have lt: "latest l < latest l + 1" using Cons.prems(1) wrap by (rule latest_less)
    have n: "unat (latest l + 1) = Suc (unat (latest l))" using wrap by (simp add: unat_word_ariths)
    note l' = latest_push [OF Cons.prems(1) wrap, of e]
    have p': "pending (push e l) s (P @ [stamp e (latest l + 1)])"
      using Cons.prems Record by (intro pending_push) (simp_all add: wrap)
    have "data_of (sse_loop push since seq steps (push e l) s) =
        take (length (P @ [stamp e (latest l + 1)]) + length (records_of steps)
            - backlog (length (P @ [stamp e (latest l + 1)])) steps)
          ((P @ [stamp e (latest l + 1)]) @ stamped stamp (latest (push e l)) (records_of steps))"
    proof (rule Cons.IH [OF ok_push [OF Cons.prems(1) wrap] _ p'])
      show "unat (latest (push e l)) + length (records_of steps) + 2 < 2 ^ 64"
        using Cons.prems(2) Record by (simp add: l' n)
      show "s \<le> latest (push e l)" using Cons.prems(4) lt by (simp add: l')
      show "paced (capacity (push e l)) (length (P @ [stamp e (latest l + 1)])) steps"
        using Cons.prems(5) Record by (simp add: capacity_push)
    qed
    with Record show ?thesis by (simp add: l')
  next
    case Poll
    have ev: "since l s sse_limit = take sse_limit P"
      using pending_filter [OF Cons.prems(3)] by (simp add: since_eq sse_limit_def)
    show ?thesis
    proof (cases "P = []")
      case True
      then show ?thesis using Cons Poll ev by (simp add: sse_limit_def)
    next
      case False
      then have ne: "take sse_limit P \<noteq> []" by (simp add: sse_limit_def)
      note p' = pending_poll [OF Cons.prems(3) False]
      have IH: "data_of (sse_loop push since seq steps l (seq (last (take sse_limit P)))) =
          take (length (drop sse_limit P) + length (records_of steps)
              - backlog (length (drop sse_limit P)) steps)
            (drop sse_limit P @ stamped stamp (latest l) (records_of steps))"
        using Cons.prems Poll by (intro Cons.IH p') simp_all
      have "backlog (length (drop sse_limit P)) steps
          \<le> length (drop sse_limit P) + length (records_of steps)" by (rule backlog_le)
      note eq = take_split_join [OF this, of "stamped stamp (latest l) (records_of steps)"]
      have "data_of (sse_loop push since seq (step # steps) l s) = take sse_limit P
          @ data_of (sse_loop push since seq steps l (seq (last (take sse_limit P))))"
        using Poll ev ne by (simp add: Let_def)
      also have "\<dots> = take (length P + length (records_of steps)
            - backlog (length (drop sse_limit P)) steps)
          (P @ stamped stamp (latest l) (records_of steps))" unfolding IH by (rule eq)
      finally show ?thesis using Poll by simp
    qed
  qed
qed (simp add: pending_def)

lemma sse_session_delivers:
  assumes "ok l" and "unat (latest l) + length (records_of steps) + 2 < 2 ^ 64"
    and "paced (capacity l) 0 steps"
  shows "data_of (run_sse_session push since latest seq extra steps l) =
     take (length (records_of steps) - backlog 0 steps)
       (stamped stamp (latest l) (records_of steps))"
  using sse_loop_delivers [OF assms(1,2) pending_start [OF assms(1)] order.refl] assms(3)
  by (simp add: run_sse_session_def)

end

section \<open>The globe log provides the interface\<close>

definition globe_ok :: "GlobeEventLog \<Rightarrow> bool" where
  "globe_ok l \<longleftrightarrow> gl_next_seq l \<noteq> 0 \<and> (\<forall>e \<in> set (gl_buffer l). arc_seq e < gl_next_seq l)"

lemma u64_pred_le: "n \<noteq> 0 \<Longrightarrow> s < n \<Longrightarrow> s \<le> n - (1 :: u64)"
  by (simp add: word_le_nat_alt word_less_nat_alt unat_minus_one unat_gt_0)

lemma u64_next_ok: "unat (n - 1 :: u64) + 2 < 2 ^ 64 \<Longrightarrow> n \<noteq> 0 \<Longrightarrow> n < n + 1 \<and> n + 1 \<noteq> 0"
proof -
  assume h: "unat (n - 1 :: u64) + 2 < 2 ^ 64" "n \<noteq> 0"
  then have "unat n + 1 < 2 ^ 64" by (simp add: unat_minus_one)
  then have "n \<noteq> - 1" by (auto simp: unat_u64_max)
  with u64_less_add_one show ?thesis by (metis word_not_simps(1))
qed

interpretation globe: sequenced_log globe_record globe_events_since globe_latest_seq arc_seq
  "\<lambda>e s. e\<lparr>arc_seq := s\<rparr>" gl_buffer gl_capacity globe_ok
proof unfold_locales
  fix l :: GlobeEventLog and e
  assume ok: "globe_ok l" and wrap: "unat (globe_latest_seq l) + 2 < 2 ^ 64"
  then have "gl_next_seq l < gl_next_seq l + 1 \<and> gl_next_seq l + 1 \<noteq> 0"
    by (intro u64_next_ok) (simp_all add: globe_latest_seq_def globe_ok_def)
  then show "globe_ok (globe_record e l)"
    using ok by (auto simp: globe_ok_def globe_record_def trim_front_drop
        dest!: in_set_dropD intro: order.strict_trans)
qed (auto simp: globe_record_def globe_latest_seq_def globe_events_since_def collect_since_eq
       trim_front_drop globe_ok_def intro: u64_pred_le)


definition sample_arc :: GlobeArcEvent where
  "sample_arc = \<lparr>arc_seq = 0, arc_timestamp = 0, arc_lat = Finite 1, arc_lon = Finite 2, arc_blocked = True\<rparr>"


end
