(* ===== verification/Time_Format.thy ===== *)
theory Time_Format
  imports Prelude
begin

text \<open>
  Formatting of points in time: \<^verbatim>\<open>to_iso8601\<close> of \<^verbatim>\<open>history/request_log.cpp\<close> (and its twin in
  \<^verbatim>\<open>admin/json_view.cpp\<close>), with the calendar of \<open>gmtime_r\<close> and the conversions of \<open>snprintf\<close> it
  relies on.  The round trip reads the text back to the millisecond.
\<close>

section \<open>The calendar\<close>

definition is_leap :: "int \<Rightarrow> bool" where
  "is_leap y \<longleftrightarrow> y mod 4 = 0 \<and> (y mod 100 \<noteq> 0 \<or> y mod 400 = 0)"

definition year_len :: "int \<Rightarrow> nat" where
  "year_len y = (if is_leap y then 366 else 365)"

definition month_lens :: "int \<Rightarrow> nat list" where
  "month_lens y = [31, if is_leap y then 29 else 28, 31, 30, 31, 30, 31, 31, 30, 31, 30, 31]"

lemma year_len_pos: "365 \<le> year_len y"
  by (simp add: year_len_def)

lemma sum_month_lens: "sum_list (month_lens y) = year_len y"
  by (simp add: month_lens_def year_len_def)

function walk_years :: "int \<Rightarrow> nat \<Rightarrow> int \<times> nat" where
  "walk_years y d = (if d < year_len y then (y, d) else walk_years (y + 1) (d - year_len y))"
  by auto
termination
  by (relation "measure snd") (auto simp: year_len_def)

declare walk_years.simps [simp del]

fun walk_months :: "nat list \<Rightarrow> nat \<Rightarrow> nat \<Rightarrow> nat \<times> nat" where
  "walk_months [] m d = (m, d)"
| "walk_months (l # ls) m d = (if d < l then (m, d) else walk_months ls (Suc m) (d - l))"

text \<open>The broken-down time of \<open>gmtime_r\<close>: the Gregorian calendar repeats every 146097 days.\<close>

record tm =
  tm_year :: int
  tm_mon :: nat
  tm_mday :: nat
  tm_hour :: nat
  tm_min :: nat
  tm_sec :: nat

definition gmtime :: "int \<Rightarrow> tm" where
  "gmtime tt =
     (let days = tt div 86400; sod = nat (tt mod 86400);
          (y, doy) = walk_years (1970 + 400 * (days div 146097)) (nat (days mod 146097));
          (m, d) = walk_months (month_lens y) 1 doy
      in \<lparr>tm_year = y, tm_mon = m, tm_mday = d + 1,
          tm_hour = sod div 3600, tm_min = sod div 60 mod 60, tm_sec = sod mod 60\<rparr>)"

section \<open>Formatting\<close>

text \<open>\<open>printf\<close>'s \<open>%0wd\<close>; the divisions of \<open>duration_cast\<close> truncate towards zero.\<close>

definition pad_zeros :: "nat \<Rightarrow> string \<Rightarrow> string" where
  "pad_zeros w s = replicate (w - length s) (CHR ''0'') @ s"

definition format_0d :: "nat \<Rightarrow> int \<Rightarrow> string" where
  "format_0d w i = (if i < 0 then CHR ''-'' # pad_zeros (w - 1) (show_nat (nat (- i)))
                    else pad_zeros w (show_nat (nat i)))"

definition tdiv :: "int \<Rightarrow> int \<Rightarrow> int" where
  "tdiv a b = (if a < 0 then - (- a div b) else a div b)"

definition to_iso8601 :: "ticks \<Rightarrow> string" where
  "to_iso8601 tp =
     (let ms = tdiv tp 1000000 - 1000 * tdiv (tdiv tp 1000000) 1000;
          tt = tdiv tp 1000000000;
          tm = gmtime tt
      in take 31 (format_0d 4 (tm_year tm) @ ''-'' @ format_0d 2 (int (tm_mon tm)) @ ''-'' @
           format_0d 2 (int (tm_mday tm)) @ ''T'' @ format_0d 2 (int (tm_hour tm)) @ '':'' @
           format_0d 2 (int (tm_min tm)) @ '':'' @ format_0d 2 (int (tm_sec tm)) @ ''.'' @
           format_0d 3 ms @ ''Z''))"

section \<open>What the calendar means\<close>

definition days_before_year :: "int \<Rightarrow> nat" where
  "days_before_year y = (\<Sum>z \<leftarrow> [1970..y - 1]. year_len z)"

definition days_of_date :: "int \<Rightarrow> nat \<Rightarrow> nat \<Rightarrow> nat" where
  "days_of_date y m d = days_before_year y + sum_list (take (m - 1) (month_lens y)) + (d - 1)"

lemma days_before_next: "1970 \<le> y \<Longrightarrow> days_before_year (y + 1) = days_before_year y + year_len y"
  by (simp add: days_before_year_def upto_rec2)

lemma walk_years_correct:
  "1970 \<le> y \<Longrightarrow> walk_years y d = (y', d') \<Longrightarrow>
     d' < year_len y' \<and> days_before_year y' + d' = days_before_year y + d
       \<and> y \<le> y' \<and> y' \<le> y + int d div 365"
proof (induction y d rule: walk_years.induct)
  case (1 y d)
  show ?case
  proof (cases "d < year_len y")
    case True
    with "1.prems" show ?thesis by (simp add: walk_years.simps [of y d])
  next
    case False
    with "1.prems" have "walk_years (y + 1) (d - year_len y) = (y', d')"
      by (simp add: walk_years.simps [of y d])
    with "1.IH" False "1.prems"
    have IH: "d' < year_len y'" "days_before_year y' + d' = days_before_year (y + 1) + (d - year_len y)"
      "y + 1 \<le> y'" "y' \<le> y + 1 + int (d - year_len y) div 365" by simp_all
    have "int (d - year_len y) + 365 \<le> int d" using False year_len_pos [of y] by linarith
    then have "int (d - year_len y) div 365 + 1 \<le> int d div 365" by linarith
    with IH False "1.prems"(1) show ?thesis by (simp add: days_before_next)
  qed
qed

lemma walk_months_correct:
  "walk_months ls m d = (m', d') \<Longrightarrow> d < sum_list ls \<Longrightarrow>
     m \<le> m' \<and> m' - m < length ls \<and> sum_list (take (m' - m) ls) + d' = d \<and> d' < ls ! (m' - m)"
proof (induction ls m d rule: walk_months.induct)
  case (2 l ls m d)
  show ?case
  proof (cases "d < l")
    case False
    with "2.prems" "2.IH" have "Suc m \<le> m'" "m' - Suc m < length ls"
      "sum_list (take (m' - Suc m) ls) + d' = d - l" "d' < ls ! (m' - Suc m)" by auto
    moreover from this have "m' - m = Suc (m' - Suc m)" by simp
    ultimately show ?thesis using False by simp
  qed (use "2.prems" in simp)
qed simp

lemma month_lens_le: "i < 12 \<Longrightarrow> month_lens y ! i \<le> 31"
  by (auto simp: month_lens_def less_Suc_eq numeral_eq_Suc)

text \<open>The broken-down time of a non-negative instant in the first 400-year cycle.\<close>

lemma gmtime_correct:
  assumes "0 \<le> tt" and "tt < 86400 * 146097"
  defines "t \<equiv> gmtime tt"
  shows "1970 \<le> tm_year t" "tm_year t \<le> 2370" "1 \<le> tm_mon t" "tm_mon t \<le> 12"
    "1 \<le> tm_mday t" "tm_mday t \<le> 31" "tm_hour t < 24" "tm_min t < 60" "tm_sec t < 60"
    "int (days_of_date (tm_year t) (tm_mon t) (tm_mday t)) * 86400 + int (tm_hour t) * 3600
       + int (tm_min t) * 60 + int (tm_sec t) = tt"
proof -
  have d0: "tt div 86400 div 146097 = 0" and dm: "tt div 86400 mod 146097 = tt div 86400"
    using assms(1,2) by auto
  obtain y doy where w: "walk_years 1970 (nat (tt div 86400)) = (y, doy)" by fastforce
  obtain m d where v: "walk_months (month_lens y) 1 doy = (m, d)" by fastforce
  have y: "doy < year_len y" "days_before_year y + doy = nat (tt div 86400)" "1970 \<le> y"
    "y \<le> 1970 + tt div 86400 div 365"
    using walk_years_correct [OF _ w] pos_imp_zdiv_nonneg_iff [of 86400 tt] assms(1)
    by (simp_all add: days_before_year_def)
  have m: "1 \<le> m" "m - 1 < 12" "sum_list (take (m - 1) (month_lens y)) + d = doy"
    "d < month_lens y ! (m - 1)"
    using walk_months_correct [OF v] y(1) by (simp_all add: sum_month_lens) (simp add: month_lens_def)
  have sod: "nat (tt mod 86400) < 86400" by (simp add: nat_less_iff)
  have t: "t = \<lparr>tm_year = y, tm_mon = m, tm_mday = d + 1, tm_hour = nat (tt mod 86400) div 3600,
      tm_min = nat (tt mod 86400) div 60 mod 60, tm_sec = nat (tt mod 86400) mod 60\<rparr>"
    by (simp add: t_def gmtime_def d0 dm w v [simplified] Let_def)
  have "tt div 86400 div 365 \<le> 400" using assms(2) by linarith
  then show "1970 \<le> tm_year t" "tm_year t \<le> 2370" using y by (simp_all add: t)
  show "1 \<le> tm_mon t" "tm_mon t \<le> 12" using m by (simp_all add: t)
  show "1 \<le> tm_mday t" "tm_mday t \<le> 31" using m(4) month_lens_le [OF m(2), of y] by (simp_all add: t)
  show "tm_hour t < 24" "tm_min t < 60" "tm_sec t < 60" using sod by (simp_all add: t)
  have days: "days_of_date y m (d + 1) = nat (tt div 86400)"
    using m y(2) by (simp add: days_of_date_def)
  have split: "n = n div 3600 * 3600 + n div 60 mod 60 * 60 + n mod 60" for n :: nat
  proof -
    have "n div 60 div 60 = n div 3600" by (simp flip: div_mult2_eq)
    moreover have "n div 60 div 60 * 60 + n div 60 mod 60 = n div 60" "n div 60 * 60 + n mod 60 = n"
      by (rule div_mult_mod_eq)+
    ultimately show ?thesis by linarith
  qed
  have "int (nat (tt mod 86400)) = int (nat (tt mod 86400) div 3600) * 3600
      + int (nat (tt mod 86400) div 60 mod 60) * 60 + int (nat (tt mod 86400) mod 60)"
    using arg_cong [OF split [of "nat (tt mod 86400)"], of int] by (simp only: of_nat_add of_nat_mult of_nat_numeral)
  then have "tt mod 86400 = int (nat (tt mod 86400) div 3600) * 3600
      + int (nat (tt mod 86400) div 60 mod 60) * 60 + int (nat (tt mod 86400) mod 60)" by simp
  then show "int (days_of_date (tm_year t) (tm_mon t) (tm_mday t)) * 86400 + int (tm_hour t) * 3600
       + int (tm_min t) * 60 + int (tm_sec t) = tt"
    using assms(1) by (simp only: t tm.select_convs days)
      (simp add: pos_imp_zdiv_nonneg_iff, metis (no_types) add.assoc div_mult_mod_eq)
qed

section \<open>Reading the text back\<close>

lemma length_show_nat: "0 < w \<Longrightarrow> n < 10 ^ w \<Longrightarrow> length (show_nat n) \<le> w"
proof (induction n arbitrary: w rule: show_nat.induct)
  case (1 n)
  show ?case
  proof (cases "n < 10")
    case False
    with 1 obtain w' where w: "w = Suc w'" "0 < w'" by (cases w; cases "w - 1") auto
    then have "n div 10 < 10 ^ w'" using "1.prems" by (simp add: less_mult_imp_div_less)
    with "1.IH" False w have "length (show_nat (n div 10)) \<le> w'" by simp
    then show ?thesis using False w by (simp add: show_nat.simps [of n])
  qed (use 1 in \<open>simp add: show_nat.simps [of n]\<close>)
qed

lemma read_nat_zeros: "read_nat (replicate k (CHR ''0'') @ s) = read_nat s"
  by (induction k) (simp_all add: read_nat_def digit_value_def)

lemma format_0d_fits:
  assumes "0 < w" and "n < 10 ^ w"
  shows "length (format_0d w (int n)) = w" and "read_nat (format_0d w (int n)) = n"
    and "list_all isdigit (format_0d w (int n))"
  using length_show_nat [OF assms] show_nat_digits [of n]
  by (simp_all add: format_0d_def pad_zeros_def read_nat_zeros list_all_iff)
     (auto simp: isdigit_def)

definition field :: "nat \<Rightarrow> nat \<Rightarrow> string \<Rightarrow> nat" where
  "field from len s = read_nat (take len (drop from s))"

definition read_iso8601 :: "string \<Rightarrow> int" where
  "read_iso8601 s =
     ((int (days_of_date (int (field 0 4 s)) (field 5 2 s) (field 8 2 s)) * 86400
       + int (field 11 2 s) * 3600 + int (field 14 2 s) * 60 + int (field 17 2 s)) * 1000
      + int (field 20 3 s))"

lemma clock_bound: "tp < 2 ^ 63 \<Longrightarrow> tp div 1000000000 < 86400 * (146097 :: int)"
  using zdiv_mono1 [of tp "2 ^ 63" 1000000000] by simp

text \<open>The layout of the text, for the instants a 64-bit nanosecond clock can show after 1970.\<close>

lemma to_iso8601_layout:
  assumes "0 \<le> tp" and "tp < 2 ^ 63"
  obtains y mo d h mi s ms where
    "to_iso8601 tp = y @ ''-'' @ mo @ ''-'' @ d @ ''T'' @ h @ '':'' @ mi @ '':'' @ s @ ''.'' @ ms @ ''Z''"
    "length y = 4" "length mo = 2" "length d = 2" "length h = 2" "length mi = 2" "length s = 2"
    "length ms = 3" "list_all isdigit (y @ mo @ d @ h @ mi @ s @ ms)"
    "read_nat y = nat (tm_year (gmtime (tp div 1000000000)))"
    "read_nat mo = tm_mon (gmtime (tp div 1000000000))"
    "read_nat d = tm_mday (gmtime (tp div 1000000000))"
    "read_nat h = tm_hour (gmtime (tp div 1000000000))"
    "read_nat mi = tm_min (gmtime (tp div 1000000000))"
    "read_nat s = tm_sec (gmtime (tp div 1000000000))"
    "int (read_nat ms) = tp div 1000000 mod 1000"
proof -
  let ?t = "gmtime (tp div 1000000000)"
  let ?ms = "nat (tp div 1000000 mod 1000)"
  have "tp div 1000000000 < 86400 * 146097" using assms(2) by (rule clock_bound)
  note g = gmtime_correct [OF pos_imp_zdiv_nonneg_iff [THEN iffD2, OF _ assms(1)] this]
  have y: "int (nat (tm_year ?t)) = tm_year ?t" using g(1) by simp
  have ms: "tdiv tp 1000000 - 1000 * tdiv (tdiv tp 1000000) 1000 = int ?ms"
    using assms(1) by (simp add: tdiv_def pos_imp_zdiv_neg_iff minus_mult_div_eq_mod)
  have tt: "tdiv tp 1000000000 = tp div 1000000000" using assms(1) by (simp add: tdiv_def)
  have b: "nat (tm_year ?t) < 10 ^ 4" "tm_mon ?t < 10 ^ 2" "tm_mday ?t < 10 ^ 2" "tm_hour ?t < 10 ^ 2"
    "tm_min ?t < 10 ^ 2" "tm_sec ?t < 10 ^ 2" "?ms < 10 ^ 3" using g by (simp_all add: nat_less_iff)
  note f = format_0d_fits [OF _ b(1)] format_0d_fits [OF _ b(2)] format_0d_fits [OF _ b(3)]
    format_0d_fits [OF _ b(4)] format_0d_fits [OF _ b(5)] format_0d_fits [OF _ b(6)]
    format_0d_fits [OF _ b(7)]
  show thesis
  proof (rule that [of "format_0d 4 (int (nat (tm_year ?t)))" "format_0d 2 (int (tm_mon ?t))"
        "format_0d 2 (int (tm_mday ?t))" "format_0d 2 (int (tm_hour ?t))"
        "format_0d 2 (int (tm_min ?t))" "format_0d 2 (int (tm_sec ?t))" "format_0d 3 (int ?ms)"])
    show "to_iso8601 tp = format_0d 4 (int (nat (tm_year ?t))) @ ''-'' @ format_0d 2 (int (tm_mon ?t)) @
        ''-'' @ format_0d 2 (int (tm_mday ?t)) @ ''T'' @ format_0d 2 (int (tm_hour ?t)) @ '':'' @
        format_0d 2 (int (tm_min ?t)) @ '':'' @ format_0d 2 (int (tm_sec ?t)) @ ''.'' @
        format_0d 3 (int ?ms) @ ''Z''"
      unfolding to_iso8601_def Let_def tt ms y
      by (rule take_all)
         (use f(1) [unfolded y] f(4) f(7) f(10) f(13) f(16) f(19) in simp)
    show "int (read_nat (format_0d 3 (int ?ms))) = tp div 1000000 mod 1000"
      by (subst f(20)) simp_all
    show "list_all isdigit (format_0d 4 (int (nat (tm_year ?t))) @ format_0d 2 (int (tm_mon ?t)) @
        format_0d 2 (int (tm_mday ?t)) @ format_0d 2 (int (tm_hour ?t)) @
        format_0d 2 (int (tm_min ?t)) @ format_0d 2 (int (tm_sec ?t)) @ format_0d 3 (int ?ms))"
      unfolding list_all_append by (intro conjI f) simp_all
  qed (rule f, simp)+
qed

lemma field_at: "length a = from \<Longrightarrow> length b = len \<Longrightarrow> field from len (a @ b @ c) = read_nat b"
  by (simp add: field_def)

text \<open>The timestamp of a log row reads back to the recorded instant, to the millisecond.\<close>

theorem to_iso8601_roundtrip:
  assumes "0 \<le> tp" and "tp < 2 ^ 63"
  shows "read_iso8601 (to_iso8601 tp) = tp div 1000000"
proof -
  from to_iso8601_layout [OF assms] obtain y mo d h mi s ms where
    e: "to_iso8601 tp = y @ ''-'' @ mo @ ''-'' @ d @ ''T'' @ h @ '':'' @ mi @ '':'' @ s @ ''.'' @ ms @ ''Z''"
    and len: "length y = 4" "length mo = 2" "length d = 2" "length h = 2" "length mi = 2" "length s = 2"
      "length ms = 3"
    and v: "read_nat y = nat (tm_year (gmtime (tp div 1000000000)))"
    "read_nat mo = tm_mon (gmtime (tp div 1000000000))"
    "read_nat d = tm_mday (gmtime (tp div 1000000000))"
    "read_nat h = tm_hour (gmtime (tp div 1000000000))"
    "read_nat mi = tm_min (gmtime (tp div 1000000000))"
    "read_nat s = tm_sec (gmtime (tp div 1000000000))"
    "int (read_nat ms) = tp div 1000000 mod 1000" .
  have "tp div 1000000000 < 86400 * 146097" using assms(2) by (rule clock_bound)
  note g = gmtime_correct [OF pos_imp_zdiv_nonneg_iff [THEN iffD2, OF _ assms(1)] this]
  have fs: "field 0 4 (to_iso8601 tp) = read_nat y" "field 5 2 (to_iso8601 tp) = read_nat mo"
    "field 8 2 (to_iso8601 tp) = read_nat d" "field 11 2 (to_iso8601 tp) = read_nat h"
    "field 14 2 (to_iso8601 tp) = read_nat mi" "field 17 2 (to_iso8601 tp) = read_nat s"
    "field 20 3 (to_iso8601 tp) = read_nat ms"
    unfolding e using len by (simp_all add: field_def)
  have sec: "tp div 1000000 = tp div 1000000000 * 1000 + tp div 1000000 mod 1000"
    by (simp add: zdiv_zmult2_eq [of 1000 tp 1000000, simplified])
  show ?thesis
    unfolding read_iso8601_def fs v using g(1,10) sec by simp
qed

lemma to_iso8601_roundtrip_witness:
  "read_iso8601 (to_iso8601 1709210096789000000) = 1709210096789"
  by (subst to_iso8601_roundtrip) simp_all

end
