(* ===== verification/Request_Log.thy ===== *)
theory Request_Log
  imports Event_Logs Time_Format
begin

text \<open>
  \<^verbatim>\<open>history/request_log.*\<close>: the ring buffer of request events (the second provider of
  \<open>sequenced_log\<close>), the CSV rows, and the background writer thread as a step relation that
  interleaves with the recording threads and the destructor.
\<close>

section \<open>Events and CSV rows\<close>

record RequestEvent =
  re_seq :: u64
  re_timestamp :: ticks
  re_client_ip :: string
  re_country :: string
  re_isp :: string
  re_user_agent :: string
  re_method :: string
  re_path :: string
  re_domain :: string
  re_listener :: string
  re_blocked :: bool
  re_block_reason :: string
  re_bytes_transferred :: u64
  re_status_code :: int

definition formula_like :: "string \<Rightarrow> bool" where
  "formula_like raw \<longleftrightarrow> raw \<noteq> [] \<and>
     (hd raw = CHR ''='' \<or> hd raw = CHR ''+'' \<or> hd raw = CHR ''-'' \<or> hd raw = CHR ''@''
      \<or> hd raw = CHR 0x09 \<or> hd raw = CHR 0x0D)"

definition csv_value :: "string \<Rightarrow> string" where
  "csv_value raw = (if formula_like raw then CHR 0x27 # raw else raw)"

fun double_quotes :: "string \<Rightarrow> string" where
  "double_quotes [] = []"
| "double_quotes (c # cs) = (if c = CHR 0x22 then [CHR 0x22, c] else [c]) @ double_quotes cs"

definition csv_escape :: "string \<Rightarrow> string" where
  "csv_escape raw =
     (let value = csv_value raw in
      if find_first (\<lambda>c. c \<in> {CHR 0x2C, CHR 0x22, CHR 0x0A, CHR 0x0D}) value = None then value
      else [CHR 0x22] @ double_quotes value @ [CHR 0x22])"

definition kCsvHeader :: string where
  "kCsvHeader = ''seq,timestamp,client_ip,country,isp,user_agent,method,path,domain,listener,blocked,''
     @ ''block_reason,bytes_transferred,status_code'' @ [CHR 0x0A]"

definition to_csv_row :: "RequestEvent \<Rightarrow> string" where
  "to_csv_row event =
     show_nat (unat (re_seq event)) @ '','' @ to_iso8601 (re_timestamp event) @ '','' @
     csv_escape (re_client_ip event) @ '','' @ csv_escape (re_country event) @ '','' @
     csv_escape (re_isp event) @ '','' @ csv_escape (re_user_agent event) @ '','' @
     csv_escape (re_method event) @ '','' @ csv_escape (re_path event) @ '','' @
     csv_escape (re_domain event) @ '','' @ csv_escape (re_listener event) @ '','' @
     (if re_blocked event then ''true'' else ''false'') @ '','' @
     csv_escape (re_block_reason event) @ '','' @
     show_nat (unat (re_bytes_transferred event)) @ '','' @ show_int (re_status_code event) @ [CHR 0x0A]"

section \<open>The log\<close>

record RequestLog =
  rq_buffer :: "RequestEvent list"
  rq_capacity :: nat
  rq_next_seq :: u64
  rq_csv_path :: string
  rq_pending_batch :: "RequestEvent list"
  rq_write_queue :: "RequestEvent list list"
  rq_stop :: bool

definition kCsvBatchSize :: nat where
  "kCsvBatchSize = 100"

definition new_request_log :: "nat \<Rightarrow> string \<Rightarrow> RequestLog" where
  "new_request_log capacity csv_path =
     \<lparr>rq_buffer = [], rq_capacity = capacity, rq_next_seq = 1, rq_csv_path = csv_path,
      rq_pending_batch = [], rq_write_queue = [], rq_stop = False\<rparr>"

definition rq_batch :: "RequestEvent \<Rightarrow> RequestLog \<Rightarrow> RequestLog" where
  "rq_batch event l =
     (if rq_csv_path l = [] then l
      else let pending_batch = rq_pending_batch l @ [event] in
           if length pending_batch \<ge> kCsvBatchSize
           then l\<lparr>rq_write_queue := rq_write_queue l @ [pending_batch], rq_pending_batch := []\<rparr>
           else l\<lparr>rq_pending_batch := pending_batch\<rparr>)"

definition rq_record :: "RequestEvent \<Rightarrow> RequestLog \<Rightarrow> RequestLog" where
  "rq_record event l =
     (let event = event\<lparr>re_seq := rq_next_seq l\<rparr>;
          l = rq_batch event (l\<lparr>rq_next_seq := rq_next_seq l + 1\<rparr>)
      in l\<lparr>rq_buffer := trim_front (rq_capacity l) (rq_buffer l @ [event])\<rparr>)"

definition rq_recent :: "nat \<Rightarrow> RequestLog \<Rightarrow> RequestEvent list" where
  "rq_recent limit l = recent_of limit (rq_buffer l)"

definition rq_events_since :: "RequestLog \<Rightarrow> u64 \<Rightarrow> nat \<Rightarrow> RequestEvent list" where
  "rq_events_since l since_seq limit = collect_since re_seq since_seq limit (rq_buffer l) []"

definition rq_latest_seq :: "RequestLog \<Rightarrow> u64" where
  "rq_latest_seq l = rq_next_seq l - 1"

text \<open>The critical section of the destructor.\<close>

definition rq_begin_stop :: "RequestLog \<Rightarrow> RequestLog" where
  "rq_begin_stop l =
     (if rq_pending_batch l \<noteq> []
      then l\<lparr>rq_write_queue := rq_write_queue l @ [rq_pending_batch l], rq_pending_batch := [], rq_stop := True\<rparr>
      else l\<lparr>rq_stop := True\<rparr>)"

section \<open>The writer thread\<close>

text \<open>The program counter of \<open>writer_loop\<close> and the file it appends to (\<open>None\<close>: absent).
  Whether the file can be opened is the environment's choice; when it cannot, the thread returns
  at once (\<open>Disabled\<close>).\<close>

datatype writer_pc = Opening | Disabled | Waiting | Writing "RequestEvent list list" | Exited

record log_system =
  ls_log :: RequestLog
  ls_pc :: writer_pc
  ls_file :: "string option"

definition write_header :: "string option \<Rightarrow> bool" where
  "write_header file = (case file of None \<Rightarrow> True | Some contents \<Rightarrow> contents = [])"

definition open_csv :: "log_system \<Rightarrow> log_system" where
  "open_csv s =
     s\<lparr>ls_pc := Waiting,
       ls_file := Some (if write_header (ls_file s) then kCsvHeader else the (ls_file s))\<rparr>"

definition take_batches :: "log_system \<Rightarrow> log_system" where
  "take_batches s =
     s\<lparr>ls_pc := Writing (rq_write_queue (ls_log s)), ls_log := (ls_log s)\<lparr>rq_write_queue := []\<rparr>\<rparr>"

definition write_batches :: "RequestEvent list list \<Rightarrow> log_system \<Rightarrow> log_system" where
  "write_batches batches s =
     s\<lparr>ls_pc := Waiting,
       ls_file := Some (the (ls_file s) @ concat (map (\<lambda>batch. concat (map to_csv_row batch)) batches))\<rparr>"

text \<open>The last argument of the relation is the event a recording thread handed in, if any.\<close>

inductive log_step :: "log_system \<Rightarrow> RequestEvent option \<Rightarrow> log_system \<Rightarrow> bool" where
  Recorded: "\<not> rq_stop (ls_log s) \<Longrightarrow>
     log_step s (Some e) (s\<lparr>ls_log := rq_record e (ls_log s)\<rparr>)"
| Opened: "ls_pc s = Opening \<Longrightarrow> log_step s None (open_csv s)"
| OpenFailed: "ls_pc s = Opening \<Longrightarrow> log_step s None (s\<lparr>ls_pc := Disabled\<rparr>)"
| Taken: "ls_pc s = Waiting \<Longrightarrow> rq_write_queue (ls_log s) \<noteq> [] \<Longrightarrow> log_step s None (take_batches s)"
| Written: "ls_pc s = Writing batches \<Longrightarrow> log_step s None (write_batches batches s)"
| Stopped: "ls_pc s = Waiting \<Longrightarrow> rq_write_queue (ls_log s) = [] \<Longrightarrow> rq_stop (ls_log s) \<Longrightarrow>
     log_step s None (s\<lparr>ls_pc := Exited\<rparr>)"
| Destroyed: "\<not> rq_stop (ls_log s) \<Longrightarrow>
     log_step s None (s\<lparr>ls_log := rq_begin_stop (ls_log s)\<rparr>)"

inductive_cases log_step_cases [elim!]: "log_step s e s'"

definition start_system :: "nat \<Rightarrow> string \<Rightarrow> string option \<Rightarrow> log_system" where
  "start_system capacity csv_path file =
     \<lparr>ls_log = new_request_log capacity csv_path, ls_pc = Opening, ls_file = file\<rparr>"

text \<open>\<open>log_runs s0 es s\<close>: from \<open>s0\<close>, some interleaving leads to \<open>s\<close> and recorded \<open>es\<close> in this order.\<close>

inductive log_runs :: "log_system \<Rightarrow> RequestEvent list \<Rightarrow> log_system \<Rightarrow> bool" for s0 where
  Start: "log_runs s0 [] s0"
| Record_step: "log_runs s0 es s \<Longrightarrow> log_step s (Some e) s' \<Longrightarrow> log_runs s0 (es @ [e]) s'"
| Silent_step: "log_runs s0 es s \<Longrightarrow> log_step s None s' \<Longrightarrow> log_runs s0 es s'"

section \<open>Every recorded event reaches the file once, in order\<close>

abbreviation stamp_event :: "RequestEvent \<Rightarrow> u64 \<Rightarrow> RequestEvent" where
  "stamp_event e s \<equiv> e\<lparr>re_seq := s\<rparr>"

definition csv_text :: "RequestEvent list \<Rightarrow> string" where
  "csv_text es = concat (map to_csv_row es)"

lemma csv_text_append [simp]: "csv_text (xs @ ys) = csv_text xs @ csv_text ys"
  by (simp add: csv_text_def)

lemma csv_text_batches:
  "concat (map (\<lambda>batch. concat (map to_csv_row batch)) bs) = csv_text (concat bs)"
  by (induction bs) (simp_all add: csv_text_def)

lemma stamped_snoc:
  "stamped stamp s (es @ [e]) = stamped stamp s es @ [stamp e (s + of_nat (length es) + 1)]"
  by (induction es arbitrary: s) (simp_all add: algebra_simps)

fun in_flight :: "writer_pc \<Rightarrow> RequestEvent list" where
  "in_flight (Writing batches) = concat batches"
| "in_flight _ = []"

definition unwritten :: "log_system \<Rightarrow> RequestEvent list" where
  "unwritten s = in_flight (ls_pc s) @ concat (rq_write_queue (ls_log s)) @ rq_pending_batch (ls_log s)"

definition opened_text :: "string option \<Rightarrow> string" where
  "opened_text file = (if write_header file then kCsvHeader else the file)"

text \<open>The invariant: what is on disk, in flight, queued and pending is the history, in order.\<close>

definition log_inv :: "string option \<Rightarrow> RequestEvent list \<Rightarrow> log_system \<Rightarrow> bool" where
  "log_inv file0 es s \<longleftrightarrow>
     rq_next_seq (ls_log s) = 1 + of_nat (length es) \<and> rq_csv_path (ls_log s) \<noteq> []
     \<and> (rq_stop (ls_log s) \<longrightarrow> rq_pending_batch (ls_log s) = [])
     \<and> (if ls_pc s = Opening \<or> ls_pc s = Disabled
        then ls_file s = file0 \<and> unwritten s = stamped stamp_event 0 es
        else \<exists>written. ls_file s = Some (opened_text file0 @ csv_text written)
               \<and> written @ unwritten s = stamped stamp_event 0 es
               \<and> (ls_pc s = Exited \<longrightarrow> unwritten s = [] \<and> rq_stop (ls_log s)))"

lemma rq_record_simps:
  "rq_next_seq (rq_record e l) = rq_next_seq l + 1" "rq_csv_path (rq_record e l) = rq_csv_path l"
  "rq_stop (rq_record e l) = rq_stop l" "rq_capacity (rq_record e l) = rq_capacity l"
  "rq_csv_path l \<noteq> [] \<Longrightarrow> concat (rq_write_queue (rq_record e l)) @ rq_pending_batch (rq_record e l)
     = concat (rq_write_queue l) @ rq_pending_batch l @ [e\<lparr>re_seq := rq_next_seq l\<rparr>]"
  "rq_buffer (rq_record e l) = trim_front (rq_capacity l) (rq_buffer l @ [e\<lparr>re_seq := rq_next_seq l\<rparr>])"
  by (simp_all add: rq_record_def rq_batch_def Let_def)

lemma rq_begin_stop_simps:
  "rq_next_seq (rq_begin_stop l) = rq_next_seq l" "rq_csv_path (rq_begin_stop l) = rq_csv_path l"
  "rq_stop (rq_begin_stop l)" "rq_pending_batch (rq_begin_stop l) = []"
  "concat (rq_write_queue (rq_begin_stop l)) = concat (rq_write_queue l) @ rq_pending_batch l"
  by (simp_all add: rq_begin_stop_def)

lemma log_inv_start: "csv_path \<noteq> [] \<Longrightarrow> log_inv file [] (start_system capacity csv_path file)"
  by (simp add: log_inv_def start_system_def new_request_log_def unwritten_def)

lemma log_inv_openedI:
  assumes "rq_next_seq (ls_log s) = 1 + of_nat (length es)" "rq_csv_path (ls_log s) \<noteq> []"
    "rq_stop (ls_log s) \<Longrightarrow> rq_pending_batch (ls_log s) = []"
    "ls_pc s \<noteq> Opening" "ls_pc s \<noteq> Disabled"
    "ls_file s = Some (opened_text file0 @ csv_text written)"
    "written @ unwritten s = stamped stamp_event 0 es"
    "ls_pc s = Exited \<Longrightarrow> unwritten s = [] \<and> rq_stop (ls_log s)"
  shows "log_inv file0 es s"
  using assms by (auto simp: log_inv_def)

lemma log_inv_openedE:
  assumes "log_inv file0 es s" "ls_pc s \<noteq> Opening" "ls_pc s \<noteq> Disabled"
  obtains written where "ls_file s = Some (opened_text file0 @ csv_text written)"
    "written @ unwritten s = stamped stamp_event 0 es"
    "ls_pc s = Exited \<Longrightarrow> unwritten s = [] \<and> rq_stop (ls_log s)"
  using assms by (auto simp: log_inv_def)

lemma log_inv_base:
  assumes "log_inv file0 es s"
  shows "rq_next_seq (ls_log s) = 1 + of_nat (length es)" "rq_csv_path (ls_log s) \<noteq> []"
    "rq_stop (ls_log s) \<Longrightarrow> rq_pending_batch (ls_log s) = []"
    "ls_pc s = Opening \<or> ls_pc s = Disabled \<Longrightarrow> ls_file s = file0 \<and> unwritten s = stamped stamp_event 0 es"
  using assms by (auto simp: log_inv_def)

lemma log_inv_step:
  assumes inv: "log_inv file es s" and step: "log_step s e s'"
  shows "log_inv file (es @ (case e of None \<Rightarrow> [] | Some x \<Rightarrow> [x])) s'"
  using step
proof cases
  case (Recorded x)
  have "unwritten s' = unwritten s @ [x\<lparr>re_seq := rq_next_seq (ls_log s)\<rparr>]"
    using inv Recorded by (simp add: unwritten_def rq_record_simps log_inv_def)
  moreover have "stamped stamp_event 0 (es @ [x])
      = stamped stamp_event 0 es @ [x\<lparr>re_seq := rq_next_seq (ls_log s)\<rparr>]"
    using inv by (simp add: stamped_snoc log_inv_def add.commute)
  ultimately show ?thesis
    using inv Recorded by (auto simp: log_inv_def rq_record_simps)
next
  case Opened
  then show ?thesis
    using inv by (simp add: log_inv_def open_csv_def unwritten_def opened_text_def csv_text_def)
next
  case (Written batches)
  then have u: "unwritten s = concat batches @ unwritten s'"
    by (simp add: unwritten_def write_batches_def)
  from inv obtain written where
    w: "ls_file s = Some (opened_text file @ csv_text written)" "written @ unwritten s = stamped stamp_event 0 es"
    by (rule log_inv_openedE) (simp_all add: Written)
  have log: "ls_log s' = ls_log s" "ls_pc s' = Waiting" using Written by (simp_all add: write_batches_def)
  have "log_inv file es s'"
  proof (rule log_inv_openedI)
    show "ls_file s' = Some (opened_text file @ csv_text (written @ concat batches))"
      using Written w(1) by (simp add: write_batches_def csv_text_batches)
    show "(written @ concat batches) @ unwritten s' = stamped stamp_event 0 es"
      using w(2) u by simp
  qed (use log log_inv_base [OF inv] in simp_all)
  then show ?thesis using Written by simp
next
  case Taken
  then have "unwritten s' = unwritten s" by (simp add: unwritten_def take_batches_def)
  with inv Taken show ?thesis by (auto simp: log_inv_def take_batches_def)
next
  case OpenFailed
  with inv show ?thesis by (simp add: log_inv_def unwritten_def)
next
  case Stopped
  then have "unwritten s = []" using inv by (simp add: unwritten_def log_inv_def)
  moreover have "unwritten s' = []" using Stopped inv by (simp add: unwritten_def log_inv_def)
  ultimately show ?thesis using inv Stopped by (auto simp: log_inv_def)
next
  case Destroyed
  then have "unwritten s' = unwritten s" by (simp add: unwritten_def rq_begin_stop_simps)
  with inv Destroyed show ?thesis by (auto simp: log_inv_def rq_begin_stop_simps)
qed

lemma log_inv_reachable:
  assumes "log_runs (start_system capacity csv_path file) es s" and "csv_path \<noteq> []"
  shows "log_inv file es s"
  using assms(1)
proof (induction rule: log_runs.induct)
  case (Record_step es s e s')
  then show ?case using log_inv_step [where e = "Some e"] by simp
next
  case (Silent_step es s s')
  then show ?case using log_inv_step [where e = None] by simp
qed (simp add: log_inv_start assms(2))


definition sample_event :: RequestEvent where
  "sample_event = \<lparr>re_seq = 0, re_timestamp = 0, re_client_ip = ''10.0.0.1'', re_country = ''unknown'',
     re_isp = ''unknown'', re_user_agent = ''=cmd'', re_method = ''GET'', re_path = ''/a,b'',
     re_domain = [], re_listener = ''http'', re_blocked = False, re_block_reason = [],
     re_bytes_transferred = 0, re_status_code = 200\<rparr>"

lemma sample_run:
  "\<exists>s. log_runs (start_system 10 ''log.csv'' None) [sample_event] s \<and> ls_pc s = Exited"
proof -
  let ?s0 = "start_system 10 ''log.csv'' None"
  let ?s1 = "?s0\<lparr>ls_log := rq_record sample_event (ls_log ?s0)\<rparr>"
  let ?s3 = "?s1\<lparr>ls_log := rq_begin_stop (ls_log ?s1)\<rparr>"
  have p1: "rq_pending_batch (ls_log ?s1) = [sample_event\<lparr>re_seq := 1\<rparr>]" "rq_write_queue (ls_log ?s1) = []"
    by (simp_all add: start_system_def rq_record_def rq_batch_def new_request_log_def kCsvBatchSize_def Let_def)
  then have q3: "rq_write_queue (ls_log ?s3) \<noteq> []" "rq_stop (ls_log ?s3)"
    by (simp_all add: rq_begin_stop_def)
  have "log_runs ?s0 [sample_event] ?s1"
    using Record_step [OF Start Recorded, of ?s0 sample_event] by (simp add: start_system_def new_request_log_def)
  then have "log_runs ?s0 [sample_event] ?s3"
    by (rule Silent_step) (rule Destroyed, simp add: start_system_def rq_record_simps new_request_log_def)
  then have "log_runs ?s0 [sample_event] (open_csv ?s3)"
    by (rule Silent_step) (rule Opened, simp add: start_system_def)
  then have "log_runs ?s0 [sample_event] (take_batches (open_csv ?s3))"
    by (rule Silent_step) (rule Taken, insert q3, simp_all add: open_csv_def)
  then have "log_runs ?s0 [sample_event]
      (write_batches (rq_write_queue (ls_log ?s3)) (take_batches (open_csv ?s3)))"
    by (rule Silent_step) (rule Written, simp add: take_batches_def open_csv_def)
  then have "log_runs ?s0 [sample_event]
      (write_batches (rq_write_queue (ls_log ?s3)) (take_batches (open_csv ?s3))\<lparr>ls_pc := Exited\<rparr>)"
    by (rule Silent_step) (rule Stopped, insert q3, simp_all add: take_batches_def write_batches_def open_csv_def)
  then show ?thesis by (intro exI conjI) (assumption, simp)
qed


text \<open>The work left to a stopped system bounds its silent steps.\<close>

fun pc_rank :: "writer_pc \<Rightarrow> nat" where
  "pc_rank Opening = 3"
| "pc_rank (Writing _) = 2"
| "pc_rank Waiting = 1"
| "pc_rank _ = 0"

definition shutdown_work :: "log_system \<Rightarrow> nat" where
  "shutdown_work s = pc_rank (ls_pc s) + 2 * length (rq_write_queue (ls_log s))"

lemma stopped_step:
  assumes "rq_stop (ls_log s)" and "log_step s e s'"
  shows "e = None \<and> rq_stop (ls_log s') \<and> shutdown_work s' < shutdown_work s"
  using assms(2)
proof cases
  case Taken
  then show ?thesis using assms(1)
    by (cases "rq_write_queue (ls_log s)") (simp_all add: shutdown_work_def take_batches_def)
qed (use assms(1) in \<open>simp_all add: shutdown_work_def open_csv_def write_batches_def\<close>)

lemma stopped_can_step:
  assumes "rq_stop (ls_log s)" and "ls_pc s \<noteq> Exited" and "ls_pc s \<noteq> Disabled"
  shows "\<exists>s'. log_step s None s'"
proof (cases "ls_pc s")
  case Waiting
  then show ?thesis using assms(1)
    by (cases "rq_write_queue (ls_log s) = []") (blast intro: Stopped Taken)+
qed (use assms in \<open>auto intro: Opened Written\<close>)

text \<open>The destructor's join returns: after the stop flag is set no event can be recorded, every
  step of the system reduces the work left, and a writer that has not finished can always step.\<close>

theorem request_log_shutdown_terminates:
  assumes "rq_stop (ls_log s)"
  shows "(\<forall>e s'. log_step s e s' \<longrightarrow>
            e = None \<and> rq_stop (ls_log s') \<and> shutdown_work s' < shutdown_work s)
       \<and> (ls_pc s \<in> {Exited, Disabled} \<or> (\<exists>s'. log_step s None s'))"
  using stopped_step [OF assms] stopped_can_step [OF assms] by blast

lemma request_log_shutdown_terminates_witness:
  "\<exists>s'. log_step \<lparr>ls_log = rq_begin_stop (new_request_log 1 ''log.csv''), ls_pc = Waiting, ls_file = Some []\<rparr> None s'"
  using request_log_shutdown_terminates
    [of "\<lparr>ls_log = rq_begin_stop (new_request_log 1 ''log.csv''), ls_pc = Waiting, ls_file = Some []\<rparr>"]
  by (simp add: rq_begin_stop_def)

section \<open>The rows read back\<close>

text \<open>A reader of RFC 4180 text: records end with a line feed, cells with a comma, and a cell
  in double quotes may hold both, with doubled quotes.\<close>

datatype csv_mode = CellStart | Plain | Quoted | QuoteSeen

fun csv_read :: "csv_mode \<Rightarrow> string \<Rightarrow> string list \<Rightarrow> string \<Rightarrow> string list list" where
  "csv_read mode cell row [] = (if mode = CellStart \<and> row = [] then [] else [row @ [cell]])"
| "csv_read Quoted cell row (c # cs) =
     (if c = CHR 0x22 then csv_read QuoteSeen cell row cs else csv_read Quoted (cell @ [c]) row cs)"
| "csv_read mode cell row (c # cs) =
     (if c = CHR 0x2C then csv_read CellStart [] (row @ [cell]) cs
      else if c = CHR 0x0A then (row @ [cell]) # csv_read CellStart [] [] cs
      else if c = CHR 0x22 \<and> mode = CellStart then csv_read Quoted [] row cs
      else if c = CHR 0x22 \<and> mode = QuoteSeen then csv_read Quoted (cell @ [c]) row cs
      else csv_read Plain (cell @ [c]) row cs)"

definition csv_parse :: "string \<Rightarrow> string list list" where
  "csv_parse text = csv_read CellStart [] [] text"

definition csv_texts :: "RequestEvent \<Rightarrow> string list" where
  "csv_texts e = map csv_value
     [re_client_ip e, re_country e, re_isp e, re_user_agent e, re_method e, re_path e, re_domain e,
      re_listener e, re_block_reason e]"

definition csv_cells :: "RequestEvent \<Rightarrow> string list" where
  "csv_cells e =
     [show_nat (unat (re_seq e)), to_iso8601 (re_timestamp e), csv_value (re_client_ip e),
      csv_value (re_country e), csv_value (re_isp e), csv_value (re_user_agent e),
      csv_value (re_method e), csv_value (re_path e), csv_value (re_domain e),
      csv_value (re_listener e), if re_blocked e then ''true'' else ''false'',
      csv_value (re_block_reason e), show_nat (unat (re_bytes_transferred e)),
      show_int (re_status_code e)]"

definition plain_cell :: "string \<Rightarrow> bool" where
  "plain_cell v \<longleftrightarrow> set v \<inter> {CHR 0x2C, CHR 0x22, CHR 0x0A, CHR 0x0D} = {}"

lemma csv_read_plain:
  "plain_cell v \<Longrightarrow> mode = CellStart \<or> mode = Plain \<Longrightarrow> d = CHR 0x2C \<or> d = CHR 0x0A \<Longrightarrow>
     csv_read mode cell row (v @ d # rest) =
       (if d = CHR 0x2C then csv_read CellStart [] (row @ [cell @ v]) rest
        else (row @ [cell @ v]) # csv_read CellStart [] [] rest)"
proof (induction v arbitrary: mode cell)
  case (Cons c v)
  from Cons.prems(1) have c: "c \<noteq> CHR 0x2C" "c \<noteq> CHR 0x22" "c \<noteq> CHR 0x0A" and v: "plain_cell v"
    by (auto simp: plain_cell_def)
  with Cons.prems(2) have "csv_read mode cell row ((c # v) @ d # rest)
      = csv_read Plain (cell @ [c]) row (v @ d # rest)" by auto
  with Cons.IH [OF v _ Cons.prems(3), of Plain "cell @ [c]"] show ?case by simp
qed auto

lemma csv_read_quoted:
  "csv_read Quoted cell row (double_quotes v @ CHR 0x22 # rest) = csv_read QuoteSeen (cell @ v) row rest"
  by (induction v arbitrary: cell) simp_all

lemma csv_read_escape:
  "d = CHR 0x2C \<or> d = CHR 0x0A \<Longrightarrow>
     csv_read CellStart [] row (csv_escape v @ d # rest) =
       (if d = CHR 0x2C then csv_read CellStart [] (row @ [csv_value v]) rest
        else (row @ [csv_value v]) # csv_read CellStart [] [] rest)"
proof (cases "plain_cell (csv_value v)")
  case True
  moreover assume "d = CHR 0x2C \<or> d = CHR 0x0A"
  moreover from True have "csv_escape v = csv_value v"
    by (auto simp: csv_escape_def find_first_None plain_cell_def Let_def)
  ultimately show ?thesis by (simp add: csv_read_plain)
next
  case False
  moreover assume "d = CHR 0x2C \<or> d = CHR 0x0A"
  moreover from False have "csv_escape v = [CHR 0x22] @ double_quotes (csv_value v) @ [CHR 0x22]"
    by (auto simp: csv_escape_def find_first_None plain_cell_def Let_def)
  ultimately show ?thesis by (auto simp: csv_read_quoted)
qed

lemma plain_cell_append [simp]: "plain_cell (u @ v) \<longleftrightarrow> plain_cell u \<and> plain_cell v"
  by (auto simp: plain_cell_def)

lemma plain_cell_Cons:
  "plain_cell [] \<and> (plain_cell (c # v) \<longleftrightarrow> c \<notin> {CHR 0x2C, CHR 0x22, CHR 0x0A, CHR 0x0D} \<and> plain_cell v)"
  by (auto simp: plain_cell_def)

lemma plain_digits: "list_all isdigit v \<Longrightarrow> plain_cell v"
  by (auto simp: plain_cell_def list_all_iff isdigit_def)

lemma plain_show_nat: "plain_cell (show_nat n)"
  by (rule plain_digits) (rule show_nat_digits)

lemma plain_show_int: "plain_cell (show_int i)"
  using plain_show_nat by (auto simp: show_int_def plain_cell_def)

lemma plain_format_0d: "plain_cell (format_0d w i)"
  using plain_show_nat by (auto simp: format_0d_def pad_zeros_def plain_cell_def)

lemma plain_to_iso8601: "plain_cell (to_iso8601 tp)"
proof -
  have tk: "plain_cell (take n v)" if "plain_cell v" for n v
    using that by (auto simp: plain_cell_def dest: in_set_takeD)
  show ?thesis
    unfolding to_iso8601_def Let_def by (rule tk) (simp add: plain_format_0d plain_cell_Cons)
qed

lemma csv_read_row:
  "csv_read CellStart [] [] (to_csv_row e @ rest) = csv_cells e # csv_read CellStart [] [] rest"
proof -
  have b: "plain_cell (if re_blocked e then ''true'' else ''false'')"
    by (simp add: plain_cell_def)
  show ?thesis
    by (simp add: to_csv_row_def csv_read_escape csv_cells_def csv_read_plain plain_show_nat
        plain_show_int plain_to_iso8601 b del: csv_read.simps)
qed

lemma csv_value_safe: "\<not> formula_like (csv_value v)"
  by (simp add: csv_value_def formula_like_def)

text \<open>The CSV rows are lossless and inert: a reader of RFC 4180 text gets back exactly the cells
  of every event, however hostile its text fields are, and no text cell starts with a character a
  spreadsheet takes for a formula.\<close>

theorem csv_rows_roundtrip:
  "csv_parse (csv_text es) = map csv_cells es
     \<and> list_all (\<lambda>e. list_all (\<lambda>v. \<not> formula_like v) (csv_texts e)) es"
proof
  show "csv_parse (csv_text es) = map csv_cells es"
    unfolding csv_parse_def by (induction es) (simp_all add: csv_text_def csv_read_row)
  show "list_all (\<lambda>e. list_all (\<lambda>v. \<not> formula_like v) (csv_texts e)) es"
    by (simp add: csv_texts_def csv_value_safe list_all_iff)
qed

section \<open>The request log provides the stream's interface\<close>

definition rq_ok :: "RequestLog \<Rightarrow> bool" where
  "rq_ok l \<longleftrightarrow> rq_next_seq l \<noteq> 0 \<and> (\<forall>e \<in> set (rq_buffer l). re_seq e < rq_next_seq l)"

interpretation requests: sequenced_log rq_record rq_events_since rq_latest_seq re_seq
  stamp_event rq_buffer rq_capacity rq_ok
proof unfold_locales
  fix l :: RequestLog and e
  assume ok: "rq_ok l" and wrap: "unat (rq_latest_seq l) + 2 < 2 ^ 64"
  then have "rq_next_seq l < rq_next_seq l + 1 \<and> rq_next_seq l + 1 \<noteq> 0"
    by (intro u64_next_ok) (simp_all add: rq_latest_seq_def rq_ok_def)
  then show "rq_ok (rq_record e l)"
    using ok by (auto simp: rq_ok_def rq_record_simps trim_front_drop
        dest!: in_set_dropD intro: order.strict_trans)
qed (auto simp: rq_record_simps rq_latest_seq_def rq_events_since_def collect_since_eq
       trim_front_drop rq_ok_def intro: u64_pred_le)

lemma request_stream_delivers:
  assumes "rq_ok l"
    and "unat (rq_latest_seq l) + length (records_of steps) + 2 < 2 ^ 64"
    and "paced (rq_capacity l) 0 steps"
  shows "data_of (run_sse_session rq_record rq_events_since rq_latest_seq re_seq [] steps l)
       = take (length (records_of steps) - backlog 0 steps)
           (stamped stamp_event (rq_latest_seq l) (records_of steps))"
  by (rule requests.sse_session_delivers [OF assms])

text \<open>When the file could not be opened nobody empties the queue: every 100 recordings add a batch
  that is never freed.\<close>

lemma disabled_queue_grows:
  assumes "ls_pc s = Disabled" and "log_step s e s'" 
  shows "ls_pc s' = Disabled
    \<and> length (rq_write_queue (ls_log s)) \<le> length (rq_write_queue (ls_log s'))"
  using assms(2)
  by cases (use assms(1) in \<open>simp_all add: rq_record_def rq_batch_def rq_begin_stop_def Let_def\<close>)

end
