(* ===== verification/Blacklist_Ops.thy ===== *)
theory Blacklist_Ops
  imports Checks
begin

text \<open>
  \<^verbatim>\<open>config/blacklist_ops.*\<close>: adding, removing, clearing and bulk-importing the entries of the
  blacklist categories, of the IP whitelist and of the whitelisted routes.  The three surfaces
  share the contract \<open>entry_store\<close>, in which the import is proved correct once.
  Boost's \<open>make_address\<close> is a parameter; the clock is an argument.  An operation that throws has
  not changed the configuration, so its result is either the exception or the new configuration.
\<close>

section \<open>Categories\<close>

datatype BlacklistCategory =
  Ips | Routes | Countries | Isps | UserAgents | Referrers | BodyPatterns | FakeRoutes

definition parse_blacklist_category :: "string \<Rightarrow> BlacklistCategory option" where
  "parse_blacklist_category name =
     (if name = ''ips'' then Some Ips
      else if name = ''routes'' then Some Routes
      else if name = ''countries'' then Some Countries
      else if name = ''isps'' then Some Isps
      else if name = ''user_agents'' then Some UserAgents
      else if name = ''referrers'' then Some Referrers
      else if name = ''body_patterns'' then Some BodyPatterns
      else if name = ''fake_routes'' then Some FakeRoutes
      else None)"

fun blacklist_category_name :: "BlacklistCategory \<Rightarrow> string" where
  "blacklist_category_name Ips = ''ips''"
| "blacklist_category_name Routes = ''routes''"
| "blacklist_category_name Countries = ''countries''"
| "blacklist_category_name Isps = ''isps''"
| "blacklist_category_name UserAgents = ''user_agents''"
| "blacklist_category_name Referrers = ''referrers''"
| "blacklist_category_name BodyPatterns = ''body_patterns''"
| "blacklist_category_name FakeRoutes = ''fake_routes''"

lemma category_name_inverse:
  "parse_blacklist_category name = Some c \<longleftrightarrow> name = blacklist_category_name c"
  by (cases c) (auto simp: parse_blacklist_category_def)

section \<open>The lists\<close>

definition none_of :: "('a \<Rightarrow> bool) \<Rightarrow> 'a list \<Rightarrow> bool" where
  "none_of p xs \<longleftrightarrow> \<not> list_ex p xs"

text \<open>The end of both branches of \<open>add_ip_to\<close> and of the other adders.\<close>

definition push_entry :: "string \<Rightarrow> ticks \<Rightarrow> string \<Rightarrow> string \<Rightarrow> BlacklistEntry list \<Rightarrow> BlacklistEntry list" where
  "push_entry value now created_by source xs =
     (if none_of (\<lambda>e. entry_value e = value) xs
      then xs @ [\<lparr>entry_value = value, entry_created_at = now, entry_created_by = created_by,
                  entry_source = source\<rparr>]
      else xs)"

definition drop_entry :: "string \<Rightarrow> BlacklistEntry list \<Rightarrow> BlacklistEntry list" where
  "drop_entry value xs = filter (\<lambda>e. entry_value e \<noteq> value) xs"

definition add_ip_to ::
  "(string \<Rightarrow> ip_address option) \<Rightarrow> string \<Rightarrow> ticks \<Rightarrow> string \<Rightarrow> string
     \<Rightarrow> BlacklistEntry list \<Rightarrow> CidrRange list \<Rightarrow> (BlacklistEntry list \<times> CidrRange list) result" where
  "add_ip_to make_address value now created_by source exact_list cidr_list =
     (if find_char (CHR ''/'') value \<noteq> None
      then (case parse_cidr make_address now value of
              None \<Rightarrow> throw (InvalidArgument (''not a valid CIDR range: '' @ value))
            | Some rng \<Rightarrow>
                (let rng = rng\<lparr>cidr_source := source\<rparr> in
                 Inr (exact_list,
                   if none_of (\<lambda>r. cidr_text r = cidr_text rng) cidr_list then cidr_list @ [rng]
                   else cidr_list)))
      else (case make_address value of
              None \<Rightarrow> throw (InvalidArgument (''not a valid IP address: '' @ value))
            | Some _ \<Rightarrow> Inr (push_entry value now created_by source exact_list, cidr_list)))"

definition remove_ip_from ::
  "string \<Rightarrow> BlacklistEntry list \<Rightarrow> CidrRange list \<Rightarrow> BlacklistEntry list \<times> CidrRange list" where
  "remove_ip_from value exact_list cidr_list =
     (drop_entry value exact_list, filter (\<lambda>r. cidr_text r \<noteq> value) cidr_list)"

fun list_for :: "BlacklistCategory \<Rightarrow> BlacklistConfig \<Rightarrow> BlacklistEntry list result" where
  "list_for Routes b = Inr (bl_routes b)"
| "list_for Countries b = Inr (bl_countries b)"
| "list_for Isps b = Inr (bl_isps b)"
| "list_for UserAgents b = Inr (bl_user_agents b)"
| "list_for Referrers b = Inr (bl_referrers b)"
| "list_for BodyPatterns b = Inr (bl_body_patterns b)"
| "list_for FakeRoutes b = Inr (bl_fake_routes b)"
| "list_for Ips b = throw (LogicError ''list_for called with Ips category'')"

text \<open>Writing through the reference that \<open>list_for\<close> returns.\<close>

fun set_list_for :: "BlacklistCategory \<Rightarrow> BlacklistEntry list \<Rightarrow> BlacklistConfig \<Rightarrow> BlacklistConfig" where
  "set_list_for Routes xs b = b\<lparr>bl_routes := xs\<rparr>"
| "set_list_for Countries xs b = b\<lparr>bl_countries := xs\<rparr>"
| "set_list_for Isps xs b = b\<lparr>bl_isps := xs\<rparr>"
| "set_list_for UserAgents xs b = b\<lparr>bl_user_agents := xs\<rparr>"
| "set_list_for Referrers xs b = b\<lparr>bl_referrers := xs\<rparr>"
| "set_list_for BodyPatterns xs b = b\<lparr>bl_body_patterns := xs\<rparr>"
| "set_list_for FakeRoutes xs b = b\<lparr>bl_fake_routes := xs\<rparr>"
| "set_list_for Ips xs b = b"

section \<open>Blacklist operations\<close>

definition add_blacklist_entry ::
  "(string \<Rightarrow> ip_address option) \<Rightarrow> BlacklistCategory \<Rightarrow> string \<Rightarrow> ticks \<Rightarrow> string \<Rightarrow> string
     \<Rightarrow> RuntimeConfig \<Rightarrow> RuntimeConfig result" where
  "add_blacklist_entry make_address category value now created_by source config =
     (let b = cfg_blacklist config in
      if value = [] then throw (InvalidArgument ''value must not be empty'')
      else if category = Ips
      then bind_result (add_ip_to make_address value now created_by source (bl_ip_exact b) (bl_ip_cidrs b))
             (\<lambda>(ip_exact, ip_cidrs).
                Inr (config\<lparr>cfg_blacklist := b\<lparr>bl_ip_exact := ip_exact, bl_ip_cidrs := ip_cidrs\<rparr>\<rparr>))
      else if category = FakeRoutes \<and> hd value \<noteq> CHR ''/''
      then throw (InvalidArgument (''fake route must start with '' @ [CHR 0x27] @ ''/'' @ [CHR 0x27]))
      else bind_result (list_for category b)
             (\<lambda>xs. Inr (config\<lparr>cfg_blacklist :=
                set_list_for category (push_entry value now created_by source xs) b\<rparr>)))"

definition remove_blacklist_entry ::
  "BlacklistCategory \<Rightarrow> string \<Rightarrow> RuntimeConfig \<Rightarrow> RuntimeConfig result" where
  "remove_blacklist_entry category value config =
     (let b = cfg_blacklist config in
      if category = Ips
      then (case remove_ip_from value (bl_ip_exact b) (bl_ip_cidrs b) of (ip_exact, ip_cidrs) \<Rightarrow>
              Inr (config\<lparr>cfg_blacklist := b\<lparr>bl_ip_exact := ip_exact, bl_ip_cidrs := ip_cidrs\<rparr>\<rparr>))
      else bind_result (list_for category b)
             (\<lambda>xs. Inr (config\<lparr>cfg_blacklist := set_list_for category (drop_entry value xs) b\<rparr>)))"

definition clear_blacklist_category :: "BlacklistCategory \<Rightarrow> RuntimeConfig \<Rightarrow> RuntimeConfig result" where
  "clear_blacklist_category category config =
     (let b = cfg_blacklist config in
      if category = Ips
      then Inr (config\<lparr>cfg_blacklist := b\<lparr>bl_ip_exact := [], bl_ip_cidrs := []\<rparr>\<rparr>)
      else bind_result (list_for category b)
             (\<lambda>_. Inr (config\<lparr>cfg_blacklist := set_list_for category [] b\<rparr>)))"

section \<open>Whitelist operations\<close>

definition add_whitelist_entry ::
  "(string \<Rightarrow> ip_address option) \<Rightarrow> string \<Rightarrow> ticks \<Rightarrow> string \<Rightarrow> string
     \<Rightarrow> RuntimeConfig \<Rightarrow> RuntimeConfig result" where
  "add_whitelist_entry make_address value now created_by source config =
     (let w = cfg_whitelist config in
      if value = [] then throw (InvalidArgument ''value must not be empty'')
      else bind_result (add_ip_to make_address value now created_by source (wl_ip_exact w) (wl_ip_cidrs w))
             (\<lambda>(ip_exact, ip_cidrs).
                Inr (config\<lparr>cfg_whitelist := w\<lparr>wl_ip_exact := ip_exact, wl_ip_cidrs := ip_cidrs\<rparr>\<rparr>)))"

definition remove_whitelist_entry :: "string \<Rightarrow> RuntimeConfig \<Rightarrow> RuntimeConfig" where
  "remove_whitelist_entry value config =
     (let w = cfg_whitelist config in
      case remove_ip_from value (wl_ip_exact w) (wl_ip_cidrs w) of (ip_exact, ip_cidrs) \<Rightarrow>
        config\<lparr>cfg_whitelist := w\<lparr>wl_ip_exact := ip_exact, wl_ip_cidrs := ip_cidrs\<rparr>\<rparr>)"

definition clear_whitelist :: "RuntimeConfig \<Rightarrow> RuntimeConfig" where
  "clear_whitelist config =
     config\<lparr>cfg_whitelist := (cfg_whitelist config)\<lparr>wl_ip_exact := [], wl_ip_cidrs := []\<rparr>\<rparr>"

definition add_whitelist_route_entry ::
  "string \<Rightarrow> ticks \<Rightarrow> string \<Rightarrow> string \<Rightarrow> RuntimeConfig \<Rightarrow> RuntimeConfig result" where
  "add_whitelist_route_entry value now created_by source config =
     (let w = cfg_whitelist config in
      if value = [] then throw (InvalidArgument ''value must not be empty'')
      else Inr (config\<lparr>cfg_whitelist := w\<lparr>wl_routes := push_entry value now created_by source (wl_routes w)\<rparr>\<rparr>))"

definition remove_whitelist_route_entry :: "string \<Rightarrow> RuntimeConfig \<Rightarrow> RuntimeConfig" where
  "remove_whitelist_route_entry value config =
     config\<lparr>cfg_whitelist := (cfg_whitelist config)\<lparr>wl_routes := drop_entry value (wl_routes (cfg_whitelist config))\<rparr>\<rparr>"

definition clear_whitelist_routes :: "RuntimeConfig \<Rightarrow> RuntimeConfig" where
  "clear_whitelist_routes config = config\<lparr>cfg_whitelist := (cfg_whitelist config)\<lparr>wl_routes := []\<rparr>\<rparr>"

section \<open>Bulk import\<close>

function split_newlines :: "string \<Rightarrow> string list" where
  "split_newlines text =
     (case find_char (CHR 0x0A) text of
        None \<Rightarrow> [text]
      | Some newline \<Rightarrow> take newline text # split_newlines (drop (Suc newline) text))"
  by auto
termination
  by (relation "measure length") (auto dest: find_char_split(3))

declare split_newlines.simps [simp del]

text \<open>The lines \<open>for_each_list_line\<close> calls its argument with.\<close>

definition list_lines :: "string \<Rightarrow> string list" where
  "list_lines text =
     filter (\<lambda>line. \<not> (line = [] \<or> hd line = CHR ''#'')) (map strip (split_newlines text))"

record ImportResult =
  ir_added :: nat
  ir_skipped :: nat

text \<open>The three imports differ in the operation they call per line.  Only \<open>invalid_argument\<close> is
  caught.  \<open>clock i\<close> is the time at the \<open>i\<close>-th line.\<close>

fun import_lines ::
  "(string \<Rightarrow> ticks \<Rightarrow> RuntimeConfig \<Rightarrow> RuntimeConfig result) \<Rightarrow> (nat \<Rightarrow> ticks) \<Rightarrow> nat \<Rightarrow> string list
     \<Rightarrow> RuntimeConfig \<Rightarrow> ImportResult \<Rightarrow> (RuntimeConfig \<times> ImportResult) result" where
  "import_lines add clock i [] config res = Inr (config, res)"
| "import_lines add clock i (line # ls) config res =
     (case add line (clock i) config of
        Inr config' \<Rightarrow> import_lines add clock (Suc i) ls config' (res\<lparr>ir_added := Suc (ir_added res)\<rparr>)
      | Inl (InvalidArgument _) \<Rightarrow>
          import_lines add clock (Suc i) ls config (res\<lparr>ir_skipped := Suc (ir_skipped res)\<rparr>)
      | Inl e \<Rightarrow> Inl e)"

definition empty_import :: ImportResult where
  "empty_import = \<lparr>ir_added = 0, ir_skipped = 0\<rparr>"

definition import_blacklist_entries ::
  "(string \<Rightarrow> ip_address option) \<Rightarrow> (nat \<Rightarrow> ticks) \<Rightarrow> BlacklistCategory \<Rightarrow> string \<Rightarrow> string
     \<Rightarrow> RuntimeConfig \<Rightarrow> (RuntimeConfig \<times> ImportResult) result" where
  "import_blacklist_entries make_address clock category text created_by config =
     import_lines (\<lambda>line now. add_blacklist_entry make_address category line now created_by ''list'')
       clock 0 (list_lines text) config empty_import"

definition import_whitelist_entries ::
  "(string \<Rightarrow> ip_address option) \<Rightarrow> (nat \<Rightarrow> ticks) \<Rightarrow> string \<Rightarrow> string
     \<Rightarrow> RuntimeConfig \<Rightarrow> (RuntimeConfig \<times> ImportResult) result" where
  "import_whitelist_entries make_address clock text created_by config =
     import_lines (\<lambda>line now. add_whitelist_entry make_address line now created_by ''list'')
       clock 0 (list_lines text) config empty_import"

definition import_whitelist_route_entries ::
  "(nat \<Rightarrow> ticks) \<Rightarrow> string \<Rightarrow> string \<Rightarrow> RuntimeConfig \<Rightarrow> (RuntimeConfig \<times> ImportResult) result" where
  "import_whitelist_route_entries clock text created_by config =
     import_lines (\<lambda>line now. add_whitelist_route_entry line now created_by ''list'')
       clock 0 (list_lines text) config empty_import"

section \<open>The contract of the three surfaces\<close>

locale entry_store =
  fixes add :: "string \<Rightarrow> ticks \<Rightarrow> string \<Rightarrow> string \<Rightarrow> RuntimeConfig \<Rightarrow> RuntimeConfig result"
    and remove :: "string \<Rightarrow> RuntimeConfig \<Rightarrow> RuntimeConfig"
    and clear :: "RuntimeConfig \<Rightarrow> RuntimeConfig"
    and vals :: "RuntimeConfig \<Rightarrow> string set"
    and distinct_entries :: "RuntimeConfig \<Rightarrow> bool"
    and valid :: "string \<Rightarrow> bool"
  assumes add_valid: "valid v \<Longrightarrow> \<exists>c'. add v t by src c = Inr c'"
    and add_invalid: "\<not> valid v \<Longrightarrow> \<exists>msg. add v t by src c = Inl (InvalidArgument msg)"
    and vals_add: "add v t by src c = Inr c' \<Longrightarrow> vals c' = insert v (vals c)"
    and frame_add: "add v t by src c = Inr c' \<Longrightarrow> clear c' = clear c"
    and distinct_add: "add v t by src c = Inr c' \<Longrightarrow> distinct_entries c \<Longrightarrow> distinct_entries c'"
    and vals_remove: "vals (remove v c) = vals c - {v}"
    and frame_remove: "clear (remove v c) = clear c"
    and distinct_remove: "distinct_entries c \<Longrightarrow> distinct_entries (remove v c)"
    and vals_clear: "vals (clear c) = {}"
    and clear_clear: "clear (clear c) = clear c"
begin

lemma add_cases:
  "(\<exists>c'. valid v \<and> add v t by src c = Inr c' \<and> vals c' = insert v (vals c) \<and> clear c' = clear c
         \<and> (distinct_entries c \<longrightarrow> distinct_entries c'))
   \<or> (\<exists>msg. \<not> valid v \<and> add v t by src c = Inl (InvalidArgument msg))"
  using add_valid add_invalid vals_add frame_add distinct_add by (cases "valid v") metis+

lemma import_correct:
  "\<exists>c' r. import_lines (\<lambda>line now. add line now by src) clock i ls c res = Inr (c', r)
     \<and> vals c' = vals c \<union> {v \<in> set ls. valid v} \<and> clear c' = clear c
     \<and> ir_added r = ir_added res + length (filter valid ls)
     \<and> ir_skipped r = ir_skipped res + length (filter (\<lambda>v. \<not> valid v) ls)
     \<and> (distinct_entries c \<longrightarrow> distinct_entries c')"
proof (induction ls arbitrary: i c res)
  case (Cons v ls)
  from add_cases [of v "clock i" "by" src c] show ?case
  proof
    assume "\<exists>c'. valid v \<and> add v (clock i) by src c = Inr c' \<and> vals c' = insert v (vals c)
      \<and> clear c' = clear c \<and> (distinct_entries c \<longrightarrow> distinct_entries c')"
    then obtain c1 where c1: "valid v" "add v (clock i) by src c = Inr c1" "vals c1 = insert v (vals c)"
      "clear c1 = clear c" "distinct_entries c \<longrightarrow> distinct_entries c1" by blast
    from Cons.IH [of "Suc i" c1 "res\<lparr>ir_added := Suc (ir_added res)\<rparr>"] c1 show ?thesis by auto
  next
    assume "\<exists>msg. \<not> valid v \<and> add v (clock i) by src c = Inl (InvalidArgument msg)"
    with Cons.IH [of "Suc i" c "res\<lparr>ir_skipped := Suc (ir_skipped res)\<rparr>"] show ?thesis by auto
  qed
qed simp

lemma import_total:
  "\<exists>c' r. import_lines (\<lambda>line now. add line now by src) clock 0 ls c empty_import = Inr (c', r)
     \<and> vals c' = vals c \<union> {v \<in> set ls. valid v} \<and> clear c' = clear c
     \<and> ir_added r = length (filter valid ls) \<and> ir_added r + ir_skipped r = length ls
     \<and> (distinct_entries c \<longrightarrow> distinct_entries c')"
  using import_correct [of "by" src clock 0 ls c empty_import]
  by (auto simp: empty_import_def sum_length_filter_compl)

end

section \<open>The surfaces satisfy it\<close>

lemma vals_push [simp]:
  "entry_value ` set (push_entry v t u s xs) = insert v (entry_value ` set xs)"
  by (auto simp: push_entry_def none_of_def list_ex_iff)

lemma distinct_push:
  "distinct (map entry_value xs) \<Longrightarrow> distinct (map entry_value (push_entry v t u s xs))"
  by (auto simp: push_entry_def none_of_def list_ex_iff)

lemma vals_drop [simp]: "entry_value ` set (drop_entry v xs) = entry_value ` set xs - {v}"
  by (auto simp: drop_entry_def)

lemma distinct_drop: "distinct (map entry_value xs) \<Longrightarrow> distinct (map entry_value (drop_entry v xs))"
  by (simp add: drop_entry_def distinct_map_filter)

definition ip_vals :: "BlacklistEntry list \<Rightarrow> CidrRange list \<Rightarrow> string set" where
  "ip_vals xs rs = entry_value ` set xs \<union> cidr_text ` set rs"

definition ip_distinct :: "BlacklistEntry list \<Rightarrow> CidrRange list \<Rightarrow> bool" where
  "ip_distinct xs rs \<longleftrightarrow> distinct (map entry_value xs) \<and> distinct (map cidr_text rs)"

definition valid_ip :: "(string \<Rightarrow> ip_address option) \<Rightarrow> string \<Rightarrow> bool" where
  "valid_ip mk v \<longleftrightarrow> v \<noteq> [] \<and> (if CHR ''/'' \<in> set v then parse_cidr mk 0 v \<noteq> None else mk v \<noteq> None)"

lemma parse_cidr_now: "parse_cidr mk t v = None \<longleftrightarrow> parse_cidr mk t' v = None"
  by (auto simp: parse_cidr_def Let_def split: option.splits prod.splits)

lemma parse_cidr_text: "parse_cidr mk t v = Some r \<Longrightarrow> cidr_text r = v"
  by (auto simp: parse_cidr_iff)

lemma add_ip_to_valid:
  "v \<noteq> [] \<Longrightarrow> valid_ip mk v \<longleftrightarrow> (\<exists>p. add_ip_to mk v t u s xs rs = Inr p)"
  using parse_cidr_now [of mk t v 0]
  by (auto simp: valid_ip_def add_ip_to_def find_char_None Let_def split: option.splits)

lemma add_ip_to_invalid:
  "v \<noteq> [] \<Longrightarrow> \<not> valid_ip mk v \<Longrightarrow> \<exists>msg. add_ip_to mk v t u s xs rs = Inl (InvalidArgument msg)"
  using parse_cidr_now [of mk t v 0]
  by (auto simp: valid_ip_def add_ip_to_def find_char_None Let_def split: option.splits if_splits)

lemma add_ip_to_result:
  assumes "add_ip_to mk v t u s xs rs = Inr (xs', rs')"
  shows "xs' = push_entry v t u s xs \<and> rs' = rs
    \<or> xs' = xs \<and> (v \<in> cidr_text ` set rs \<and> rs' = rs
         \<or> v \<notin> cidr_text ` set rs \<and> (\<exists>r. rs' = rs @ [r] \<and> cidr_text r = v))"
proof (cases "find_char (CHR ''/'') v")
  case None
  then show ?thesis using assms by (auto simp: add_ip_to_def split: option.splits)
next
  case (Some i)
  with assms obtain r where r: "parse_cidr mk t v = Some r" by (auto simp: add_ip_to_def split: option.splits)
  then have v: "cidr_text r = v" by (rule parse_cidr_text)
  from assms Some r have "xs' = xs" and
    "rs' = (if \<exists>r \<in> set rs. cidr_text r = v then rs else rs @ [r\<lparr>cidr_source := s\<rparr>])"
    by (auto simp: add_ip_to_def Let_def none_of_def list_ex_iff v)
  moreover have "(\<exists>r \<in> set rs. cidr_text r = v) \<longleftrightarrow> v \<in> cidr_text ` set rs" by blast
  ultimately show ?thesis using v by (cases "v \<in> cidr_text ` set rs") simp_all
qed

lemma add_ip_to_vals:
  assumes "add_ip_to mk v t u s xs rs = Inr (xs', rs')"
  shows "ip_vals xs' rs' = insert v (ip_vals xs rs)" and "ip_distinct xs rs \<Longrightarrow> ip_distinct xs' rs'"
  using add_ip_to_result [OF assms]
  by (elim disjE conjE exE; simp add: ip_vals_def ip_distinct_def distinct_push insert_absorb)+

lemma remove_ip_from_vals:
  assumes "remove_ip_from v xs rs = (xs', rs')"
  shows "ip_vals xs' rs' = ip_vals xs rs - {v}" and "ip_distinct xs rs \<Longrightarrow> ip_distinct xs' rs'"
proof -
  have "xs' = drop_entry v xs" "cidr_text ` set rs' = cidr_text ` set rs - {v}"
    "rs' = filter (\<lambda>r. cidr_text r \<noteq> v) rs" using assms by (auto simp: remove_ip_from_def)
  then show "ip_vals xs' rs' = ip_vals xs rs - {v}" "ip_distinct xs rs \<Longrightarrow> ip_distinct xs' rs'"
    by (simp_all add: ip_vals_def ip_distinct_def distinct_drop distinct_map_filter Un_Diff)
qed

definition whitelist_vals :: "RuntimeConfig \<Rightarrow> string set" where
  "whitelist_vals c = ip_vals (wl_ip_exact (cfg_whitelist c)) (wl_ip_cidrs (cfg_whitelist c))"

definition whitelist_distinct :: "RuntimeConfig \<Rightarrow> bool" where
  "whitelist_distinct c = ip_distinct (wl_ip_exact (cfg_whitelist c)) (wl_ip_cidrs (cfg_whitelist c))"

lemma bind_pair_Inr:
  "bind_result r (\<lambda>(x, y). Inr (f x y)) = Inr c \<longleftrightarrow> (\<exists>x y. r = Inr (x, y) \<and> c = f x y)"
  by (cases r) auto

interpretation whitelist: entry_store "add_whitelist_entry mk" remove_whitelist_entry clear_whitelist
  whitelist_vals whitelist_distinct "valid_ip mk" for mk
proof unfold_locales
  fix v t u s and c :: RuntimeConfig
  show "\<exists>c'. add_whitelist_entry mk v t u s c = Inr c'" if "valid_ip mk v"
  proof -
    from that have "v \<noteq> []" by (simp add: valid_ip_def)
    with add_ip_to_valid [OF this] that show ?thesis
      by (fastforce simp: add_whitelist_entry_def Let_def bind_pair_Inr)
  qed
  show "\<exists>msg. add_whitelist_entry mk v t u s c = Inl (InvalidArgument msg)" if "\<not> valid_ip mk v"
  proof (cases "v = []")
    case False
    from add_ip_to_invalid [OF False that, of t u s "wl_ip_exact (cfg_whitelist c)"
        "wl_ip_cidrs (cfg_whitelist c)"] False
    show ?thesis by (auto simp: add_whitelist_entry_def Let_def)
  qed (simp add: add_whitelist_entry_def)
  fix c'
  assume "add_whitelist_entry mk v t u s c = Inr c'"
  then obtain xs rs where c': "c' = c\<lparr>cfg_whitelist := (cfg_whitelist c)\<lparr>wl_ip_exact := xs, wl_ip_cidrs := rs\<rparr>\<rparr>"
    and r: "add_ip_to mk v t u s (wl_ip_exact (cfg_whitelist c)) (wl_ip_cidrs (cfg_whitelist c)) = Inr (xs, rs)"
    by (auto simp: add_whitelist_entry_def Let_def bind_pair_Inr split: if_splits)
  show "whitelist_vals c' = insert v (whitelist_vals c)"
    using add_ip_to_vals(1) [OF r] by (simp add: c' whitelist_vals_def)
  show "clear_whitelist c' = clear_whitelist c" by (simp add: c' clear_whitelist_def)
  show "whitelist_distinct c'" if "whitelist_distinct c"
    using add_ip_to_vals(2) [OF r] that by (simp add: c' whitelist_distinct_def)
next
  fix v and c :: RuntimeConfig
  obtain xs rs where r: "remove_ip_from v (wl_ip_exact (cfg_whitelist c)) (wl_ip_cidrs (cfg_whitelist c)) = (xs, rs)"
    by fastforce
  show "whitelist_vals (remove_whitelist_entry v c) = whitelist_vals c - {v}"
    using remove_ip_from_vals(1) [OF r] by (simp add: remove_whitelist_entry_def whitelist_vals_def r)
  show "clear_whitelist (remove_whitelist_entry v c) = clear_whitelist c"
    by (simp add: remove_whitelist_entry_def clear_whitelist_def r)
  show "whitelist_distinct (remove_whitelist_entry v c)" if "whitelist_distinct c"
    using remove_ip_from_vals(2) [OF r] that by (simp add: remove_whitelist_entry_def whitelist_distinct_def r)
qed (simp_all add: clear_whitelist_def whitelist_vals_def ip_vals_def)

definition route_vals :: "RuntimeConfig \<Rightarrow> string set" where
  "route_vals c = entry_value ` set (wl_routes (cfg_whitelist c))"

definition route_distinct :: "RuntimeConfig \<Rightarrow> bool" where
  "route_distinct c = distinct (map entry_value (wl_routes (cfg_whitelist c)))"

interpretation whitelist_routes: entry_store add_whitelist_route_entry remove_whitelist_route_entry
  clear_whitelist_routes route_vals route_distinct "\<lambda>v. v \<noteq> []"
proof (unfold_locales, goal_cases)
  case (3 v t "by" src c c')
  then have "v \<noteq> []" "c' = c\<lparr>cfg_whitelist := (cfg_whitelist c)\<lparr>wl_routes := push_entry v t by src (wl_routes (cfg_whitelist c))\<rparr>\<rparr>"
    by (auto simp: add_whitelist_route_entry_def Let_def split: if_splits)
  then show ?case by (simp add: route_vals_def)
qed (auto simp: add_whitelist_route_entry_def remove_whitelist_route_entry_def clear_whitelist_routes_def
       route_distinct_def distinct_push distinct_drop Let_def split: if_splits, simp_all add: route_vals_def)

fun category_vals :: "BlacklistCategory \<Rightarrow> RuntimeConfig \<Rightarrow> string set" where
  "category_vals Ips c = ip_vals (bl_ip_exact (cfg_blacklist c)) (bl_ip_cidrs (cfg_blacklist c))"
| "category_vals cat c = (case list_for cat (cfg_blacklist c) of Inr xs \<Rightarrow> entry_value ` set xs | Inl _ \<Rightarrow> {})"

fun category_distinct :: "BlacklistCategory \<Rightarrow> RuntimeConfig \<Rightarrow> bool" where
  "category_distinct Ips c = ip_distinct (bl_ip_exact (cfg_blacklist c)) (bl_ip_cidrs (cfg_blacklist c))"
| "category_distinct cat c =
     (case list_for cat (cfg_blacklist c) of Inr xs \<Rightarrow> distinct (map entry_value xs) | Inl _ \<Rightarrow> True)"

fun valid_entry :: "(string \<Rightarrow> ip_address option) \<Rightarrow> BlacklistCategory \<Rightarrow> string \<Rightarrow> bool" where
  "valid_entry mk Ips v = valid_ip mk v"
| "valid_entry mk FakeRoutes v = (v \<noteq> [] \<and> hd v = CHR ''/'')"
| "valid_entry mk _ v = (v \<noteq> [])"

text \<open>Removing and clearing never throw; the configuration they return.\<close>

definition removed :: "BlacklistCategory \<Rightarrow> string \<Rightarrow> RuntimeConfig \<Rightarrow> RuntimeConfig" where
  "removed category v c = projr (remove_blacklist_entry category v c)"

definition cleared :: "BlacklistCategory \<Rightarrow> RuntimeConfig \<Rightarrow> RuntimeConfig" where
  "cleared category c = projr (clear_blacklist_category category c)"

lemma remove_never_throws: "remove_blacklist_entry category v c = Inr (removed category v c)"
  by (cases category) (simp_all add: removed_def remove_blacklist_entry_def remove_ip_from_def Let_def)

lemma clear_never_throws: "clear_blacklist_category category c = Inr (cleared category c)"
  by (cases category) (simp_all add: cleared_def clear_blacklist_category_def Let_def)

lemma list_category_store:
  assumes "category \<noteq> Ips"
  shows "entry_store (add_blacklist_entry mk category) (removed category) (cleared category)
    (category_vals category) (category_distinct category) (valid_entry mk category)"
  using assms
proof (unfold_locales, goal_cases)
  case (3 v t "by" src c c')
  then show ?case using assms
    by (cases category; clarsimp simp: add_blacklist_entry_def Let_def split: if_splits)
qed (use assms in \<open>cases category; auto simp: add_blacklist_entry_def removed_def cleared_def
       remove_blacklist_entry_def clear_blacklist_category_def distinct_push distinct_drop Let_def
       split: if_splits\<close>)+

lemma ip_category_store:
  "entry_store (add_blacklist_entry mk Ips) (removed Ips) (cleared Ips)
    (category_vals Ips) (category_distinct Ips) (valid_entry mk Ips)"
proof
  fix v t u s and c :: RuntimeConfig
  let ?b = "cfg_blacklist c"
  show "\<exists>c'. add_blacklist_entry mk Ips v t u s c = Inr c'" if "valid_entry mk Ips v"
  proof -
    from that have "v \<noteq> []" by (simp add: valid_ip_def)
    with add_ip_to_valid [OF this] that show ?thesis
      by (fastforce simp: add_blacklist_entry_def Let_def bind_pair_Inr)
  qed
  show "\<exists>msg. add_blacklist_entry mk Ips v t u s c = Inl (InvalidArgument msg)" if "\<not> valid_entry mk Ips v"
  proof (cases "v = []")
    case False
    from that have "\<not> valid_ip mk v" by simp
    from add_ip_to_invalid [OF False this, of t u s "bl_ip_exact ?b" "bl_ip_cidrs ?b"] False
    show ?thesis by (auto simp: add_blacklist_entry_def Let_def)
  qed (simp add: add_blacklist_entry_def)
  fix c'
  assume "add_blacklist_entry mk Ips v t u s c = Inr c'"
  then obtain xs rs where c': "c' = c\<lparr>cfg_blacklist := ?b\<lparr>bl_ip_exact := xs, bl_ip_cidrs := rs\<rparr>\<rparr>"
    and r: "add_ip_to mk v t u s (bl_ip_exact ?b) (bl_ip_cidrs ?b) = Inr (xs, rs)"
    by (auto simp: add_blacklist_entry_def Let_def bind_pair_Inr split: if_splits)
  show "category_vals Ips c' = insert v (category_vals Ips c)"
    using add_ip_to_vals(1) [OF r] by (simp add: c')
  show "cleared Ips c' = cleared Ips c" by (simp add: c' cleared_def clear_blacklist_category_def)
  show "category_distinct Ips c'" if "category_distinct Ips c"
    using add_ip_to_vals(2) [OF r] that by (simp add: c')
next
  fix v and c :: RuntimeConfig
  obtain xs rs where r: "remove_ip_from v (bl_ip_exact (cfg_blacklist c)) (bl_ip_cidrs (cfg_blacklist c)) = (xs, rs)"
    by fastforce
  show "category_vals Ips (removed Ips v c) = category_vals Ips c - {v}"
    using remove_ip_from_vals(1) [OF r] by (simp add: removed_def remove_blacklist_entry_def r)
  show "cleared Ips (removed Ips v c) = cleared Ips c"
    by (simp add: removed_def cleared_def remove_blacklist_entry_def clear_blacklist_category_def r)
  show "category_distinct Ips (removed Ips v c)" if "category_distinct Ips c"
    using remove_ip_from_vals(2) [OF r] that by (simp add: removed_def remove_blacklist_entry_def r)
qed (simp_all add: cleared_def clear_blacklist_category_def ip_vals_def)

interpretation blacklist: entry_store "add_blacklist_entry mk category" "removed category"
  "cleared category" "category_vals category" "category_distinct category" "valid_entry mk category"
  for mk category
  by (cases "category = Ips") (use ip_category_store list_category_store in auto)

section \<open>What the operations do\<close>

text \<open>Adding a blacklist entry accepts exactly the valid values of the category (an address or a
  CIDR range for IPs, a path for fake routes, anything non-empty otherwise).  It then makes the
  category hold that value and nothing else new, and leaves the rest of the configuration alone;
  otherwise it throws \<open>invalid_argument\<close>.\<close>

theorem add_blacklist_entry_correct:
  "case add_blacklist_entry mk category v now created_by source c of
     Inr c' \<Rightarrow> valid_entry mk category v
       \<and> category_vals category c' = insert v (category_vals category c)
       \<and> clear_blacklist_category category c' = clear_blacklist_category category c
   | Inl e \<Rightarrow> \<not> valid_entry mk category v \<and> (\<exists>msg. e = InvalidArgument msg)"
  using blacklist.add_cases [of mk category v now created_by source c]
  by (auto simp: clear_never_throws)

text \<open>Removing an entry and clearing a category never throw, and remove exactly that value, or
  all values, of that category only.\<close>

theorem remove_blacklist_entry_correct:
  "\<exists>c1 c2. remove_blacklist_entry category v c = Inr c1
     \<and> category_vals category c1 = category_vals category c - {v}
     \<and> clear_blacklist_category category c = Inr c2 \<and> category_vals category c2 = {}
     \<and> clear_blacklist_category category c1 = Inr c2"
  using blacklist.vals_remove blacklist.vals_clear blacklist.frame_remove
  by (simp add: remove_never_throws clear_never_throws)

text \<open>A bulk import never throws: it adds exactly the valid lines, counts every line once as added
  or skipped, and changes nothing outside the category.\<close>

theorem import_blacklist_correct:
  "\<exists>c' r. import_blacklist_entries mk clock category text created_by c = Inr (c', r)
     \<and> category_vals category c' =
         category_vals category c \<union> {v \<in> set (list_lines text). valid_entry mk category v}
     \<and> clear_blacklist_category category c' = clear_blacklist_category category c
     \<and> ir_added r = length (filter (valid_entry mk category) (list_lines text))
     \<and> ir_added r + ir_skipped r = length (list_lines text)"
  using blacklist.import_total [of mk category "created_by" "''list''" clock "list_lines text" c]
  by (auto simp: import_blacklist_entries_def clear_never_throws)

lemma import_whitelist_correct:
  "\<exists>c' r. import_whitelist_entries mk clock text created_by c = Inr (c', r)
     \<and> whitelist_vals c' = whitelist_vals c \<union> {v \<in> set (list_lines text). valid_ip mk v}
     \<and> clear_whitelist c' = clear_whitelist c
     \<and> ir_added r + ir_skipped r = length (list_lines text)"
  using whitelist.import_total [of mk created_by "''list''" clock "list_lines text" c]
  by (auto simp: import_whitelist_entries_def)

lemma import_whitelist_routes_correct:
  "\<exists>c' r. import_whitelist_route_entries clock text created_by c = Inr (c', r)
     \<and> route_vals c' = route_vals c \<union> {v \<in> set (list_lines text). v \<noteq> []}
     \<and> clear_whitelist_routes c' = clear_whitelist_routes c
     \<and> ir_added r + ir_skipped r = length (list_lines text)"
  using whitelist_routes.import_total [of created_by "''list''" clock "list_lines text" c]
  by (auto simp: import_whitelist_route_entries_def)

text \<open>The lines of an import: nothing of the text is lost when it is cut, and every line handed on
  is trimmed, not empty and not a comment.\<close>

lemma split_newlines_join:
  "concat (map (\<lambda>l. l @ [CHR 0x0A]) (split_newlines s)) = s @ [CHR 0x0A]
     \<and> list_all (\<lambda>l. CHR 0x0A \<notin> set l) (split_newlines s)"
proof (induction s rule: split_newlines.induct)
  case (1 s)
  show ?case
  proof (cases "find_char (CHR 0x0A) s")
    case None
    then show ?thesis unfolding split_newlines.simps [of s] by (simp add: None find_char_None [symmetric])
  next
    case (Some i)
    note e = find_char_split [OF Some]
    have "s @ [CHR 0x0A] = take i s @ CHR 0x0A # drop (Suc i) s @ [CHR 0x0A]"
      using e(1) by simp
    with "1" [OF Some] e(2) show ?thesis unfolding split_newlines.simps [of s] by (simp add: Some)
  qed
qed

lemma list_lines_trimmed:
  "l \<in> set (list_lines text) \<Longrightarrow> l \<noteq> [] \<and> hd l \<noteq> CHR ''#'' \<and> \<not> isspace (hd l) \<and> \<not> isspace (last l)"
  using strip_ends by (auto simp: list_lines_def)

text \<open>An address entry is stored as typed but compared with the canonical text of the client
  address, so an entry that is not canonical is accepted and never matches.\<close>

lemma noncanonical_ip_entry_inert:
  assumes "v \<noteq> []" and "CHR ''/'' \<notin> set v" and "mk v = Some a" and "to_string a \<noteq> v"
    and "\<not> blocked (check_ip_blacklist to_string (cfg_blacklist c) a)"
  shows "\<exists>c'. add_blacklist_entry mk Ips v now u s c = Inr c'
    \<and> v \<in> category_vals Ips c' \<and> \<not> blocked (check_ip_blacklist to_string (cfg_blacklist c') a)"
proof -
  let ?xs = "bl_ip_exact (cfg_blacklist c)"
  let ?c' = "c\<lparr>cfg_blacklist := (cfg_blacklist c)\<lparr>bl_ip_exact := push_entry v now u s ?xs\<rparr>\<rparr>"
  have add: "add_blacklist_entry mk Ips v now u s c = Inr ?c'"
    using assms(1-3) by (simp add: add_blacklist_entry_def add_ip_to_def find_char_None Let_def)
  moreover have "v \<in> category_vals Ips ?c'"
    using blacklist.vals_add [OF add] by simp
  moreover have "\<not> blocked (check_ip_blacklist to_string (cfg_blacklist ?c') a)"
    using assms(4,5) by (auto simp: check_ip_blacklist_blocked push_entry_def)
  ultimately show ?thesis by blast
qed

end
