(* ===== verification/Keyed_Lists.thy ===== *)
theory Keyed_Lists
  imports Prelude
begin

text \<open>
  Lists of records searched with \<open>std::find_if\<close> for a unique key: what insertion at the end,
  replacement and erasure through the found iterator mean for the map from keys to records.
\<close>

section \<open>A list of records with a unique key\<close>

text \<open>Sites (keyed by lower-cased domain) and status pages (keyed by code) obey the same laws.
  The abstract state is the finite map from keys to records.\<close>

definition keyed_ok :: "('a \<Rightarrow> 'k) \<Rightarrow> 'a list \<Rightarrow> bool" where
  "keyed_ok key xs \<longleftrightarrow> distinct (map key xs)"

definition keyed :: "('a \<Rightarrow> 'k) \<Rightarrow> 'a list \<Rightarrow> 'k \<Rightarrow> 'a option" where
  "keyed key xs k = find (\<lambda>x. key x = k) xs"

lemma keyed_Nil [simp]: "keyed key [] k = None"
  by (simp add: keyed_def)

lemma keyed_Cons [simp]: "keyed key (x # xs) k = (if key x = k then Some x else keyed key xs k)"
  by (simp add: keyed_def)

lemma keyed_join: "keyed key (xs @ ys) k = (case keyed key xs k of None \<Rightarrow> keyed key ys k | Some x \<Rightarrow> Some x)"
  by (induction xs) simp_all

lemma keyed_Some: "keyed key xs k = Some x \<Longrightarrow> x \<in> set xs \<and> key x = k"
  by (auto simp: keyed_def find_Some_iff)

lemma keyed_None: "keyed key xs k = None \<longleftrightarrow> (\<forall>x \<in> set xs. key x \<noteq> k)"
  by (auto simp: keyed_def find_None_iff)

lemma keyed_append: "keyed key xs (key x) = None \<Longrightarrow> keyed key (xs @ [x]) = (keyed key xs)(key x \<mapsto> x)"
  by (rule ext) (auto simp: keyed_join split: option.splits dest: keyed_Some)

lemma keyed_ok_append: "keyed_ok key xs \<Longrightarrow> keyed key xs (key x) = None \<Longrightarrow> keyed_ok key (xs @ [x])"
  by (auto simp: keyed_ok_def keyed_None)

text \<open>The search of the sources, and the state of the list around what it finds.\<close>

lemma find_keyed:
  "find_first (\<lambda>x. key x = k) xs = None \<longleftrightarrow> keyed key xs k = None"
  by (simp add: find_first_None keyed_None)

lemma find_keyed_split:
  assumes "find_first (\<lambda>x. key x = k) xs = Some i"
  obtains ys x zs where "xs = ys @ x # zs" "length ys = i" "key x = k" "\<forall>y \<in> set ys. key y \<noteq> k"
    "keyed key xs k = Some x" "keyed key ys k = None"
proof -
  from find_first_Some [OF assms] have i: "i < length xs" "key (xs ! i) = k"
    "\<forall>y \<in> set (take i xs). key y \<noteq> k" by auto
  have s: "xs = take i xs @ xs ! i # drop (Suc i) xs" using i(1) by (rule id_take_nth_drop)
  have "keyed key (take i xs) k = None" using i(3) by (simp add: keyed_None)
  then have "keyed key (take i xs @ xs ! i # drop (Suc i) xs) k = Some (xs ! i)"
    using i(2) by (simp add: keyed_join)
  then show thesis using that [OF s _ i(2,3)] s i(1,3) by (simp add: keyed_None)
qed

lemma keyed_update:
  assumes "find_first (\<lambda>x. key x = k) xs = Some i" and "keyed_ok key xs" and "key x' = k"
  shows "keyed key (xs[i := x']) = (keyed key xs)(k \<mapsto> x')" and "keyed_ok key (xs[i := x'])"
proof -
  from find_keyed_split [OF assms(1)] obtain ys x zs where
    e: "xs = ys @ x # zs" "length ys = i" "key x = k" "keyed key ys k = None" .
  then have u: "xs[i := x'] = ys @ x' # zs" by auto
  show "keyed_ok key (xs[i := x'])" using assms(2,3) e(1,3) unfolding u by (simp add: keyed_ok_def)
  show "keyed key (xs[i := x']) = (keyed key xs)(k \<mapsto> x')"
    unfolding u using assms(3) e(1,3,4) by (intro ext) (simp add: keyed_join split: option.split)
qed

lemma keyed_remove:
  assumes "find_first (\<lambda>x. key x = k) xs = Some i" and "keyed_ok key xs"
  shows "keyed key (take i xs @ drop (Suc i) xs) = (keyed key xs)(k := None)"
    and "keyed_ok key (take i xs @ drop (Suc i) xs)"
proof -
  from find_keyed_split [OF assms(1)] obtain ys x zs where
    e: "xs = ys @ x # zs" "length ys = i" "key x = k" "keyed key ys k = None" .
  then have u: "take i xs @ drop (Suc i) xs = ys @ zs" by auto
  show "keyed_ok key (take i xs @ drop (Suc i) xs)" using assms(2) e(1) unfolding u by (simp add: keyed_ok_def)
  have z: "keyed key zs k = None" using assms(2) e(1,3) by (simp add: keyed_ok_def keyed_None) (metis image_eqI)
  show "keyed key (take i xs @ drop (Suc i) xs) = (keyed key xs)(k := None)"
    unfolding u using e(1,3,4) z by (intro ext) (simp add: keyed_join split: option.split)
qed

end
