(* ===== verification/Site_Ops.thy ===== *)
theory Site_Ops
  imports Net_Utils Keyed_Lists
begin

text \<open>
  \<^verbatim>\<open>config/site_ops.*\<close> (the named sites of the configuration), \<^verbatim>\<open>config/site_lookup.*\<close> (which
  site answers a Host header or SNI name) and \<^verbatim>\<open>config/status_page_ops.*\<close> (per-status page
  overrides).  A function that throws has not changed the configuration.  The pointers of
  \<open>ResolvedSite\<close> are the values they point to, \<open>None\<close> for a null pointer.
\<close>

section \<open>Sites\<close>

record SiteUpdate =
  su_enabled :: "bool option"
  su_cert_file :: "string option"
  su_key_file :: "string option"
  su_upstream_host :: "string option"
  su_upstream_port :: "u16 option"

definition quoted :: "string \<Rightarrow> string" where
  "quoted s = [CHR 0x27] @ s @ [CHR 0x27]"

text \<open>\<open>std::find_if\<close>: the index stands for the iterator.\<close>

definition find_site :: "SiteConfig list \<Rightarrow> string \<Rightarrow> nat option" where
  "find_site sites domain = find_first (\<lambda>site. iequals (site_domain site) domain) sites"

definition add_site :: "SiteConfig \<Rightarrow> RuntimeConfig \<Rightarrow> RuntimeConfig result" where
  "add_site site config =
     (if site_domain site = []
         \<or> find_first (\<lambda>c. c \<in> {CHR '' '', CHR 0x09, CHR ''/''}) (site_domain site) \<noteq> None
      then throw (InvalidArgument (''site domain must be a bare hostname, e.g. '' @ quoted ''example.com''))
      else
        (let site = site\<lparr>site_domain := to_lower (site_domain site)\<rparr> in
         if find_site (cfg_sites config) (site_domain site) \<noteq> None
         then throw (InvalidArgument (''a site for domain '' @ quoted (site_domain site) @ '' already exists''))
         else Inr (config\<lparr>cfg_sites := cfg_sites config @ [site]\<rparr>)))"

definition no_site :: "string \<Rightarrow> error" where
  "no_site domain = InvalidArgument (''no site configured for domain '' @ quoted domain)"

definition apply_update :: "SiteUpdate \<Rightarrow> SiteConfig \<Rightarrow> SiteConfig" where
  "apply_update update site =
     (let site = (case su_enabled update of Some b \<Rightarrow> site\<lparr>site_enabled := b\<rparr> | None \<Rightarrow> site);
          site = (case su_cert_file update of Some f \<Rightarrow> site\<lparr>site_cert_file := f\<rparr> | None \<Rightarrow> site);
          site = (case su_key_file update of Some f \<Rightarrow> site\<lparr>site_key_file := f\<rparr> | None \<Rightarrow> site);
          site = (case su_upstream_host update of
                    Some h \<Rightarrow> site\<lparr>site_upstream := (site_upstream site)\<lparr>up_host := h\<rparr>\<rparr> | None \<Rightarrow> site)
      in (case su_upstream_port update of
            Some p \<Rightarrow> site\<lparr>site_upstream := (site_upstream site)\<lparr>up_port := p\<rparr>\<rparr> | None \<Rightarrow> site))"

definition update_site :: "string \<Rightarrow> SiteUpdate \<Rightarrow> RuntimeConfig \<Rightarrow> RuntimeConfig result" where
  "update_site domain update config =
     (case find_site (cfg_sites config) domain of
        None \<Rightarrow> throw (no_site domain)
      | Some i \<Rightarrow> Inr (config\<lparr>cfg_sites := (cfg_sites config)[i := apply_update update (cfg_sites config ! i)]\<rparr>))"

definition remove_site :: "string \<Rightarrow> RuntimeConfig \<Rightarrow> RuntimeConfig result" where
  "remove_site domain config =
     (case find_site (cfg_sites config) domain of
        None \<Rightarrow> throw (no_site domain)
      | Some i \<Rightarrow> Inr (config\<lparr>cfg_sites := take i (cfg_sites config) @ drop (Suc i) (cfg_sites config)\<rparr>))"

section \<open>Lookup\<close>

record ResolvedSite =
  rs_upstream :: UpstreamConfig
  rs_cert_file :: "string option"
  rs_key_file :: "string option"
  rs_enabled :: bool
  rs_matched :: bool

definition strip_port :: "string \<Rightarrow> string" where
  "strip_port host =
     (case rfind_char (CHR '':'') host of
        None \<Rightarrow> host
      | Some colon \<Rightarrow>
          (let port_part = drop (Suc colon) host in
           if port_part = [] \<or> \<not> list_all isdigit port_part then host else take colon host))"

definition optional_file :: "string \<Rightarrow> string option" where
  "optional_file file = (if file = [] then None else Some file)"

fun resolve_among :: "string \<Rightarrow> UpstreamConfig \<Rightarrow> SiteConfig list \<Rightarrow> ResolvedSite" where
  "resolve_among name fallback [] =
     \<lparr>rs_upstream = fallback, rs_cert_file = None, rs_key_file = None, rs_enabled = True,
      rs_matched = False\<rparr>"
| "resolve_among name fallback (site # sites) =
     (if iequals name (site_domain site)
      then \<lparr>rs_upstream = site_upstream site, rs_cert_file = optional_file (site_cert_file site),
            rs_key_file = optional_file (site_key_file site), rs_enabled = site_enabled site,
            rs_matched = True\<rparr>
      else resolve_among name fallback sites)"

definition resolve_site :: "RuntimeConfig \<Rightarrow> string \<Rightarrow> ResolvedSite" where
  "resolve_site config host_or_sni = resolve_among (strip_port host_or_sni) (cfg_upstream config) (cfg_sites config)"

section \<open>Status pages\<close>

definition find_status_page :: "StatusPageEntry list \<Rightarrow> int \<Rightarrow> nat option" where
  "find_status_page pages status = find_first (\<lambda>entry. sp_code entry = status) pages"

definition validate_code :: "int \<Rightarrow> unit result" where
  "validate_code status =
     (if status < 100 \<or> status > 599
      then throw (InvalidArgument ''status code must be between 100 and 599'') else Inr ())"

definition set_status_pages :: "StatusPageEntry list \<Rightarrow> RuntimeConfig \<Rightarrow> RuntimeConfig" where
  "set_status_pages pages config = config\<lparr>cfg_pages := (cfg_pages config)\<lparr>status_pages := pages\<rparr>\<rparr>"

definition add_status_page :: "int \<Rightarrow> string \<Rightarrow> ticks \<Rightarrow> RuntimeConfig \<Rightarrow> RuntimeConfig result" where
  "add_status_page status html now config =
     (let pages = status_pages (cfg_pages config) in
      bind_result (validate_code status) (\<lambda>_.
        if find_status_page pages status \<noteq> None
        then throw (InvalidArgument (''a page override for status '' @ show_int status @ '' already exists''))
        else Inr (set_status_pages (pages @ [\<lparr>sp_code = status, sp_html = html, sp_created_at = now\<rparr>]) config)))"

definition no_page :: "int \<Rightarrow> error" where
  "no_page status = InvalidArgument (''no page override configured for status '' @ show_int status)"

definition update_status_page :: "int \<Rightarrow> string \<Rightarrow> RuntimeConfig \<Rightarrow> RuntimeConfig result" where
  "update_status_page status html config =
     (let pages = status_pages (cfg_pages config) in
      case find_status_page pages status of
        None \<Rightarrow> throw (no_page status)
      | Some i \<Rightarrow> Inr (set_status_pages (pages[i := (pages ! i)\<lparr>sp_html := html\<rparr>]) config))"

definition remove_status_page :: "int \<Rightarrow> RuntimeConfig \<Rightarrow> RuntimeConfig result" where
  "remove_status_page status config =
     (let pages = status_pages (cfg_pages config) in
      case find_status_page pages status of
        None \<Rightarrow> throw (no_page status)
      | Some i \<Rightarrow> Inr (set_status_pages (take i pages @ drop (Suc i) pages) config))"

section \<open>Sites: the map from domains to sites\<close>

definition site_key :: "SiteConfig \<Rightarrow> string" where
  "site_key site = to_lower (site_domain site)"

definition bare_hostname :: "string \<Rightarrow> bool" where
  "bare_hostname d \<longleftrightarrow> d \<noteq> [] \<and> set d \<inter> {CHR '' '', CHR 0x09, CHR ''/''} = {}"

definition sites_ok :: "RuntimeConfig \<Rightarrow> bool" where
  "sites_ok c \<longleftrightarrow> keyed_ok site_key (cfg_sites c)
     \<and> list_all (\<lambda>s. bare_hostname (site_domain s) \<and> site_domain s = to_lower (site_domain s)) (cfg_sites c)"

definition site_of :: "RuntimeConfig \<Rightarrow> string \<Rightarrow> SiteConfig option" where
  "site_of c domain = keyed site_key (cfg_sites c) (to_lower domain)"

lemma find_site_keyed: "find_site sites domain = find_first (\<lambda>s. site_key s = to_lower domain) sites"
  by (simp add: find_site_def site_key_def iequals_iff)

lemma find_site_None: "find_site (cfg_sites c) domain = None \<longleftrightarrow> site_of c domain = None"
  by (simp add: find_site_keyed find_keyed site_of_def)

lemma bare_hostname_iff:
  "bare_hostname d \<longleftrightarrow> \<not> (d = [] \<or> find_first (\<lambda>c. c \<in> {CHR '' '', CHR 0x09, CHR ''/''}) d \<noteq> None)"
  by (auto simp: bare_hostname_def find_first_None)

lemma bare_hostname_lower: "bare_hostname d \<Longrightarrow> bare_hostname (to_lower d)"
proof -
  assume d: "bare_hostname d"
  have "tolower c \<notin> {CHR '' '', CHR 0x09, CHR ''/''}" if "c \<in> set d" for c
  proof -
    have "code (tolower c) \<notin> {code (CHR '' ''), code (CHR 0x09), code (CHR ''/'')} \<or> tolower c = c"
      by (simp add: tolower_def)
    then show ?thesis using that d by (auto simp: bare_hostname_def)
  qed
  with d show ?thesis unfolding bare_hostname_def to_lower_def by fastforce
qed

lemma apply_update_domain [simp]: "site_domain (apply_update u s) = site_domain s"
  by (simp add: apply_update_def Let_def split: option.splits)

lemma add_site_iff:
  "add_site site c = Inr c' \<longleftrightarrow>
     bare_hostname (site_domain site) \<and> site_of c (site_domain site) = None
     \<and> c' = c\<lparr>cfg_sites := cfg_sites c @ [site\<lparr>site_domain := to_lower (site_domain site)\<rparr>]\<rparr>"
  by (auto simp: add_site_def bare_hostname_iff Let_def find_site_None site_of_def)

lemma site_of_append:
  assumes "site_of c (site_domain site) = None"
  shows "keyed site_key (cfg_sites c @ [site\<lparr>site_domain := to_lower (site_domain site)\<rparr>]) =
     (keyed site_key (cfg_sites c))(to_lower (site_domain site) \<mapsto> site\<lparr>site_domain := to_lower (site_domain site)\<rparr>)"
  using keyed_append [of site_key "cfg_sites c" "site\<lparr>site_domain := to_lower (site_domain site)\<rparr>"] assms
  by (simp add: site_key_def site_of_def)

lemma site_of_update:
  fixes u :: SiteUpdate
  assumes "find_site (cfg_sites c) domain = Some i" and "sites_ok c"
  defines "site \<equiv> apply_update u (cfg_sites c ! i)"
  shows "keyed site_key ((cfg_sites c)[i := site]) = (keyed site_key (cfg_sites c))(to_lower domain \<mapsto> site)"
    and "keyed_ok site_key ((cfg_sites c)[i := site])"
    and "cfg_sites c ! i \<in> set (cfg_sites c)" and "site_of c domain = Some (cfg_sites c ! i)"
proof -
  have f: "find_first (\<lambda>s. site_key s = to_lower domain) (cfg_sites c) = Some i"
    using assms(1) by (simp add: find_site_keyed)
  from find_first_Some [OF f] have i: "i < length (cfg_sites c)" "site_key (cfg_sites c ! i) = to_lower domain"
    by auto
  then have k: "site_key site = to_lower domain" by (simp add: site_def site_key_def)
  have ok: "keyed_ok site_key (cfg_sites c)" using assms(2) by (simp add: sites_ok_def)
  show "keyed site_key ((cfg_sites c)[i := site]) = (keyed site_key (cfg_sites c))(to_lower domain \<mapsto> site)"
    "keyed_ok site_key ((cfg_sites c)[i := site])" by (rule keyed_update [OF f ok k])+
  show "cfg_sites c ! i \<in> set (cfg_sites c)" using i(1) by simp
  from find_keyed_split [OF f] obtain ys x zs where "cfg_sites c = ys @ x # zs" "length ys = i"
    "keyed site_key (cfg_sites c) (to_lower domain) = Some x" .
  then show "site_of c domain = Some (cfg_sites c ! i)" by (auto simp: site_of_def)
qed

lemma site_of_remove:
  assumes "find_site (cfg_sites c) domain = Some i" and "sites_ok c"
  shows "keyed site_key (take i (cfg_sites c) @ drop (Suc i) (cfg_sites c)) =
      (keyed site_key (cfg_sites c))(to_lower domain := None)"
    and "keyed_ok site_key (take i (cfg_sites c) @ drop (Suc i) (cfg_sites c))"
proof -
  have f: "find_first (\<lambda>s. site_key s = to_lower domain) (cfg_sites c) = Some i"
    using assms(1) by (simp add: find_site_keyed)
  have ok: "keyed_ok site_key (cfg_sites c)" using assms(2) by (simp add: sites_ok_def)
  show "keyed site_key (take i (cfg_sites c) @ drop (Suc i) (cfg_sites c)) =
      (keyed site_key (cfg_sites c))(to_lower domain := None)"
    "keyed_ok site_key (take i (cfg_sites c) @ drop (Suc i) (cfg_sites c))"
    by (rule keyed_remove [OF f ok])+
qed

section \<open>Operations on sites, and reachable configurations\<close>

datatype site_op = AddSite SiteConfig | UpdateSite string SiteUpdate | RemoveSite string

fun site_step :: "site_op \<Rightarrow> RuntimeConfig \<Rightarrow> RuntimeConfig result" where
  "site_step (AddSite s) c = add_site s c"
| "site_step (UpdateSite d u) c = update_site d u c"
| "site_step (RemoveSite d) c = remove_site d c"

text \<open>The effect of an operation on the map from lower-cased domains to sites.\<close>

fun site_effect :: "site_op \<Rightarrow> (string \<Rightarrow> SiteConfig option) \<Rightarrow> (string \<Rightarrow> SiteConfig option) option" where
  "site_effect (AddSite s) m =
     (let d = to_lower (site_domain s) in
      if bare_hostname (site_domain s) \<and> m d = None then Some (m(d \<mapsto> s\<lparr>site_domain := d\<rparr>)) else None)"
| "site_effect (UpdateSite d u) m =
     (case m (to_lower d) of None \<Rightarrow> None | Some s \<Rightarrow> Some (m(to_lower d \<mapsto> apply_update u s)))"
| "site_effect (RemoveSite d) m =
     (if m (to_lower d) = None then None else Some (m(to_lower d := None)))"

definition site_map :: "RuntimeConfig \<Rightarrow> string \<Rightarrow> SiteConfig option" where
  "site_map c = keyed site_key (cfg_sites c)"

lemma site_step_effect:
  assumes ok: "sites_ok c"
  shows "case site_step op c of
     Inr c' \<Rightarrow> sites_ok c' \<and> site_effect op (site_map c) = Some (site_map c')
       \<and> c' = c\<lparr>cfg_sites := cfg_sites c'\<rparr>
   | Inl e \<Rightarrow> site_effect op (site_map c) = None \<and> (\<exists>msg. e = InvalidArgument msg)"
proof (cases op)
  case (AddSite s)
  show ?thesis
  proof (cases "bare_hostname (site_domain s) \<and> site_of c (site_domain s) = None")
    case True
    let ?s = "s\<lparr>site_domain := to_lower (site_domain s)\<rparr>"
    have a: "add_site s c = Inr (c\<lparr>cfg_sites := cfg_sites c @ [?s]\<rparr>)" using True by (simp add: add_site_iff)
    have "keyed_ok site_key (cfg_sites c @ [?s])"
      using ok True by (intro keyed_ok_append) (simp_all add: sites_ok_def site_of_def site_key_def)
    then have "sites_ok (c\<lparr>cfg_sites := cfg_sites c @ [?s]\<rparr>)"
      using ok True by (simp add: sites_ok_def bare_hostname_lower)
    then show ?thesis
      using AddSite a True site_of_append [of c s] by (simp add: site_map_def site_of_def Let_def)
  next
    case False
    then have n: "site_effect op (site_map c) = None"
      using AddSite by (auto simp: site_map_def site_of_def Let_def)
    moreover from False have "\<exists>msg. add_site s c = Inl (InvalidArgument msg)"
      by (auto simp: add_site_def bare_hostname_iff Let_def find_site_None site_of_def)
    ultimately show ?thesis using AddSite by auto
  qed
next
  case (UpdateSite d u)
  show ?thesis
  proof (cases "find_site (cfg_sites c) d")
    case None
    then show ?thesis using UpdateSite find_site_None [of c d]
      by (auto simp: update_site_def no_site_def site_map_def site_of_def)
  next
    case (Some i)
    note e = site_of_update(1,2) [OF Some ok, of u] site_of_update(3,4) [OF Some ok]
    let ?s = "apply_update u (cfg_sites c ! i)"
    have "sites_ok (c\<lparr>cfg_sites := (cfg_sites c)[i := ?s]\<rparr>)"
      using ok e(2,3) by (auto simp: sites_ok_def list_all_iff dest!: set_update_subset_insert [THEN subsetD])
    then show ?thesis
      using UpdateSite Some e(1,4) by (simp add: update_site_def site_map_def site_of_def)
  qed
next
  case (RemoveSite d)
  show ?thesis
  proof (cases "find_site (cfg_sites c) d")
    case None
    then show ?thesis using RemoveSite find_site_None [of c d]
      by (auto simp: remove_site_def no_site_def site_map_def site_of_def)
  next
    case (Some i)
    note e = site_of_remove [OF Some ok]
    have "sites_ok (c\<lparr>cfg_sites := take i (cfg_sites c) @ drop (Suc i) (cfg_sites c)\<rparr>)"
      using ok e(2) by (auto simp: sites_ok_def list_all_iff dest: in_set_takeD in_set_dropD)
    moreover have "site_map c (to_lower d) \<noteq> None"
      using Some find_site_None [of c d] by (auto simp: site_map_def site_of_def)
    ultimately show ?thesis using RemoveSite Some e(1) by (simp add: remove_site_def site_map_def)
  qed
qed

lemma strip_port_none: "CHR '':'' \<notin> set h \<Longrightarrow> strip_port h = h"
  by (simp add: strip_port_def rfind_char_def find_char_None [THEN iffD2])

lemma rfind_char_append: "c \<notin> set ys \<Longrightarrow> rfind_char c (xs @ c # ys) = Some (length xs)"
  by (simp add: rfind_char_def find_char_append)

lemma strip_port_port:
  "p \<noteq> [] \<Longrightarrow> list_all isdigit p \<Longrightarrow> strip_port (h @ CHR '':'' # p) = h"
proof -
  assume p: "p \<noteq> []" "list_all isdigit p"
  then have "CHR '':'' \<notin> set p" by (auto simp: list_all_iff isdigit_def)
  then show ?thesis using p by (simp add: strip_port_def rfind_char_append Let_def)
qed

lemma resolve_among_eq:
  "resolve_among name up sites =
     (case keyed site_key sites (to_lower name) of
        None \<Rightarrow> \<lparr>rs_upstream = up, rs_cert_file = None, rs_key_file = None, rs_enabled = True, rs_matched = False\<rparr>
      | Some s \<Rightarrow> \<lparr>rs_upstream = site_upstream s, rs_cert_file = optional_file (site_cert_file s),
                   rs_key_file = optional_file (site_key_file s), rs_enabled = site_enabled s,
                   rs_matched = True\<rparr>)"
  by (induction sites) (auto simp: iequals_iff site_key_def)

text \<open>Site management refines a finite map from lower-cased domains to sites: from a well-formed
  configuration every operation either has exactly the effect of its map update, keeps the
  configuration well-formed (bare lower-case host names, unique up to case) and changes nothing
  but the sites, or is refused with \<open>invalid_argument\<close> exactly when the map update is undefined.\<close>

theorem site_ops_refine_map:
  assumes "sites_ok c"
  shows "case site_step op c of
     Inr c' \<Rightarrow> sites_ok c' \<and> site_effect op (site_map c) = Some (site_map c')
       \<and> c' = c\<lparr>cfg_sites := cfg_sites c'\<rparr>
   | Inl e \<Rightarrow> site_effect op (site_map c) = None \<and> (\<exists>msg. e = InvalidArgument msg)"
  by (rule site_step_effect [OF assms])

lemma site_ops_refine_map_witness:
  "site_effect (AddSite (default_site\<lparr>site_domain := ''A.b''\<rparr>)) (site_map default_config)
     = Some (site_map (default_config\<lparr>cfg_sites := [default_site\<lparr>site_domain := ''a.b''\<rparr>]\<rparr>))"
proof -
  have ok: "sites_ok default_config" by (simp add: sites_ok_def keyed_ok_def default_config_def)
  have low: "to_lower ''A.b'' = ''a.b''" by (simp add: to_lower_def tolower_def char_of_def bit_0)
  have "site_step (AddSite (default_site\<lparr>site_domain := ''A.b''\<rparr>)) default_config =
      Inr (default_config\<lparr>cfg_sites := [default_site\<lparr>site_domain := ''a.b''\<rparr>]\<rparr>)"
    by (simp add: add_site_def Let_def low find_site_def default_config_def)
  then show ?thesis using site_ops_refine_map [OF ok, of "AddSite (default_site\<lparr>site_domain := ''A.b''\<rparr>)"]
    by simp
qed

text \<open>A request is routed by its Host name without port, compared with the configured domains for
  equality up to ASCII case only: to the site of that domain when there is one and to the
  default site otherwise, so no prefix, suffix or substring of a domain can select it.\<close>

theorem resolve_site_correct:
  "resolve_site c host =
     (case site_map c (to_lower (strip_port host)) of
        None \<Rightarrow> \<lparr>rs_upstream = cfg_upstream c, rs_cert_file = None, rs_key_file = None, rs_enabled = True,
                  rs_matched = False\<rparr>
      | Some s \<Rightarrow> \<lparr>rs_upstream = site_upstream s, rs_cert_file = optional_file (site_cert_file s),
                   rs_key_file = optional_file (site_key_file s), rs_enabled = site_enabled s,
                   rs_matched = True\<rparr>)
   \<and> (rs_matched (resolve_site c host) \<longleftrightarrow>
        (\<exists>s \<in> set (cfg_sites c). to_lower (site_domain s) = to_lower (strip_port host)))"
  using keyed_None [of site_key "cfg_sites c" "to_lower (strip_port host)"]
  by (auto simp: resolve_site_def resolve_among_eq site_map_def site_key_def split: option.splits)

section \<open>Status pages: the map from codes to pages\<close>

definition pages_ok :: "RuntimeConfig \<Rightarrow> bool" where
  "pages_ok c \<longleftrightarrow> keyed_ok sp_code (status_pages (cfg_pages c))
     \<and> list_all (\<lambda>p. 100 \<le> sp_code p \<and> sp_code p \<le> 599) (status_pages (cfg_pages c))"

definition page_map :: "RuntimeConfig \<Rightarrow> int \<Rightarrow> StatusPageEntry option" where
  "page_map c = keyed sp_code (status_pages (cfg_pages c))"

lemma find_status_page_None: "find_status_page pages n = None \<longleftrightarrow> keyed sp_code pages n = None"
  by (simp add: find_status_page_def find_keyed)

lemma status_pages_set [simp]: "status_pages (cfg_pages (set_status_pages ps c)) = ps"
  by (simp add: set_status_pages_def)

lemma add_status_page_effect:
  assumes "pages_ok c"
  shows "case add_status_page n html now c of
     Inr c' \<Rightarrow> 100 \<le> n \<and> n \<le> 599 \<and> page_map c n = None \<and> pages_ok c'
       \<and> page_map c' = (page_map c)(n \<mapsto> \<lparr>sp_code = n, sp_html = html, sp_created_at = now\<rparr>)
   | Inl e \<Rightarrow> \<not> (100 \<le> n \<and> n \<le> 599 \<and> page_map c n = None)"
  using assms keyed_append [of sp_code "status_pages (cfg_pages c)" "\<lparr>sp_code = n, sp_html = html, sp_created_at = now\<rparr>"]
    keyed_ok_append [of sp_code "status_pages (cfg_pages c)" "\<lparr>sp_code = n, sp_html = html, sp_created_at = now\<rparr>"]
  by (auto simp: add_status_page_def validate_code_def Let_def find_status_page_None page_map_def pages_ok_def)

lemma update_status_page_effect:
  assumes "pages_ok c"
  shows "case update_status_page n html c of
     Inr c' \<Rightarrow> pages_ok c' \<and> (\<exists>p. page_map c n = Some p \<and> page_map c' = (page_map c)(n \<mapsto> p\<lparr>sp_html := html\<rparr>))
   | Inl e \<Rightarrow> page_map c n = None"
proof (cases "find_status_page (status_pages (cfg_pages c)) n")
  case (Some i)
  let ?ps = "status_pages (cfg_pages c)"
  have f: "find_first (\<lambda>p. sp_code p = n) ?ps = Some i" using Some by (simp add: find_status_page_def)
  from find_keyed_split [OF f] obtain ys x zs where x: "?ps = ys @ x # zs" "length ys = i" "sp_code x = n"
    "keyed sp_code ?ps n = Some x" .
  then have xi: "?ps ! i = x" by (metis nth_append_length)
  have ok: "keyed_ok sp_code ?ps" using assms by (simp add: pages_ok_def)
  note u = keyed_update [OF f ok, of "x\<lparr>sp_html := html\<rparr>"]
  have "pages_ok (set_status_pages (?ps[i := x\<lparr>sp_html := html\<rparr>]) c)"
    using assms u(2) x by (auto simp: pages_ok_def list_all_iff dest!: set_update_subset_insert [THEN subsetD])
  then show ?thesis using Some u(1) x(3,4) by (simp add: update_status_page_def Let_def xi page_map_def)
next
  case None
  with find_status_page_None [of "status_pages (cfg_pages c)" n] show ?thesis
    by (simp add: update_status_page_def Let_def page_map_def)
qed

lemma remove_status_page_effect:
  assumes "pages_ok c"
  shows "case remove_status_page n c of
     Inr c' \<Rightarrow> pages_ok c' \<and> page_map c n \<noteq> None \<and> page_map c' = (page_map c)(n := None)
   | Inl e \<Rightarrow> page_map c n = None"
proof (cases "find_status_page (status_pages (cfg_pages c)) n")
  case (Some i)
  let ?ps = "status_pages (cfg_pages c)"
  have f: "find_first (\<lambda>p. sp_code p = n) ?ps = Some i" using Some by (simp add: find_status_page_def)
  have ok: "keyed_ok sp_code ?ps" using assms by (simp add: pages_ok_def)
  note u = keyed_remove [OF f ok]
  have "pages_ok (set_status_pages (take i ?ps @ drop (Suc i) ?ps) c)"
    using assms u(2) by (auto simp: pages_ok_def list_all_iff dest: in_set_takeD in_set_dropD)
  moreover have "page_map c n \<noteq> None"
    using Some find_status_page_None [of ?ps n] by (simp add: page_map_def)
  ultimately show ?thesis using Some u(1) by (simp add: remove_status_page_def Let_def page_map_def)
next
  case None
  with find_status_page_None [of "status_pages (cfg_pages c)" n] show ?thesis
    by (simp add: remove_status_page_def Let_def page_map_def)
qed

text \<open>Only a space, a tab and a slash are refused in a domain: other white space is accepted.\<close>

lemma domain_with_line_feed_accepted:
  "is_ok (add_site (default_site\<lparr>site_domain := [CHR ''a'', CHR 0x0A]\<rparr>) default_config)"
  by (simp add: add_site_def Let_def find_site_def default_config_def is_ok_def)

end
