(* ===== verification/Codecs.thy ===== *)
theory Codecs
  imports Prelude
begin

text \<open>
  The binary text formats of the authentication code: \<^verbatim>\<open>auth/base64url.cpp\<close>, the base32 of
  \<^verbatim>\<open>auth/totp.cpp\<close> and the hexadecimal of \<^verbatim>\<open>auth/password_hash.cpp\<close>.  The round trips are
  proved over bit sequences: an encoder regroups the bits of the bytes, a decoder regroups them
  back and drops what does not fill a byte.
\<close>

section \<open>Base64url\<close>

definition kAlphabet64 :: string where
  "kAlphabet64 = ''ABCDEFGHIJKLMNOPQRSTUVWXYZabcdefghijklmnopqrstuvwxyz0123456789-_''"

definition build_decode_table :: "char \<Rightarrow> int" where
  "build_decode_table =
     foldl (\<lambda>table i. table(kAlphabet64 ! i := int i)) (\<lambda>_. - 1) [0..<length kAlphabet64]"

definition char64 :: "u32 \<Rightarrow> char" where
  "char64 w = kAlphabet64 ! unat (w AND 0x3F)"

fun base64url_encode :: "bytes \<Rightarrow> string" where
  "base64url_encode (a # b # c # rest) =
     (let chunk = (push_bit 16 (ucast a) OR push_bit 8 (ucast b)) OR (ucast c :: u32) in
      [char64 (drop_bit 18 chunk), char64 (drop_bit 12 chunk), char64 (drop_bit 6 chunk), char64 chunk]
        @ base64url_encode rest)"
| "base64url_encode [a] =
     (let chunk = push_bit 16 (ucast a :: u32) in
      [char64 (drop_bit 18 chunk), char64 (drop_bit 12 chunk)])"
| "base64url_encode [a, b] =
     (let chunk = push_bit 16 (ucast a) OR push_bit 8 (ucast b :: u32) in
      [char64 (drop_bit 18 chunk), char64 (drop_bit 12 chunk), char64 (drop_bit 6 chunk)])"
| "base64url_encode [] = []"

fun decode64_loop :: "string \<Rightarrow> u32 \<Rightarrow> nat \<Rightarrow> bytes \<Rightarrow> bytes result" where
  "decode64_loop [] buffer bits out = Inr out"
| "decode64_loop (c # cs) buffer bits out =
     (let value = build_decode_table c in
      if value < 0 then throw (InvalidArgument ''invalid base64url character'')
      else let buffer = push_bit 6 buffer OR word_of_int value; bits = bits + 6 in
           if bits \<ge> 8
           then decode64_loop cs buffer (bits - 8) (out @ [ucast (drop_bit (bits - 8) buffer AND 0xFF)])
           else decode64_loop cs buffer bits out)"

definition base64url_decode :: "string \<Rightarrow> bytes result" where
  "base64url_decode text =
     (if find_char (CHR ''='') text \<noteq> None
      then throw (InvalidArgument ''base64url input must not be padded'')
      else if length text mod 4 = 1 then throw (InvalidArgument ''invalid base64url length'')
      else decode64_loop text 0 0 [])"

section \<open>Base32\<close>

text \<open>The accumulator is a signed 32-bit integer whose shifts wrap (C++20); the right shift is
  arithmetic.\<close>

definition kBase32Alphabet :: string where
  "kBase32Alphabet = ''ABCDEFGHIJKLMNOPQRSTUVWXYZ234567''"

definition char32 :: "u32 \<Rightarrow> char" where
  "char32 w = kBase32Alphabet ! unat (w AND 0x1F)"

function drain32 :: "u32 \<Rightarrow> nat \<Rightarrow> string \<times> nat" where
  "drain32 buffer bits_left =
     (if bits_left \<ge> 5
      then (case drain32 buffer (bits_left - 5) of (out, bits) \<Rightarrow>
              (char32 (signed_drop_bit (bits_left - 5) buffer) # out, bits))
      else ([], bits_left))"
  by auto
termination
  by (relation "measure snd") auto

declare drain32.simps [simp del]

fun encode32_loop :: "bytes \<Rightarrow> u32 \<Rightarrow> nat \<Rightarrow> string" where
  "encode32_loop [] buffer bits_left =
     (if bits_left > 0 then [char32 (push_bit (5 - bits_left) buffer)] else [])"
| "encode32_loop (byte # bs) buffer bits_left =
     (let buffer = push_bit 8 buffer OR ucast byte in
      case drain32 buffer (bits_left + 8) of (out, bits) \<Rightarrow> out @ encode32_loop bs buffer bits)"

definition base32_encode :: "bytes \<Rightarrow> string" where
  "base32_encode d = encode32_loop d 0 0"

fun decode32_loop :: "string \<Rightarrow> u32 \<Rightarrow> nat \<Rightarrow> bytes \<Rightarrow> bytes result" where
  "decode32_loop [] buffer bits_left out = Inr out"
| "decode32_loop (raw # input) buffer bits_left out =
     (if raw = CHR ''='' \<or> raw = CHR '' '' \<or> raw = CHR ''-'' then decode32_loop input buffer bits_left out
      else case find_char (toupper raw) kBase32Alphabet of
             None \<Rightarrow> throw (InvalidArgument ''invalid base32 character in TOTP secret'')
           | Some pos \<Rightarrow>
               (let buffer = push_bit 5 buffer OR word_of_nat pos; bits = bits_left + 5 in
                if bits \<ge> 8
                then decode32_loop input buffer (bits - 8)
                       (out @ [ucast (signed_drop_bit (bits - 8) buffer AND 0xFF)])
                else decode32_loop input buffer bits out))"

definition base32_decode :: "string \<Rightarrow> bytes result" where
  "base32_decode input = decode32_loop input 0 0 []"

section \<open>Hexadecimal\<close>

definition kDigitsHex :: string where
  "kDigitsHex = ''0123456789abcdef''"

fun to_hex :: "bytes \<Rightarrow> string" where
  "to_hex [] = []"
| "to_hex (b # bs) = [kDigitsHex ! unat (drop_bit 4 b), kDigitsHex ! unat (b AND 0x0F)] @ to_hex bs"

definition hex_value :: "char \<Rightarrow> nat option" where
  "hex_value c =
     (if 48 \<le> code c \<and> code c \<le> 57 then Some (code c - 48)
      else if 97 \<le> code c \<and> code c \<le> 102 then Some (code c - 87)
      else if 65 \<le> code c \<and> code c \<le> 70 then Some (code c - 55)
      else None)"

text \<open>\<open>std::stoi(s, nullptr, 16)\<close>: leading white space, a sign and a \<open>0x\<close> prefix are accepted, the
  digits end at the first other character, and no digit at all is an \<open>invalid_argument\<close>.  (The
  argument has two characters, so the value is in range.)\<close>

definition hex_digits :: "string \<Rightarrow> nat result" where
  "hex_digits s =
     (let ds = takeWhile (\<lambda>c. hex_value c \<noteq> None) s in
      if ds = [] then throw (InvalidArgument ''stoi'')
      else Inr (foldl (\<lambda>n c. 16 * n + the (hex_value c)) 0 ds))"

definition skip_0x :: "string \<Rightarrow> string" where
  "skip_0x s =
     (case s of
        z # x # d # rest \<Rightarrow>
          (if z = CHR ''0'' \<and> x \<in> {CHR ''x'', CHR ''X''} \<and> hex_value d \<noteq> None then d # rest else s)
      | _ \<Rightarrow> s)"

definition stoi16 :: "string \<Rightarrow> int result" where
  "stoi16 s =
     (case dropWhile isspace s of
        [] \<Rightarrow> throw (InvalidArgument ''stoi'')
      | c # cs \<Rightarrow>
          (if c = CHR ''-'' then bind_result (hex_digits (skip_0x cs)) (\<lambda>n. Inr (- int n))
           else if c = CHR ''+'' then bind_result (hex_digits (skip_0x cs)) (\<lambda>n. Inr (int n))
           else bind_result (hex_digits (skip_0x (c # cs))) (\<lambda>n. Inr (int n))))"

fun from_hex :: "string \<Rightarrow> bytes result" where
  "from_hex (a # b # rest) =
     bind_result (stoi16 [a, b]) (\<lambda>n. bind_result (from_hex rest) (\<lambda>bs. Inr (word_of_int n # bs)))"
| "from_hex _ = Inr []"

section \<open>Bits, most significant first\<close>

definition pend :: "nat \<Rightarrow> 'a::len word \<Rightarrow> bool list" where
  "pend n w = map (bit w) (rev [0..<n])"

lemma length_pend [simp]: "length (pend n w) = n"
  by (simp add: pend_def)

lemma pend_0 [simp]: "pend 0 w = []"
  by (simp add: pend_def)

lemma pend_zero: "pend n 0 = replicate n False"
  by (induction n) (simp_all add: pend_def)

lemma rev_upt_add: "rev [0..<n + k] = map (\<lambda>i. i + k) (rev [0..<n]) @ rev [0..<k]"
  by (induction n) simp_all

lemma pend_cong: "(\<And>i. i < n \<Longrightarrow> bit v i = bit w i) \<Longrightarrow> pend n v = pend n w"
  by (auto simp: pend_def)

lemma pend_join:
  assumes "\<And>i. k \<le> i \<Longrightarrow> \<not> bit x i" and "n + k \<le> 32"
  shows "pend (n + k) (push_bit k buf OR x :: u32) = pend n buf @ pend k x"
  unfolding pend_def rev_upt_add using assms
  by (auto simp: bit_simps)

lemma pend_split: "m \<le> n \<Longrightarrow> n \<le> 32 \<Longrightarrow> pend n (w :: u32) = pend m (drop_bit (n - m) w) @ pend (n - m) w"
  using rev_upt_add [of m "n - m"] by (simp add: pend_def bit_simps add.commute)

lemma pend_signed_drop: "m + k \<le> 32 \<Longrightarrow> pend m (signed_drop_bit k (w :: u32)) = pend m (drop_bit k w)"
  by (rule pend_cong) (auto simp: bit_simps)

lemma pend_mask: "pend n (w AND mask n) = pend n (w :: 'a::len word)"
  by (rule pend_cong) (auto simp: bit_simps dest: bit_imp_le_length)

lemma pend_ucast: "n \<le> LENGTH('b) \<Longrightarrow> pend n (ucast (w :: 'a::len word) :: 'b::len word) = pend n w"
  by (rule pend_cong) (auto simp: bit_simps dest: bit_imp_le_length)

lemma pend8_inj: "pend 8 (a :: u8) = pend 8 b \<Longrightarrow> a = b"
  by (rule bit_word_eqI) (auto simp: pend_def)

definition bits_of :: "bytes \<Rightarrow> bool list" where
  "bits_of bs = concat (map (pend 8) bs)"

lemma bits_of_simps [simp]: "bits_of [] = []" "bits_of (b # bs) = pend 8 b @ bits_of bs"
  "bits_of (bs @ cs) = bits_of bs @ bits_of cs"
  by (simp_all add: bits_of_def)

lemma length_bits_of [simp]: "length (bits_of bs) = 8 * length bs"
  by (induction bs) simp_all

lemma bits_of_inj: "bits_of bs = bits_of cs \<Longrightarrow> bs = cs"
proof (induction bs arbitrary: cs)
  case Nil
  then show ?case by (cases cs) (simp_all add: pend_def)
next
  case (Cons b bs)
  then obtain c cs' where cs: "cs = c # cs'" by (cases cs) (auto simp: pend_def)
  with Cons.prems have "pend 8 b = pend 8 c" "bits_of bs = bits_of cs'" by simp_all
  with Cons.IH cs show ?case using pend8_inj by blast
qed

text \<open>Regrouping \<open>k\<close>-bit values into bytes, which both decoders do.\<close>

fun regroup :: "nat \<Rightarrow> u32 list \<Rightarrow> u32 \<Rightarrow> nat \<Rightarrow> bytes" where
  "regroup k [] buffer bits = []"
| "regroup k (v # vs) buffer bits =
     (let buffer = push_bit k buffer OR v; bits = bits + k in
      if bits \<ge> 8 then ucast (drop_bit (bits - 8) buffer) # regroup k vs buffer (bits - 8)
      else regroup k vs buffer bits)"

definition fits :: "nat \<Rightarrow> u32 \<Rightarrow> bool" where
  "fits k v \<longleftrightarrow> (\<forall>i. k \<le> i \<longrightarrow> \<not> bit v i)"

lemma fits_mask: "fits k (w AND mask k)"
  by (simp add: fits_def bit_simps)

lemma fits_of_nat: "i < 2 ^ k \<Longrightarrow> fits k (word_of_nat i)"
proof -
  assume i: "i < 2 ^ k"
  have "\<not> bit i j" if "k \<le> j" for j
  proof -
    have "(2 :: nat) ^ k \<le> 2 ^ j" using that by (rule power_increasing) simp
    with i have "i < 2 ^ j" by linarith
    then show ?thesis by (simp add: bit_iff_odd)
  qed
  then show ?thesis by (auto simp: fits_def bit_simps)
qed

lemma regroup_bits:
  "k \<le> 8 \<Longrightarrow> bits < 8 \<Longrightarrow> list_all (fits k) vs \<Longrightarrow>
     bits_of (regroup k vs buf bits) =
       take (8 * ((bits + k * length vs) div 8)) (pend bits buf @ concat (map (pend k) vs))"
proof (induction vs arbitrary: buf bits)
  case (Cons v vs)
  let ?buf = "push_bit k buf OR v"
  have join: "pend (bits + k) ?buf = pend bits buf @ pend k v"
    using Cons.prems by (intro pend_join) (simp_all add: fits_def)
  show ?case
  proof (cases "8 \<le> bits + k")
    case True
    then have split: "pend (bits + k) ?buf = pend 8 (drop_bit (bits + k - 8) ?buf) @ pend (bits + k - 8) ?buf"
      using Cons.prems by (intro pend_split) simp_all
    have IH: "bits_of (regroup k vs ?buf (bits + k - 8)) =
        take (8 * ((bits + k - 8 + k * length vs) div 8)) (pend (bits + k - 8) ?buf @ concat (map (pend k) vs))"
      using Cons.prems by (intro Cons.IH) simp_all
    have n: "(bits + k * length (v # vs)) div 8 = Suc ((bits + k - 8 + k * length vs) div 8)"
    proof -
      have "bits + k * length (v # vs) = 8 + (bits + k - 8 + k * length vs)" using True by simp
      then show ?thesis by simp
    qed
    have tk: "take (8 * Suc m) (A @ B) = A @ take (8 * m) B" if "length A = 8" for m and A B :: "bool list"
      using that by simp
    have e: "pend bits buf @ concat (map (pend k) (v # vs)) =
        pend 8 (drop_bit (bits + k - 8) ?buf) @ pend (bits + k - 8) ?buf @ concat (map (pend k) vs)"
      using join split by simp
    have "bits_of (regroup k (v # vs) buf bits) =
        pend 8 (drop_bit (bits + k - 8) ?buf) @ bits_of (regroup k vs ?buf (bits + k - 8))"
      using True by (simp add: Let_def pend_ucast)
    then show ?thesis unfolding n e IH by (simp only: tk length_pend)
  next
    case False
    then have "bits_of (regroup k vs ?buf (bits + k)) =
        take (8 * ((bits + k + k * length vs) div 8)) (pend (bits + k) ?buf @ concat (map (pend k) vs))"
      using Cons.prems by (intro Cons.IH) simp_all
    with False join show ?thesis by (simp add: Let_def add.assoc)
  qed
qed simp

lemma regroup_roundtrip:
  assumes "k \<le> 8" "list_all (fits k) vs" "concat (map (pend k) vs) = bits_of d @ p" "length p < 8"
  shows "regroup k vs 0 0 = d"
proof (rule bits_of_inj)
  have "length (concat (map (pend k) vs)) = k * length vs"
    by (induction vs) simp_all
  then have n: "k * length vs = 8 * length d + length p" using assms(3) by simp
  have "bits_of (regroup k vs 0 0) = take (8 * ((k * length vs) div 8)) (bits_of d @ p)"
    using regroup_bits [OF assms(1) _ assms(2), of 0 0] assms(3) by simp
  also have "\<dots> = bits_of d" unfolding n using assms(4) by simp
  finally show "bits_of (regroup k vs 0 0) = bits_of d" .
qed

section \<open>Base64url round trip\<close>

lemma length_alphabet64 [simp]: "length kAlphabet64 = 64"
  by (simp add: kAlphabet64_def)

lemma distinct_alphabet64: "distinct kAlphabet64"
  by (simp add: kAlphabet64_def)

lemma decode_table_aux:
  assumes "distinct a" and "n \<le> length a"
  shows "foldl (\<lambda>table i. table(a ! i := int i)) (\<lambda>_. - 1) [0..<n] c =
     (if c \<in> set (take n a) then int (THE i. i < n \<and> a ! i = c) else - 1)"
  using assms(2)
proof (induction n)
  case (Suc n)
  have IH: "foldl (\<lambda>table i. table(a ! i := int i)) (\<lambda>_. - 1) [0..<n] c =
     (if c \<in> set (take n a) then int (THE i. i < n \<and> a ! i = c) else - 1)"
    by (rule Suc.IH) (use Suc.prems in simp)
  have tk: "set (take (Suc n) a) = insert (a ! n) (set (take n a))"
    using Suc.prems by (simp add: take_Suc_conv_app_nth)
  have nin: "a ! n \<notin> set (take n a)"
    using Suc.prems assms(1) by (auto simp: in_set_conv_nth nth_eq_iff_index_eq)
  have eq: "(i < Suc n \<and> a ! i = c) = (if c = a ! n then i = n else i < n \<and> a ! i = c)" for i
    using Suc.prems assms(1) nth_eq_iff_index_eq [of a i n] by auto
  let ?table = "foldl (\<lambda>table i. table(a ! i := int i)) (\<lambda>_. - 1) [0..<n]"
  have "foldl (\<lambda>table i. table(a ! i := int i)) (\<lambda>_. - 1) [0..<Suc n] c = (?table(a ! n := int n)) c"
    by simp
  also have "\<dots> = (if c \<in> set (take (Suc n) a) then int (THE i. i < Suc n \<and> a ! i = c) else - 1)"
    unfolding tk eq fun_upd_apply IH using nin by simp
  finally show ?case .
qed simp

lemma decode_table_nth: "i < 64 \<Longrightarrow> build_decode_table (kAlphabet64 ! i) = int i"
proof -
  assume i: "i < 64"
  have "(THE j. j < 64 \<and> kAlphabet64 ! j = kAlphabet64 ! i) = i"
    using i distinct_alphabet64 by (intro the_equality) (auto simp: nth_eq_iff_index_eq)
  with i show ?thesis
    using decode_table_aux [OF distinct_alphabet64, of 64 "kAlphabet64 ! i"] by (simp add: build_decode_table_def)
qed

lemma decode_table_neg: "build_decode_table c < 0 \<longleftrightarrow> c \<notin> set kAlphabet64"
  using decode_table_aux [OF distinct_alphabet64, of 64 c] by (simp add: build_decode_table_def)

definition value64 :: "char \<Rightarrow> u32" where
  "value64 c = word_of_int (build_decode_table c)"

lemma mask6: "(0x3F :: u32) = mask 6" and mask5: "(0x1F :: u32) = mask 5" and mask8: "(0xFF :: u32) = mask 8"
  by (simp_all add: mask_eq_exp_minus_1)

lemma unat_and_mask: "unat (w AND mask n :: u32) < 2 ^ n"
  by (simp add: unsigned_take_bit_eq flip: take_bit_eq_mask)

lemma char64_value: "value64 (char64 w) = w AND mask 6" and char64_in: "char64 w \<in> set kAlphabet64"
proof -
  have i: "unat (w AND mask 6) < 64" using unat_and_mask [of w 6] by simp
  then show "char64 w \<in> set kAlphabet64" by (simp add: char64_def mask6)
  show "value64 (char64 w) = w AND mask 6"
    by (simp only: value64_def char64_def mask6 decode_table_nth [OF i]) simp
qed

lemma decode64_regroup:
  "set s \<subseteq> set kAlphabet64 \<Longrightarrow>
     decode64_loop s buf bits out = Inr (out @ regroup 6 (map value64 s) buf bits)"
proof (induction s arbitrary: buf bits out)
  case (Cons c s)
  then have "\<not> build_decode_table c < 0" by (simp add: decode_table_neg)
  moreover have "ucast (w AND 0xFF :: u32) = (ucast w :: u8)" for w
    by (rule bit_word_eqI) (simp add: mask8 bit_simps)
  ultimately show ?case using Cons by (simp add: Let_def value64_def)
qed simp

lemma decode64_bad:
  "\<not> set s \<subseteq> set kAlphabet64 \<Longrightarrow>
     decode64_loop s buf bits out = Inl (InvalidArgument ''invalid base64url character'')"
  by (induction s arbitrary: buf bits out) (auto simp: Let_def decode_table_neg)

lemma pend_char64: "pend 6 (value64 (char64 w)) = pend 6 w"
  by (simp add: char64_value pend_mask)

lemma split_chunk:
  "pend 6 (drop_bit 18 w) @ pend 6 (drop_bit 12 w) @ pend 6 (drop_bit 6 w) @ pend 6 (w :: u32)
     = pend 8 (drop_bit 16 w) @ pend 8 (drop_bit 8 w) @ pend 8 w"
  "pend 6 (drop_bit 18 w) @ pend 6 (drop_bit 12 w) = pend 8 (drop_bit 16 w) @ pend 4 (drop_bit 12 w)"
  "pend 6 (drop_bit 18 w) @ pend 6 (drop_bit 12 w) @ pend 6 (drop_bit 6 w)
     = pend 8 (drop_bit 16 w) @ pend 8 (drop_bit 8 w) @ pend 2 (drop_bit 6 w)"
  by (simp_all add: pend_def bit_simps upt_rec eval_nat_numeral)

lemma encode64_bits:
  "\<exists>p. concat (map (\<lambda>c. pend 6 (value64 c)) (base64url_encode d)) = bits_of d @ p \<and> length p < 8
     \<and> set (base64url_encode d) \<subseteq> set kAlphabet64 \<and> length (base64url_encode d) mod 4 \<noteq> 1"
proof (induction d rule: base64url_encode.induct)
  case (1 a b c rest)
  then obtain p where p: "concat (map (\<lambda>c. pend 6 (value64 c)) (base64url_encode rest)) = bits_of rest @ p"
    "length p < 8" "set (base64url_encode rest) \<subseteq> set kAlphabet64"
    "length (base64url_encode rest) mod 4 \<noteq> 1" by blast
  define w where "w = (push_bit 16 (ucast a) OR push_bit 8 (ucast b)) OR (ucast c :: u32)"
  have "pend 8 (drop_bit 16 w) = pend 8 a" "pend 8 (drop_bit 8 w) = pend 8 b" "pend 8 w = pend 8 c"
    by (auto simp: w_def pend_def bit_simps dest: bit_imp_le_length)
  with split_chunk(1) [of w] have
    "pend 6 (drop_bit 18 w) @ pend 6 (drop_bit 12 w) @ pend 6 (drop_bit 6 w) @ pend 6 w @ xs
       = pend 8 a @ pend 8 b @ pend 8 c @ xs" for xs by (metis append_assoc)
  from this [of "bits_of rest @ p"] have
    "concat (map (\<lambda>c. pend 6 (value64 c)) (base64url_encode (a # b # c # rest))) = bits_of (a # b # c # rest) @ p"
    using p(1) by (simp add: Let_def pend_char64 w_def [symmetric])
  moreover have "set (base64url_encode (a # b # c # rest)) \<subseteq> set kAlphabet64"
    using p(3) by (simp add: Let_def char64_in)
  moreover have "length (base64url_encode (a # b # c # rest)) mod 4 \<noteq> 1"
    using p(4) by (simp add: Let_def)
  ultimately show ?case using p(2) by blast
next
  case (2 a)
  define w where "w = push_bit 16 (ucast a :: u32)"
  have "pend 8 (drop_bit 16 w) = pend 8 a" by (auto simp: w_def pend_def bit_simps)
  with split_chunk(2) [of w] show ?case by (simp add: Let_def pend_char64 char64_in w_def [symmetric])
next
  case (3 a b)
  define w where "w = push_bit 16 (ucast a) OR push_bit 8 (ucast b :: u32)"
  have "pend 8 (drop_bit 16 w) = pend 8 a" "pend 8 (drop_bit 8 w) = pend 8 b"
    by (auto simp: w_def pend_def bit_simps dest: bit_imp_le_length)
  with split_chunk(3) [of w] show ?case by (simp add: Let_def pend_char64 char64_in w_def [symmetric])
qed simp

lemma base64url_roundtrip: "base64url_decode (base64url_encode d) = Inr d"
proof -
  from encode64_bits [of d] obtain p where
    p: "concat (map (\<lambda>c. pend 6 (value64 c)) (base64url_encode d)) = bits_of d @ p" "length p < 8"
    "set (base64url_encode d) \<subseteq> set kAlphabet64" "length (base64url_encode d) mod 4 \<noteq> 1" by blast
  have "CHR ''='' \<notin> set kAlphabet64" by (simp add: kAlphabet64_def)
  with p(3) have np: "CHR ''='' \<notin> set (base64url_encode d)" by blast
  have "list_all (fits 6) (map value64 (base64url_encode d))"
  proof -
    have "fits 6 (value64 c)" if "c \<in> set kAlphabet64" for c
    proof -
      from that obtain i where i: "i < 64" "c = kAlphabet64 ! i" by (auto simp: in_set_conv_nth)
      then have "value64 c = word_of_nat i" by (simp add: value64_def decode_table_nth)
      with i(1) show ?thesis using fits_of_nat [of i 6] by simp
    qed
    with p(3) show ?thesis by (auto simp: list_all_iff)
  qed
  from regroup_roundtrip [OF _ this, of d p] p(1,2)
  have "regroup 6 (map value64 (base64url_encode d)) 0 0 = d" by (simp add: comp_def)
  with decode64_regroup [OF p(3)] p(4) np show ?thesis
    by (simp add: base64url_decode_def find_char_None [THEN iffD2])
qed

lemma decode64_rejects:
  "(\<exists>d. base64url_decode s = Inr d) \<longleftrightarrow> set s \<subseteq> set kAlphabet64 \<and> length s mod 4 \<noteq> 1"
proof -
  have "CHR ''='' \<notin> set kAlphabet64" by (simp add: kAlphabet64_def)
  then have "set s \<subseteq> set kAlphabet64 \<Longrightarrow> find_char (CHR ''='') s = None" by (auto simp: find_char_None)
  then show ?thesis
    using decode64_regroup [of s 0 0 "[]"] decode64_bad [of s 0 0 "[]"]
    by (cases "set s \<subseteq> set kAlphabet64") (auto simp: base64url_decode_def)
qed

text \<open>The base64url decoder inverts the encoder and accepts exactly the strings over the unpadded
  alphabet whose length can hold whole bytes; everything else is an \<open>invalid_argument\<close>.\<close>

theorem base64url_correct:
  "base64url_decode (base64url_encode d) = Inr d
   \<and> (case base64url_decode s of
        Inr _ \<Rightarrow> set s \<subseteq> set kAlphabet64 \<and> length s mod 4 \<noteq> 1
      | Inl e \<Rightarrow> \<not> (set s \<subseteq> set kAlphabet64 \<and> length s mod 4 \<noteq> 1) \<and> (\<exists>msg. e = InvalidArgument msg))"
proof -
  have "\<exists>msg. e = InvalidArgument msg" if e: "base64url_decode s = Inl e" for e
  proof (cases "set s \<subseteq> set kAlphabet64")
    case True
    then have "decode64_loop s 0 0 [] = Inr (regroup 6 (map value64 s) 0 0)" using decode64_regroup by simp
    then show ?thesis using e by (auto simp: base64url_decode_def split: if_splits)
  next
    case False
    then show ?thesis using e decode64_bad [OF False, of 0 0 "[]"] by (auto simp: base64url_decode_def split: if_splits)
  qed
  then show ?thesis using base64url_roundtrip decode64_rejects [of s] by (auto split: sum.splits)
qed

text \<open>Non-canonical input: the bits of the last character that fill no byte are dropped unseen.\<close>

lemma base64url_decode_not_injective:
  "base64url_decode ''QR'' = Inr [65] \<and> base64url_decode ''QQ'' = Inr [65]"
proof -
  have i: "CHR ''Q'' = kAlphabet64 ! 16" "CHR ''R'' = kAlphabet64 ! 17" by (simp_all add: kAlphabet64_def)
  have t: "build_decode_table (CHR ''Q'') = 16" "build_decode_table (CHR ''R'') = 17"
    unfolding i by (simp_all add: decode_table_nth)
  have "decode64_loop ''QR'' 0 0 [] = Inr [65]" "decode64_loop ''QQ'' 0 0 [] = Inr [65]"
    by (simp_all add: t Let_def)
  then show ?thesis by (simp add: base64url_decode_def find_char_def)
qed

section \<open>Base32 round trip\<close>

lemma length_alphabet32 [simp]: "length kBase32Alphabet = 32"
  by (simp add: kBase32Alphabet_def)

lemma distinct_alphabet32: "distinct kBase32Alphabet"
  by (simp add: kBase32Alphabet_def)

lemma find_char_nth: "distinct a \<Longrightarrow> i < length a \<Longrightarrow> find_char (a ! i) a = Some i"
proof -
  assume d: "distinct a" and i: "i < length a"
  have "a = take i a @ a ! i # drop (Suc i) a" using i by (rule id_take_nth_drop)
  moreover have "a ! i \<notin> set (take i a)" using d i by (auto simp: in_set_conv_nth nth_eq_iff_index_eq)
  ultimately have "find_char (a ! i) a = Some (length (take i a))" by (metis find_char_append)
  then show ?thesis using i by simp
qed

lemma alphabet32_upper:
  "c \<in> set kBase32Alphabet \<Longrightarrow> toupper c = c \<and> c \<noteq> CHR ''='' \<and> c \<noteq> CHR '' '' \<and> c \<noteq> CHR ''-''"
proof -
  have "list_all (\<lambda>c. toupper c = c \<and> c \<noteq> CHR ''='' \<and> c \<noteq> CHR '' '' \<and> c \<noteq> CHR ''-'') kBase32Alphabet"
    by (simp add: kBase32Alphabet_def toupper_def)
  then show "c \<in> set kBase32Alphabet \<Longrightarrow> toupper c = c \<and> c \<noteq> CHR ''='' \<and> c \<noteq> CHR '' '' \<and> c \<noteq> CHR ''-''"
    unfolding list_all_iff by blast
qed

definition value32 :: "char \<Rightarrow> u32" where
  "value32 c = (case find_char c kBase32Alphabet of Some i \<Rightarrow> word_of_nat i | None \<Rightarrow> 0)"

lemma char32_value: "value32 (char32 w) = w AND mask 5" and char32_in: "char32 w \<in> set kBase32Alphabet"
proof -
  have i: "unat (w AND mask 5) < length kBase32Alphabet" using unat_and_mask [of w 5] by simp
  then show "char32 w \<in> set kBase32Alphabet" by (simp add: char32_def mask5)
  show "value32 (char32 w) = w AND mask 5"
    by (simp add: value32_def char32_def mask5 find_char_nth [OF distinct_alphabet32 i])
qed

lemma fits_value32: "c \<in> set kBase32Alphabet \<Longrightarrow> fits 5 (value32 c)"
proof -
  assume "c \<in> set kBase32Alphabet"
  then obtain i where i: "i < 32" "c = kBase32Alphabet ! i" by (auto simp: in_set_conv_nth)
  then have "value32 c = word_of_nat i"
    using find_char_nth [OF distinct_alphabet32, of i] by (simp add: value32_def)
  then show ?thesis using fits_of_nat [of i 5] i(1) by simp
qed

lemma decode32_regroup:
  "set s \<subseteq> set kBase32Alphabet \<Longrightarrow> bits < 8 \<Longrightarrow>
     decode32_loop s buf bits out = Inr (out @ regroup 5 (map value32 s) buf bits)"
proof (induction s arbitrary: buf bits out)
  case (Cons c s)
  then have c: "toupper c = c" "c \<noteq> CHR ''=''" "c \<noteq> CHR '' ''" "c \<noteq> CHR ''-''" and
    "c \<in> set kBase32Alphabet" using alphabet32_upper [of c] by auto
  then obtain i where i: "find_char c kBase32Alphabet = Some i"
    by (cases "find_char c kBase32Alphabet") (simp_all add: find_char_None)
  have w: "ucast (signed_drop_bit n w AND 0xFF :: u32) = (ucast (drop_bit n w) :: u8)" if "n < 8" for n w
    using that by (intro bit_word_eqI) (auto simp: mask8 bit_simps)
  show ?case
    using Cons c i by (auto simp: Let_def value32_def w)
qed simp

lemma drain32_bits:
  assumes "n \<le> 32" and "drain32 buf n = (out, m)"
  shows "m < 5 \<and> concat (map (\<lambda>c. pend 5 (value32 c)) out) @ pend m buf = pend n buf
    \<and> set out \<subseteq> set kBase32Alphabet"
  using assms
proof (induction buf n arbitrary: out rule: drain32.induct)
  case (1 buf n)
  show ?case
  proof (cases "5 \<le> n")
    case False
    with "1.prems" show ?thesis by (simp add: drain32.simps [of buf n])
  next
    case True
    with "1.prems" obtain out' where o: "drain32 buf (n - 5) = (out', m)"
      "out = char32 (signed_drop_bit (n - 5) buf) # out'"
      by (auto simp: drain32.simps [of buf n] split: prod.splits)
    with "1.IH" True "1.prems" have IH: "m < 5"
      "concat (map (\<lambda>c. pend 5 (value32 c)) out') @ pend m buf = pend (n - 5) buf"
      "set out' \<subseteq> set kBase32Alphabet" by simp_all
    have "pend n buf = pend 5 (drop_bit (n - 5) buf) @ pend (n - 5) buf"
      using pend_split [of 5 n buf] True "1.prems" by simp
    moreover have "pend 5 (value32 (char32 (signed_drop_bit (n - 5) buf))) = pend 5 (drop_bit (n - 5) buf)"
      using True "1.prems" by (simp add: char32_value pend_mask pend_signed_drop)
    ultimately show ?thesis using IH o by (simp add: char32_in)
  qed
qed

lemma encode32_bits:
  "n < 5 \<Longrightarrow> \<exists>p. concat (map (\<lambda>c. pend 5 (value32 c)) (encode32_loop d buf n)) = pend n buf @ bits_of d @ p
     \<and> length p < 8 \<and> set (encode32_loop d buf n) \<subseteq> set kBase32Alphabet"
proof (induction d arbitrary: buf n)
  case Nil
  have "pend (n + (5 - n)) (push_bit (5 - n) buf OR 0) = pend n buf @ pend (5 - n) (0 :: u32)"
    using Nil by (intro pend_join) simp_all
  with Nil have "pend 5 (push_bit (5 - n) buf) = pend n buf @ replicate (5 - n) False"
    by (simp add: pend_zero)
  moreover have "5 - n < 8" using Nil by linarith
  ultimately show ?case by (simp add: char32_in char32_value pend_mask)
next
  case (Cons b d)
  let ?buf = "push_bit 8 buf OR ucast b"
  obtain out m where o: "drain32 ?buf (n + 8) = (out, m)" by fastforce
  have n8: "n + 8 \<le> 32" using Cons.prems by simp
  note dr = drain32_bits [OF n8 o]
  have "pend (n + 8) ?buf = pend n buf @ pend 8 b"
    using Cons.prems by (subst pend_join) (auto simp: bit_simps pend_ucast dest: bit_imp_le_length)
  with dr have e: "concat (map (\<lambda>c. pend 5 (value32 c)) out) @ pend m ?buf = pend n buf @ pend 8 b" by simp
  from Cons.IH [of m ?buf] dr obtain p where
    p: "concat (map (\<lambda>c. pend 5 (value32 c)) (encode32_loop d ?buf m)) = pend m ?buf @ bits_of d @ p"
    "length p < 8" "set (encode32_loop d ?buf m) \<subseteq> set kBase32Alphabet" by blast
  have "encode32_loop (b # d) buf n = out @ encode32_loop d ?buf m" using o by (simp add: Let_def)
  moreover have "concat (map (\<lambda>c. pend 5 (value32 c)) (out @ encode32_loop d ?buf m))
      = pend n buf @ bits_of (b # d) @ p"
  proof -
    have "concat (map (\<lambda>c. pend 5 (value32 c)) (out @ encode32_loop d ?buf m))
        = (concat (map (\<lambda>c. pend 5 (value32 c)) out) @ pend m ?buf) @ bits_of d @ p"
      unfolding map_append concat_append p(1) by (simp only: append_assoc)
    then show ?thesis unfolding e by simp
  qed
  ultimately show ?case using p(2,3) dr by (metis le_sup_iff set_append)
qed

lemma base32_roundtrip: "base32_decode (base32_encode d) = Inr d"
proof -
  from encode32_bits [of 0 d 0] obtain p where
    p: "concat (map (\<lambda>c. pend 5 (value32 c)) (base32_encode d)) = bits_of d @ p" "length p < 8"
    "set (base32_encode d) \<subseteq> set kBase32Alphabet" by (auto simp: base32_encode_def)
  have "list_all (fits 5) (map value32 (base32_encode d))"
    using p(3) fits_value32 by (auto simp: list_all_iff)
  from regroup_roundtrip [OF _ this, of d p] p(1,2)
  have "regroup 5 (map value32 (base32_encode d)) 0 0 = d" by (simp add: comp_def)
  with decode32_regroup [OF p(3), of 0 0 "[]"] show ?thesis by (simp add: base32_decode_def)
qed

section \<open>Hexadecimal round trip\<close>

lemma hex_digit_ok:
  assumes "n < 16"
  shows "hex_value (kDigitsHex ! n) = Some n \<and> \<not> isspace (kDigitsHex ! n)
     \<and> kDigitsHex ! n \<notin> {CHR ''-'', CHR ''+'', CHR ''x'', CHR ''X''}"
proof -
  have "\<forall>n \<in> set [0..<16]. hex_value (kDigitsHex ! n) = Some n \<and> \<not> isspace (kDigitsHex ! n)
     \<and> kDigitsHex ! n \<notin> {CHR ''-'', CHR ''+'', CHR ''x'', CHR ''X''}"
    by (simp add: upt_rec kDigitsHex_def hex_value_def isspace_def)
  with assms show ?thesis by simp
qed

lemma stoi16_digits:
  assumes "m < 16" "n < 16"
  shows "stoi16 [kDigitsHex ! m, kDigitsHex ! n] = Inr (int (16 * m + n))"
  using hex_digit_ok [OF assms(1)] hex_digit_ok [OF assms(2)]
  by (simp add: stoi16_def skip_0x_def hex_digits_def)

lemma hex_roundtrip: "from_hex (to_hex d) = Inr d"
proof (induction d)
  case (Cons b d)
  have lo: "unat (b AND 0x0F) = unat b mod 16"
  proof -
    have "(0x0F :: u8) = mask 4" by (simp add: mask_eq_exp_minus_1)
    then have "b AND 0x0F = take_bit 4 b" by (simp only: take_bit_eq_mask)
    then have "unat (b AND 0x0F) = take_bit 4 (unat b)" by (simp only: unsigned_take_bit_eq)
    then show ?thesis by (simp add: take_bit_eq_mod)
  qed
  have hi: "unat (drop_bit 4 b) = unat b div 16" 
    by (simp only: unat_drop_bit_eq) (simp add: drop_bit_eq_div)
  have "unat b < 256" using unsigned_less [of b] by simp
  then have "stoi16 [kDigitsHex ! unat (drop_bit 4 b), kDigitsHex ! unat (b AND 0x0F)] = Inr (int (unat b))"
    unfolding hi lo by (subst stoi16_digits) (simp_all add: less_mult_imp_div_less mult.commute)
  with Cons show ?case by simp
qed simp

end
