(* ===== verification/Totp.thy ===== *)
theory Totp
  imports Codecs Time_Format
begin

text \<open>
  \<^verbatim>\<open>auth/totp.cpp\<close>: one-time codes after RFC 4226 and RFC 6238.  OpenSSL's \<open>HMAC\<close> with SHA-1 is
  a parameter (\<open>None\<close> when it reports an error), as are the bytes of \<open>RAND_bytes\<close>.  What is
  relied on is that a successful HMAC-SHA1 has 20 bytes.
\<close>

definition kDigits :: nat where
  "kDigits = 6"

definition kStepSeconds :: int where
  "kStepSeconds = 30"

definition kSecretBytes :: nat where
  "kSecretBytes = 20"

type_synonym hmac = "bytes \<Rightarrow> bytes \<Rightarrow> bytes option"

section \<open>Codes\<close>

text \<open>\<open>for (int i = 7; i >= 0; --i)\<close>, filling the counter from its last byte.\<close>

fun counter_loop :: "nat \<Rightarrow> u64 \<Rightarrow> bytes \<Rightarrow> bytes" where
  "counter_loop 0 counter counter_be = counter_be"
| "counter_loop (Suc i) counter counter_be =
     counter_loop i (drop_bit 8 counter) (ucast (counter AND 0xFF) # counter_be)"

definition hotp :: "hmac \<Rightarrow> bytes \<Rightarrow> u64 \<Rightarrow> u32 result" where
  "hotp hmac_sha1 key counter =
     (case hmac_sha1 key (counter_loop 8 counter []) of
        None \<Rightarrow> throw (RuntimeError ''HMAC-SHA1 failed'')
      | Some digest \<Rightarrow>
          (let offset = unat (digest ! (length digest - 1) AND 0x0F);
               binary = push_bit 24 (ucast (digest ! offset AND 0x7F))
                 OR push_bit 16 (ucast (digest ! (offset + 1) AND 0xFF))
                 OR push_bit 8 (ucast (digest ! (offset + 2) AND 0xFF))
                 OR ucast (digest ! (offset + 3) AND 0xFF);
               divisor = foldl (\<lambda>d _. d * 10) 1 [0..<kDigits]
           in Inr (binary mod divisor)))"

definition format_code :: "u32 \<Rightarrow> string" where
  "format_code value =
     (let out = show_nat (unat value) in
      if length out < kDigits then replicate (kDigits - length out) (CHR ''0'') @ out else out)"

definition constant_time_equal :: "string \<Rightarrow> string \<Rightarrow> bool" where
  "constant_time_equal a b = (if length a \<noteq> length b then False else a = b)"

definition generate_totp_secret_base32 :: "(nat \<Rightarrow> bytes option) \<Rightarrow> string result" where
  "generate_totp_secret_base32 rand_bytes =
     (case rand_bytes kSecretBytes of
        None \<Rightarrow> throw (RuntimeError ''RAND_bytes failed'')
      | Some buf \<Rightarrow> Inr (base32_encode buf))"

text \<open>The percent encoding of the provisioning link (\<open>%02X\<close>).\<close>

definition upper_hex :: "nat \<Rightarrow> char" where
  "upper_hex n = ''0123456789ABCDEF'' ! n"

fun encode_uri :: "string \<Rightarrow> string" where
  "encode_uri [] = []"
| "encode_uri (c # cs) =
     (if isalnum c \<or> c = CHR ''-'' \<or> c = CHR ''_'' \<or> c = CHR ''.'' then [c]
      else [CHR ''%'', upper_hex (code c div 16), upper_hex (code c mod 16)]) @ encode_uri cs"

definition totp_provisioning_uri :: "string \<Rightarrow> string \<Rightarrow> string \<Rightarrow> string" where
  "totp_provisioning_uri secret_base32 username issuer =
     ''otpauth://totp/'' @ encode_uri issuer @ '':'' @ encode_uri username @ ''?secret='' @ secret_base32
       @ ''&issuer='' @ encode_uri issuer @ ''&algorithm=SHA1&digits=6&period=30''"

section \<open>Verification\<close>

text \<open>The result is \<open>Some step\<close> for \<open>true\<close> with \<open>*matched_step = step\<close>, and \<open>None\<close> for \<open>false\<close>.\<close>

fun verify_drifts :: "hmac \<Rightarrow> bytes \<Rightarrow> string \<Rightarrow> u64 \<Rightarrow> int list \<Rightarrow> int option result" where
  "verify_drifts hmac_sha1 key given counter [] = Inr None"
| "verify_drifts hmac_sha1 key given counter (drift # drifts) =
     (let step = counter + word_of_int drift in
      bind_result (hotp hmac_sha1 key step) (\<lambda>value.
        if constant_time_equal (format_code value) given then Inr (Some (sint step))
        else verify_drifts hmac_sha1 key given counter drifts))"

definition verify_totp :: "hmac \<Rightarrow> string \<Rightarrow> string \<Rightarrow> int \<Rightarrow> int option result" where
  "verify_totp hmac_sha1 secret_base32 given unix_time_seconds =
     (if length given \<noteq> kDigits \<or> \<not> list_all isdigit given then Inr None
      else case base32_decode secret_base32 of
             Inl _ \<Rightarrow> Inr None
           | Inr key \<Rightarrow>
               (if key = [] then Inr None
                else verify_drifts hmac_sha1 key given
                       (word_of_int (tdiv unix_time_seconds kStepSeconds)) [-1, 0, 1]))"

section \<open>Facts\<close>

definition be_value :: "bytes \<Rightarrow> nat" where
  "be_value bs = foldl (\<lambda>n b. 256 * n + unat b) 0 bs"

lemma be_value_Cons: "be_value (b # bs) = unat b * 256 ^ length bs + be_value bs"
proof -
  have "foldl (\<lambda>n b. 256 * n + unat b) a bs = a * 256 ^ length bs + foldl (\<lambda>n b. 256 * n + unat b) 0 bs"
    for a and bs :: bytes
  proof (induction bs arbitrary: a)
    case (Cons b bs)
    from Cons.IH [of "256 * a + unat b"] Cons.IH [of "unat b"] show ?case by (simp add: algebra_simps)
  qed simp
  from this [of "unat b" bs] show ?thesis by (simp add: be_value_def)
qed

text \<open>The message is the counter as eight bytes, the most significant first.\<close>

lemma counter_loop_value:
  "be_value (counter_loop n c acc) = (unat c mod 256 ^ n) * 256 ^ length acc + be_value acc"
proof (induction n arbitrary: c acc)
  case (Suc n)
  have "unat (ucast (c AND 0xFF) :: u8) = unat c mod 256"
  proof -
    have "(0xFF :: u64) = mask 8" by (simp add: mask_eq_exp_minus_1)
    then have "(ucast (c AND 0xFF) :: u8) = ucast (c AND mask 8)" by simp
    also have "\<dots> = ucast c" by (rule bit_word_eqI) (simp add: bit_simps)
    finally have "(ucast (c AND 0xFF) :: u8) = ucast c" .
    then show ?thesis by (simp add: unsigned_ucast_eq take_bit_eq_mod)
  qed
  moreover have "unat (drop_bit 8 c) = unat c div 256"
    by (simp only: unat_drop_bit_eq) (simp add: drop_bit_eq_div)
  moreover have "unat c mod (256 * 256 ^ n) = 256 * (unat c div 256 mod 256 ^ n) + unat c mod 256"
    by (simp add: mod_mult2_eq)
  ultimately show ?case
    by (simp add: Suc.IH be_value_Cons algebra_simps)
qed simp

lemma counter_be_value: "be_value (counter_loop 8 c []) = unat c"
  using counter_loop_value [of 8 c "[]"] unat_u64_bound [of c] by (simp add: be_value_def)

lemma offset_in_digest: "unat (b AND 0x0F :: u8) \<le> 15"
proof -
  have "(0x0F :: u8) = mask 4" by (simp add: mask_eq_exp_minus_1)
  then have "b AND 0x0F = take_bit 4 b" by (simp only: take_bit_eq_mask)
  then have "unat (b AND 0x0F) = take_bit 4 (unat b)" by (simp only: unsigned_take_bit_eq)
  then show ?thesis using take_bit_nat_less_exp [of 4 "unat b"] by simp
qed

lemma hotp_bound: "hotp hm key c = Inr v \<Longrightarrow> unat v < 10 ^ kDigits"
proof -
  assume "hotp hm key c = Inr v"
  then obtain x where "v = x mod (foldl (\<lambda>d _. d * 10) 1 [0..<kDigits])"
    by (auto simp: hotp_def Let_def split: option.splits)
  then have "v = x mod 1000000" by (simp add: kDigits_def upt_rec)
  then have "unat v = unat x mod 1000000" by (simp add: unat_mod)
  then show ?thesis by (simp add: kDigits_def)
qed

lemma format_code_fits:
  assumes "unat v < 10 ^ kDigits"
  shows "length (format_code v) = kDigits" "list_all isdigit (format_code v)" "read_nat (format_code v) = unat v"
proof -
  have e: "format_code v = format_0d kDigits (int (unat v))"
    by (simp add: format_code_def format_0d_def pad_zeros_def Let_def)
  have "0 < kDigits" by (simp add: kDigits_def)
  from format_0d_fits [OF this assms] e
  show "length (format_code v) = kDigits" "list_all isdigit (format_code v)" "read_nat (format_code v) = unat v"
    by simp_all
qed

text \<open>What the code relies on: HMAC-SHA1 succeeds and its digest has 20 bytes.  All reads of the
  digest are then in range.\<close>

definition hmac_sha1_ok :: "hmac \<Rightarrow> bool" where
  "hmac_sha1_ok hm \<longleftrightarrow> (\<forall>key msg. \<exists>digest. hm key msg = Some digest \<and> length digest = 20)"

lemma hotp_reads_in_range: "length digest = 20 \<Longrightarrow> unat (digest ! (length digest - 1) AND 0x0F :: u8) + 3 < length digest"
  using offset_in_digest [of "digest ! 19"] by simp

lemma hotp_total: "hmac_sha1_ok hm \<Longrightarrow> \<exists>v. hotp hm key c = Inr v"
  by (auto simp: hmac_sha1_ok_def hotp_def Let_def split: option.splits)

lemma verify_drifts_Some:
  "verify_drifts hm key given counter drifts = Inr (Some s) \<Longrightarrow>
     \<exists>drift v. drift \<in> set drifts \<and> s = sint (counter + word_of_int drift)
       \<and> hotp hm key (counter + word_of_int drift) = Inr v \<and> given = format_code v"
  by (induction drifts)
     (auto simp: Let_def bind_result_Inr_iff constant_time_equal_def split: if_splits)

lemma verify_drifts_finds:
  "hmac_sha1_ok hm \<Longrightarrow> drift \<in> set drifts \<Longrightarrow> hotp hm key (counter + word_of_int drift) = Inr v \<Longrightarrow>
     \<exists>s. verify_drifts hm key (format_code v) counter drifts = Inr (Some s)"
proof (induction drifts)
  case (Cons d ds)
  from hotp_total [OF Cons.prems(1)] obtain w where w: "hotp hm key (counter + word_of_int d) = Inr w" by blast
  with Cons show ?case by (auto simp: Let_def constant_time_equal_def)
qed simp

text \<open>A code is accepted only if it has six digits and is the HOTP value, under the non-empty key
  the secret decodes to, of the current 30-second step or of one of its two neighbours; the
  reported step is the one that matched.\<close>

theorem verify_totp_sound:
  assumes "verify_totp hmac_sha1 secret given t = Inr (Some step)"
  shows "length given = 6 \<and> list_all isdigit given
    \<and> (\<exists>key drift v. base32_decode secret = Inr key \<and> key \<noteq> [] \<and> drift \<in> {-1, 0, 1 :: int}
         \<and> step = sint (word_of_int (tdiv t 30) + word_of_int drift :: u64)
         \<and> hotp hmac_sha1 key (word_of_int (tdiv t 30) + word_of_int drift) = Inr v
         \<and> given = format_code v \<and> unat v < 10 ^ 6)"
proof -
  from assms obtain key where k: "length given = 6" "list_all isdigit given"
    "base32_decode secret = Inr key" "key \<noteq> []"
    and d: "verify_drifts hmac_sha1 key given (word_of_int (tdiv t 30)) [-1, 0, 1] = Inr (Some step)"
    by (auto simp: verify_totp_def kDigits_def kStepSeconds_def split: if_splits sum.splits)
  from verify_drifts_Some [OF d] obtain drift v where v: "drift \<in> set [-1, 0, 1]"
    "step = sint (word_of_int (tdiv t 30) + word_of_int drift :: u64)"
    "hotp hmac_sha1 key (word_of_int (tdiv t 30) + word_of_int drift) = Inr v" "given = format_code v" by blast
  from hotp_bound [OF v(3)] have b: "unat v < 10 ^ 6" by (simp add: kDigits_def)
  from v(1) have "drift \<in> {-1, 0, 1}" by simp
  with k v b show ?thesis by blast
qed

text \<open>The code an authenticator shows for an enrolled secret is accepted at its own time and up
  to one step away, whatever the (non-empty) key bytes are.\<close>

theorem totp_own_code_accepted:
  assumes "hmac_sha1_ok hmac_sha1" and "key \<noteq> []" and "drift \<in> {-1, 0, 1 :: int}"
    and "hotp hmac_sha1 key (word_of_int (tdiv t 30) + word_of_int drift) = Inr v"
  shows "\<exists>step. verify_totp hmac_sha1 (base32_encode key) (format_code v) t = Inr (Some step)"
proof -
  have b: "unat v < 10 ^ kDigits" using assms(4) by (rule hotp_bound)
  from assms(3) have "drift \<in> set [-1, 0, 1]" by simp
  from verify_drifts_finds [OF assms(1) this assms(4)] format_code_fits [OF b] assms(2) show ?thesis
    by (simp add: verify_totp_def base32_roundtrip kStepSeconds_def)
qed

definition sample_hmac :: hmac where
  "sample_hmac key msg = Some (replicate 20 0)"

lemma sample_hmac_ok: "hmac_sha1_ok sample_hmac"
  by (simp add: hmac_sha1_ok_def sample_hmac_def)

lemma sample_hotp: "hotp sample_hmac key c = Inr 0"
  by (simp add: hotp_def sample_hmac_def Let_def)

lemma totp_own_code_accepted_witness:
  "\<exists>step. verify_totp sample_hmac (base32_encode [1, 2, 3]) (format_code 0) 59 = Inr (Some step)"
  by (rule totp_own_code_accepted [OF sample_hmac_ok, where drift = 1]) (simp_all add: sample_hotp)

lemma sample_verify:
  "verify_totp sample_hmac (base32_encode [1, 2, 3]) (format_code 0) 59 = Inr (Some 0)"
proof -
  have f: "length (format_code 0) = kDigits" "list_all isdigit (format_code 0)"
    using format_code_fits [of 0] by (simp_all add: kDigits_def)
  have "verify_drifts sample_hmac [1, 2, 3] (format_code 0) 1 [-1, 0, 1] = Inr (Some 0)"
    by (simp add: sample_hotp Let_def constant_time_equal_def)
  then show ?thesis by (simp add: verify_totp_def f base32_roundtrip kStepSeconds_def tdiv_def)
qed

lemma verify_totp_sound_witness: "length (format_code 0) = 6"
  using verify_totp_sound [OF sample_verify] by (elim conjE) assumption

end
