(* ===== verification/Passwords.thy ===== *)
theory Passwords
  imports Codecs
begin

text \<open>
  \<^verbatim>\<open>auth/password_hash.cpp\<close> and \<^verbatim>\<open>auth/backup_codes.cpp\<close>: salted password hashes and single-use
  recovery codes.  PBKDF2 (\<open>PKCS5_PBKDF2_HMAC\<close>) and \<open>RAND_bytes\<close> are parameters that may fail;
  what is relied on is that PBKDF2 returns the 32 bytes asked for.
\<close>

section \<open>Password hashes\<close>

definition kIterations :: int where
  "kIterations = 210000"

definition kSaltBytes :: nat where
  "kSaltBytes = 16"

definition kKeyBytes :: nat where
  "kKeyBytes = 32"

record PasswordHash =
  ph_salt_hex :: string
  ph_hash_hex :: string
  ph_iterations :: int

text \<open>Password, salt, iterations and key length.\<close>

type_synonym pbkdf2 = "string \<Rightarrow> bytes \<Rightarrow> int \<Rightarrow> nat \<Rightarrow> bytes option"

definition derive :: "pbkdf2 \<Rightarrow> string \<Rightarrow> bytes \<Rightarrow> int \<Rightarrow> bytes result" where
  "derive kdf password salt iterations =
     (case kdf password salt iterations kKeyBytes of
        None \<Rightarrow> throw (RuntimeError ''PBKDF2 derivation failed'')
      | Some key \<Rightarrow> Inr key)"

definition hash_password :: "pbkdf2 \<Rightarrow> (nat \<Rightarrow> bytes option) \<Rightarrow> string \<Rightarrow> PasswordHash result" where
  "hash_password kdf rand_bytes password =
     (case rand_bytes kSaltBytes of
        None \<Rightarrow> throw (RuntimeError ''RAND_bytes failed'')
      | Some salt \<Rightarrow>
          bind_result (derive kdf password salt kIterations) (\<lambda>key.
            Inr \<lparr>ph_salt_hex = to_hex salt, ph_hash_hex = to_hex key, ph_iterations = kIterations\<rparr>))"

definition verify_password :: "pbkdf2 \<Rightarrow> string \<Rightarrow> PasswordHash \<Rightarrow> bool result" where
  "verify_password kdf password stored =
     bind_result (from_hex (ph_salt_hex stored)) (\<lambda>salt.
     bind_result (derive kdf password salt (if ph_iterations stored > 0 then ph_iterations stored else kIterations)) (\<lambda>key.
     bind_result (from_hex (ph_hash_hex stored)) (\<lambda>expected.
       if length key \<noteq> length expected then Inr False else Inr (key = expected))))"

text \<open>A stored hash verifies the password it was made from, and another password only if PBKDF2
  derives the same key from it under the stored salt.\<close>

theorem password_roundtrip:
  assumes "hash_password kdf rand_bytes password = Inr stored"
    and "kdf candidate salt kIterations kKeyBytes = Some key" and "rand_bytes kSaltBytes = Some salt"
  shows "verify_password kdf password stored = Inr True
    \<and> verify_password kdf candidate stored = Inr (kdf password salt kIterations kKeyBytes = Some key)"
proof -
  from assms(1,3) obtain own where own: "kdf password salt kIterations kKeyBytes = Some own"
    "stored = \<lparr>ph_salt_hex = to_hex salt, ph_hash_hex = to_hex own, ph_iterations = kIterations\<rparr>"
    by (auto simp: hash_password_def derive_def split: option.splits)
  have it: "(if ph_iterations stored > 0 then ph_iterations stored else kIterations) = kIterations"
    by (simp add: own(2) kIterations_def)
  show ?thesis
    using own assms(2) unfolding verify_password_def it by (auto simp: hex_roundtrip derive_def)
qed

definition sample_kdf :: pbkdf2 where
  "sample_kdf password salt iterations len = Some (replicate len (word_of_nat (length password)))"

definition sample_rand :: "nat \<Rightarrow> bytes option" where
  "sample_rand n = Some (replicate n 7)"

lemma password_roundtrip_witness:
  "verify_password sample_kdf ''secret'' \<lparr>ph_salt_hex = to_hex (replicate 16 7),
     ph_hash_hex = to_hex (replicate 32 6), ph_iterations = 210000\<rparr> = Inr True"
  by (rule conjunct1, rule password_roundtrip [where rand_bytes = sample_rand and candidate = "''x''"])
     (simp_all add: hash_password_def sample_rand_def derive_def sample_kdf_def kSaltBytes_def kKeyBytes_def kIterations_def)

section \<open>Backup codes\<close>

definition kCodeAlphabet :: string where
  "kCodeAlphabet = ''23456789ABCDEFGHJKMNPQRSTUVWXYZ''"

record BackupCode =
  bc_hash :: PasswordHash
  bc_used :: bool

definition kGroupLength :: nat where
  "kGroupLength = 4"

definition kCodeLength :: nat where
  "kCodeLength = kGroupLength * 2 + 1"

text \<open>\<open>rand i\<close> is the outcome of the \<open>i\<close>-th one-byte call of \<open>RAND_bytes\<close>.\<close>

fun random_code_group :: "(nat \<Rightarrow> u8 option) \<Rightarrow> nat \<Rightarrow> nat \<Rightarrow> string result" where
  "random_code_group rand i 0 = Inr []"
| "random_code_group rand i (Suc n) =
     (case rand i of
        None \<Rightarrow> throw (RuntimeError ''RAND_bytes failed'')
      | Some byte \<Rightarrow>
          bind_result (random_code_group rand (Suc i) n) (\<lambda>out.
            Inr (kCodeAlphabet ! (unat byte mod length kCodeAlphabet) # out)))"

fun generate_backup_codes :: "(nat \<Rightarrow> u8 option) \<Rightarrow> nat \<Rightarrow> nat \<Rightarrow> string list result" where
  "generate_backup_codes rand i 0 = Inr []"
| "generate_backup_codes rand i (Suc count) =
     bind_result (random_code_group rand i kGroupLength) (\<lambda>a.
     bind_result (random_code_group rand (i + kGroupLength) kGroupLength) (\<lambda>b.
     bind_result (generate_backup_codes rand (i + 2 * kGroupLength) count) (\<lambda>codes.
       Inr ((a @ ''-'' @ b) # codes))))"

definition has_backup_code_shape :: "string \<Rightarrow> bool" where
  "has_backup_code_shape candidate =
     (if length candidate \<noteq> kCodeLength \<or> candidate ! kGroupLength \<noteq> CHR ''-'' then False
      else \<forall>i \<in> set [0..<length candidate].
             \<not> (i \<noteq> kGroupLength \<and> find_char (candidate ! i) kCodeAlphabet = None))"

text \<open>Every code is hashed under its own salt.\<close>

fun hash_backup_codes :: "pbkdf2 \<Rightarrow> (nat \<Rightarrow> nat \<Rightarrow> bytes option) \<Rightarrow> nat \<Rightarrow> string list \<Rightarrow> BackupCode list result" where
  "hash_backup_codes kdf rand i [] = Inr []"
| "hash_backup_codes kdf rand i (plain # rest) =
     bind_result (hash_password kdf (rand i) plain) (\<lambda>h.
     bind_result (hash_backup_codes kdf rand (Suc i) rest) (\<lambda>out.
       Inr (\<lparr>bc_hash = h, bc_used = False\<rparr> # out)))"

text \<open>The loop of \<open>consume_backup_code\<close>; \<open>None\<close> is \<open>match_index = -1\<close>.\<close>

fun match_loop :: "pbkdf2 \<Rightarrow> string \<Rightarrow> BackupCode list \<Rightarrow> nat \<Rightarrow> nat option \<Rightarrow> nat option result" where
  "match_loop kdf candidate [] i match_index = Inr match_index"
| "match_loop kdf candidate (c # codes) i match_index =
     (if bc_used c then match_loop kdf candidate codes (Suc i) match_index
      else bind_result (verify_password kdf candidate (bc_hash c)) (\<lambda>ok.
             match_loop kdf candidate codes (Suc i)
               (if ok \<and> match_index = None then Some i else match_index)))"

definition consume_backup_code ::
  "pbkdf2 \<Rightarrow> BackupCode list \<Rightarrow> string \<Rightarrow> (BackupCode list \<times> bool) result" where
  "consume_backup_code kdf codes candidate =
     (if \<not> has_backup_code_shape candidate then Inr (codes, False)
      else bind_result (match_loop kdf candidate codes 0 None) (\<lambda>match_index.
             case match_index of
               None \<Rightarrow> Inr (codes, False)
             | Some i \<Rightarrow> Inr (codes[i := (codes ! i)\<lparr>bc_used := True\<rparr>], True)))"

text \<open>A stored code accepts a candidate.\<close>

definition accepts :: "pbkdf2 \<Rightarrow> string \<Rightarrow> BackupCode \<Rightarrow> bool" where
  "accepts kdf candidate c \<longleftrightarrow> \<not> bc_used c \<and> verify_password kdf candidate (bc_hash c) = Inr True"

definition verifiable :: "pbkdf2 \<Rightarrow> string \<Rightarrow> BackupCode list \<Rightarrow> bool" where
  "verifiable kdf candidate codes \<longleftrightarrow>
     list_all (\<lambda>c. bc_used c \<or> is_ok (verify_password kdf candidate (bc_hash c))) codes"

lemma map_option_shift: "map_option ((+) (Suc i)) x = map_option (\<lambda>j. Suc (i + j)) x"
  by (cases x) simp_all

lemma match_loop_eq:
  "verifiable kdf s codes \<Longrightarrow>
     match_loop kdf s codes i m =
       Inr (case m of Some j \<Rightarrow> Some j | None \<Rightarrow> map_option (\<lambda>j. i + j) (find_first (accepts kdf s) codes))"
proof (induction codes arbitrary: i m)
  case (Cons c codes)
  show ?case
  proof (cases "bc_used c")
    case True
    with Cons show ?thesis
      by (auto simp: verifiable_def accepts_def option.map_comp comp_def map_option_shift split: option.splits)
  next
    case False
    with Cons.prems obtain ok where ok: "verify_password kdf s (bc_hash c) = Inr ok"
      by (auto simp: verifiable_def is_ok_iff)
    have "verifiable kdf s codes" using Cons.prems by (simp add: verifiable_def)
    note IH = Cons.IH [OF this]
    show ?thesis
      using False ok by (auto simp: IH accepts_def option.map_comp comp_def map_option_shift split: option.splits)
  qed
qed (simp split: option.split)

lemma consume_eq:
  assumes "verifiable kdf s codes"
  shows "consume_backup_code kdf codes s =
     Inr (if has_backup_code_shape s
          then (case find_first (accepts kdf s) codes of
                  None \<Rightarrow> (codes, False)
                | Some i \<Rightarrow> (codes[i := (codes ! i)\<lparr>bc_used := True\<rparr>], True))
          else (codes, False))"
  using match_loop_eq [OF assms, of 0 None] by (auto simp: consume_backup_code_def split: option.splits)

text \<open>Consuming a recovery code succeeds exactly when the candidate has the printed shape and some
  unused code accepts it; then exactly the first such code becomes used and every other code
  keeps its state, and otherwise nothing changes.\<close>

theorem consume_backup_code_correct:
  assumes "verifiable kdf candidate codes"
  shows "\<exists>codes' ok. consume_backup_code kdf codes candidate = Inr (codes', ok)
    \<and> (ok \<longleftrightarrow> has_backup_code_shape candidate \<and> list_ex (accepts kdf candidate) codes)
    \<and> (if ok then \<exists>pre c post. codes = pre @ c # post \<and> list_all (\<lambda>d. \<not> accepts kdf candidate d) pre
                    \<and> accepts kdf candidate c \<and> codes' = pre @ c\<lparr>bc_used := True\<rparr> # post
       else codes' = codes)"
proof (cases "has_backup_code_shape candidate \<and> find_first (accepts kdf candidate) codes \<noteq> None")
  case True
  then obtain i where i: "find_first (accepts kdf candidate) codes = Some i" by auto
  from find_first_Some [OF i] have f: "i < length codes" "accepts kdf candidate (codes ! i)"
    "\<forall>d \<in> set (take i codes). \<not> accepts kdf candidate d" by auto
  have s: "codes = take i codes @ codes ! i # drop (Suc i) codes" using f(1) by (rule id_take_nth_drop)
  have u: "codes[i := (codes ! i)\<lparr>bc_used := True\<rparr>]
      = take i codes @ (codes ! i)\<lparr>bc_used := True\<rparr> # drop (Suc i) codes"
    using f(1) by (simp add: upd_conv_take_nth_drop)
  have ex: "list_ex (accepts kdf candidate) codes" using f(1,2) by (auto simp: list_ex_iff)
  have "consume_backup_code kdf codes candidate = Inr (codes[i := (codes ! i)\<lparr>bc_used := True\<rparr>], True)"
    using True i by (simp add: consume_eq [OF assms])
  moreover have "list_all (\<lambda>d. \<not> accepts kdf candidate d) (take i codes)" using f(3) by (simp add: list_all_iff)
  ultimately show ?thesis using True ex s u f(2) by (intro exI conjI) (assumption, simp, simp, blast)
next
  case False
  then have "\<not> (has_backup_code_shape candidate \<and> list_ex (accepts kdf candidate) codes)"
    by (auto simp: find_first_None list_ex_iff)
  moreover from False have "consume_backup_code kdf codes candidate = Inr (codes, False)"
    by (auto simp: consume_eq [OF assms])
  ultimately show ?thesis by (auto intro!: exI)
qed

lemma consume_backup_code_correct_witness:
  "\<exists>codes' ok. consume_backup_code sample_kdf [] ''2345-6789'' = Inr (codes', ok)"
  using consume_backup_code_correct [of sample_kdf "''2345-6789''" "[]"] by (auto simp: verifiable_def)

lemma code_char: "kCodeAlphabet ! (unat (b :: u8) mod length kCodeAlphabet) \<in> set kCodeAlphabet"
proof -
  have "0 < length kCodeAlphabet" by (simp add: kCodeAlphabet_def)
  then show ?thesis by (intro nth_mem) simp
qed

lemma random_group_shape:
  "random_code_group rand i n = Inr s \<Longrightarrow> length s = n \<and> set s \<subseteq> set kCodeAlphabet"
  using code_char by (induction n arbitrary: i s) (force simp: bind_result_Inr_iff split: option.splits)+

lemma shape_of_groups:
  assumes "length a = 4" "length b = 4" "set a \<subseteq> set kCodeAlphabet" "set b \<subseteq> set kCodeAlphabet"
  shows "has_backup_code_shape (a @ ''-'' @ b)"
proof -
  have "(a @ ''-'' @ b) ! i \<in> set kCodeAlphabet" if "i < 9" "i \<noteq> 4" for i
  proof (cases "i < 4")
    case True
    then show ?thesis using assms(1,3) by (auto simp: nth_append)
  next
    case False
    with that have "(a @ ''-'' @ b) ! i = b ! (i - 5)" "i - 5 < length b"
      using assms(1,2) by (auto simp: nth_append nth_Cons' )
    then show ?thesis using assms(4) by auto
  qed
  then have "\<forall>i < 9. i \<noteq> 4 \<longrightarrow> (a @ ''-'' @ b) ! i \<in> set kCodeAlphabet" by blast
  moreover have "length (a @ ''-'' @ b) = 9" "(a @ ''-'' @ b) ! 4 = CHR ''-''" using assms(1,2) by (simp_all add: nth_append)
  ultimately show ?thesis
    unfolding has_backup_code_shape_def kCodeLength_def kGroupLength_def find_char_None by auto
qed

lemma generated_codes_shape:
  "generate_backup_codes rand i n = Inr codes \<Longrightarrow> length codes = n \<and> list_all has_backup_code_shape codes"
proof (induction n arbitrary: i codes)
  case (Suc n)
  from Suc.prems obtain a b rest where g: "random_code_group rand i kGroupLength = Inr a"
    "random_code_group rand (i + kGroupLength) kGroupLength = Inr b"
    "generate_backup_codes rand (i + 2 * kGroupLength) n = Inr rest" "codes = (a @ ''-'' @ b) # rest"
    by (auto simp: bind_result_Inr_iff)
  have "has_backup_code_shape (a @ ''-'' @ b)"
    using random_group_shape [OF g(1)] random_group_shape [OF g(2)]
    by (intro shape_of_groups) (simp_all add: kGroupLength_def)
  with Suc.IH [OF g(3)] g(4) show ?case by simp
qed simp

text \<open>PBKDF2 does not fail on the inputs it is given.\<close>

definition kdf_ok :: "pbkdf2 \<Rightarrow> bool" where
  "kdf_ok kdf \<longleftrightarrow> (\<forall>password salt n len. kdf password salt n len \<noteq> None)"

lemma derive_total: "kdf_ok kdf \<Longrightarrow> \<exists>key. derive kdf p salt n = Inr key"
  by (auto simp: kdf_ok_def derive_def split: option.splits)

lemma hash_verifies:
  assumes "kdf_ok kdf" "hash_password kdf rand p = Inr h"
  shows "verify_password kdf p h = Inr True" "is_ok (verify_password kdf q h)"
proof -
  from assms(2) obtain salt where r: "rand kSaltBytes = Some salt"
    by (auto simp: hash_password_def split: option.splits)
  from assms(1) have "kdf p salt kIterations kKeyBytes \<noteq> None" "kdf q salt kIterations kKeyBytes \<noteq> None"
    unfolding kdf_ok_def by blast+
  then obtain key key' where "kdf p salt kIterations kKeyBytes = Some key" "kdf q salt kIterations kKeyBytes = Some key'"
    by blast
  moreover from this r assms(2) have
    "h = \<lparr>ph_salt_hex = to_hex salt, ph_hash_hex = to_hex key, ph_iterations = kIterations\<rparr>"
    by (simp add: hash_password_def derive_def)
  ultimately show "verify_password kdf p h = Inr True" "is_ok (verify_password kdf q h)"
    by (simp_all add: verify_password_def hex_roundtrip derive_def kIterations_def)
qed

lemma hashed_codes:
  assumes "kdf_ok kdf"
  shows "hash_backup_codes kdf rand i plain = Inr stored \<Longrightarrow>
    verifiable kdf s stored \<and> (s \<in> set plain \<longrightarrow> list_ex (accepts kdf s) stored)"
proof (induction plain arbitrary: i stored)
  case (Cons c plain)
  from Cons.prems obtain h rest where h: "hash_password kdf (rand i) c = Inr h"
    "hash_backup_codes kdf rand (Suc i) plain = Inr rest" "stored = \<lparr>bc_hash = h, bc_used = False\<rparr> # rest"
    by (auto simp: bind_result_Inr_iff)
  from Cons.IH [OF h(2)] hash_verifies [OF assms h(1)] h(3) show ?case
    by (auto simp: verifiable_def accepts_def)
qed (simp add: verifiable_def)

text \<open>Every recovery code that was generated and hashed for a user is accepted when it is typed
  in, for any outcome of the random generator.\<close>

theorem generated_backup_code_accepted:
  assumes "kdf_ok kdf" and "generate_backup_codes rand_byte 0 count = Inr plain"
    and "hash_backup_codes kdf rand 0 plain = Inr stored" and "candidate \<in> set plain"
  shows "\<exists>stored'. consume_backup_code kdf stored candidate = Inr (stored', True)"
proof -
  have "verifiable kdf candidate stored" "list_ex (accepts kdf candidate) stored"
    using hashed_codes [OF assms(1,3), of candidate] assms(4) by auto
  moreover have "has_backup_code_shape candidate"
    using generated_codes_shape [OF assms(2)] assms(4) by (auto simp: list_all_iff)
  ultimately show ?thesis
    using find_first_None [of "accepts kdf candidate" stored]
    by (auto simp: consume_eq list_ex_iff split: option.splits)
qed

lemma generated_backup_code_accepted_witness:
  "\<exists>stored'. consume_backup_code sample_kdf [\<lparr>bc_hash = \<lparr>ph_salt_hex = to_hex (replicate 16 7),
       ph_hash_hex = to_hex (replicate 32 9), ph_iterations = 210000\<rparr>, bc_used = False\<rparr>] ''2222-2222''
     = Inr (stored', True)"
proof (rule generated_backup_code_accepted [where rand_byte = "\<lambda>_. Some 0" and count = 1
    and plain = "[''2222-2222'']" and rand = "\<lambda>_. sample_rand"])
  show "kdf_ok sample_kdf" by (simp add: kdf_ok_def sample_kdf_def)
  show "generate_backup_codes (\<lambda>_. Some 0) 0 1 = Inr [''2222-2222'']"
  proof -
    have "random_code_group (\<lambda>_. Some 0) i n = Inr (replicate n (CHR ''2''))" for i n
      by (induction n arbitrary: i) (simp_all add: kCodeAlphabet_def)
    then show ?thesis by (simp add: kGroupLength_def numeral_eq_Suc)
  qed
qed (simp_all add: hash_password_def sample_rand_def derive_def sample_kdf_def kSaltBytes_def kKeyBytes_def
    kIterations_def)

end
