(* ===== verification/Token_Stores.thy ===== *)
theory Token_Stores
  imports Codecs
begin

text \<open>
  The short-lived states of the authentication flow: \<^verbatim>\<open>auth/session_store.cpp\<close>,
  \<^verbatim>\<open>auth/pending_mfa_store.cpp\<close>, \<^verbatim>\<open>auth/pending_totp_store.cpp\<close> and
  \<^verbatim>\<open>auth/webauthn/challenge_store.cpp\<close>.  Each operation is one critical section; the clock
  is an argument.  The first three share the contract \<open>expiring_store\<close>, whose client is the
  history of operations on the store.
\<close>

section \<open>Tokens\<close>

definition random_token_hex :: "(nat \<Rightarrow> bytes option) \<Rightarrow> string result" where
  "random_token_hex rand_bytes =
     (case rand_bytes 32 of
        None \<Rightarrow> throw (RuntimeError ''RAND_bytes failed'')
      | Some buf \<Rightarrow> Inr (to_hex buf))"

lemma random_token_hex_inj:
  "random_token_hex r = Inr t \<Longrightarrow> random_token_hex r' = Inr t \<Longrightarrow> r 32 = r' 32"
  using hex_roundtrip by (auto simp: random_token_hex_def split: option.splits) (metis sum.inject(2))

section \<open>Sessions\<close>

record SessionInfo =
  si_username :: string
  si_needs_mfa_setup :: bool

record Session =
  ss_username :: string
  ss_needs_mfa_setup :: bool
  ss_expires_at :: ticks

type_synonym SessionStore = "(string, Session) umap"

definition put_session :: "string \<Rightarrow> SessionInfo \<Rightarrow> ticks \<Rightarrow> ticks \<Rightarrow> SessionStore \<Rightarrow> SessionStore" where
  "put_session token info now ttl sessions =
     um_put token \<lparr>ss_username = si_username info, ss_needs_mfa_setup = si_needs_mfa_setup info,
                   ss_expires_at = tick_add now ttl\<rparr>
       (um_erase_if (\<lambda>entry. now > ss_expires_at (snd entry)) sessions)"

definition create_session ::
  "(nat \<Rightarrow> bytes option) \<Rightarrow> string \<Rightarrow> bool \<Rightarrow> ticks \<Rightarrow> ticks \<Rightarrow> SessionStore \<Rightarrow> (string \<times> SessionStore) result" where
  "create_session rand_bytes username needs_mfa_setup now ttl sessions =
     bind_result (random_token_hex rand_bytes) (\<lambda>token.
       Inr (token, put_session token
         \<lparr>si_username = username, si_needs_mfa_setup = needs_mfa_setup\<rparr> now ttl sessions))"

definition validate_session :: "SessionStore \<Rightarrow> string \<Rightarrow> ticks \<Rightarrow> SessionInfo option" where
  "validate_session sessions token now =
     (case um_find sessions token of
        None \<Rightarrow> None
      | Some s \<Rightarrow>
          if now > ss_expires_at s then None
          else Some \<lparr>si_username = ss_username s, si_needs_mfa_setup = ss_needs_mfa_setup s\<rparr>)"

definition invalidate_session :: "string \<Rightarrow> SessionStore \<Rightarrow> SessionStore" where
  "invalidate_session token sessions = um_erase token sessions"

definition mark_mfa_satisfied :: "string \<Rightarrow> SessionStore \<Rightarrow> SessionStore" where
  "mark_mfa_satisfied token sessions =
     (case um_find sessions token of
        None \<Rightarrow> sessions
      | Some s \<Rightarrow> um_put token (s\<lparr>ss_needs_mfa_setup := False\<rparr>) sessions)"

definition session_count :: "SessionStore \<Rightarrow> nat" where
  "session_count sessions = length sessions"

definition session_ttl :: ticks where
  "session_ttl = hours 12"

section \<open>Logins that still owe a second factor\<close>

record PendingMfa =
  pm_username :: string
  pm_expires_at :: ticks

type_synonym PendingMfaStore = "(string, PendingMfa) umap"

definition put_pending_mfa :: "string \<Rightarrow> string \<Rightarrow> ticks \<Rightarrow> ticks \<Rightarrow> PendingMfaStore \<Rightarrow> PendingMfaStore" where
  "put_pending_mfa token username now ttl pending =
     um_put token \<lparr>pm_username = username, pm_expires_at = tick_add now ttl\<rparr>
       (um_erase_if (\<lambda>entry. now > pm_expires_at (snd entry)) pending)"

definition create_pending_mfa ::
  "(nat \<Rightarrow> bytes option) \<Rightarrow> string \<Rightarrow> ticks \<Rightarrow> ticks \<Rightarrow> PendingMfaStore \<Rightarrow> (string \<times> PendingMfaStore) result" where
  "create_pending_mfa rand_bytes username now ttl pending =
     bind_result (random_token_hex rand_bytes) (\<lambda>token.
       Inr (token, put_pending_mfa token username now ttl pending))"

definition validate_pending_mfa :: "PendingMfaStore \<Rightarrow> string \<Rightarrow> ticks \<Rightarrow> string option" where
  "validate_pending_mfa pending token now =
     (case um_find pending token of
        None \<Rightarrow> None
      | Some e \<Rightarrow> if now > pm_expires_at e then None else Some (pm_username e))"

definition invalidate_pending_mfa :: "string \<Rightarrow> PendingMfaStore \<Rightarrow> PendingMfaStore" where
  "invalidate_pending_mfa token pending = um_erase token pending"

definition pending_mfa_ttl :: ticks where
  "pending_mfa_ttl = minutes 5"

section \<open>Enrolments of an authenticator in progress\<close>

record PendingTotp =
  pt_secret_base32 :: string
  pt_expires_at :: ticks

type_synonym PendingTotpStore = "(string, PendingTotp) umap"

definition start_pending_totp ::
  "string \<Rightarrow> string \<Rightarrow> ticks \<Rightarrow> ticks \<Rightarrow> PendingTotpStore \<Rightarrow> PendingTotpStore" where
  "start_pending_totp username secret_base32 now ttl pending =
     um_put username \<lparr>pt_secret_base32 = secret_base32, pt_expires_at = tick_add now ttl\<rparr> pending"

definition pending_secret_for :: "PendingTotpStore \<Rightarrow> string \<Rightarrow> ticks \<Rightarrow> string option" where
  "pending_secret_for pending username now =
     (case um_find pending username of
        None \<Rightarrow> None
      | Some e \<Rightarrow> if now > pt_expires_at e then None else Some (pt_secret_base32 e))"

definition clear_pending_totp :: "string \<Rightarrow> PendingTotpStore \<Rightarrow> PendingTotpStore" where
  "clear_pending_totp username pending = um_erase username pending"

definition pending_totp_ttl :: ticks where
  "pending_totp_ttl = minutes 10"

section \<open>The contract of an expiring store\<close>

text \<open>The operations on a store, each with the time at which it ran.\<close>

datatype ('k, 'v) store_op = Put ticks 'k 'v ticks | Drop ticks 'k

fun op_time :: "('k, 'v) store_op \<Rightarrow> ticks" where
  "op_time (Put now k v ttl) = now"
| "op_time (Drop now k) = now"

text \<open>What the history of operations (latest first) says about a key at time \<open>t\<close>: the last
  operation on the key decides.\<close>

fun history_lookup :: "('k, 'v) store_op list \<Rightarrow> 'k \<Rightarrow> ticks \<Rightarrow> 'v option" where
  "history_lookup [] k t = None"
| "history_lookup (Put now k' v ttl # ops) k t =
     (if k' = k then (if t \<le> tick_add now ttl then Some v else None) else history_lookup ops k t)"
| "history_lookup (Drop now k' # ops) k t = (if k' = k then None else history_lookup ops k t)"

text \<open>The clock did not go backwards: the times of the history, latest first.\<close>

fun clocked :: "ticks \<Rightarrow> ('k, 'v) store_op list \<Rightarrow> bool" where
  "clocked t [] = True"
| "clocked t (op # ops) = (op_time op \<le> t \<and> clocked (op_time op) ops)"

fun store_run ::
  "('k \<Rightarrow> 'v \<Rightarrow> ticks \<Rightarrow> ticks \<Rightarrow> 's \<Rightarrow> 's) \<Rightarrow> ('k \<Rightarrow> 's \<Rightarrow> 's) \<Rightarrow> ('k, 'v) store_op list \<Rightarrow> 's \<Rightarrow> 's" where
  "store_run put del [] s = s"
| "store_run put del (Put now k v ttl # ops) s = put k v now ttl (store_run put del ops s)"
| "store_run put del (Drop now k # ops) s = del k (store_run put del ops s)"

locale expiring_store =
  fixes put :: "'k \<Rightarrow> 'v \<Rightarrow> ticks \<Rightarrow> ticks \<Rightarrow> 's \<Rightarrow> 's"
    and del :: "'k \<Rightarrow> 's \<Rightarrow> 's"
    and get :: "'s \<Rightarrow> 'k \<Rightarrow> ticks \<Rightarrow> 'v option"
    and ok :: "'s \<Rightarrow> bool"
    and init :: 's
  assumes ok_init: "ok init"
    and ok_put: "ok s \<Longrightarrow> ok (put k v now ttl s)"
    and ok_del: "ok s \<Longrightarrow> ok (del k s)"
    and get_init: "get init k t = None"
    and get_put: "ok s \<Longrightarrow> get (put k v now ttl s) k t = (if t \<le> tick_add now ttl then Some v else None)"
    and get_put_other: "ok s \<Longrightarrow> k' \<noteq> k \<Longrightarrow> now \<le> t \<Longrightarrow> get (put k v now ttl s) k' t = get s k' t"
    and get_del: "ok s \<Longrightarrow> get (del k s) k' t = (if k' = k then None else get s k' t)"
begin

lemma ok_run: "ok (store_run put del ops init)"
proof (induction ops)
  case (Cons op ops)
  then show ?case by (cases op) (simp_all add: ok_put ok_del)
qed (simp add: ok_init)

lemma clocked_later: "clocked t ops \<Longrightarrow> t \<le> t' \<Longrightarrow> clocked t' ops"
  by (cases ops) auto

lemma get_run: "clocked t ops \<Longrightarrow> get (store_run put del ops init) k t = history_lookup ops k t"
proof (induction ops)
  case (Cons op ops)
  then have "op_time op \<le> t" "clocked t ops" by (auto intro: clocked_later)
  with Cons.IH show ?case
    by (cases op) (auto simp: get_put get_put_other get_del ok_run)
qed (simp add: get_init)

end

interpretation sessions: expiring_store put_session invalidate_session validate_session um_ok "[]"
  by unfold_locales
     (auto simp: put_session_def invalidate_session_def validate_session_def umap split: option.splits)

interpretation pending_mfa: expiring_store put_pending_mfa invalidate_pending_mfa validate_pending_mfa um_ok "[]"
  by unfold_locales
     (auto simp: put_pending_mfa_def invalidate_pending_mfa_def validate_pending_mfa_def umap
       split: option.splits)

interpretation pending_totp: expiring_store start_pending_totp clear_pending_totp pending_secret_for um_ok "[]"
  by unfold_locales
     (auto simp: start_pending_totp_def clear_pending_totp_def pending_secret_for_def umap
       split: option.splits)



text \<open>The same holds for the tokens of logins that still owe their second factor.\<close>

theorem pending_mfa_history:
  assumes "clocked t ops"
  shows "validate_pending_mfa (store_run put_pending_mfa invalidate_pending_mfa ops []) token t
    = history_lookup ops token t"
  by (rule pending_mfa.get_run [OF assms])

lemma pending_mfa_history_witness:
  "validate_pending_mfa (store_run put_pending_mfa invalidate_pending_mfa
     [Drop 10 ''a'', Put 10 ''a'' ''u'' 5] []) ''a'' 15 = None"
  by (subst pending_mfa_history) simp_all

lemma pending_totp_history:
  assumes "clocked t ops"
  shows "pending_secret_for (store_run start_pending_totp clear_pending_totp ops []) user t
    = history_lookup ops user t"
  by (rule pending_totp.get_run [OF assms])

text \<open>Completing an enrolment changes the flag of that session only, and cannot revive it.\<close>

lemma mark_mfa_satisfied_validate:
  "validate_session (mark_mfa_satisfied token s) token' t =
     (if token' = token then map_option (\<lambda>i. i\<lparr>si_needs_mfa_setup := False\<rparr>) (validate_session s token t)
      else validate_session s token' t)"
  by (auto simp: mark_mfa_satisfied_def validate_session_def umap split: option.splits)

section \<open>WebAuthn challenges\<close>

definition kMaxEntries :: nat where
  "kMaxEntries = 10000"

record Challenge =
  ch_challenge :: bytes
  ch_expires_at :: ticks

record ChallengeStore =
  cs_entries :: "(string, Challenge) umap"
  cs_order :: "(string \<times> ticks) list"

definition new_challenge_store :: ChallengeStore where
  "new_challenge_store = \<lparr>cs_entries = [], cs_order = []\<rparr>"

fun reclaim :: "ticks \<Rightarrow> (string \<times> ticks) list \<Rightarrow> (string, Challenge) umap
    \<Rightarrow> (string, Challenge) umap \<times> (string \<times> ticks) list" where
  "reclaim now [] entries = (entries, [])"
| "reclaim now ((key, expires_at) # order) entries =
     (if length ((key, expires_at) # order) > kMaxEntries \<or> expires_at \<le> now
      then reclaim now order
             (case um_find entries key of
                Some e \<Rightarrow> if ch_expires_at e = expires_at then um_erase key entries else entries
              | None \<Rightarrow> entries)
      else (entries, (key, expires_at) # order))"

definition start_challenge :: "string \<Rightarrow> bytes \<Rightarrow> ticks \<Rightarrow> ticks \<Rightarrow> ChallengeStore \<Rightarrow> ChallengeStore" where
  "start_challenge key challenge now ttl s =
     (let expires_at = tick_add now ttl;
          (entries, order) = reclaim now (cs_order s @ [(key, expires_at)])
             (um_put key \<lparr>ch_challenge = challenge, ch_expires_at = expires_at\<rparr> (cs_entries s))
      in \<lparr>cs_entries = entries, cs_order = order\<rparr>)"

definition consume_challenge :: "string \<Rightarrow> ticks \<Rightarrow> ChallengeStore \<Rightarrow> ChallengeStore \<times> bytes option" where
  "consume_challenge key now s =
     (case um_find (cs_entries s) key of
        None \<Rightarrow> (s, None)
      | Some entry \<Rightarrow>
          (s\<lparr>cs_entries := um_erase key (cs_entries s)\<rparr>,
           if now > ch_expires_at entry then None else Some (ch_challenge entry)))"

definition challenge_count :: "ChallengeStore \<Rightarrow> nat" where
  "challenge_count s = length (cs_entries s)"

datatype challenge_op = StartChallenge ticks string bytes ticks | ConsumeChallenge ticks string

fun challenge_step :: "challenge_op \<Rightarrow> ChallengeStore \<Rightarrow> ChallengeStore" where
  "challenge_step (StartChallenge now key c ttl) s = start_challenge key c now ttl s"
| "challenge_step (ConsumeChallenge now key) s = fst (consume_challenge key now s)"

text \<open>The run of operations, the latest first.\<close>

fun challenge_run :: "challenge_op list \<Rightarrow> ChallengeStore" where
  "challenge_run [] = new_challenge_store"
| "challenge_run (op # ops) = challenge_step op (challenge_run ops)"

text \<open>The challenge a key may still redeem: the last operation on the key started it.\<close>

fun outstanding :: "challenge_op list \<Rightarrow> string \<Rightarrow> Challenge option" where
  "outstanding [] key = None"
| "outstanding (StartChallenge now k c ttl # ops) key =
     (if k = key then Some \<lparr>ch_challenge = c, ch_expires_at = tick_add now ttl\<rparr> else outstanding ops key)"
| "outstanding (ConsumeChallenge now k # ops) key = (if k = key then None else outstanding ops key)"

text \<open>Every stored challenge has its stamp, so the map is never larger than the queue.\<close>

definition stamped_entries :: "(string, Challenge) umap \<Rightarrow> (string \<times> ticks) list \<Rightarrow> bool" where
  "stamped_entries entries order \<longleftrightarrow>
     um_ok entries \<and> (\<forall>(k, e) \<in> set entries. (k, ch_expires_at e) \<in> set order)"

lemma stamped_size: "stamped_entries entries order \<Longrightarrow> length entries \<le> length order"
proof -
  assume s: "stamped_entries entries order"
  then have d: "distinct (map fst entries)" by (simp add: stamped_entries_def um_ok_def)
  have "fst ` set entries \<subseteq> fst ` set order" using s by (force simp: stamped_entries_def)
  then have "card (fst ` set entries) \<le> card (fst ` set order)" by (intro card_mono) simp_all
  also have "\<dots> \<le> length order" by (metis card_length image_set length_map)
  finally show ?thesis using d by (metis distinct_card length_map image_set)
qed

lemma reclaim_sound:
  "stamped_entries entries order \<Longrightarrow> reclaim now order entries = (entries', order') \<Longrightarrow>
     stamped_entries entries' order' \<and> length order' \<le> kMaxEntries
       \<and> (\<forall>k e. um_find entries' k = Some e \<longrightarrow> um_find entries k = Some e)"
proof (induction now order entries rule: reclaim.induct)
  case (2 now key expires_at order entries)
  show ?case
  proof (cases "length ((key, expires_at) # order) > kMaxEntries \<or> expires_at \<le> now")
    case False
    with 2 show ?thesis by auto
  next
    case True
    let ?e = "case um_find entries key of
        Some e \<Rightarrow> if ch_expires_at e = expires_at then um_erase key entries else entries | None \<Rightarrow> entries"
    have ok: "um_ok entries" using "2.prems"(1) by (simp add: stamped_entries_def)
    have sub: "um_find ?e k = Some e \<Longrightarrow> um_find entries k = Some e \<and> (k, ch_expires_at e) \<noteq> (key, expires_at)" for k e
      by (auto simp: umap split: option.splits if_splits)
    have "um_ok ?e" using ok by (auto simp: umap split: option.splits)
    moreover have "(k, ch_expires_at e) \<in> set order" if "(k, e) \<in> set ?e" for k e
    proof -
      from that \<open>um_ok ?e\<close> have "um_find ?e k = Some e" by (simp only: um_find_iff)
      from sub [OF this] have "(k, e) \<in> set entries" "(k, ch_expires_at e) \<noteq> (key, expires_at)"
        by (blast intro: map_of_SomeD)+
      then show ?thesis using "2.prems"(1) by (auto simp: stamped_entries_def)
    qed
    ultimately have "stamped_entries ?e order" unfolding stamped_entries_def by blast
    moreover have "reclaim now order ?e = (entries', order')"
      using "2.prems"(2) True by (simp only: reclaim.simps if_True)
    ultimately have IH: "stamped_entries entries' order'" "length order' \<le> kMaxEntries"
      "\<forall>k e. um_find entries' k = Some e \<longrightarrow> um_find ?e k = Some e"
      using "2.IH" [OF True] by blast+
    then show ?thesis using sub by blast
  qed
qed (simp add: stamped_entries_def)

definition challenges_ok :: "ChallengeStore \<Rightarrow> bool" where
  "challenges_ok s \<longleftrightarrow> stamped_entries (cs_entries s) (cs_order s) \<and> length (cs_order s) \<le> kMaxEntries"

lemma start_challenge_sound:
  assumes "challenges_ok s"
  shows "challenges_ok (start_challenge key c now ttl s)"
    and "um_find (cs_entries (start_challenge key c now ttl s)) k = Some e \<Longrightarrow>
      (if k = key then e = \<lparr>ch_challenge = c, ch_expires_at = tick_add now ttl\<rparr> else um_find (cs_entries s) k = Some e)"
proof -
  let ?x = "tick_add now ttl"
  let ?entries = "um_put key \<lparr>ch_challenge = c, ch_expires_at = ?x\<rparr> (cs_entries s)"
  obtain entries order where r: "reclaim now (cs_order s @ [(key, ?x)]) ?entries = (entries, order)" by fastforce
  have ok: "um_ok (cs_entries s)" using assms by (simp add: challenges_ok_def stamped_entries_def)
  have "(k, ch_expires_at e) \<in> set (cs_order s @ [(key, ?x)])" if "(k, e) \<in> set ?entries" for k e
  proof -
    have "um_find ?entries k = Some e" using that ok by (simp only: um_find_iff um_ok_put)
    then have "k = key \<and> ch_expires_at e = ?x \<or> (k, e) \<in> set (cs_entries s)"
      using ok by (auto simp: umap um_find_iff split: if_splits)
    then show ?thesis using assms by (auto simp: challenges_ok_def stamped_entries_def)
  qed
  then have "stamped_entries ?entries (cs_order s @ [(key, ?x)])"
    using ok by (auto simp: stamped_entries_def)
  note rs = reclaim_sound [OF this r]
  have st: "start_challenge key c now ttl s = \<lparr>cs_entries = entries, cs_order = order\<rparr>"
    using r by (simp add: start_challenge_def Let_def)
  show "challenges_ok (start_challenge key c now ttl s)" using rs by (simp add: st challenges_ok_def)
  show "um_find (cs_entries (start_challenge key c now ttl s)) k = Some e \<Longrightarrow>
      (if k = key then e = \<lparr>ch_challenge = c, ch_expires_at = ?x\<rparr> else um_find (cs_entries s) k = Some e)"
    using rs by (auto simp: st umap split: if_splits)
qed

lemma consume_challenge_sound:
  assumes "challenges_ok s"
  shows "challenges_ok (fst (consume_challenge key now s))"
    and "um_find (cs_entries (fst (consume_challenge key now s))) k =
      (if k = key then None else um_find (cs_entries s) k)"
proof -
  have ok: "um_ok (cs_entries s)" using assms by (simp add: challenges_ok_def stamped_entries_def)
  have "set (um_erase key (cs_entries s)) \<subseteq> set (cs_entries s)"
    by (auto simp: um_erase_def AList.delete_eq)
  then show "challenges_ok (fst (consume_challenge key now s))"
    using assms by (auto simp: consume_challenge_def challenges_ok_def stamped_entries_def split: option.splits)
  show "um_find (cs_entries (fst (consume_challenge key now s))) k =
      (if k = key then None else um_find (cs_entries s) k)"
    by (auto simp: consume_challenge_def umap split: option.splits)
qed

lemma challenge_run_ok: "challenges_ok (challenge_run ops)"
proof (induction ops)
  case (Cons op ops)
  then show ?case by (cases op) (simp_all add: start_challenge_sound consume_challenge_sound)
qed (simp add: challenges_ok_def new_challenge_store_def stamped_entries_def)

lemma challenge_run_outstanding:
  "um_find (cs_entries (challenge_run ops)) k = Some e \<Longrightarrow> outstanding ops k = Some e"
proof (induction ops)
  case (Cons op ops)
  note ok = challenge_run_ok [of ops]
  show ?case
  proof (cases op)
    case (StartChallenge now key c ttl)
    with Cons start_challenge_sound(2) [OF ok] show ?thesis by (fastforce split: if_splits)
  next
    case (ConsumeChallenge now key)
    with Cons consume_challenge_sound(2) [OF ok] show ?thesis by (auto split: if_splits)
  qed
qed (simp add: new_challenge_store_def)

text \<open>A WebAuthn challenge is single-use and short-lived: what \<open>consume\<close> hands out was started
  for that key by the last operation on the key, has not expired, and is gone afterwards.\<close>

theorem challenge_single_use:
  assumes "consume_challenge key now (challenge_run ops) = (s', Some c)"
  shows "(\<exists>e. outstanding ops key = Some e \<and> ch_challenge e = c \<and> now \<le> ch_expires_at e)
    \<and> snd (consume_challenge key t s') = None"
proof -
  from assms obtain e where e: "um_find (cs_entries (challenge_run ops)) key = Some e"
    "ch_challenge e = c" "now \<le> ch_expires_at e"
    by (auto simp: consume_challenge_def split: option.splits if_splits)
  have "um_find (cs_entries s') key = None"
    using consume_challenge_sound(2) [OF challenge_run_ok, of key now ops key] assms by simp
  then have "snd (consume_challenge key t s') = None" by (simp add: consume_challenge_def)
  with e challenge_run_outstanding [OF e(1)] show ?thesis by blast
qed

lemma challenge_single_use_witness:
  "snd (consume_challenge ''k'' 3 (fst (consume_challenge ''k'' 2
     (challenge_run [StartChallenge 1 ''k'' [1, 2] 5])))) = None"
proof -
  let ?ops = "[StartChallenge 1 ''k'' [1, 2] 5]"
  have "snd (consume_challenge ''k'' 2 (challenge_run ?ops)) = Some [1, 2]"
    by (simp add: start_challenge_def new_challenge_store_def consume_challenge_def Let_def
        um_put_def tick_add_def wrap64_def kMaxEntries_def)
  then have "consume_challenge ''k'' 2 (challenge_run ?ops)
      = (fst (consume_challenge ''k'' 2 (challenge_run ?ops)), Some [1, 2])" by (metis prod.collapse)
  then show ?thesis using challenge_single_use by blast
qed

text \<open>However fast challenges are requested, the store never holds more than 10000 of them, and
  its queue no more than 10000 stamps.\<close>

theorem challenge_store_bounded:
  "challenge_count (challenge_run ops) \<le> 10000 \<and> length (cs_order (challenge_run ops)) \<le> 10000"
  using challenge_run_ok [of ops] stamped_size
  by (auto simp: challenges_ok_def challenge_count_def kMaxEntries_def intro: order.trans)

end
