(* ===== verification/Yaml_Lib.thy ===== *)
theory Yaml_Lib
  imports Runtime_Config "HOL-Library.Countable"
begin

text \<open>
  The operations of the YAML library (yaml-cpp) that the sources call, as a record of functions
  over its node type, and what the sources rely on.  The instance over a plain tree of nodes
  shows that these laws can hold.
\<close>

record 'n yaml_lib =
  y_map :: "(string \<times> 'n) list \<Rightarrow> 'n"
  y_seq :: "'n list \<Rightarrow> 'n"
  y_of_string :: "string \<Rightarrow> 'n"
  y_of_int :: "int \<Rightarrow> 'n"
  y_of_bool :: "bool \<Rightarrow> 'n"
  y_of_double :: "double \<Rightarrow> 'n"
  y_null :: 'n
  y_get :: "'n \<Rightarrow> string \<Rightarrow> 'n option"
  y_items :: "'n \<Rightarrow> 'n list"
  y_pairs :: "'n \<Rightarrow> (string \<times> 'n) list"
  y_string :: "'n \<Rightarrow> string option"
  y_int :: "'n \<Rightarrow> int option"
  y_bool :: "'n \<Rightarrow> bool option"
  y_double :: "'n \<Rightarrow> double option"
  y_is_scalar :: "'n \<Rightarrow> bool"
  y_is_null :: "'n \<Rightarrow> bool"
  y_emit :: "'n \<Rightarrow> string"
  y_load :: "string \<Rightarrow> 'n option"

text \<open>A node that was built reads back, and the text of a document parses to the document.\<close>

definition yaml_ok :: "'n yaml_lib \<Rightarrow> bool" where
  "yaml_ok y \<longleftrightarrow>
     (\<forall>kvs k. y_get y (y_map y kvs) k = map_of kvs k) \<and> (\<forall>ns. y_items y (y_seq y ns) = ns)
     \<and> (\<forall>kvs. y_pairs y (y_map y kvs) = kvs)
     \<and> (\<forall>s. y_string y (y_of_string y s) = Some s) \<and> (\<forall>i. y_int y (y_of_int y i) = Some i)
     \<and> (\<forall>b. y_bool y (y_of_bool y b) = Some b) \<and> (\<forall>d. y_double y (y_of_double y d) = Some d)
     \<and> (\<forall>kvs. \<not> y_is_scalar y (y_map y kvs)) \<and> (\<forall>ns. \<not> y_is_scalar y (y_seq y ns))
     \<and> y_pairs y (y_null y) = [] \<and> y_is_null y (y_null y) \<and> (\<forall>d. \<not> y_is_null y (y_of_double y d))
     \<and> (\<forall>n. y_load y (y_emit y n) = Some n)"

lemma yaml_okD:
  assumes "yaml_ok y"
  shows "y_get y (y_map y kvs) k = map_of kvs k" "y_items y (y_seq y ns) = ns"
    "y_pairs y (y_map y kvs) = kvs"
    "y_string y (y_of_string y s) = Some s" "y_int y (y_of_int y i) = Some i"
    "y_bool y (y_of_bool y b) = Some b" "y_double y (y_of_double y d) = Some d"
    "\<not> y_is_scalar y (y_map y kvs)" "\<not> y_is_scalar y (y_seq y ns)"
    "y_pairs y (y_null y) = []" "y_is_null y (y_null y)" "\<not> y_is_null y (y_of_double y d)"
    "y_load y (y_emit y n) = Some n"
  using assms by (simp_all add: yaml_ok_def)

text \<open>\<open>node[key].as<T>()\<close> throws when the key is absent or the scalar does not convert;
  \<open>as<T>(fallback)\<close> does not.\<close>

definition required :: "('n \<Rightarrow> 'a option) \<Rightarrow> 'n option \<Rightarrow> 'a result" where
  "required conv n =
     (case n of
        None \<Rightarrow> throw (RuntimeError ''invalid node'')
      | Some x \<Rightarrow> (case conv x of None \<Rightarrow> throw (RuntimeError ''bad conversion'') | Some v \<Rightarrow> Inr v))"

definition with_fallback :: "('n \<Rightarrow> 'a option) \<Rightarrow> 'a \<Rightarrow> 'n option \<Rightarrow> 'a" where
  "with_fallback conv d n =
     (case n of None \<Rightarrow> d | Some x \<Rightarrow> (case conv x of None \<Rightarrow> d | Some v \<Rightarrow> v))"

lemma required_simps [simp]:
  "required conv None = Inl (RuntimeError ''invalid node'')"
  "conv x = Some v \<Longrightarrow> required conv (Some x) = Inr v"
  by (simp_all add: required_def)

lemma with_fallback_simps [simp]:
  "with_fallback conv d None = d" "conv x = Some v \<Longrightarrow> with_fallback conv d (Some x) = v"
  by (simp_all add: with_fallback_def)

text \<open>Reading every item of a list; the first failure is the result.\<close>

fun map_result :: "('a \<Rightarrow> 'b result) \<Rightarrow> 'a list \<Rightarrow> 'b list result" where
  "map_result f [] = Inr []"
| "map_result f (x # xs) = bind_result (f x) (\<lambda>y. bind_result (map_result f xs) (\<lambda>ys. Inr (y # ys)))"

lemma map_result_map: "(\<And>x. x \<in> set xs \<Longrightarrow> f (g x) = Inr (h x)) \<Longrightarrow> map_result f (map g xs) = Inr (map h xs)"
  by (induction xs) simp_all

section \<open>An instance\<close>

datatype tree = Str string | Num int | Flag bool | Real double | Null | Node "(string \<times> tree) list" | Items "tree list"

instance double :: countable
  by countable_datatype

instance tree :: countable
  by countable_datatype

text \<open>A text form that can be parsed: the number of the tree in an enumeration, in unary.\<close>

definition tree_text :: "tree \<Rightarrow> string" where
  "tree_text n = replicate (to_nat n) (CHR ''1'')"

definition tree_of_text :: "string \<Rightarrow> tree option" where
  "tree_of_text s = Some (from_nat (length s))"

definition tree_yaml :: "tree yaml_lib" where
  "tree_yaml =
     \<lparr>y_map = Node, y_seq = Items, y_of_string = Str, y_of_int = Num, y_of_bool = Flag,
      y_of_double = Real, y_null = Null,
      y_get = (\<lambda>n k. case n of Node kvs \<Rightarrow> map_of kvs k | _ \<Rightarrow> None),
      y_items = (\<lambda>n. case n of Items ns \<Rightarrow> ns | _ \<Rightarrow> []),
      y_pairs = (\<lambda>n. case n of Node kvs \<Rightarrow> kvs | _ \<Rightarrow> []),
      y_string = (\<lambda>n. case n of Str s \<Rightarrow> Some s | _ \<Rightarrow> None),
      y_int = (\<lambda>n. case n of Num i \<Rightarrow> Some i | _ \<Rightarrow> None),
      y_bool = (\<lambda>n. case n of Flag b \<Rightarrow> Some b | _ \<Rightarrow> None),
      y_double = (\<lambda>n. case n of Real d \<Rightarrow> Some d | _ \<Rightarrow> None),
      y_is_scalar = (\<lambda>n. case n of Str _ \<Rightarrow> True | Num _ \<Rightarrow> True | Flag _ \<Rightarrow> True | Real _ \<Rightarrow> True | _ \<Rightarrow> False),
      y_is_null = (\<lambda>n. n = Null),
      y_emit = tree_text, y_load = tree_of_text\<rparr>"

lemma tree_yaml_ok: "yaml_ok tree_yaml"
  by (simp add: yaml_ok_def tree_yaml_def tree_text_def tree_of_text_def)

end
