(* ===== verification/User_Store.thy ===== *)
theory User_Store
  imports Totp Passwords Keyed_Lists Yaml_Lib
begin

text \<open>
  \<^verbatim>\<open>auth/user_store.cpp\<close>: the administrator accounts, their second factors and their file.
  Every mutating operation changes the users in memory and then saves; when saving throws, the
  change in memory stays.  An operation is therefore a function from the store to its result (or
  exception) and the store it leaves behind.  The outcome of a save (creating the directory and
  replacing the file) is an argument: \<open>None\<close> when it succeeds, otherwise the exception.  The YAML
  library, PBKDF2, \<open>RAND_bytes\<close> and the clock are parameters.
\<close>

section \<open>State\<close>

record TotpConfig =
  tc_secret_base32 :: string

record WebAuthnCredential =
  wc_id_b64url :: string
  wc_label :: string
  wc_cose_public_key :: bytes
  wc_sign_count :: u32
  wc_created_at :: ticks

record UserRecord =
  ur_username :: string
  ur_salt_hex :: string
  ur_hash_hex :: string
  ur_iterations :: int
  ur_created_at :: ticks
  ur_totp :: "TotpConfig option"
  ur_backup_codes :: "BackupCode list"
  ur_webauthn_credentials :: "WebAuthnCredential list"
  ur_webauthn_user_handle_b64 :: "string option"

record UserStore =
  us_users :: "UserRecord list"
  us_last_totp_step :: "(string, int) umap"
  us_file :: "string option"

type_synonym 'a user_op = "UserStore \<Rightarrow> 'a result \<times> UserStore"

section \<open>Saving\<close>

definition epoch_seconds :: "ticks \<Rightarrow> int" where
  "epoch_seconds t = tdiv t 1000000000"

definition code_node :: "'n yaml_lib \<Rightarrow> BackupCode \<Rightarrow> 'n" where
  "code_node y c = y_map y
     [(''salt'', y_of_string y (ph_salt_hex (bc_hash c))), (''hash'', y_of_string y (ph_hash_hex (bc_hash c))),
      (''iterations'', y_of_int y (ph_iterations (bc_hash c))), (''used'', y_of_bool y (bc_used c))]"

definition cred_node :: "'n yaml_lib \<Rightarrow> WebAuthnCredential \<Rightarrow> 'n" where
  "cred_node y c = y_map y
     [(''id'', y_of_string y (wc_id_b64url c)), (''label'', y_of_string y (wc_label c)),
      (''public_key'', y_of_string y (base64url_encode (wc_cose_public_key c))),
      (''sign_count'', y_of_int y (uint (wc_sign_count c))),
      (''created_at_epoch'', y_of_int y (epoch_seconds (wc_created_at c)))]"

definition user_node :: "'n yaml_lib \<Rightarrow> UserRecord \<Rightarrow> 'n" where
  "user_node y u = y_map y
     ([(''username'', y_of_string y (ur_username u)), (''salt'', y_of_string y (ur_salt_hex u)),
       (''hash'', y_of_string y (ur_hash_hex u)), (''iterations'', y_of_int y (ur_iterations u)),
       (''created_at_epoch'', y_of_int y (epoch_seconds (ur_created_at u)))]
      @ (case ur_totp u of None \<Rightarrow> []
         | Some t \<Rightarrow> [(''totp'', y_map y [(''secret_base32'', y_of_string y (tc_secret_base32 t))])])
      @ (if ur_backup_codes u \<noteq> [] then [(''backup_codes'', y_seq y (map (code_node y) (ur_backup_codes u)))] else [])
      @ (case ur_webauthn_user_handle_b64 u of None \<Rightarrow> []
         | Some h \<Rightarrow> [(''webauthn_user_handle'', y_of_string y h)])
      @ (if ur_webauthn_credentials u \<noteq> []
         then [(''webauthn_credentials'', y_seq y (map (cred_node y) (ur_webauthn_credentials u)))] else []))"

definition users_document :: "'n yaml_lib \<Rightarrow> UserRecord list \<Rightarrow> string" where
  "users_document y users = y_emit y (y_map y [(''users'', y_seq y (map (user_node y) users))])"

definition save_locked :: "'n yaml_lib \<Rightarrow> error option \<Rightarrow> unit user_op" where
  "save_locked y io s =
     (case io of
        Some e \<Rightarrow> (throw e, s)
      | None \<Rightarrow> (Inr (), s\<lparr>us_file := Some (users_document y (us_users s))\<rparr>))"

text \<open>Saving as the last statement of an operation that then returns \<open>x\<close>.\<close>

definition save_and_return :: "'n yaml_lib \<Rightarrow> error option \<Rightarrow> 'a \<Rightarrow> 'a user_op" where
  "save_and_return y io x s =
     (case save_locked y io s of (r, s') \<Rightarrow> (bind_result r (\<lambda>_. Inr x), s'))"

section \<open>Loading\<close>

definition from_epoch :: "int \<Rightarrow> ticks" where
  "from_epoch t = wrap64 (seconds t)"

definition parse_u32 :: "'n yaml_lib \<Rightarrow> 'n \<Rightarrow> u32 option" where
  "parse_u32 y n =
     (case y_int y n of
        None \<Rightarrow> None
      | Some i \<Rightarrow> if 0 \<le> i \<and> i < 2 ^ 32 then Some (word_of_int i) else None)"

definition parse_code :: "'n yaml_lib \<Rightarrow> 'n \<Rightarrow> BackupCode result" where
  "parse_code y n =
     bind_result (required (y_string y) (y_get y n ''salt'')) (\<lambda>salt.
     bind_result (required (y_string y) (y_get y n ''hash'')) (\<lambda>hash.
     bind_result (required (y_int y) (y_get y n ''iterations'')) (\<lambda>iterations.
       Inr \<lparr>bc_hash = \<lparr>ph_salt_hex = salt, ph_hash_hex = hash, ph_iterations = iterations\<rparr>,
            bc_used = with_fallback (y_bool y) False (y_get y n ''used'')\<rparr>)))"

definition parse_cred :: "'n yaml_lib \<Rightarrow> 'n \<Rightarrow> WebAuthnCredential result" where
  "parse_cred y n =
     bind_result (required (y_string y) (y_get y n ''id'')) (\<lambda>cred_id.
     bind_result (required (y_string y) (y_get y n ''public_key'')) (\<lambda>key_text.
     bind_result (base64url_decode key_text) (\<lambda>key.
     bind_result (case y_get y n ''created_at_epoch'' of
                    None \<Rightarrow> Inr 0
                  | Some ts \<Rightarrow> bind_result (required (y_int y) (Some ts)) (\<lambda>t. Inr (from_epoch t))) (\<lambda>created_at.
       Inr \<lparr>wc_id_b64url = cred_id, wc_label = with_fallback (y_string y) [] (y_get y n ''label''),
            wc_cose_public_key = key,
            wc_sign_count = with_fallback (parse_u32 y) 0 (y_get y n ''sign_count''),
            wc_created_at = created_at\<rparr>))))"

definition parse_user :: "'n yaml_lib \<Rightarrow> 'n \<Rightarrow> UserRecord result" where
  "parse_user y n =
     bind_result (required (y_string y) (y_get y n ''username'')) (\<lambda>username.
     bind_result (required (y_string y) (y_get y n ''salt'')) (\<lambda>salt.
     bind_result (required (y_string y) (y_get y n ''hash'')) (\<lambda>hash.
     bind_result (required (y_int y) (y_get y n ''iterations'')) (\<lambda>iterations.
     bind_result (required (y_int y) (y_get y n ''created_at_epoch'')) (\<lambda>created_at.
     bind_result (case y_get y n ''totp'' of
                    None \<Rightarrow> Inr None
                  | Some t \<Rightarrow> bind_result (required (y_string y) (y_get y t ''secret_base32''))
                               (\<lambda>secret. Inr (Some \<lparr>tc_secret_base32 = secret\<rparr>))) (\<lambda>totp.
     bind_result (case y_get y n ''backup_codes'' of
                    None \<Rightarrow> Inr [] | Some cs \<Rightarrow> map_result (parse_code y) (y_items y cs)) (\<lambda>codes.
     bind_result (case y_get y n ''webauthn_user_handle'' of
                    None \<Rightarrow> Inr None
                  | Some h \<Rightarrow> bind_result (required (y_string y) (Some h)) (\<lambda>s. Inr (Some s))) (\<lambda>handle.
     bind_result (case y_get y n ''webauthn_credentials'' of
                    None \<Rightarrow> Inr [] | Some cs \<Rightarrow> map_result (parse_cred y) (y_items y cs)) (\<lambda>creds.
       Inr \<lparr>ur_username = username, ur_salt_hex = salt, ur_hash_hex = hash, ur_iterations = iterations,
            ur_created_at = from_epoch created_at, ur_totp = totp, ur_backup_codes = codes,
            ur_webauthn_credentials = creds, ur_webauthn_user_handle_b64 = handle\<rparr>)))))))))"

text \<open>The users read so far stay when a later one does not parse.\<close>

fun load_users :: "'n yaml_lib \<Rightarrow> 'n list \<Rightarrow> unit user_op" where
  "load_users y [] s = (Inr (), s)"
| "load_users y (n # ns) s =
     (case parse_user y n of
        Inl e \<Rightarrow> (throw e, s)
      | Inr u \<Rightarrow> load_users y ns (s\<lparr>us_users := us_users s @ [u]\<rparr>))"

definition load_store :: "'n yaml_lib \<Rightarrow> unit user_op" where
  "load_store y s =
     (let s = s\<lparr>us_users := []\<rparr> in
      case us_file s of
        None \<Rightarrow> (Inr (), s)
      | Some contents \<Rightarrow>
          (case y_load y contents of
             None \<Rightarrow> (throw (RuntimeError ''yaml''), s)
           | Some doc \<Rightarrow>
               (case y_get y doc ''users'' of
                  None \<Rightarrow> (Inr (), s)
                | Some ns \<Rightarrow> load_users y (y_items y ns) s)))"

section \<open>Accounts\<close>

definition find_index :: "string \<Rightarrow> UserStore \<Rightarrow> nat option" where
  "find_index username s = find_first (\<lambda>u. ur_username u = username) (us_users s)"

definition store_empty :: "UserStore \<Rightarrow> bool" where
  "store_empty s = (us_users s = [])"

definition find_user :: "UserStore \<Rightarrow> string \<Rightarrow> UserRecord option" where
  "find_user s username = map_option (\<lambda>i. us_users s ! i) (find_index username s)"

definition set_user :: "nat \<Rightarrow> UserRecord \<Rightarrow> UserStore \<Rightarrow> UserStore" where
  "set_user i u s = s\<lparr>us_users := (us_users s)[i := u]\<rparr>"

definition validate_new_credentials :: "string \<Rightarrow> string \<Rightarrow> unit result" where
  "validate_new_credentials username password =
     (if username = [] then throw (InvalidArgument ''username must not be empty'')
      else if length password < 8 then throw (InvalidArgument ''password must be at least 8 characters'')
      else Inr ())"

definition add_user_locked ::
  "'n yaml_lib \<Rightarrow> pbkdf2 \<Rightarrow> (nat \<Rightarrow> bytes option) \<Rightarrow> ticks \<Rightarrow> error option \<Rightarrow> string \<Rightarrow> string \<Rightarrow> unit user_op" where
  "add_user_locked y kdf rand now io username password s =
     (if list_ex (\<lambda>u. ur_username u = username) (us_users s)
      then (throw (InvalidArgument ''username already exists''), s)
      else case hash_password kdf rand password of
             Inl e \<Rightarrow> (throw e, s)
           | Inr hashed \<Rightarrow>
               save_locked y io (s\<lparr>us_users := us_users s @
                 [\<lparr>ur_username = username, ur_salt_hex = ph_salt_hex hashed, ur_hash_hex = ph_hash_hex hashed,
                   ur_iterations = ph_iterations hashed, ur_created_at = now, ur_totp = None,
                   ur_backup_codes = [], ur_webauthn_credentials = [],
                   ur_webauthn_user_handle_b64 = None\<rparr>]\<rparr>))"

definition create_user ::
  "'n yaml_lib \<Rightarrow> pbkdf2 \<Rightarrow> (nat \<Rightarrow> bytes option) \<Rightarrow> ticks \<Rightarrow> error option \<Rightarrow> string \<Rightarrow> string \<Rightarrow> unit user_op" where
  "create_user y kdf rand now io username password s =
     (case validate_new_credentials username password of
        Inl e \<Rightarrow> (throw e, s)
      | Inr _ \<Rightarrow> add_user_locked y kdf rand now io username password s)"

definition create_if_empty ::
  "'n yaml_lib \<Rightarrow> pbkdf2 \<Rightarrow> (nat \<Rightarrow> bytes option) \<Rightarrow> ticks \<Rightarrow> error option \<Rightarrow> string \<Rightarrow> string \<Rightarrow> bool user_op" where
  "create_if_empty y kdf rand now io username password s =
     (case validate_new_credentials username password of
        Inl e \<Rightarrow> (throw e, s)
      | Inr _ \<Rightarrow>
          (if us_users s \<noteq> [] then (Inr False, s)
           else case add_user_locked y kdf rand now io username password s of
                  (r, s') \<Rightarrow> (bind_result r (\<lambda>_. Inr True), s')))"

definition remove_user :: "'n yaml_lib \<Rightarrow> error option \<Rightarrow> string \<Rightarrow> bool user_op" where
  "remove_user y io username s =
     (case find_index username s of
        None \<Rightarrow> (Inr False, s)
      | Some i \<Rightarrow>
          (if length (us_users s) = 1
           then (throw (InvalidArgument ''cannot remove the last remaining admin user''), s)
           else save_and_return y io True
                  (s\<lparr>us_users := take i (us_users s) @ drop (Suc i) (us_users s)\<rparr>)))"

section \<open>Second factors\<close>

definition user_not_found :: error where
  "user_not_found = InvalidArgument ''user not found''"

definition has_second_factor :: "UserStore \<Rightarrow> string \<Rightarrow> bool" where
  "has_second_factor s username =
     (case find_user s username of
        None \<Rightarrow> False
      | Some u \<Rightarrow> ur_totp u \<noteq> None \<or> ur_webauthn_credentials u \<noteq> [])"

definition set_totp ::
  "'n yaml_lib \<Rightarrow> pbkdf2 \<Rightarrow> (nat \<Rightarrow> nat \<Rightarrow> bytes option) \<Rightarrow> error option \<Rightarrow> string \<Rightarrow> string \<Rightarrow> string list
     \<Rightarrow> unit user_op" where
  "set_totp y kdf rand io username secret_base32 plain s =
     (case find_index username s of
        None \<Rightarrow> (throw user_not_found, s)
      | Some i \<Rightarrow>
          (let u = (us_users s ! i)\<lparr>ur_totp := Some \<lparr>tc_secret_base32 = secret_base32\<rparr>\<rparr>;
               s = set_user i u s in
           case hash_backup_codes kdf rand 0 plain of
             Inl e \<Rightarrow> (throw e, s)
           | Inr codes \<Rightarrow> save_locked y io (set_user i (u\<lparr>ur_backup_codes := codes\<rparr>) s)))"

definition clear_totp :: "'n yaml_lib \<Rightarrow> error option \<Rightarrow> string \<Rightarrow> unit user_op" where
  "clear_totp y io username s =
     (case find_index username s of
        None \<Rightarrow> (throw user_not_found, s)
      | Some i \<Rightarrow> save_locked y io (set_user i ((us_users s ! i)\<lparr>ur_totp := None, ur_backup_codes := []\<rparr>) s))"

definition regenerate_backup_codes ::
  "'n yaml_lib \<Rightarrow> pbkdf2 \<Rightarrow> (nat \<Rightarrow> u8 option) \<Rightarrow> (nat \<Rightarrow> nat \<Rightarrow> bytes option) \<Rightarrow> error option \<Rightarrow> string
     \<Rightarrow> string list user_op" where
  "regenerate_backup_codes y kdf rand_byte rand io username s =
     (case find_index username s of
        None \<Rightarrow> (throw user_not_found, s)
      | Some i \<Rightarrow>
          (if ur_totp (us_users s ! i) = None
           then (throw (InvalidArgument ''TOTP is not enabled for this user''), s)
           else case generate_backup_codes rand_byte 0 10 of
                  Inl e \<Rightarrow> (throw e, s)
                | Inr plain \<Rightarrow>
                    (case hash_backup_codes kdf rand 0 plain of
                       Inl e \<Rightarrow> (throw e, s)
                     | Inr codes \<Rightarrow>
                         save_and_return y io plain
                           (set_user i ((us_users s ! i)\<lparr>ur_backup_codes := codes\<rparr>) s))))"

definition consume_user_backup_code ::
  "'n yaml_lib \<Rightarrow> pbkdf2 \<Rightarrow> error option \<Rightarrow> string \<Rightarrow> string \<Rightarrow> bool user_op" where
  "consume_user_backup_code y kdf io username candidate s =
     (case find_index username s of
        None \<Rightarrow> (Inr False, s)
      | Some i \<Rightarrow>
          (case consume_backup_code kdf (ur_backup_codes (us_users s ! i)) candidate of
             Inl e \<Rightarrow> (throw e, s)
           | Inr (codes, ok) \<Rightarrow>
               (if \<not> ok then (Inr False, s)
                else save_and_return y io True
                       (set_user i ((us_users s ! i)\<lparr>ur_backup_codes := codes\<rparr>) s))))"

definition consume_totp_step :: "string \<Rightarrow> int \<Rightarrow> UserStore \<Rightarrow> bool \<times> UserStore" where
  "consume_totp_step username step s =
     (case um_find (us_last_totp_step s) username of
        Some last_step \<Rightarrow>
          (if step \<le> last_step then (False, s)
           else (True, s\<lparr>us_last_totp_step := um_put username step (us_last_totp_step s)\<rparr>))
      | None \<Rightarrow> (True, s\<lparr>us_last_totp_step := um_put username step (us_last_totp_step s)\<rparr>))"

section \<open>Passkeys\<close>

definition webauthn_user_handle ::
  "'n yaml_lib \<Rightarrow> (nat \<Rightarrow> bytes option) \<Rightarrow> error option \<Rightarrow> string \<Rightarrow> string user_op" where
  "webauthn_user_handle y rand io username s =
     (case find_index username s of
        None \<Rightarrow> (throw user_not_found, s)
      | Some i \<Rightarrow>
          (case ur_webauthn_user_handle_b64 (us_users s ! i) of
             Some h \<Rightarrow> (Inr h, s)
           | None \<Rightarrow>
               (case rand 32 of
                  None \<Rightarrow> (throw (RuntimeError ''RAND_bytes failed''), s)
                | Some handle \<Rightarrow>
                    save_and_return y io (base64url_encode handle)
                      (set_user i ((us_users s ! i)
                         \<lparr>ur_webauthn_user_handle_b64 := Some (base64url_encode handle)\<rparr>) s))))"

definition add_webauthn_credential ::
  "'n yaml_lib \<Rightarrow> error option \<Rightarrow> string \<Rightarrow> WebAuthnCredential \<Rightarrow> unit user_op" where
  "add_webauthn_credential y io username credential s =
     (case find_index username s of
        None \<Rightarrow> (throw user_not_found, s)
      | Some i \<Rightarrow>
          save_locked y io (set_user i ((us_users s ! i)
            \<lparr>ur_webauthn_credentials := ur_webauthn_credentials (us_users s ! i) @ [credential]\<rparr>) s))"

definition find_credential :: "string \<Rightarrow> WebAuthnCredential list \<Rightarrow> nat option" where
  "find_credential cred_id creds = find_first (\<lambda>c. wc_id_b64url c = cred_id) creds"

definition remove_webauthn_credential ::
  "'n yaml_lib \<Rightarrow> error option \<Rightarrow> string \<Rightarrow> string \<Rightarrow> bool user_op" where
  "remove_webauthn_credential y io username cred_id s =
     (case find_index username s of
        None \<Rightarrow> (Inr False, s)
      | Some i \<Rightarrow>
          (let creds = ur_webauthn_credentials (us_users s ! i) in
           case find_credential cred_id creds of
             None \<Rightarrow> (Inr False, s)
           | Some j \<Rightarrow>
               save_and_return y io True (set_user i ((us_users s ! i)
                 \<lparr>ur_webauthn_credentials := take j creds @ drop (Suc j) creds\<rparr>) s)))"

definition update_webauthn_sign_count ::
  "'n yaml_lib \<Rightarrow> error option \<Rightarrow> string \<Rightarrow> string \<Rightarrow> u32 \<Rightarrow> unit user_op" where
  "update_webauthn_sign_count y io username cred_id new_sign_count s =
     (case find_index username s of
        None \<Rightarrow> (Inr (), s)
      | Some i \<Rightarrow>
          (let creds = ur_webauthn_credentials (us_users s ! i) in
           case find_credential cred_id creds of
             None \<Rightarrow> (Inr (), s)
           | Some j \<Rightarrow>
               save_locked y io (set_user i ((us_users s ! i)
                 \<lparr>ur_webauthn_credentials := creds[j := (creds ! j)\<lparr>wc_sign_count := new_sign_count\<rparr>]\<rparr>) s)))"

fun find_by_credential_id :: "string \<Rightarrow> UserRecord list \<Rightarrow> UserRecord option" where
  "find_by_credential_id cred_id [] = None"
| "find_by_credential_id cred_id (user # users) =
     (if find_credential cred_id (ur_webauthn_credentials user) \<noteq> None then Some user
      else find_by_credential_id cred_id users)"

section \<open>Reachable stores\<close>

text \<open>Every operation, with every outcome of its parameters: the clock, the random generator, PBKDF2
  and the save.\<close>

inductive user_step :: "'n yaml_lib \<Rightarrow> UserStore \<Rightarrow> UserStore \<Rightarrow> bool" for y where
  Create: "user_step y s (snd (create_user y kdf rand now io u p s))"
| Create_If_Empty: "user_step y s (snd (create_if_empty y kdf rand now io u p s))"
| Remove: "user_step y s (snd (remove_user y io u s))"
| Set_Totp: "user_step y s (snd (set_totp y kdf rands io u secret plain s))"
| Clear_Totp: "user_step y s (snd (clear_totp y io u s))"
| Regenerate: "user_step y s (snd (regenerate_backup_codes y kdf rand_byte rands io u s))"
| Consume_Code: "user_step y s (snd (consume_user_backup_code y kdf io u c s))"
| Consume_Step: "user_step y s (snd (consume_totp_step u step s))"
| Handle: "user_step y s (snd (webauthn_user_handle y rand io u s))"
| Add_Credential: "user_step y s (snd (add_webauthn_credential y io u cred s))"
| Remove_Credential: "user_step y s (snd (remove_webauthn_credential y io u cid s))"
| Update_Count: "user_step y s (snd (update_webauthn_sign_count y io u cid n s))"

definition unique_users :: "UserStore \<Rightarrow> bool" where
  "unique_users s \<longleftrightarrow> keyed_ok ur_username (us_users s)"

lemma save_locked_users [simp]: "us_users (snd (save_locked y io s)) = us_users s"
  by (simp add: save_locked_def split: option.split)

lemma save_and_return_users [simp]: "us_users (snd (save_and_return y io x s)) = us_users s"
  by (simp add: save_and_return_def save_locked_def split: option.split)

lemma find_index_set:
  assumes "find_index u s = Some i" and "ur_username r = ur_username (us_users s ! i)"
  shows "map ur_username (us_users (set_user i r s)) = map ur_username (us_users s)"
proof -
  have "i < length (us_users s)" using find_first_Some assms(1) by (fastforce simp: find_index_def)
  then show ?thesis using assms(2) by (simp add: set_user_def map_update list_update_same_conv)
qed

text \<open>Apart from creation and removal, an operation keeps the list of user names.\<close>

lemma same_names:
  "map ur_username (us_users (snd (set_totp y kdf rands io u secret plain s))) = map ur_username (us_users s)"
  "map ur_username (us_users (snd (clear_totp y io u s))) = map ur_username (us_users s)"
  "map ur_username (us_users (snd (regenerate_backup_codes y kdf rand_byte rands io u s))) = map ur_username (us_users s)"
  "map ur_username (us_users (snd (consume_user_backup_code y kdf io u c s))) = map ur_username (us_users s)"
  "map ur_username (us_users (snd (consume_totp_step u step s))) = map ur_username (us_users s)"
  "map ur_username (us_users (snd (webauthn_user_handle y rand io u s))) = map ur_username (us_users s)"
  "map ur_username (us_users (snd (add_webauthn_credential y io u cred s))) = map ur_username (us_users s)"
  "map ur_username (us_users (snd (remove_webauthn_credential y io u cid s))) = map ur_username (us_users s)"
  "map ur_username (us_users (snd (update_webauthn_sign_count y io u cid n s))) = map ur_username (us_users s)"
proof -
  have set_set: "set_user i b (set_user i a s) = set_user i b s" for i a b
    by (simp add: set_user_def)
  show "map ur_username (us_users (snd (set_totp y kdf rands io u secret plain s))) = map ur_username (us_users s)"
    by (simp add: set_totp_def Let_def set_set find_index_set split: option.split sum.split)
qed (simp_all add: clear_totp_def regenerate_backup_codes_def consume_user_backup_code_def
      consume_totp_step_def webauthn_user_handle_def add_webauthn_credential_def
      remove_webauthn_credential_def update_webauthn_sign_count_def Let_def find_index_set
      split: option.split sum.split prod.split)

lemma add_user_names:
  "map ur_username (us_users (snd (add_user_locked y kdf rand now io u p s))) = map ur_username (us_users s)
   \<or> u \<notin> ur_username ` set (us_users s)
     \<and> map ur_username (us_users (snd (add_user_locked y kdf rand now io u p s))) = map ur_username (us_users s) @ [u]"
  by (auto simp: add_user_locked_def list_ex_iff split: sum.split)

lemma create_names:
  "(\<exists>r. snd (create_user y kdf rand now io u p s) = snd (add_user_locked y kdf rand now io u p s))
     \<or> snd (create_user y kdf rand now io u p s) = s"
  "(\<exists>r. snd (create_if_empty y kdf rand now io u p s) = snd (add_user_locked y kdf rand now io u p s))
     \<or> snd (create_if_empty y kdf rand now io u p s) = s"
  by (auto simp: create_user_def create_if_empty_def split: sum.split prod.split)

lemma remove_names:
  assumes "unique_users s" and "us_users s \<noteq> []"
  shows "unique_users (snd (remove_user y io u s)) \<and> us_users (snd (remove_user y io u s)) \<noteq> []"
proof (cases "find_index u s")
  case (Some i)
  have f: "find_first (\<lambda>r. ur_username r = u) (us_users s) = Some i" using Some by (simp add: find_index_def)
  have i: "i < length (us_users s)" using find_first_Some [OF f] by simp
  show ?thesis
  proof (cases "length (us_users s) = 1")
    case False
    have "length (take i (us_users s) @ drop (Suc i) (us_users s)) = length (us_users s) - 1" using i by simp
    moreover have "length (us_users s) - 1 > 0" using False i by simp
    ultimately have "take i (us_users s) @ drop (Suc i) (us_users s) \<noteq> []" by (metis length_greater_0_conv)
    moreover have "keyed_ok ur_username (take i (us_users s) @ drop (Suc i) (us_users s))"
      using keyed_remove(2) [OF f] assms(1) by (simp add: unique_users_def)
    ultimately show ?thesis using Some False by (simp add: remove_user_def unique_users_def)
  qed (use Some assms in \<open>simp add: remove_user_def\<close>)
qed (use assms in \<open>simp add: remove_user_def\<close>)

lemma user_step_inv:
  assumes "user_step y s s'" "unique_users s" "us_users s \<noteq> []"
  shows "unique_users s' \<and> us_users s' \<noteq> []"
proof -
  have names: "unique_users t \<and> us_users t \<noteq> []"
    if "map ur_username (us_users t) = map ur_username (us_users s)
        \<or> u \<notin> ur_username ` set (us_users s) \<and> map ur_username (us_users t) = map ur_username (us_users s) @ [u]"
    for t u
  proof -
    have "map ur_username (us_users t) \<noteq> []" using that assms(3) by auto
    moreover have "distinct (map ur_username (us_users t))"
      using that assms(2) by (auto simp: unique_users_def keyed_ok_def)
    ultimately show ?thesis by (simp add: unique_users_def keyed_ok_def)
  qed
  from assms(1) show ?thesis
  proof cases
    case (Create kdf rand now io u p)
    then show ?thesis
      using create_names(1) [of y kdf rand now io u p s] names [OF add_user_names [of y kdf rand now io u p s]] assms(2,3) by auto
  next
    case (Create_If_Empty kdf rand now io u p)
    then show ?thesis
      using create_names(2) [of y kdf rand now io u p s] names [OF add_user_names [of y kdf rand now io u p s]] assms(2,3) by auto
  next
    case (Remove io u)
    then show ?thesis using remove_names [OF assms(2,3)] by simp
  qed (rule names, simp add: same_names)+
qed

text \<open>No sequence of operations locks the administrators out or makes an account ambiguous: once
  there is a user there always is one, and user names stay unique, whatever the operations and
  whichever of their saves, hashes or random draws fail.\<close>

theorem users_never_locked_out:
  assumes "(user_step y)\<^sup>*\<^sup>* s s'" and "unique_users s" and "us_users s \<noteq> []"
  shows "unique_users s' \<and> us_users s' \<noteq> []"
  using assms by (induction rule: rtranclp_induct) (blast dest: user_step_inv)+

section \<open>One-time codes are accepted once\<close>

fun totp_run :: "(string \<times> int) list \<Rightarrow> UserStore \<Rightarrow> (string \<times> int) list" where
  "totp_run [] s = []"
| "totp_run ((u, step) # ops) s =
     (case consume_totp_step u step s of
        (ok, s') \<Rightarrow> (if ok then [(u, step)] else []) @ totp_run ops s')"

lemma totp_run_above:
  "um_find (us_last_totp_step s) u = Some l \<Longrightarrow> (u, step) \<in> set (totp_run ops s) \<Longrightarrow> l < step"
proof (induction ops s arbitrary: l rule: totp_run.induct)
  case (2 v n ops s)
  obtain ok s' where c: "consume_totp_step v n s = (ok, s')" by fastforce
  show ?case
  proof (cases "v = u")
    case True
    show ?thesis
    proof (cases "n \<le> l")
      case False
      then have "ok" "um_find (us_last_totp_step s') u = Some n"
        using c True "2.prems"(1) by (auto simp: consume_totp_step_def umap)
      with "2.IH" [OF c [symmetric], of n] "2.prems"(2) c True False show ?thesis by auto
    next
      case le: True
      then have "\<not> ok" "s' = s" using c True "2.prems"(1) by (auto simp: consume_totp_step_def)
      with "2.IH" [OF c [symmetric], of l] "2.prems" c show ?thesis by auto
    qed
  next
    case False
    then have "um_find (us_last_totp_step s') u = Some l"
      using c "2.prems"(1) by (auto simp: consume_totp_step_def umap split: option.splits if_splits)
    with "2.IH" [OF c [symmetric]] "2.prems"(2) c False show ?thesis by (auto split: if_splits)
  qed
qed simp

text \<open>C19: The time steps accepted for a user strictly increase, whatever codes are presented and in
  whatever order, so no one-time code is accepted a second time while the server runs.\<close>

theorem totp_steps_never_replayed:
  "sorted_wrt (<) (map snd (filter (\<lambda>(v, _). v = u) (totp_run ops s)))"
proof (induction ops s rule: totp_run.induct)
  case (2 v n ops s)
  obtain ok s' where c: "consume_totp_step v n s = (ok, s')" by fastforce
  have "n < m" if "v = u" "ok" "(u, m) \<in> set (totp_run ops s')" for m
  proof -
    have "um_find (us_last_totp_step s') u = Some n"
      using c that(1,2) by (auto simp: consume_totp_step_def umap split: option.splits if_splits)
    from totp_run_above [OF this that(3)] show ?thesis .
  qed
  with "2.IH" [OF c [symmetric]] c show ?case by auto
qed simp

section \<open>Creating accounts\<close>

text \<open>Creating an account succeeds exactly for a non-empty new name with a password of at least
  eight characters when hashing and saving succeed; the new account is then found under its name,
  verifies its password, owes no second factor, is on disk, and all other accounts are untouched.\<close>

theorem create_user_correct:
  assumes "kdf_ok kdf" and "rand kSaltBytes \<noteq> None"
  shows "case create_user y kdf rand now io u p s of
      (Inr _, s') \<Rightarrow> u \<noteq> [] \<and> 8 \<le> length p \<and> find_user s u = None \<and> io = None
        \<and> (\<exists>r. us_users s' = us_users s @ [r] \<and> find_user s' u = Some r
             \<and> verify_password kdf p \<lparr>ph_salt_hex = ur_salt_hex r, ph_hash_hex = ur_hash_hex r,
                 ph_iterations = ur_iterations r\<rparr> = Inr True)
        \<and> \<not> has_second_factor s' u \<and> us_file s' = Some (users_document y (us_users s'))
    | (Inl e, s') \<Rightarrow> \<not> (u \<noteq> [] \<and> 8 \<le> length p \<and> find_user s u = None \<and> io = None)"
proof -
  have nf: "find_user s u = None \<longleftrightarrow> \<not> list_ex (\<lambda>r. ur_username r = u) (us_users s)"
    by (simp add: find_user_def find_index_def find_first_None list_ex_iff)
  obtain salt where salt: "rand kSaltBytes = Some salt" using assms(2) by blast
  obtain key where "derive kdf p salt kIterations = Inr key" using derive_total [OF assms(1)] by blast
  with salt obtain h where h: "hash_password kdf rand p = Inr h" by (simp add: hash_password_def)
  show ?thesis
  proof (cases "u \<noteq> [] \<and> 8 \<le> length p \<and> find_user s u = None")
    case False
    then show ?thesis using nf
      by (auto simp: create_user_def validate_new_credentials_def add_user_locked_def not_less)
  next
    case True
    define r where "r = \<lparr>ur_username = u, ur_salt_hex = ph_salt_hex h, ur_hash_hex = ph_hash_hex h,
       ur_iterations = ph_iterations h, ur_created_at = now, ur_totp = None, ur_backup_codes = [],
       ur_webauthn_credentials = [], ur_webauthn_user_handle_b64 = None\<rparr>"
    let ?s = "s\<lparr>us_users := us_users s @ [r]\<rparr>"
    have c: "create_user y kdf rand now io u p s = save_locked y io ?s"
      using True nf h by (simp add: create_user_def validate_new_credentials_def add_user_locked_def r_def)
    have "\<forall>x \<in> set (us_users s). \<not> ur_username x = u" using True nf by (simp add: list_ex_iff)
    then have "find_first (\<lambda>x. ur_username x = u) (us_users s @ [r]) = Some (length (us_users s))"
      by (intro find_first_append) (simp_all add: r_def)
    then have f: "find_user ?s u = Some r" by (simp add: find_user_def find_index_def)
    have "verify_password kdf p \<lparr>ph_salt_hex = ur_salt_hex r, ph_hash_hex = ur_hash_hex r,
        ph_iterations = ur_iterations r\<rparr> = Inr True"
      using hash_verifies(1) [OF assms(1) h] by (cases h) (simp add: r_def)
    then show ?thesis
      using True f by (auto simp: c save_locked_def has_second_factor_def find_user_def find_index_def
          r_def split: option.splits)
  qed
qed

definition empty_store :: UserStore where
  "empty_store = \<lparr>us_users = [], us_last_totp_step = [], us_file = None\<rparr>"

lemma sample_kdf_ok: "kdf_ok sample_kdf"
  by (simp add: kdf_ok_def sample_kdf_def)

lemma sample_create:
  "\<exists>s'. create_user tree_yaml sample_kdf sample_rand 0 None ''root'' ''password'' empty_store = (Inr (), s')
     \<and> us_users s' \<noteq> [] \<and> unique_users s'"
  by (simp add: create_user_def validate_new_credentials_def add_user_locked_def empty_store_def
      hash_password_def sample_rand_def derive_def sample_kdf_def save_locked_def unique_users_def keyed_ok_def)

lemma create_user_correct_witness:
  "\<not> is_ok (fst (create_user tree_yaml sample_kdf sample_rand 0 None ''root'' ''short'' empty_store))"
  using create_user_correct [OF sample_kdf_ok, where rand = sample_rand and y = tree_yaml
      and now = 0 and io = None and u = "''root''" and p = "''short''" and s = empty_store]
  by (auto simp: sample_rand_def is_ok_def split: sum.splits prod.splits)

lemma users_never_locked_out_witness:
  "\<exists>s1. user_step tree_yaml empty_store s1
     \<and> us_users (snd (remove_user tree_yaml None ''root'' s1)) \<noteq> []"
proof -
  from sample_create obtain s1 where s1:
    "create_user tree_yaml sample_kdf sample_rand 0 None ''root'' ''password'' empty_store = (Inr (), s1)"
    "us_users s1 \<noteq> []" "unique_users s1" by blast
  have "user_step tree_yaml empty_store s1"
    using user_step.Create [of tree_yaml empty_store sample_kdf sample_rand 0 None "''root''" "''password''"] s1(1)
    by simp
  moreover have "(user_step tree_yaml)\<^sup>*\<^sup>* s1 (snd (remove_user tree_yaml None ''root'' s1))"
    by (rule r_into_rtranclp) (rule user_step.Remove)
  from users_never_locked_out [OF this s1(3,2)]
  have "us_users (snd (remove_user tree_yaml None ''root'' s1)) \<noteq> []" by simp
  ultimately show ?thesis by blast
qed

section \<open>The file\<close>

text \<open>Times are stored in whole seconds.\<close>

definition whole_seconds :: "ticks \<Rightarrow> ticks" where
  "whole_seconds t = seconds (tdiv t 1000000000)"

definition stored_cred :: "WebAuthnCredential \<Rightarrow> WebAuthnCredential" where
  "stored_cred c = c\<lparr>wc_created_at := whole_seconds (wc_created_at c)\<rparr>"

definition stored_user :: "UserRecord \<Rightarrow> UserRecord" where
  "stored_user u = u\<lparr>ur_created_at := whole_seconds (ur_created_at u),
     ur_webauthn_credentials := map stored_cred (ur_webauthn_credentials u)\<rparr>"

definition clock_range :: "ticks \<Rightarrow> bool" where
  "clock_range t \<longleftrightarrow> - (2 ^ 63) \<le> t \<and> t < 2 ^ 63"

definition user_in_range :: "UserRecord \<Rightarrow> bool" where
  "user_in_range u \<longleftrightarrow> clock_range (ur_created_at u)
     \<and> list_all (\<lambda>c. clock_range (wc_created_at c)) (ur_webauthn_credentials u)"

lemma from_epoch_seconds: "clock_range t \<Longrightarrow> from_epoch (epoch_seconds t) = whole_seconds t"
proof -
  assume r: "clock_range t"
  have "- (2 ^ 63) \<le> seconds (tdiv t 1000000000) \<and> seconds (tdiv t 1000000000) < 2 ^ 63"
  proof (cases "t < 0")
    case True
    have "0 \<le> (- t) div 1000000000 * 1000000000" using True by (simp add: pos_imp_zdiv_nonneg_iff)
    moreover have "(- t) div 1000000000 * 1000000000 \<le> - t"
      using minus_mod_eq_div_mult [of "- t" 1000000000] pos_mod_sign [of 1000000000 "- t"] by linarith
    ultimately show ?thesis using True r by (simp add: seconds_def tdiv_def clock_range_def)
  next
    case False
    have "0 \<le> t div 1000000000 * 1000000000" using False by (simp add: pos_imp_zdiv_nonneg_iff)
    moreover have "t div 1000000000 * 1000000000 \<le> t"
      using minus_mod_eq_div_mult [of t 1000000000] pos_mod_sign [of 1000000000 t] by linarith
    ultimately show ?thesis using False r by (simp add: seconds_def tdiv_def clock_range_def)
  qed
  then show ?thesis by (simp add: from_epoch_def epoch_seconds_def whole_seconds_def wrap64_id)
qed

lemma parse_code_node: "yaml_ok y \<Longrightarrow> parse_code y (code_node y c) = Inr c"
  by (simp add: parse_code_def code_node_def yaml_okD)

text \<open>What reading an account back from its node gives: every time goes through the seconds of the file.\<close>

definition restored_cred :: "WebAuthnCredential \<Rightarrow> WebAuthnCredential" where
  "restored_cred c = c\<lparr>wc_created_at := from_epoch (epoch_seconds (wc_created_at c))\<rparr>"

definition restored_user :: "UserRecord \<Rightarrow> UserRecord" where
  "restored_user u = u\<lparr>ur_created_at := from_epoch (epoch_seconds (ur_created_at u)),
     ur_webauthn_credentials := map restored_cred (ur_webauthn_credentials u)\<rparr>"

lemma restored_name [simp]: "ur_username (restored_user u) = ur_username u"
  by (simp add: restored_user_def)

lemma restored_stored: "user_in_range u \<Longrightarrow> restored_user u = stored_user u"
  by (simp add: restored_user_def stored_user_def user_in_range_def restored_cred_def stored_cred_def
      from_epoch_seconds list_all_iff)

lemma parse_cred_node: "yaml_ok y \<Longrightarrow> parse_cred y (cred_node y c) = Inr (restored_cred c)"
proof -
  assume y: "yaml_ok y"
  have "parse_u32 y (y_of_int y (uint (wc_sign_count c))) = Some (wc_sign_count c)"
    using y uint_lt2p [of "wc_sign_count c"] by (simp add: parse_u32_def yaml_okD)
  then show ?thesis
    using y by (simp add: parse_cred_def cred_node_def yaml_okD base64url_roundtrip restored_cred_def)
qed

lemma user_node_get:
  assumes "yaml_ok y"
  shows "y_get y (user_node y u) ''username'' = Some (y_of_string y (ur_username u))"
    "y_get y (user_node y u) ''salt'' = Some (y_of_string y (ur_salt_hex u))"
    "y_get y (user_node y u) ''hash'' = Some (y_of_string y (ur_hash_hex u))"
    "y_get y (user_node y u) ''iterations'' = Some (y_of_int y (ur_iterations u))"
    "y_get y (user_node y u) ''created_at_epoch'' = Some (y_of_int y (epoch_seconds (ur_created_at u)))"
    "y_get y (user_node y u) ''totp'' =
       map_option (\<lambda>t. y_map y [(''secret_base32'', y_of_string y (tc_secret_base32 t))]) (ur_totp u)"
    "y_get y (user_node y u) ''backup_codes'' =
       (if ur_backup_codes u \<noteq> [] then Some (y_seq y (map (code_node y) (ur_backup_codes u))) else None)"
    "y_get y (user_node y u) ''webauthn_user_handle'' = map_option (y_of_string y) (ur_webauthn_user_handle_b64 u)"
    "y_get y (user_node y u) ''webauthn_credentials'' =
       (if ur_webauthn_credentials u \<noteq> [] then Some (y_seq y (map (cred_node y) (ur_webauthn_credentials u))) else None)"
  unfolding user_node_def yaml_okD(1) [OF assms]
  by (simp_all add: map_add_def split: option.split)

lemma parse_user_node:
  assumes y: "yaml_ok y"
  shows "parse_user y (user_node y u) = Inr (restored_user u)"
proof -
  have codes: "(case y_get y (user_node y u) ''backup_codes'' of
      None \<Rightarrow> Inr [] | Some cs \<Rightarrow> map_result (parse_code y) (y_items y cs)) = Inr (ur_backup_codes u)"
    using map_result_map [of "ur_backup_codes u" "parse_code y" "code_node y" "\<lambda>c. c"] y
    by (simp add: user_node_get yaml_okD parse_code_node)
  have creds: "(case y_get y (user_node y u) ''webauthn_credentials'' of
      None \<Rightarrow> Inr [] | Some cs \<Rightarrow> map_result (parse_cred y) (y_items y cs))
      = Inr (map restored_cred (ur_webauthn_credentials u))"
    using map_result_map [of "ur_webauthn_credentials u" "parse_cred y" "cred_node y" restored_cred] y
    by (simp add: user_node_get yaml_okD parse_cred_node)
  have totp: "(case y_get y (user_node y u) ''totp'' of
      None \<Rightarrow> Inr None
    | Some t \<Rightarrow> bind_result (required (y_string y) (y_get y t ''secret_base32''))
                 (\<lambda>secret. Inr (Some \<lparr>tc_secret_base32 = secret\<rparr>))) = Inr (ur_totp u)"
    using y by (cases "ur_totp u") (simp_all add: user_node_get yaml_okD)
  have handle: "(case y_get y (user_node y u) ''webauthn_user_handle'' of
      None \<Rightarrow> Inr None
    | Some h \<Rightarrow> bind_result (required (y_string y) (Some h)) (\<lambda>s. Inr (Some s))) = Inr (ur_webauthn_user_handle_b64 u)"
    using y by (cases "ur_webauthn_user_handle_b64 u") (simp_all add: user_node_get yaml_okD)
  show ?thesis
    unfolding parse_user_def codes creds totp handle
    using y by (simp add: user_node_get yaml_okD restored_user_def)
qed

lemma load_users_nodes:
  "yaml_ok y \<Longrightarrow>
     load_users y (map (user_node y) users) s = (Inr (), s\<lparr>us_users := us_users s @ map restored_user users\<rparr>)"
  by (induction users arbitrary: s) (simp_all add: parse_user_node)

lemma load_document:
  assumes "yaml_ok y" and "us_file s = Some (users_document y users)"
  shows "load_store y s = (Inr (), s\<lparr>us_users := map restored_user users\<rparr>)"
  using assms by (simp add: load_store_def users_document_def yaml_okD load_users_nodes)

text \<open>Loading the file that a successful operation saved restores every account with its hash,
  second factors, recovery codes and passkeys, with times cut to whole seconds.\<close>

theorem user_file_roundtrip:
  assumes "yaml_ok y" and "us_file s = Some (users_document y users)" and "list_all user_in_range users"
  shows "load_store y s = (Inr (), s\<lparr>us_users := map stored_user users\<rparr>)"
proof -
  have "map restored_user users = map stored_user users" using assms(3) by (simp add: restored_stored list_all_iff)
  with load_document [OF assms(1,2)] show ?thesis by simp
qed

definition sample_user :: UserRecord where
  "sample_user = \<lparr>ur_username = ''root'', ur_salt_hex = ''00'', ur_hash_hex = ''11'', ur_iterations = 1,
     ur_created_at = 1500000000, ur_totp = Some \<lparr>tc_secret_base32 = ''AA''\<rparr>, ur_backup_codes = [],
     ur_webauthn_credentials = [], ur_webauthn_user_handle_b64 = None\<rparr>"

lemma user_file_roundtrip_witness:
  "load_store tree_yaml (empty_store\<lparr>us_file := Some (users_document tree_yaml [sample_user])\<rparr>)
     = (Inr (), empty_store\<lparr>us_file := Some (users_document tree_yaml [sample_user]),
         us_users := [sample_user\<lparr>ur_created_at := 1000000000\<rparr>]\<rparr>)"
  by (subst user_file_roundtrip [OF tree_yaml_ok, where users = "[sample_user]"])
     (simp_all add: user_in_range_def clock_range_def sample_user_def stored_user_def whole_seconds_def
       seconds_def tdiv_def empty_store_def)

text \<open>When hashing the recovery codes fails, the secret is already active in memory: the user is
  half enrolled, with a second factor but without the recovery codes meant to go with it.\<close>

lemma set_totp_half_enrolled:
  assumes "find_user s u = Some r" and "ur_totp r = None" and "ur_backup_codes r = []" and "plain \<noteq> []"
  shows "\<exists>e s'. set_totp y kdf (\<lambda>_ _. None) io u secret plain s = (Inl e, s')
    \<and> has_second_factor s' u \<and> (\<exists>r'. find_user s' u = Some r' \<and> ur_backup_codes r' = [])"
proof -
  from assms(1) obtain i where i: "find_index u s = Some i" "r = us_users s ! i"
    by (auto simp: find_user_def)
  let ?r = "r\<lparr>ur_totp := Some \<lparr>tc_secret_base32 = secret\<rparr>\<rparr>"
  let ?s = "set_user i ?r s"
  have f: "find_first (\<lambda>x. ur_username x = u) (us_users s) = Some i" using i(1) by (simp add: find_index_def)
  from find_keyed_split [OF f] obtain ys x zs where e: "us_users s = ys @ x # zs" "length ys = i"
    "ur_username x = u" "\<forall>z \<in> set ys. ur_username z \<noteq> u" .
  then have r: "r = x" using i(2) by (metis nth_append_length)
  have us: "us_users ?s = ys @ ?r # zs" using e(1,2) by (auto simp: set_user_def)
  have "find_first (\<lambda>z. ur_username z = u) (ys @ ?r # zs) = Some (length ys)"
    using e(3,4) r by (intro find_first_append) simp_all
  then have fu: "find_user ?s u = Some ?r" by (simp add: find_user_def find_index_def us)
  obtain c cs where "plain = c # cs" using assms(4) by (cases plain) auto
  then have "\<exists>e. set_totp y kdf (\<lambda>_ _. None) io u secret plain s = (Inl e, ?s)"
    using i by (simp add: set_totp_def Let_def hash_password_def)
  then show ?thesis using fu assms(3) by (auto simp: has_second_factor_def)
qed

end
