(* ===== verification/Account_History.thy ===== *)
theory Account_History
  imports User_Store
begin

text \<open>
  The accounts and their file over the life of a server (\<^verbatim>\<open>auth/user_store.cpp\<close>): which calls bring
  the file up to date, what a restart finds after any history of calls, the ones whose save or hash
  or random draw failed among them, and what a failed save leaves behind.
\<close>

section \<open>What a call writes\<close>

text \<open>A call leaves accounts and file alone, or returns with the file up to date, or throws and
  leaves the file as it was.\<close>

definition saves :: "'n yaml_lib \<Rightarrow> UserStore \<Rightarrow> bool \<Rightarrow> UserStore \<Rightarrow> bool" where
  "saves y s ok s' \<longleftrightarrow>
     us_users s' = us_users s \<and> us_file s' = us_file s
     \<or> ok \<and> us_file s' = Some (users_document y (us_users s'))
     \<or> \<not> ok \<and> us_file s' = us_file s"

lemma save_locked_saves [simp]:
  "us_file t = us_file s \<Longrightarrow> saves y s (is_ok (fst (save_locked y io t))) (snd (save_locked y io t))"
  by (auto simp: saves_def save_locked_def split: option.split)

lemma save_and_return_saves [simp]:
  "us_file t = us_file s \<Longrightarrow> saves y s (is_ok (fst (save_and_return y io x t))) (snd (save_and_return y io x t))"
  by (auto simp: saves_def save_and_return_def save_locked_def split: option.split)

lemma saves_same [simp]: "saves y s ok s"
  by (simp add: saves_def)

lemma saves_failed [simp]: "us_file t = us_file s \<Longrightarrow> saves y s False t"
  by (simp add: saves_def)

lemma set_user_file [simp]: "us_file (set_user i u s) = us_file s"
  by (simp add: set_user_def)

lemma add_user_saves:
  "saves y s (is_ok (fst (add_user_locked y kdf rand now io u p s))) (snd (add_user_locked y kdf rand now io u p s))"
  by (simp add: add_user_locked_def split: sum.split)

lemma is_ok_bind_Inr [simp]: "is_ok (bind_result r (\<lambda>_. Inr x)) = is_ok r"
  by (cases r) simp_all

lemmas store_ops =
  create_user_def create_if_empty_def remove_user_def set_totp_def clear_totp_def regenerate_backup_codes_def
  consume_user_backup_code_def consume_totp_step_def webauthn_user_handle_def add_webauthn_credential_def
  remove_webauthn_credential_def update_webauthn_sign_count_def

lemma calls_save:
  "saves y s (is_ok (fst (create_user y kdf rand now io u p s))) (snd (create_user y kdf rand now io u p s))"
  "saves y s (is_ok (fst (create_if_empty y kdf rand now io u p s))) (snd (create_if_empty y kdf rand now io u p s))"
  "saves y s (is_ok (fst (remove_user y io u s))) (snd (remove_user y io u s))"
  "saves y s (is_ok (fst (set_totp y kdf rands io u secret plain s))) (snd (set_totp y kdf rands io u secret plain s))"
  "saves y s (is_ok (fst (clear_totp y io u s))) (snd (clear_totp y io u s))"
  "saves y s (is_ok (fst (regenerate_backup_codes y kdf rand_byte rands io u s)))
     (snd (regenerate_backup_codes y kdf rand_byte rands io u s))"
  "saves y s (is_ok (fst (consume_user_backup_code y kdf io u c s))) (snd (consume_user_backup_code y kdf io u c s))"
  "saves y s True (snd (consume_totp_step u step s))"
  "saves y s (is_ok (fst (webauthn_user_handle y rand io u s))) (snd (webauthn_user_handle y rand io u s))"
  "saves y s (is_ok (fst (add_webauthn_credential y io u cred s))) (snd (add_webauthn_credential y io u cred s))"
  "saves y s (is_ok (fst (remove_webauthn_credential y io u cid s))) (snd (remove_webauthn_credential y io u cid s))"
  "saves y s (is_ok (fst (update_webauthn_sign_count y io u cid n s))) (snd (update_webauthn_sign_count y io u cid n s))"
proof -
  show "saves y s (is_ok (fst (create_user y kdf rand now io u p s))) (snd (create_user y kdf rand now io u p s))"
    by (simp add: create_user_def add_user_saves split: sum.split)
  show "saves y s (is_ok (fst (create_if_empty y kdf rand now io u p s))) (snd (create_if_empty y kdf rand now io u p s))"
    using add_user_saves [of y s kdf rand now io u p] by (auto simp: create_if_empty_def split: sum.split prod.split)
  show "saves y s True (snd (consume_totp_step u step s))"
    by (simp add: consume_totp_step_def saves_def split: option.split)
qed (simp_all add: store_ops Let_def split: option.split sum.split prod.split)

section \<open>Calls and histories\<close>

text \<open>One call of the store, with every outcome of its parameters: the second argument tells
  whether it returned (otherwise it threw).  The clock stays within its type.\<close>

inductive account_call :: "'n yaml_lib \<Rightarrow> bool \<Rightarrow> UserStore \<Rightarrow> UserStore \<Rightarrow> bool" for y where
  Create: "clock_range now \<Longrightarrow> account_call y (is_ok (fst (create_user y kdf rand now io u p s))) s
     (snd (create_user y kdf rand now io u p s))"
| Create_If_Empty: "clock_range now \<Longrightarrow> account_call y (is_ok (fst (create_if_empty y kdf rand now io u p s))) s
     (snd (create_if_empty y kdf rand now io u p s))"
| Remove: "account_call y (is_ok (fst (remove_user y io u s))) s (snd (remove_user y io u s))"
| Set_Totp: "account_call y (is_ok (fst (set_totp y kdf rands io u secret plain s))) s
     (snd (set_totp y kdf rands io u secret plain s))"
| Clear_Totp: "account_call y (is_ok (fst (clear_totp y io u s))) s (snd (clear_totp y io u s))"
| Regenerate: "account_call y (is_ok (fst (regenerate_backup_codes y kdf rand_byte rands io u s))) s
     (snd (regenerate_backup_codes y kdf rand_byte rands io u s))"
| Consume_Code: "account_call y (is_ok (fst (consume_user_backup_code y kdf io u c s))) s
     (snd (consume_user_backup_code y kdf io u c s))"
| Consume_Step: "account_call y True s (snd (consume_totp_step u step s))"
| Handle: "account_call y (is_ok (fst (webauthn_user_handle y rand io u s))) s (snd (webauthn_user_handle y rand io u s))"
| Add_Credential: "clock_range (wc_created_at cred) \<Longrightarrow> account_call y (is_ok (fst (add_webauthn_credential y io u cred s))) s
     (snd (add_webauthn_credential y io u cred s))"
| Remove_Credential: "account_call y (is_ok (fst (remove_webauthn_credential y io u cid s))) s
     (snd (remove_webauthn_credential y io u cid s))"
| Update_Count: "account_call y (is_ok (fst (update_webauthn_sign_count y io u cid n s))) s
     (snd (update_webauthn_sign_count y io u cid n s))"

lemma account_call_saves: "account_call y ok s s' \<Longrightarrow> saves y s ok s'"
  by (induction rule: account_call.induct) (simp_all only: calls_save)

lemma account_call_user_step: "account_call y ok s s' \<Longrightarrow> user_step y s s'"
  by (induction rule: account_call.induct) (rule user_step.intros)+

text \<open>Every time the accounts hold was read from the clock or fits its type.\<close>

abbreviation all_in_range :: "UserStore \<Rightarrow> bool" where
  "all_in_range s \<equiv> list_all user_in_range (us_users s)"

lemma find_index_bound: "find_index u s = Some i \<Longrightarrow> us_users s ! i \<in> set (us_users s)"
  using find_first_Some by (fastforce simp: find_index_def)

lemma set_user_in_range [simp]:
  "all_in_range s \<Longrightarrow> user_in_range r \<Longrightarrow> all_in_range (set_user i r s)"
  using set_update_subset_insert [of "us_users s" i r] by (auto simp: set_user_def list_all_iff)

lemma set_user_twice [simp]: "set_user i b (set_user i a s) = set_user i b s"
  by (simp add: set_user_def)

lemma user_in_range_simps [simp]:
  "user_in_range (r\<lparr>ur_totp := t, ur_backup_codes := c\<rparr>) = user_in_range r"
  "user_in_range (r\<lparr>ur_totp := t\<rparr>) = user_in_range r"
  "user_in_range (r\<lparr>ur_backup_codes := c\<rparr>) = user_in_range r"
  "user_in_range (r\<lparr>ur_webauthn_user_handle_b64 := h\<rparr>) = user_in_range r"
  by (simp_all add: user_in_range_def)

lemma save_locked_range [simp]: "all_in_range (snd (save_locked y io s)) = all_in_range s"
  "all_in_range (snd (save_and_return y io x s)) = all_in_range s"
  by simp_all

lemma add_user_range:
  "clock_range now \<Longrightarrow> all_in_range s \<Longrightarrow> all_in_range (snd (add_user_locked y kdf rand now io u p s))"
  by (simp add: add_user_locked_def user_in_range_def split: sum.split)

lemma find_index_in_range: "find_index u s = Some i \<Longrightarrow> all_in_range s \<Longrightarrow> user_in_range (us_users s ! i)"
  using find_index_bound by (fastforce simp: list_all_iff)

text \<open>Changing the passkeys of an account.\<close>

lemma credentials_in_range:
  assumes "user_in_range r"
  shows "clock_range (wc_created_at c) \<Longrightarrow>
      user_in_range (r\<lparr>ur_webauthn_credentials := ur_webauthn_credentials r @ [c]\<rparr>)"
    "user_in_range (r\<lparr>ur_webauthn_credentials :=
      take j (ur_webauthn_credentials r) @ drop (Suc j) (ur_webauthn_credentials r)\<rparr>)"
    "find_credential cid (ur_webauthn_credentials r) = Some j \<Longrightarrow>
      user_in_range (r\<lparr>ur_webauthn_credentials :=
        (ur_webauthn_credentials r)[j := (ur_webauthn_credentials r ! j)\<lparr>wc_sign_count := n\<rparr>]\<rparr>)"
proof -
  let ?cs = "ur_webauthn_credentials r"
  have all: "\<forall>c \<in> set ?cs. clock_range (wc_created_at c)" and at: "clock_range (ur_created_at r)"
    using assms by (simp_all add: user_in_range_def list_all_iff)
  show "clock_range (wc_created_at c) \<Longrightarrow> user_in_range (r\<lparr>ur_webauthn_credentials := ?cs @ [c]\<rparr>)"
    using all at by (simp add: user_in_range_def list_all_iff)
  show "user_in_range (r\<lparr>ur_webauthn_credentials := take j ?cs @ drop (Suc j) ?cs\<rparr>)"
    using all at by (auto simp: user_in_range_def list_all_iff dest: in_set_takeD in_set_dropD)
  assume "find_credential cid ?cs = Some j"
  then have "?cs ! j \<in> set ?cs" using find_first_Some by (fastforce simp: find_credential_def)
  then show "user_in_range (r\<lparr>ur_webauthn_credentials := ?cs[j := (?cs ! j)\<lparr>wc_sign_count := n\<rparr>]\<rparr>)"
    using all at set_update_subset_insert [of ?cs j "(?cs ! j)\<lparr>wc_sign_count := n\<rparr>"]
    by (auto simp: user_in_range_def list_all_iff)
qed

lemma account_call_range:
  assumes "account_call y ok s s'" and "all_in_range s"
  shows "all_in_range s'"
  using assms
proof (induction rule: account_call.induct)
  case (Create_If_Empty now kdf rand io u p s)
  then show ?case using add_user_range [of now s y kdf rand io u p]
    by (auto simp: create_if_empty_def split: sum.split prod.split)
next
  case (Remove io u s)
  then show ?case
    by (auto simp: remove_user_def list_all_iff dest: in_set_takeD in_set_dropD split: option.split)
qed (auto simp: create_user_def set_totp_def clear_totp_def regenerate_backup_codes_def
    consume_user_backup_code_def consume_totp_step_def webauthn_user_handle_def add_webauthn_credential_def
    remove_webauthn_credential_def update_webauthn_sign_count_def Let_def add_user_range credentials_in_range
    find_index_in_range simp del: save_locked_users save_and_return_users split: option.split sum.split prod.split)

text \<open>A store opened on a file, before it is loaded.\<close>

definition opened :: "string option \<Rightarrow> UserStore" where
  "opened f = \<lparr>us_users = [], us_last_totp_step = [], us_file = f\<rparr>"

lemma opened_simps [simp]:
  "us_users (opened f) = []" "us_last_totp_step (opened f) = []" "us_file (opened f) = f"
  by (simp_all add: opened_def)

text \<open>The histories of a store since it was loaded as \<open>s0\<close> at the start of the process, with the account
  lists since the last change that returned: that one, and the ones left by the changes that threw
  after it.\<close>

inductive account_history :: "'n yaml_lib \<Rightarrow> UserStore \<Rightarrow> UserRecord list list \<Rightarrow> UserStore \<Rightarrow> bool" for y s0 where
  Loaded: "load_store y (opened f) = (Inr (), s0) \<Longrightarrow> account_history y s0 [us_users s0] s0"
| Called: "account_history y s0 past s \<Longrightarrow> account_call y ok s s' \<Longrightarrow>
    account_history y s0
      (if us_users s' = us_users s then past else if ok then [us_users s'] else past @ [us_users s']) s'"

lemma clock_range_from_epoch: "clock_range (from_epoch t)" "clock_range 0"
proof -
  have "- (2 ^ 63) \<le> m - 2 ^ 63 \<and> m - 2 ^ 63 < 2 ^ 63" if "0 \<le> m" "m < 2 ^ 64" for m :: int
    using that by simp
  from this [of "(seconds t + 2 ^ 63) mod 2 ^ 64"] show "clock_range (from_epoch t)"
    by (simp add: clock_range_def from_epoch_def wrap64_def del: take_bit_eq_mod)
qed (simp add: clock_range_def)

lemma map_result_all: "map_result f xs = Inr ys \<Longrightarrow> (\<And>x v. f x = Inr v \<Longrightarrow> P v) \<Longrightarrow> list_all P ys"
  by (induction xs arbitrary: ys) (auto simp: bind_result_Inr_iff)

lemma parse_cred_range: "parse_cred y n = Inr c \<Longrightarrow> clock_range (wc_created_at c)"
  by (auto simp: parse_cred_def bind_result_Inr_iff clock_range_from_epoch split: option.splits)

lemma parse_user_range:
  assumes "parse_user y n = Inr u"
  shows "user_in_range u"
proof -
  note all = map_result_all [where f = "parse_cred y" and P = "\<lambda>c. clock_range (wc_created_at c)"]
  have creds: "list_all (\<lambda>c. clock_range (wc_created_at c)) creds"
    if "(case n of None \<Rightarrow> Inr [] | Some cs \<Rightarrow> map_result (parse_cred y) (y_items y cs)) = Inr creds" for creds n
    using that by (cases n) (auto elim!: all parse_cred_range)
  show ?thesis
    by (insert assms [unfolded parse_user_def bind_result_Inr_iff], elim exE conjE, drule creds, drule sum.inject(2) [THEN iffD1], drule arg_cong [where f = user_in_range])
      (simp only: user_in_range_def UserRecord.simps clock_range_from_epoch simp_thms)
qed

lemma load_users_range: "load_users y ns s = (r, t) \<Longrightarrow> all_in_range s \<Longrightarrow> all_in_range t \<and> us_file t = us_file s
    \<and> us_last_totp_step t = us_last_totp_step s"
  by (induction ns arbitrary: s) (auto split: sum.splits dest: parse_user_range)

lemma load_store_range:
  assumes "load_store y (opened f) = (r, t)"
  shows "all_in_range t" "us_file t = f" "us_last_totp_step t = []"
  using assms by (auto simp: load_store_def Let_def split: option.splits dest!: load_users_range)

lemma stored_user_idem [simp]: "stored_user (stored_user u) = stored_user u"
proof -
  have w: "whole_seconds (whole_seconds t) = whole_seconds t" for t
    by (simp add: whole_seconds_def seconds_def tdiv_def)
  show ?thesis by (simp add: stored_user_def stored_cred_def w)
qed

text \<open>A restart finds one of the given account lists, up to the fractions of its seconds.\<close>

definition restores :: "'n yaml_lib \<Rightarrow> UserRecord list list \<Rightarrow> UserStore \<Rightarrow> bool" where
  "restores y past s \<longleftrightarrow>
     (\<exists>t us. load_store y (opened (us_file s)) = (Inr (), t) \<and> us \<in> set past
        \<and> map stored_user (us_users t) = map stored_user us)"

lemma saved_restores:
  assumes "yaml_ok y" and "all_in_range s" and "us_file s = Some (users_document y (us_users s))"
    and "us_users s \<in> set past"
  shows "restores y past s"
proof -
  have "load_store y (opened (us_file s)) = (Inr (), (opened (us_file s))\<lparr>us_users := map stored_user (us_users s)\<rparr>)"
    using user_file_roundtrip [OF assms(1) _ assms(2), of "opened (us_file s)"] assms(3) by simp
  with assms(4) show ?thesis by (fastforce simp: restores_def)
qed

lemma restores_mono: "restores y past s \<Longrightarrow> set past \<subseteq> set past' \<Longrightarrow> us_file t = us_file s \<Longrightarrow> restores y past' t"
  by (auto simp: restores_def)

lemma call_restores:
  assumes y: "yaml_ok y" and c: "account_call y ok s s'" and r: "all_in_range s"
    and p: "restores y past s" "us_users s \<in> set past"
  shows "restores y
    (if us_users s' = us_users s then past else if ok then [us_users s'] else past @ [us_users s']) s'"
proof -
  from account_call_saves [OF c] consider
      (same) "us_users s' = us_users s" "us_file s' = us_file s"
    | (saved) ok "us_file s' = Some (users_document y (us_users s'))"
    | (failed) "\<not> ok" "us_file s' = us_file s" by (auto simp: saves_def)
  then show ?thesis
  proof cases
    case saved
    show ?thesis
      by (rule saved_restores [OF y account_call_range [OF c r] saved(2)]) (use saved(1) p(2) in simp)
  next
    case failed
    have "restores y (past @ [us_users s']) s'" "us_users s' = us_users s \<Longrightarrow> restores y past s'"
      by (rule restores_mono [OF p(1) _ failed(2)], force)+
    with failed(1) show ?thesis by simp
  qed (use restores_mono [OF p(1)] in auto)
qed

lemma history_restores:
  assumes "yaml_ok y" and "account_history y s0 past s"
  shows "all_in_range s \<and> us_users s \<in> set past \<and> restores y past s"
  using assms(2)
proof induction
  case (Loaded f)
  then show ?case using load_store_range [OF Loaded] by (simp add: restores_def)
next
  case (Called past s ok s')
  then show ?case using call_restores [OF assms(1) Called.hyps(2)] account_call_range [OF Called.hyps(2)] by simp
qed

text \<open>The account lists of a history never lock anyone out, and name every account once.\<close>

abbreviation open_accounts :: "UserRecord list \<Rightarrow> bool" where
  "open_accounts us \<equiv> keyed_ok ur_username us \<and> us \<noteq> []"

lemma history_open:
  assumes "account_history y s0 past s" and "open_accounts (us_users s0)"
  shows "open_accounts (us_users s) \<and> list_all open_accounts past"
  using assms
proof induction
  case (Called past s ok s')
  then have "open_accounts (us_users s')"
    using user_step_inv [OF account_call_user_step [OF Called.hyps(2)]] by (simp add: unique_users_def)
  with Called show ?case by simp
qed simp


definition sample_file :: string where
  "sample_file = users_document tree_yaml [sample_user]"

lemma sample_file_loads:
  "load_store tree_yaml (opened (Some sample_file)) = (Inr (), (opened (Some sample_file))\<lparr>us_users := [stored_user sample_user]\<rparr>)"
  by (subst user_file_roundtrip [OF tree_yaml_ok, where users = "[sample_user]"])
    (simp_all add: sample_file_def user_in_range_def clock_range_def sample_user_def)


section \<open>Once set up\<close>

text \<open>There are accounts with names of their own in memory and in the file.\<close>

definition set_up :: "'n yaml_lib \<Rightarrow> UserStore \<Rightarrow> bool" where
  "set_up y s \<longleftrightarrow> \<not> store_empty s \<and> unique_users s
     \<and> (\<exists>t. load_store y (opened (us_file s)) = (Inr (), t) \<and> \<not> store_empty t \<and> unique_users t)"

lemma saved_set_up:
  assumes "yaml_ok y" and "\<not> store_empty s" and "unique_users s" and "us_file s = Some (users_document y (us_users s))"
  shows "set_up y s"
  using assms load_document [OF assms(1), of "opened (us_file s)" "us_users s"]
  by (simp add: set_up_def store_empty_def unique_users_def keyed_ok_def comp_def)

lemma loaded_set_up:
  assumes "load_store y (opened f) = (Inr (), s)" and "\<not> store_empty s" and "unique_users s"
  shows "set_up y s"
  using assms load_store_range [OF assms(1)] by (simp add: set_up_def)

text \<open>The first account is set up when its creation returned.\<close>

lemma first_account_set_up:
  assumes "yaml_ok y" and "create_if_empty y kdf rand now io u p s = (Inr True, s')"
  shows "set_up y s'"
proof -
  have "us_users s = []" and "add_user_locked y kdf rand now io u p s = (Inr (), s')"
    using assms(2) by (auto simp: create_if_empty_def bind_result_Inr_iff split: sum.splits if_splits prod.splits)
  then show ?thesis
    by (intro saved_set_up [OF assms(1)])
       (auto simp: add_user_locked_def save_locked_def store_empty_def unique_users_def keyed_ok_def
         split: sum.splits option.splits if_splits)
qed

lemma user_step_saves: "user_step y s s' \<Longrightarrow> \<exists>ok. saves y s ok s'"
  by (induction rule: user_step.induct) (rule exI, rule calls_save)+

lemma user_step_set_up:
  assumes "yaml_ok y" and "user_step y s s'" and "set_up y s"
  shows "set_up y s'"
proof -
  have s': "\<not> store_empty s'" "unique_users s'"
    using user_step_inv [OF assms(2)] assms(3) by (simp_all add: set_up_def store_empty_def)
  from user_step_saves [OF assms(2)]
  have "us_file s' = us_file s \<or> us_file s' = Some (users_document y (us_users s'))" by (auto simp: saves_def)
  then show ?thesis
  proof
    assume "us_file s' = us_file s"
    with s' assms(3) show ?thesis by (simp add: set_up_def)
  qed (rule saved_set_up [OF assms(1) s'])
qed

section \<open>What a failed save leaves behind\<close>

text \<open>An account whose creation was reported as failed because the save threw can log in for as long
  as the server runs, the retry is refused as a duplicate and does not save it either, and the file
  does not have it.\<close>

lemma unsaved_account_blocks_retry:
  assumes "kdf_ok kdf" and "rand kSaltBytes \<noteq> None" and "u \<noteq> []" and "8 \<le> length p" and "find_user s u = None"
  shows "\<exists>s'. create_user y kdf rand now (Some e) u p s = (Inl e, s') \<and> us_file s' = us_file s
    \<and> find_user s' u \<noteq> None
    \<and> create_user y kdf rand' now' io u p s' = (Inl (InvalidArgument ''username already exists''), s')"
proof -
  have new: "\<forall>r \<in> set (us_users s). ur_username r \<noteq> u"
    using assms(5) by (simp add: find_user_def find_index_def find_first_None)
  then have dup: "\<not> list_ex (\<lambda>r. ur_username r = u) (us_users s)" by (auto simp: list_ex_iff)
  obtain salt where salt: "rand kSaltBytes = Some salt" using assms(2) by blast
  obtain key where "derive kdf p salt kIterations = Inr key" using derive_total [OF assms(1)] by blast
  with salt obtain h where h: "hash_password kdf rand p = Inr h" by (simp add: hash_password_def)
  have pw: "validate_new_credentials u p = Inr ()" using assms(3,4) by (simp add: validate_new_credentials_def)
  define r where "r = \<lparr>ur_username = u, ur_salt_hex = ph_salt_hex h, ur_hash_hex = ph_hash_hex h,
     ur_iterations = ph_iterations h, ur_created_at = now, ur_totp = None, ur_backup_codes = [],
     ur_webauthn_credentials = [], ur_webauthn_user_handle_b64 = None\<rparr>"
  let ?s = "s\<lparr>us_users := us_users s @ [r]\<rparr>"
  have "create_user y kdf rand now (Some e) u p s = (Inl e, ?s)"
    using dup h pw by (simp add: create_user_def add_user_locked_def save_locked_def r_def)
  moreover have ru: "ur_username r = u" by (simp add: r_def)
  moreover have "find_user ?s u \<noteq> None"
    using ru by (simp add: find_user_def find_index_def find_first_None)
  moreover have "create_user y kdf rand' now' io u p ?s = (Inl (InvalidArgument ''username already exists''), ?s)"
    using ru pw by (simp add: create_user_def add_user_locked_def)
  ultimately show ?thesis by auto
qed

end
