(* ===== verification/Json_Lib.thy ===== *)
theory Json_Lib
  imports Runtime_Config
begin

text \<open>
  The values of the JSON library (Boost.JSON) as its interface presents them.  Parsing and
  serialising are the library's: a record of functions that the definitions take.  A number is an
  integer of 64 bits or a \<open>double\<close>, which a large literal may make infinite.
\<close>

datatype json =
    JNull
  | JBool bool
  | JInt int
  | JDouble double
  | JString string
  | JArray "json list"
  | JObject "(string \<times> json) list"

record json_lib =
  jl_parse :: "string \<Rightarrow> json option"
  jl_serialize :: "json \<Rightarrow> string"

text \<open>\<open>obj.find(key)\<close> followed by \<open>is_string\<close>/\<open>as_string\<close>.\<close>

definition find_string :: "(string \<times> json) list \<Rightarrow> string \<Rightarrow> string option" where
  "find_string obj key = (case map_of obj key of Some (JString s) \<Rightarrow> Some s | _ \<Rightarrow> None)"

lemma find_string_Some: "find_string obj key = Some s \<longleftrightarrow> map_of obj key = Some (JString s)"
  by (simp add: find_string_def split: option.splits json.splits)

text \<open>\<open>is_number\<close> and \<open>to_number<double>\<close>.  An integer beyond \<open>2 ^ 53\<close> would be rounded; every use
  clamps the number to 32 bits or compares it with a small bound, where rounding changes nothing.\<close>

fun to_double :: "json \<Rightarrow> double option" where
  "to_double (JInt i) = Some (Finite (of_int i))"
| "to_double (JDouble d) = Some d"
| "to_double _ = None"

text \<open>\<open>saturating_to_int(value.to_number<double>())\<close>; the cast inside never fails
  (\<open>saturating_to_int_clamps\<close>).\<close>

definition json_to_int :: "json \<Rightarrow> int option" where
  "json_to_int v = Option.bind (to_double v) saturating_to_int"

end
