(* ===== verification/Webauthn.thy ===== *)
theory Webauthn
  imports Codecs Json_Lib
begin

text \<open>
  \<^verbatim>\<open>auth/webauthn/cbor_reader.cpp\<close>, \<^verbatim>\<open>cose_key.cpp\<close> and \<^verbatim>\<open>webauthn_service.cpp\<close>: passkey
  registration and login.  The CBOR decoder (libcbor), the public-key operations and SHA-256
  (OpenSSL) and the JSON parser (Boost) are parameters; the items of libcbor are the datatype its
  accessors describe.
\<close>

section \<open>CBOR values\<close>

datatype int_width = CBOR_INT_8 | CBOR_INT_16 | CBOR_INT_32 | CBOR_INT_64

text \<open>What \<open>cbor_typeof\<close> and the accessors show of an item.  A byte or text string says whether it
  is of definite length; an element of an array may be absent.\<close>

datatype cbor_item =
    ItemUint int_width u64
  | ItemNegint int_width u64
  | ItemBytes bool bytes
  | ItemString bool string
  | ItemArray "cbor_item option list"
  | ItemMap "(cbor_item \<times> cbor_item) list"
  | ItemTag
  | ItemBool bool
  | ItemNull
  | ItemUndef
  | ItemFloat

datatype CborValue =
    Uint u64
  | Negint u64
  | Bytes bytes
  | Text string
  | Array "CborValue list"
  | Map "(CborValue \<times> CborValue) list"
  | Bool bool
  | Null
  | Other

definition kMaxCborBytes :: nat where
  "kMaxCborBytes = 4096"

definition kMaxDepth :: nat where
  "kMaxDepth = 8"

definition kMaxContainerElements :: nat where
  "kMaxContainerElements = 64"

text \<open>Each width is read with the accessor of that width.\<close>

definition get_uint_any_width :: "int_width \<Rightarrow> u64 \<Rightarrow> u64" where
  "get_uint_any_width width value =
     (case width of
        CBOR_INT_8 \<Rightarrow> ucast (ucast value :: u8)
      | CBOR_INT_16 \<Rightarrow> ucast (ucast value :: u16)
      | CBOR_INT_32 \<Rightarrow> ucast (ucast value :: u32)
      | CBOR_INT_64 \<Rightarrow> value)"

function convert :: "cbor_item \<Rightarrow> nat \<Rightarrow> CborValue result"
  and convert_elements :: "cbor_item option list \<Rightarrow> nat \<Rightarrow> CborValue list result"
  and convert_pairs :: "(cbor_item \<times> cbor_item) list \<Rightarrow> nat \<Rightarrow> (CborValue \<times> CborValue) list result" where
  "convert item depth =
     (if depth > kMaxDepth then throw (InvalidArgument ''CBOR nesting too deep'')
      else case item of
             ItemUint w v \<Rightarrow> Inr (Uint (get_uint_any_width w v))
           | ItemNegint w v \<Rightarrow> Inr (Negint (get_uint_any_width w v))
           | ItemBytes definite bs \<Rightarrow>
               (if definite then Inr (Bytes bs)
                else throw (InvalidArgument ''indefinite-length CBOR byte strings are not supported''))
           | ItemString definite s \<Rightarrow>
               (if definite then Inr (Text s)
                else throw (InvalidArgument ''indefinite-length CBOR text strings are not supported''))
           | ItemArray items \<Rightarrow>
               (if length items > kMaxContainerElements then throw (InvalidArgument ''CBOR array too large'')
                else bind_result (convert_elements items (depth + 1)) (\<lambda>vs. Inr (Array vs)))
           | ItemMap pairs \<Rightarrow>
               (if length pairs > kMaxContainerElements then throw (InvalidArgument ''CBOR map too large'')
                else bind_result (convert_pairs pairs (depth + 1)) (\<lambda>kvs. Inr (Map kvs)))
           | ItemBool b \<Rightarrow> Inr (Bool b)
           | ItemNull \<Rightarrow> Inr Null
           | ItemUndef \<Rightarrow> Inr Null
           | ItemFloat \<Rightarrow> Inr Other
           | ItemTag \<Rightarrow> Inr Other)"
| "convert_elements [] depth = Inr []"
| "convert_elements (child # items) depth =
     (case child of
        None \<Rightarrow> throw (InvalidArgument ''malformed CBOR array'')
      | Some item \<Rightarrow>
          bind_result (convert item depth) (\<lambda>v.
          bind_result (convert_elements items depth) (\<lambda>vs. Inr (v # vs))))"
| "convert_pairs [] depth = Inr []"
| "convert_pairs ((k, v) # pairs) depth =
     bind_result (convert k depth) (\<lambda>k'.
     bind_result (convert v depth) (\<lambda>v'.
     bind_result (convert_pairs pairs depth) (\<lambda>kvs. Inr ((k', v') # kvs))))"
  by pat_completeness auto
termination
  by (relation "measure (\<lambda>x. case x of Inl (i, d) \<Rightarrow> 2 * size i
        | Inr (Inl (is, d)) \<Rightarrow> 2 * size_list (size_option size) is + 1
        | Inr (Inr (ps, d)) \<Rightarrow> 2 * size_list (size_prod size size) ps + 1)")
     auto

declare convert.simps [simp del]

type_synonym cbor_load = "bytes \<Rightarrow> (cbor_item \<times> nat) option"

definition parse_cbor_prefix :: "cbor_load \<Rightarrow> bytes \<Rightarrow> (CborValue \<times> nat) result" where
  "parse_cbor_prefix load d =
     (if d = [] \<or> length d > kMaxCborBytes
      then throw (InvalidArgument ''CBOR input is empty or exceeds the size limit'')
      else case load d of
             None \<Rightarrow> throw (InvalidArgument ''malformed CBOR input'')
           | Some (item, consumed) \<Rightarrow> bind_result (convert item 0) (\<lambda>v. Inr (v, consumed)))"

definition parse_cbor :: "cbor_load \<Rightarrow> bytes \<Rightarrow> CborValue result" where
  "parse_cbor load d = bind_result (parse_cbor_prefix load d) (\<lambda>(v, _). Inr v)"

definition int64_max :: nat where
  "int64_max = 2 ^ 63 - 1"

definition cbor_to_int64 :: "CborValue \<Rightarrow> int result" where
  "cbor_to_int64 value =
     (case value of
        Uint n \<Rightarrow>
          (if unat n > int64_max then throw (InvalidArgument ''CBOR unsigned integer out of int64 range'')
           else Inr (uint n))
      | Negint n \<Rightarrow>
          (if unat n > int64_max then throw (InvalidArgument ''CBOR negative integer out of int64 range'')
           else Inr (- 1 - uint n))
      | _ \<Rightarrow> throw (InvalidArgument ''CBOR value is not an integer''))"

fun is_int_value :: "CborValue \<Rightarrow> bool" where
  "is_int_value (Uint _) = True"
| "is_int_value (Negint _) = True"
| "is_int_value _ = False"

text \<open>\<open>Inr None\<close> is \<open>nullptr\<close>.\<close>

fun find_int_pair :: "(CborValue \<times> CborValue) list \<Rightarrow> int \<Rightarrow> CborValue option result" where
  "find_int_pair [] key = Inr None"
| "find_int_pair ((k, v) # kvs) key =
     (if is_int_value k
      then bind_result (cbor_to_int64 k) (\<lambda>n. if n = key then Inr (Some v) else find_int_pair kvs key)
      else find_int_pair kvs key)"

definition cbor_map_find_int :: "CborValue \<Rightarrow> int \<Rightarrow> CborValue option result" where
  "cbor_map_find_int m key = (case m of Map kvs \<Rightarrow> find_int_pair kvs key | _ \<Rightarrow> Inr None)"

fun find_text_pair :: "(CborValue \<times> CborValue) list \<Rightarrow> string \<Rightarrow> CborValue option" where
  "find_text_pair [] key = None"
| "find_text_pair ((k, v) # kvs) key = (if k = Text key then Some v else find_text_pair kvs key)"

definition cbor_map_find_text :: "CborValue \<Rightarrow> string \<Rightarrow> CborValue option" where
  "cbor_map_find_text m key = (case m of Map kvs \<Rightarrow> find_text_pair kvs key | _ \<Rightarrow> None)"

section \<open>COSE keys\<close>

definition kCoseKty :: int where "kCoseKty = 1"

definition kCoseAlg :: int where "kCoseAlg = 3"

definition kCoseCrv :: int where "kCoseCrv = - 1"

definition kCoseX :: int where "kCoseX = - 2"

definition kCoseY :: int where "kCoseY = - 3"

definition kCoseN :: int where "kCoseN = - 1"

definition kCoseE :: int where "kCoseE = - 2"

datatype CoseAlgorithm = ES256 | RS256

text \<open>OpenSSL: building an EC key from an uncompressed point and an RSA key from modulus and
  exponent (both may refuse), and checking a signature.\<close>

record 'k crypto =
  ec_from_point :: "bytes \<Rightarrow> 'k result"
  rsa_from_numbers :: "bytes \<Rightarrow> bytes \<Rightarrow> 'k result"
  digest_verify :: "'k \<Rightarrow> bytes \<Rightarrow> bytes \<Rightarrow> bool"
  sha256_digest :: "bytes \<Rightarrow> bytes option"

definition require_bytes :: "CborValue \<Rightarrow> int \<Rightarrow> string \<Rightarrow> bytes result" where
  "require_bytes m key field_name =
     bind_result (cbor_map_find_int m key) (\<lambda>value.
       case value of
         Some (Bytes bs) \<Rightarrow> Inr bs
       | _ \<Rightarrow> throw (InvalidArgument (''COSE key missing/invalid field: '' @ field_name)))"

definition build_ec_p256_public_key :: "'k crypto \<Rightarrow> bytes \<Rightarrow> bytes \<Rightarrow> 'k result" where
  "build_ec_p256_public_key c x y =
     (if length x \<noteq> 32 \<or> length y \<noteq> 32
      then throw (InvalidArgument ''COSE EC2 key: x/y must each be 32 bytes for P-256'')
      else ec_from_point c ([0x04] @ x @ y))"

definition kMaxRsaModulusBytes :: nat where
  "kMaxRsaModulusBytes = 512"

definition kMaxRsaExponentBytes :: nat where
  "kMaxRsaExponentBytes = 4"

definition build_rsa_public_key :: "'k crypto \<Rightarrow> bytes \<Rightarrow> bytes \<Rightarrow> 'k result" where
  "build_rsa_public_key c n e =
     (if n = [] \<or> length n > kMaxRsaModulusBytes \<or> e = [] \<or> length e > kMaxRsaExponentBytes
      then throw (InvalidArgument ''COSE RSA key: modulus/exponent size out of range'')
      else rsa_from_numbers c n e)"

definition parse_ec2_key :: "'k crypto \<Rightarrow> CborValue \<Rightarrow> ('k \<times> CoseAlgorithm) result" where
  "parse_ec2_key c cose_key =
     bind_result (cbor_map_find_int cose_key kCoseCrv) (\<lambda>crv.
     bind_result (case crv of None \<Rightarrow> Inr False
                  | Some v \<Rightarrow> bind_result (cbor_to_int64 v) (\<lambda>n. Inr (n = 1))) (\<lambda>p256.
       if \<not> p256
       then throw (InvalidArgument ''COSE EC2 key: only the P-256 curve is supported'')
       else bind_result (require_bytes cose_key kCoseX ''x'') (\<lambda>x.
            bind_result (require_bytes cose_key kCoseY ''y'') (\<lambda>y.
            bind_result (build_ec_p256_public_key c x y) (\<lambda>key. Inr (key, ES256))))))"

definition parse_rsa_key :: "'k crypto \<Rightarrow> CborValue \<Rightarrow> ('k \<times> CoseAlgorithm) result" where
  "parse_rsa_key c cose_key =
     bind_result (require_bytes cose_key kCoseN ''n'') (\<lambda>n.
     bind_result (require_bytes cose_key kCoseE ''e'') (\<lambda>e.
     bind_result (build_rsa_public_key c n e) (\<lambda>key. Inr (key, RS256))))"

definition parse_cose_public_key :: "'k crypto \<Rightarrow> CborValue \<Rightarrow> ('k \<times> CoseAlgorithm) result" where
  "parse_cose_public_key c cose_key =
     (case cose_key of
        Map _ \<Rightarrow>
          bind_result (cbor_map_find_int cose_key kCoseKty) (\<lambda>kty.
          bind_result (cbor_map_find_int cose_key kCoseAlg) (\<lambda>alg.
            if kty = None \<or> alg = None then throw (InvalidArgument ''COSE key missing kty/alg'')
            else
              bind_result (cbor_to_int64 (the kty)) (\<lambda>kty_value.
              bind_result (cbor_to_int64 (the alg)) (\<lambda>alg_value.
                if kty_value = 2 \<and> alg_value = - 7 then parse_ec2_key c cose_key
                else if kty_value = 3 \<and> alg_value = - 257 then parse_rsa_key c cose_key
                else throw (InvalidArgument (''unsupported COSE key type/algorithm combination ''
                       @ ''(only ES256 P-256 and RS256 are supported)''))))))
      | _ \<Rightarrow> throw (InvalidArgument ''COSE key is not a CBOR map''))"

section \<open>Ceremonies\<close>

text \<open>The UTF-8 bytes of the dash in two of the messages.\<close>

definition em_dash :: string where
  "em_dash = [CHR 0xE2, CHR 0x80, CHR 0x94]"

definition string_bytes :: "string \<Rightarrow> bytes" where
  "string_bytes s = map (\<lambda>c. word_of_nat (code c)) s"

definition sha256 :: "'k crypto \<Rightarrow> bytes \<Rightarrow> bytes result" where
  "sha256 c d =
     (case sha256_digest c d of
        None \<Rightarrow> throw (RuntimeError ''SHA-256 computation failed'')
      | Some digest \<Rightarrow>
          (if length digest \<noteq> 32 then throw (RuntimeError ''SHA-256 computation failed'') else Inr digest))"

definition verify_client_data ::
  "(string \<Rightarrow> json option) \<Rightarrow> string \<Rightarrow> bytes \<Rightarrow> string \<Rightarrow> string \<Rightarrow> unit result" where
  "verify_client_data parse client_data_json expected_challenge expected_origin expected_type =
     (case parse client_data_json of
        None \<Rightarrow> throw (InvalidArgument ''clientDataJSON is not valid JSON'')
      | Some (JObject obj) \<Rightarrow>
          (if find_string obj ''type'' \<noteq> Some expected_type
           then throw (InvalidArgument (''clientDataJSON: unexpected '' @ [CHR 0x22] @ ''type'' @ [CHR 0x22]))
           else if find_string obj ''origin'' \<noteq> Some expected_origin
           then throw (InvalidArgument ''clientDataJSON: origin does not match this server'')
           else case find_string obj ''challenge'' of
                  None \<Rightarrow> throw (InvalidArgument ''clientDataJSON: missing challenge'')
                | Some text_value \<Rightarrow>
                    (case base64url_decode text_value of
                       Inl _ \<Rightarrow> throw (InvalidArgument ''clientDataJSON: malformed challenge encoding'')
                     | Inr challenge_bytes \<Rightarrow>
                         (if challenge_bytes \<noteq> expected_challenge
                          then throw (InvalidArgument (''clientDataJSON: challenge does not match '' @ em_dash
                                 @ '' expired or replayed?''))
                          else Inr ())))
      | Some _ \<Rightarrow> throw (InvalidArgument ''clientDataJSON is not a JSON object''))"

record ParsedAuthenticatorData =
  pa_rp_id_hash :: bytes
  pa_flags :: u8
  pa_sign_count :: u32
  pa_credential_id :: bytes
  pa_cose_public_key :: bytes

definition be32 :: "u8 \<Rightarrow> u8 \<Rightarrow> u8 \<Rightarrow> u8 \<Rightarrow> u32" where
  "be32 a b c d = ((push_bit 24 (ucast a) OR push_bit 16 (ucast b)) OR push_bit 8 (ucast c)) OR ucast d"

definition parse_authenticator_data :: "cbor_load \<Rightarrow> bytes \<Rightarrow> bool \<Rightarrow> ParsedAuthenticatorData result" where
  "parse_authenticator_data load auth_data require_attested_credential =
     (if length auth_data < 37
      then throw (InvalidArgument ''authenticatorData is shorter than the fixed header'')
      else
        let out = \<lparr>pa_rp_id_hash = take 32 auth_data, pa_flags = auth_data ! 32,
                   pa_sign_count = be32 (auth_data ! 33) (auth_data ! 34) (auth_data ! 35) (auth_data ! 36),
                   pa_credential_id = [], pa_cose_public_key = []\<rparr>;
            has_attested = (pa_flags out AND 0x40) \<noteq> 0
        in if \<not> require_attested_credential then Inr out
           else if \<not> has_attested
           then throw (InvalidArgument ''authenticatorData is missing attested credential data'')
           else if length auth_data < 37 + 16 + 2
           then throw (InvalidArgument ''authenticatorData truncated before credentialId length'')
           else
             let offset = 37 + 16;
                 cred_id_len = unat (push_bit 8 (ucast (auth_data ! offset)) OR
                   (ucast (auth_data ! (offset + 1)) :: u16));
                 offset = offset + 2
             in if length auth_data < offset + cred_id_len
                then throw (InvalidArgument ''authenticatorData truncated before end of credentialId'')
                else
                  let credential_id = take cred_id_len (drop offset auth_data);
                      offset = offset + cred_id_len
                  in if offset \<ge> length auth_data
                     then throw (InvalidArgument ''authenticatorData is missing the credential public key'')
                     else
                       let remaining = drop offset auth_data
                       in bind_result (parse_cbor_prefix load remaining) (\<lambda>(cose_key_value, consumed).
                            case cose_key_value of
                              Map _ \<Rightarrow> Inr (out\<lparr>pa_credential_id := credential_id,
                                                pa_cose_public_key := take consumed remaining\<rparr>)
                            | _ \<Rightarrow> throw (InvalidArgument ''credential public key is not a COSE_Key map'')))"

record WebAuthnRegistrationResult =
  wr_credential_id_b64url :: string
  wr_cose_public_key :: bytes
  wr_sign_count :: u32
  wr_user_verified :: bool

record WebAuthnAssertionResult =
  wa_new_sign_count :: u32
  wa_user_verified :: bool

definition verify_webauthn_registration ::
  "'k crypto \<Rightarrow> cbor_load \<Rightarrow> (string \<Rightarrow> json option) \<Rightarrow> bytes \<Rightarrow> string \<Rightarrow> bytes \<Rightarrow> string \<Rightarrow> string
     \<Rightarrow> WebAuthnRegistrationResult result" where
  "verify_webauthn_registration c load parse expected_challenge client_data_json attestation_object rp_id
     expected_origin =
     bind_result (verify_client_data parse client_data_json expected_challenge expected_origin ''webauthn.create'') (\<lambda>_.
     bind_result (parse_cbor load attestation_object) (\<lambda>attestation.
       case attestation of
         Map _ \<Rightarrow>
           (case cbor_map_find_text attestation ''authData'' of
              Some (Bytes auth_data) \<Rightarrow>
                bind_result (parse_authenticator_data load auth_data True) (\<lambda>parsed.
                bind_result (sha256 c (string_bytes rp_id)) (\<lambda>rp_hash.
                  if pa_rp_id_hash parsed \<noteq> rp_hash
                  then throw (InvalidArgument ''authenticatorData: RP ID hash does not match this server'')
                  else if pa_flags parsed AND 0x01 = 0
                  then throw (InvalidArgument ''authenticatorData: user-presence flag not set'')
                  else bind_result (parse_cbor load (pa_cose_public_key parsed)) (\<lambda>cose_key.
                       bind_result (parse_cose_public_key c cose_key) (\<lambda>_.
                         Inr \<lparr>wr_credential_id_b64url = base64url_encode (pa_credential_id parsed),
                              wr_cose_public_key = pa_cose_public_key parsed,
                              wr_sign_count = pa_sign_count parsed,
                              wr_user_verified = (pa_flags parsed AND 0x04 \<noteq> 0)\<rparr>))))
            | _ \<Rightarrow> throw (InvalidArgument ''attestationObject is missing authData''))
       | _ \<Rightarrow> throw (InvalidArgument ''attestationObject is not a CBOR map'')))"

definition verify_webauthn_authentication ::
  "'k crypto \<Rightarrow> cbor_load \<Rightarrow> (string \<Rightarrow> json option) \<Rightarrow> bytes \<Rightarrow> string \<Rightarrow> bytes \<Rightarrow> bytes \<Rightarrow> bytes \<Rightarrow> u32
     \<Rightarrow> string \<Rightarrow> string \<Rightarrow> WebAuthnAssertionResult result" where
  "verify_webauthn_authentication c load parse expected_challenge client_data_json authenticator_data signature
     stored_cose_public_key stored_sign_count rp_id expected_origin =
     bind_result (verify_client_data parse client_data_json expected_challenge expected_origin ''webauthn.get'') (\<lambda>_.
     bind_result (parse_authenticator_data load authenticator_data False) (\<lambda>parsed.
     bind_result (sha256 c (string_bytes rp_id)) (\<lambda>rp_hash.
       if pa_rp_id_hash parsed \<noteq> rp_hash
       then throw (InvalidArgument ''authenticatorData: RP ID hash does not match this server'')
       else if pa_flags parsed AND 0x01 = 0
       then throw (InvalidArgument ''authenticatorData: user-presence flag not set'')
       else bind_result (sha256 c (string_bytes client_data_json)) (\<lambda>client_data_hash.
            let signed_data = authenticator_data @ client_data_hash in
            bind_result (parse_cbor load stored_cose_public_key) (\<lambda>cose_key.
            bind_result (parse_cose_public_key c cose_key) (\<lambda>(public_key, _).
              if \<not> digest_verify c public_key signature signed_data
              then throw (InvalidArgument ''signature verification failed'')
              else if \<not> (stored_sign_count = 0 \<and> pa_sign_count parsed = 0)
                      \<and> pa_sign_count parsed \<le> stored_sign_count
              then throw (InvalidArgument (''sign counter did not increase '' @ em_dash @ '' possible cloned authenticator''))
              else Inr \<lparr>wa_new_sign_count = pa_sign_count parsed,
                        wa_user_verified = (pa_flags parsed AND 0x04 \<noteq> 0)\<rparr>))))))"

section \<open>CBOR: bounds and errors\<close>

fun small_value :: "nat \<Rightarrow> CborValue \<Rightarrow> bool" where
  "small_value d (Array vs) = (d \<le> kMaxDepth \<and> length vs \<le> kMaxContainerElements \<and> (\<forall>v \<in> set vs. small_value (d + 1) v))"
| "small_value d (Map kvs) = (d \<le> kMaxDepth \<and> length kvs \<le> kMaxContainerElements
     \<and> (\<forall>(k, v) \<in> set kvs. small_value (d + 1) k \<and> small_value (d + 1) v))"
| "small_value d _ = (d \<le> kMaxDepth)"

definition invalid_argument :: "error \<Rightarrow> bool" where
  "invalid_argument e = (case e of InvalidArgument _ \<Rightarrow> True | _ \<Rightarrow> False)"

lemma invalid_argument_simp [simp]: "invalid_argument (InvalidArgument m)"
  by (simp add: invalid_argument_def)

lemma bind_result_Inl_iff: "bind_result r f = Inl e \<longleftrightarrow> r = Inl e \<or> (\<exists>x. r = Inr x \<and> f x = Inl e)"
  by (cases r) auto

lemma convert_errors:
  "convert item d = Inl e \<Longrightarrow> invalid_argument e"
  "convert_elements items d = Inl e \<Longrightarrow> invalid_argument e"
  "convert_pairs pairs d = Inl e \<Longrightarrow> invalid_argument e"
proof (induction item d and items d and pairs d rule: convert_convert_elements_convert_pairs.induct)
  case (1 item d)
  then show ?case
    by (cases item) (auto simp: convert.simps bind_result_Inl_iff split: if_splits)
qed (auto simp: bind_result_Inl_iff split: option.splits)

lemma convert_small:
  "convert item d = Inr v \<Longrightarrow> small_value d v"
  "convert_elements items d = Inr vs \<Longrightarrow> length vs = length items \<and> (\<forall>v \<in> set vs. small_value d v)"
  "convert_pairs pairs d = Inr kvs \<Longrightarrow>
     length kvs = length pairs \<and> (\<forall>(k, v) \<in> set kvs. small_value d k \<and> small_value d v)"
proof (induction item d and items d and pairs d arbitrary: v and vs and kvs
    rule: convert_convert_elements_convert_pairs.induct)
  case (1 item d)
  show ?case
  proof (cases item)
    case (ItemArray items)
    with "1.prems" obtain vs where vs: "\<not> d > kMaxDepth" "\<not> length items > kMaxContainerElements"
      "convert_elements items (d + 1) = Inr vs" "v = Array vs"
      by (auto simp: convert.simps bind_result_Inr_iff split: if_splits)
    with "1.IH"(1) [OF vs(1) ItemArray vs(2,3)] show ?thesis by simp
  next
    case (ItemMap pairs)
    with "1.prems" obtain kvs where kvs: "\<not> d > kMaxDepth" "\<not> length pairs > kMaxContainerElements"
      "convert_pairs pairs (d + 1) = Inr kvs" "v = Map kvs"
      by (auto simp: convert.simps bind_result_Inr_iff split: if_splits)
    with "1.IH"(2) [OF kvs(1) ItemMap kvs(2,3)] show ?thesis by simp
  qed (use "1.prems" in \<open>auto simp: convert.simps split: if_splits\<close>)
next
  case (3 child items d)
  then show ?case by (cases child) (fastforce simp: bind_result_Inr_iff)+
next
  case (5 k v pairs d)
  then show ?case by (fastforce simp: bind_result_Inr_iff)
qed simp_all

text \<open>C39: Whatever bytes a client sends and whatever the CBOR library makes of them, decoding either
  throws \<open>invalid_argument\<close> or returns a value nested at most eight levels deep whose arrays and
  maps have at most 64 entries, from at most 4096 bytes.\<close>

theorem parse_cbor_bounded:
  "case parse_cbor load d of
     Inr v \<Rightarrow> small_value 0 v \<and> d \<noteq> [] \<and> length d \<le> 4096
   | Inl e \<Rightarrow> invalid_argument e"
proof (cases "parse_cbor load d")
  case (Inl e)
  then have "invalid_argument e"
    by (auto simp: parse_cbor_def parse_cbor_prefix_def bind_result_Inl_iff split: if_splits option.splits
        dest: convert_errors(1))
  with Inl show ?thesis by simp
next
  case (Inr v)
  then have "small_value 0 v" "d \<noteq> []" "length d \<le> 4096"
    by (auto simp: parse_cbor_def parse_cbor_prefix_def bind_result_Inr_iff kMaxCborBytes_def
        split: if_splits option.splits dest: convert_small(1))
  with Inr show ?thesis by simp
qed

text \<open>A map lookup by integer does throw, when it meets an integer key beyond the signed range.\<close>

lemma find_int_throws:
  "\<not> is_ok (cbor_map_find_int (Map [(Uint (2 ^ 63), Null), (Uint 1, Null)]) 1)"
  by (simp add: cbor_map_find_int_def cbor_to_int64_def int64_max_def)

section \<open>Keys\<close>

lemma require_bytes_iff:
  "require_bytes m key f = Inr bs \<longleftrightarrow> cbor_map_find_int m key = Inr (Some (Bytes bs))"
proof (cases "cbor_map_find_int m key")
  case (Inr found)
  show ?thesis
  proof (cases found)
    case (Some v)
    show ?thesis by (cases v) (simp_all add: require_bytes_def Inr Some)
  qed (simp add: require_bytes_def Inr)
qed (simp add: require_bytes_def)

definition int_field :: "CborValue \<Rightarrow> int \<Rightarrow> int \<Rightarrow> bool" where
  "int_field m key n \<longleftrightarrow> (\<exists>v. cbor_map_find_int m key = Inr (Some v) \<and> cbor_to_int64 v = Inr n)"

text \<open>C21: A credential key is accepted only as ES256 on P-256 with 32-byte coordinates, given to the
  key builder as the uncompressed point, or as RS256 with a modulus of 1 to 512 and an exponent of
  1 to 4 bytes.\<close>

theorem parse_cose_public_key_sound:
  assumes "parse_cose_public_key c cose_key = Inr (key, alg)"
  shows "alg = ES256 \<and> int_field cose_key 1 2 \<and> int_field cose_key 3 (- 7) \<and> int_field cose_key (- 1) 1
      \<and> (\<exists>x y. cbor_map_find_int cose_key (- 2) = Inr (Some (Bytes x)) \<and> length x = 32
           \<and> cbor_map_find_int cose_key (- 3) = Inr (Some (Bytes y)) \<and> length y = 32
           \<and> ec_from_point c (0x04 # x @ y) = Inr key)
    \<or> alg = RS256 \<and> int_field cose_key 1 3 \<and> int_field cose_key 3 (- 257)
      \<and> (\<exists>n e. cbor_map_find_int cose_key (- 1) = Inr (Some (Bytes n)) \<and> n \<noteq> [] \<and> length n \<le> 512
           \<and> cbor_map_find_int cose_key (- 2) = Inr (Some (Bytes e)) \<and> e \<noteq> [] \<and> length e \<le> 4
           \<and> rsa_from_numbers c n e = Inr key)"
proof -
  from assms obtain kvs kty alg' kn an where m: "cose_key = Map kvs"
    and k: "cbor_map_find_int cose_key kCoseKty = Inr (Some kty)" "cbor_to_int64 kty = Inr kn"
    and a: "cbor_map_find_int cose_key kCoseAlg = Inr (Some alg')" "cbor_to_int64 alg' = Inr an"
    and p: "(if kn = 2 \<and> an = - 7 then parse_ec2_key c cose_key
             else if kn = 3 \<and> an = - 257 then parse_rsa_key c cose_key
             else Inl (InvalidArgument (''unsupported COSE key type/algorithm combination ''
                       @ ''(only ES256 P-256 and RS256 are supported)''))) = Inr (key, alg)"
    by (auto simp: parse_cose_public_key_def bind_result_Inr_iff split: CborValue.splits if_splits)
  have i: "int_field cose_key 1 kn" "int_field cose_key 3 an"
    using k a by (auto simp: int_field_def kCoseKty_def kCoseAlg_def)
  show ?thesis
  proof (cases "kn = 2 \<and> an = - 7")
    case True
    with p obtain crv x y where "cbor_map_find_int cose_key kCoseCrv = Inr (Some crv)" "cbor_to_int64 crv = Inr 1"
      "require_bytes cose_key kCoseX ''x'' = Inr x" "require_bytes cose_key kCoseY ''y'' = Inr y"
      "build_ec_p256_public_key c x y = Inr key" "alg = ES256"
      by (auto simp: parse_ec2_key_def bind_result_Inr_iff split: option.splits if_splits)
    then show ?thesis using True i
      by (auto simp: int_field_def kCoseCrv_def kCoseX_def kCoseY_def
          require_bytes_iff build_ec_p256_public_key_def split: if_splits)
  next
    case False
    with p obtain n e where "kn = 3" "an = - 257" "require_bytes cose_key kCoseN ''n'' = Inr n"
      "require_bytes cose_key kCoseE ''e'' = Inr e" "build_rsa_public_key c n e = Inr key" "alg = RS256"
      by (auto simp: parse_rsa_key_def bind_result_Inr_iff split: if_splits)
    then show ?thesis using i
      by (auto simp: kCoseN_def kCoseE_def require_bytes_iff build_rsa_public_key_def
          kMaxRsaModulusBytes_def kMaxRsaExponentBytes_def split: if_splits)
  qed
qed

definition sample_crypto :: "bytes crypto" where
  "sample_crypto = \<lparr>ec_from_point = Inr, rsa_from_numbers = (\<lambda>n e. Inr (n @ e)),
     digest_verify = (\<lambda>k s d. s = k @ d), sha256_digest = (\<lambda>d. Some (take 32 (d @ replicate 32 0)))\<rparr>"

definition sample_ec_key :: CborValue where
  "sample_ec_key = Map [(Uint 1, Uint 2), (Uint 3, Negint 6), (Negint 0, Uint 1),
     (Negint 1, Bytes (replicate 32 1)), (Negint 2, Bytes (replicate 32 2))]"

lemmas cose_eval = parse_cose_public_key_def parse_ec2_key_def require_bytes_def build_ec_p256_public_key_def
  cbor_map_find_int_def cbor_to_int64_def int64_max_def kCoseKty_def kCoseAlg_def kCoseCrv_def kCoseX_def kCoseY_def

lemma sample_ec_key_parses:
  "parse_cose_public_key sample_crypto sample_ec_key = Inr (0x04 # replicate 32 1 @ replicate 32 2, ES256)"
  by (simp add: cose_eval sample_ec_key_def sample_crypto_def)

theorem parse_cose_public_key_sound_witness:
  "\<exists>x y. cbor_map_find_int sample_ec_key (- 2) = Inr (Some (Bytes x)) \<and> length x = 32
     \<and> cbor_map_find_int sample_ec_key (- 3) = Inr (Some (Bytes y)) \<and> length y = 32"
  using parse_cose_public_key_sound [OF sample_ec_key_parses] by auto

section \<open>Ceremonies\<close>

definition client_data_ok :: "(string \<Rightarrow> json option) \<Rightarrow> string \<Rightarrow> bytes \<Rightarrow> string \<Rightarrow> string \<Rightarrow> bool" where
  "client_data_ok parse json_text challenge origin type \<longleftrightarrow>
     (\<exists>obj t. parse json_text = Some (JObject obj) \<and> find_string obj ''type'' = Some type
        \<and> find_string obj ''origin'' = Some origin \<and> find_string obj ''challenge'' = Some t
        \<and> base64url_decode t = Inr challenge)"

lemma verify_client_data_iff:
  "verify_client_data parse j ch origin type = Inr () \<longleftrightarrow> client_data_ok parse j ch origin type"
  by (auto simp: verify_client_data_def client_data_ok_def split: option.splits json.splits sum.splits if_splits)

lemma sha256_iff: "sha256 c d = Inr h \<longleftrightarrow> sha256_digest c d = Some h \<and> length h = 32"
  by (auto simp: sha256_def split: option.splits if_splits)

text \<open>The acceptance condition of the counter: it rises, or the authenticator has never counted.\<close>

definition counter_fresh :: "u32 \<Rightarrow> u32 \<Rightarrow> bool" where
  "counter_fresh stored received \<longleftrightarrow> stored < received \<or> stored = 0 \<and> received = 0"

text \<open>C20: A passkey login is accepted exactly when the client data names this ceremony, this origin and
  this challenge, the authenticator data carries the hash of this relying party and the
  user-presence flag, the stored key parses and its signature over authenticator data and client
  data hash verifies, and the signature counter is fresh; the result reports that counter.\<close>

theorem webauthn_authentication_iff:
  "verify_webauthn_authentication c load parse challenge client_data auth_data signature stored_key stored_count
     rp_id origin = Inr r \<longleftrightarrow>
   client_data_ok parse client_data challenge origin ''webauthn.get''
   \<and> (\<exists>parsed h v key alg.
        parse_authenticator_data load auth_data False = Inr parsed
      \<and> sha256 c (string_bytes rp_id) = Inr (pa_rp_id_hash parsed)
      \<and> pa_flags parsed AND 1 \<noteq> 0
      \<and> sha256 c (string_bytes client_data) = Inr h
      \<and> parse_cbor load stored_key = Inr v \<and> parse_cose_public_key c v = Inr (key, alg)
      \<and> digest_verify c key signature (auth_data @ h)
      \<and> counter_fresh stored_count (pa_sign_count parsed)
      \<and> r = \<lparr>wa_new_sign_count = pa_sign_count parsed, wa_user_verified = (pa_flags parsed AND 4 \<noteq> 0)\<rparr>)"
  (is "?L \<longleftrightarrow> ?R")
proof
  assume ?L
  then show ?R
    unfolding verify_webauthn_authentication_def counter_fresh_def
    by (fastforce simp: bind_result_Inr_iff verify_client_data_iff Let_def not_le split: if_splits prod.splits)
next
  assume ?R
  then obtain parsed h v key alg where R: "client_data_ok parse client_data challenge origin ''webauthn.get''"
    "parse_authenticator_data load auth_data False = Inr parsed"
    "sha256 c (string_bytes rp_id) = Inr (pa_rp_id_hash parsed)" "pa_flags parsed AND 1 \<noteq> 0"
    "sha256 c (string_bytes client_data) = Inr h" "parse_cbor load stored_key = Inr v"
    "parse_cose_public_key c v = Inr (key, alg)" "digest_verify c key signature (auth_data @ h)"
    "counter_fresh stored_count (pa_sign_count parsed)"
    "r = \<lparr>wa_new_sign_count = pa_sign_count parsed, wa_user_verified = (pa_flags parsed AND 4 \<noteq> 0)\<rparr>" by blast
  from R(1) have "verify_client_data parse client_data challenge origin ''webauthn.get'' = Inr ()"
    by (simp add: verify_client_data_iff)
  then show ?L
    using R(2-) by (auto simp: verify_webauthn_authentication_def Let_def counter_fresh_def not_le)
qed

text \<open>The layout of authenticator data: every field is read from its place, the credential id by its
  16-bit length, the key from what follows it.\<close>

lemma cred_id_length:
  "unat (push_bit 8 (ucast (hi :: u8)) OR (ucast (lo :: u8) :: u16)) = 256 * unat hi + unat lo"
proof -
  have "push_bit 8 (ucast hi) OR (ucast lo :: u16) = push_bit 8 (ucast hi) + ucast lo"
    by (rule disjunctive_add_eq_or [symmetric], rule bit_eqI) (auto simp: bit_simps dest: bit_imp_le_length)
  moreover have "unat (push_bit 8 (ucast hi) :: u16) = 256 * unat hi"
  proof -
    have "unat hi < 256" using unsigned_less [of hi] by simp
    then show ?thesis by (simp add: push_bit_eq_mult unat_word_ariths unsigned_ucast_eq take_bit_nat_eq_self)
  qed
  moreover have "unat hi < 256" "unat lo < 256" using unsigned_less [of hi] unsigned_less [of lo] by simp_all
  ultimately show ?thesis by (simp add: unat_word_ariths unsigned_ucast_eq take_bit_nat_eq_self)
qed

lemma parse_attested_data:
  assumes "d ! 32 AND 0x40 \<noteq> 0" and "length d = 55 + n + length key" and "key \<noteq> []"
    and "n = 256 * unat (d ! 53) + unat (d ! 54)" and "drop (55 + n) d = key"
    and "parse_cbor_prefix load key = Inr (Map kvs, consumed)"
  shows "parse_authenticator_data load d True
    = Inr \<lparr>pa_rp_id_hash = take 32 d, pa_flags = d ! 32,
           pa_sign_count = be32 (d ! 33) (d ! 34) (d ! 35) (d ! 36),
           pa_credential_id = take n (drop 55 d), pa_cose_public_key = take consumed key\<rparr>"
proof -
  have "0 < length key" using assms(3) by simp
  then show ?thesis
    using assms(1,2,5,6)
    by (simp add: parse_authenticator_data_def Let_def cred_id_length flip: assms(4))
qed

text \<open>Authenticator data is read at the right offsets: for every relying-party hash, flags, counter,
  authenticator id, credential id and key bytes, the parser of a registration returns exactly these
  parts when the attested-data flag is set and the key decodes to a map.\<close>

theorem authenticator_data_layout:
  assumes "length rp_hash = 32" and "length aaguid = 16" and "length cred_id = 256 * unat hi + unat lo"
    and "flags AND 0x40 \<noteq> 0" and "key \<noteq> []" and "parse_cbor_prefix load key = Inr (Map kvs, consumed)"
  shows "parse_authenticator_data load
      (rp_hash @ [flags, c3, c2, c1, c0] @ aaguid @ [hi, lo] @ cred_id @ key) True
    = Inr \<lparr>pa_rp_id_hash = rp_hash, pa_flags = flags, pa_sign_count = be32 c3 c2 c1 c0,
           pa_credential_id = cred_id, pa_cose_public_key = take consumed key\<rparr>"
proof -
  let ?d = "rp_hash @ [flags, c3, c2, c1, c0] @ aaguid @ [hi, lo] @ cred_id @ key"
  have fixed: "?d ! 32 = flags" "?d ! 33 = c3" "?d ! 34 = c2" "?d ! 35 = c1" "?d ! 36 = c0" "take 32 ?d = rp_hash"
    using assms(1) by (simp_all add: nth_append)
  have len: "?d ! 53 = hi" "?d ! 54 = lo" using assms(1,2) by (simp_all add: nth_append nth_Cons')
  have cid: "drop 55 ?d = cred_id @ key" using assms(1,2) by simp
  have rest: "drop (55 + length cred_id) ?d = key"
  proof -
    have "drop (length cred_id) (drop 55 ?d) = key" unfolding cid by simp
    then show ?thesis unfolding drop_drop by (simp only: add.commute [of 55])
  qed
  have size: "length ?d = 55 + length cred_id + length key" using assms(1,2) by simp
  have "parse_authenticator_data load ?d True
    = Inr \<lparr>pa_rp_id_hash = take 32 ?d, pa_flags = ?d ! 32,
           pa_sign_count = be32 (?d ! 33) (?d ! 34) (?d ! 35) (?d ! 36),
           pa_credential_id = take (length cred_id) (drop 55 ?d), pa_cose_public_key = take consumed key\<rparr>"
  proof (rule parse_attested_data [OF _ size assms(5) _ rest assms(6)])
    show "?d ! 32 AND 0x40 \<noteq> 0" using assms(4) by (simp only: fixed) simp
    show "length cred_id = 256 * unat (?d ! 53) + unat (?d ! 54)" by (simp only: len assms(3))
  qed
  then show ?thesis by (simp only: fixed cid) simp
qed

theorem authenticator_data_layout_witness:
  "parse_authenticator_data (\<lambda>_. Some (ItemMap [], 1))
      (replicate 32 5 @ [0x41, 0, 0, 1, 2] @ replicate 16 9 @ [0, 1] @ [7] @ [0xA0, 3]) True
    = Inr \<lparr>pa_rp_id_hash = replicate 32 5, pa_flags = 0x41, pa_sign_count = be32 0 0 1 2,
           pa_credential_id = [7], pa_cose_public_key = [0xA0]\<rparr>"
  using authenticator_data_layout [of "replicate 32 5" "replicate 16 9" "[7]" 0 1 "0x41" "[0xA0, 3]"
      "\<lambda>_. Some (ItemMap [], 1)" "[]" 1 0 0 1 2]
  by (simp add: parse_cbor_prefix_def kMaxCborBytes_def convert.simps [of "ItemMap []"] kMaxContainerElements_def)

end
