(* ===== verification/Upstream.thy ===== *)
theory Upstream
  imports Checks
begin

text \<open>
  \<^verbatim>\<open>upstream/upstream.*\<close>: forwarding a request to the origin server.  HTTP messages are the
  parts of \<open>http::request\<close> and \<open>http::response\<close> the sources touch; a field is looked up by its
  canonical name and \<open>set\<close> replaces it.  \<open>prepare_payload\<close> (which fixes the length fields) and
  the network are Beast's and Asio's, so they are parameters; an operation that throws is \<open>None\<close>
  or \<open>False\<close>.
\<close>

section \<open>Messages\<close>

record http_request = request_header +
  hr_body :: string
  hr_keep_alive :: bool

record http_response =
  rp_version :: nat
  rp_status :: nat
  rp_find :: "string \<Rightarrow> string option"
  rp_keep_alive :: bool
  rp_body :: string

definition set_request_field :: "string \<Rightarrow> string \<Rightarrow> http_request \<Rightarrow> http_request" where
  "set_request_field name value request = request\<lparr>hd_find := (hd_find request)(name \<mapsto> value)\<rparr>"

definition set_response_field :: "string \<Rightarrow> string \<Rightarrow> http_response \<Rightarrow> http_response" where
  "set_response_field name value response = response\<lparr>rp_find := (rp_find response)(name \<mapsto> value)\<rparr>"

text \<open>What the documentation of \<open>prepare_payload\<close> promises: only length fields change.\<close>

record beast =
  prepare_request :: "http_request \<Rightarrow> http_request"
  prepare_response :: "http_response \<Rightarrow> http_response"

definition length_fields :: "string set" where
  "length_fields = {''Content-Length'', ''Transfer-Encoding''}"

definition beast_ok :: "beast \<Rightarrow> bool" where
  "beast_ok b \<longleftrightarrow>
     (\<forall>r. \<exists>f. prepare_request b r = r\<lparr>hd_find := f\<rparr> \<and> (\<forall>n. n \<notin> length_fields \<longrightarrow> f n = hd_find r n))
     \<and> (\<forall>r. \<exists>f. prepare_response b r = r\<lparr>rp_find := f\<rparr> \<and> (\<forall>n. n \<notin> length_fields \<longrightarrow> f n = rp_find r n))"

lemma prepare_request_keeps:
  assumes "beast_ok b"
  shows "hr_body (prepare_request b r) = hr_body r" "hr_keep_alive (prepare_request b r) = hr_keep_alive r"
    "hd_method_string (prepare_request b r) = hd_method_string r" "hd_target (prepare_request b r) = hd_target r"
    "n \<notin> length_fields \<Longrightarrow> hd_find (prepare_request b r) n = hd_find r n"
proof -
  from assms obtain f where "prepare_request b r = r\<lparr>hd_find := f\<rparr>" "\<forall>n. n \<notin> length_fields \<longrightarrow> f n = hd_find r n"
    unfolding beast_ok_def by blast
  then show "hr_body (prepare_request b r) = hr_body r" "hr_keep_alive (prepare_request b r) = hr_keep_alive r"
    "hd_method_string (prepare_request b r) = hd_method_string r" "hd_target (prepare_request b r) = hd_target r"
    "n \<notin> length_fields \<Longrightarrow> hd_find (prepare_request b r) n = hd_find r n" by simp_all
qed

lemma prepare_response_keeps:
  assumes "beast_ok b"
  shows "rp_body (prepare_response b r) = rp_body r" "rp_keep_alive (prepare_response b r) = rp_keep_alive r"
    "rp_status (prepare_response b r) = rp_status r" "rp_version (prepare_response b r) = rp_version r"
    "n \<notin> length_fields \<Longrightarrow> rp_find (prepare_response b r) n = rp_find r n"
proof -
  from assms obtain f where "prepare_response b r = r\<lparr>rp_find := f\<rparr>" "\<forall>n. n \<notin> length_fields \<longrightarrow> f n = rp_find r n"
    unfolding beast_ok_def by blast
  then show "rp_body (prepare_response b r) = rp_body r" "rp_keep_alive (prepare_response b r) = rp_keep_alive r"
    "rp_status (prepare_response b r) = rp_status r" "rp_version (prepare_response b r) = rp_version r"
    "n \<notin> length_fields \<Longrightarrow> rp_find (prepare_response b r) n = rp_find r n" by simp_all
qed

text \<open>An instance: the length of the body is announced.\<close>

definition announcing_beast :: beast where
  "announcing_beast =
     \<lparr>prepare_request = (\<lambda>r. set_request_field ''Content-Length'' (show_nat (length (hr_body r))) r),
      prepare_response = (\<lambda>r. set_response_field ''Content-Length'' (show_nat (length (rp_body r))) r)\<rparr>"

lemma announcing_beast_ok: "beast_ok announcing_beast"
proof -
  have "\<exists>f. prepare_request announcing_beast r = r\<lparr>hd_find := f\<rparr> \<and> (\<forall>n. n \<notin> length_fields \<longrightarrow> f n = hd_find r n)" for r
    by (rule exI [of _ "(hd_find r)(''Content-Length'' \<mapsto> show_nat (length (hr_body r)))"])
       (simp add: announcing_beast_def set_request_field_def length_fields_def)
  moreover have "\<exists>f. prepare_response announcing_beast r = r\<lparr>rp_find := f\<rparr> \<and> (\<forall>n. n \<notin> length_fields \<longrightarrow> f n = rp_find r n)" for r
    by (rule exI [of _ "(rp_find r)(''Content-Length'' \<mapsto> show_nat (length (rp_body r)))"])
       (simp add: announcing_beast_def set_response_field_def length_fields_def)
  ultimately show ?thesis unfolding beast_ok_def by blast
qed

section \<open>Forwarding\<close>

record ('e, 's) network =
  nw_resolve :: "string \<Rightarrow> string \<Rightarrow> 'e option"
  nw_connect :: "'e \<Rightarrow> int \<Rightarrow> 's option"
  nw_write :: "'s \<Rightarrow> int \<Rightarrow> http_request \<Rightarrow> bool"
  nw_read :: "'s \<Rightarrow> nat \<Rightarrow> bool \<Rightarrow> nat \<Rightarrow> http_response option"

definition outgoing_request :: "beast \<Rightarrow> http_request \<Rightarrow> string \<Rightarrow> string \<Rightarrow> http_request" where
  "outgoing_request b request client_ip client_scheme =
     (let request = set_request_field ''X-Forwarded-For'' client_ip request;
          request = set_request_field ''X-Forwarded-Proto'' client_scheme request
      in prepare_request b (request\<lparr>hr_keep_alive := False\<rparr>))"

definition forward_to_upstream ::
  "beast \<Rightarrow> ('e, 's) network \<Rightarrow> http_request \<Rightarrow> UpstreamConfig \<Rightarrow> LimitsConfig \<Rightarrow> string \<Rightarrow> string
     \<Rightarrow> http_response option" where
  "forward_to_upstream b nw request upstream limits client_ip client_scheme =
     (let is_head = (hd_method_string request = ''HEAD'');
          request = outgoing_request b request client_ip client_scheme
      in case nw_resolve nw (up_host upstream) (show_nat (unat (up_port upstream))) of
           None \<Rightarrow> None
         | Some endpoints \<Rightarrow>
             (case nw_connect nw endpoints (upstream_connect_timeout limits) of
                None \<Rightarrow> None
              | Some stream \<Rightarrow>
                  (if \<not> nw_write nw stream (request_timeout limits) request then None
                   else nw_read nw stream (max_header_bytes limits) is_head (max_body_bytes limits))))"

text \<open>A forwarded request names the real client and nobody else: whatever \<open>X-Forwarded-For\<close> and
  \<open>X-Forwarded-Proto\<close> the client sent are replaced by the address and scheme of the connection,
  the connection is not kept, and every other field but the lengths, the method, the target and
  the body reach the origin as they were.\<close>

theorem outgoing_request_truthful:
  assumes "beast_ok b"
  shows "hd_find (outgoing_request b r ip scheme) ''X-Forwarded-For'' = Some ip
   \<and> hd_find (outgoing_request b r ip scheme) ''X-Forwarded-Proto'' = Some scheme
   \<and> \<not> hr_keep_alive (outgoing_request b r ip scheme)
   \<and> hd_method_string (outgoing_request b r ip scheme) = hd_method_string r
   \<and> hd_target (outgoing_request b r ip scheme) = hd_target r
   \<and> hr_body (outgoing_request b r ip scheme) = hr_body r
   \<and> (\<forall>n. n \<notin> length_fields \<union> {''X-Forwarded-For'', ''X-Forwarded-Proto''} \<longrightarrow>
        hd_find (outgoing_request b r ip scheme) n = hd_find r n)"
  using prepare_request_keeps [OF assms]
  by (simp add: outgoing_request_def Let_def set_request_field_def length_fields_def)

theorem outgoing_request_truthful_witness:
  "hd_find (outgoing_request announcing_beast
       \<lparr>hd_version = 11, hd_method_string = ''GET'', hd_target = ''/'',
        hd_find = [''X-Forwarded-For'' \<mapsto> ''10.0.0.1''], hr_body = [], hr_keep_alive = True\<rparr>
       ''203.0.113.9'' ''https'') ''X-Forwarded-For'' = Some ''203.0.113.9''"
  using outgoing_request_truthful [OF announcing_beast_ok] by blast

end
