(* ===== verification/Http_Session.thy ===== *)
theory Http_Session
  imports Upstream Site_Ops Robots_Txt Score_Tracker Ip_Block_Tracker Request_Log
begin

text \<open>
  \<^verbatim>\<open>listener/http_session.hpp\<close>: the pipeline every request of a visitor goes through.  The body of
  the session's loop is cut where the coroutine suspends: reading the header
  (\<open>header_phase\<close> is what follows), reading the body (\<open>body_phase\<close>), the origin's answer
  (\<open>upstream_phase\<close>) and writing the reply; \<open>session_step\<close> composes them with the
  environment, which may change the shared state at every suspension.  The parts of
  \<^verbatim>\<open>app_state.hpp\<close> a session touches are the record \<open>AppState\<close>.

  A phase is \<open>None\<close> only if the score tracker would write through a dangling reference.
  The clock is read up to four times in a phase; each reading is its own argument.
\<close>

section \<open>State and environment\<close>

record AppState =
  as_config :: RuntimeConfig
  as_request_log :: RequestLog
  as_ip_blocks :: IpBlockTracker
  as_scores :: ScoreTracker
  as_rate_tracker :: RequestRateTracker
  as_globe_events :: GlobeEventLog

record AsnInfo =
  asn_number :: nat
  asn_organization :: string

text \<open>What the session asks of Boost and of the address databases, and the connection it serves.\<close>

record connection =
  cn_beast :: beast
  cn_to_string :: "ip_address \<Rightarrow> string"
  cn_keep_alive :: "request_header \<Rightarrow> bool"
  cn_geoip :: "(ip_address \<Rightarrow> GeoLocation option) option"
  cn_asn :: "(ip_address \<Rightarrow> AsnInfo option) option"
  cn_client_ip :: ip_address
  cn_listener_label :: string

record clocks =
  ck_event :: ticks
  ck_gate :: ticks
  ck_rate :: ticks
  ck_award :: ticks
  ck_add :: ticks

definition client_ip_text :: "connection \<Rightarrow> string" where
  "client_ip_text cn = cn_to_string cn (cn_client_ip cn)"

definition geo_of :: "connection \<Rightarrow> GeoLocation option" where
  "geo_of cn = (case cn_geoip cn of None \<Rightarrow> None | Some look \<Rightarrow> look (cn_client_ip cn))"

definition geo_country_of :: "connection \<Rightarrow> string" where
  "geo_country_of cn = (case geo_of cn of None \<Rightarrow> [] | Some g \<Rightarrow> geo_country g)"

definition geo_isp_of :: "connection \<Rightarrow> string" where
  "geo_isp_of cn =
     (case cn_asn cn of
        None \<Rightarrow> []
      | Some look \<Rightarrow> (case look (cn_client_ip cn) of None \<Rightarrow> [] | Some a \<Rightarrow> asn_organization a))"

section \<open>Helpers\<close>

definition kDefaultBlockedHtml :: string where
  \<open>kDefaultBlockedHtml =
     ''<!doctype html><html><head><meta charset="utf-8"><title>Blocked</title></head>''
     @ ''<body style="font-family:sans-serif;text-align:center;padding:80px;background:#0f1115;''
     @ ''color:#e6e9f0;"><h1>403 &mdash; Blocked</h1>''
     @ ''<p style="color:#8b93a7;">Your request was blocked by this site's security rules.</p>''
     @ ''</body></html>''\<close>

definition kDefaultBannedHtml :: string where
  \<open>kDefaultBannedHtml =
     ''<!doctype html><html><head><meta charset="utf-8"><title>Banned</title></head>''
     @ ''<body style="font-family:sans-serif;text-align:center;padding:80px;background:#0f1115;''
     @ ''color:#e6e9f0;"><h1>403 &mdash; Temporarily Banned</h1>''
     @ ''<p style="color:#8b93a7;">Your IP has been temporarily blocked due to repeated policy ''
     @ ''violations. Try again later.</p></body></html>''\<close>

definition kEmergencyOffHtml :: string where
  "kEmergencyOffHtml = ''<!doctype html><html><head></head><body></body></html>''"

definition kBadGatewayHtml :: string where
  \<open>kBadGatewayHtml =
     ''<!doctype html><html><head><meta charset="utf-8"><title>Bad Gateway</title></head>''
     @ ''<body style="font-family:sans-serif;text-align:center;padding:80px;background:#0f1115;''
     @ ''color:#e6e9f0;"><h1>502 &mdash; Bad Gateway</h1>''
     @ ''<p style="color:#8b93a7;">The origin server is unavailable. Try again shortly.</p>''
     @ ''</body></html>''\<close>

definition user_agent_of :: "request_header \<Rightarrow> string" where
  "user_agent_of header = (case hd_find header ''User-Agent'' of None \<Rightarrow> [] | Some v \<Rightarrow> v)"

definition resolve_page_html :: "string \<Rightarrow> string \<Rightarrow> string" where
  "resolve_page_html configured fallback = (if configured = [] then fallback else configured)"

fun find_status_page_html :: "StatusPageEntry list \<Rightarrow> nat \<Rightarrow> string option" where
  "find_status_page_html [] status_code = None"
| "find_status_page_html (entry # pages) status_code =
     (if sp_code entry = int status_code then Some (sp_html entry)
      else find_status_page_html pages status_code)"

definition empty_response :: "nat \<Rightarrow> nat \<Rightarrow> http_response" where
  "empty_response status version =
     \<lparr>rp_version = version, rp_status = status, rp_find = (\<lambda>_. None), rp_keep_alive = True, rp_body = []\<rparr>"

definition make_robots_txt_response :: "beast \<Rightarrow> nat \<Rightarrow> string \<Rightarrow> string \<Rightarrow> http_response" where
  "make_robots_txt_response b version body method =
     (let res = empty_response 200 version;
          res = set_response_field ''Server'' ''atomwall'' res;
          res = set_response_field ''Content-Type'' ''text/plain; charset=utf-8'' res;
          res = res\<lparr>rp_keep_alive := False\<rparr>;
          res = (if method \<noteq> ''HEAD'' then res\<lparr>rp_body := body\<rparr> else res)
      in prepare_response b res)"

definition make_html_response :: "beast \<Rightarrow> nat \<Rightarrow> string \<Rightarrow> nat \<Rightarrow> http_response" where
  "make_html_response b version html status =
     (let res = empty_response status version;
          res = set_response_field ''Server'' ''atomwall'' res;
          res = set_response_field ''Content-Type'' ''text/html; charset=utf-8'' res;
          res = res\<lparr>rp_keep_alive := False, rp_body := html\<rparr>
      in prepare_response b res)"

definition award_score ::
  "RuntimeConfig \<Rightarrow> clocks \<Rightarrow> ip_address \<Rightarrow> string \<Rightarrow> string \<Rightarrow> AppState \<Rightarrow> AppState option" where
  "award_score config ck client_ip ip_text name st =
     (if \<not> ban_enabled (cfg_ban config) then Some st
      else case um_find (ban_scores (cfg_ban config)) name of
             None \<Rightarrow> Some st
           | Some points \<Rightarrow>
               (if points \<le> 0 then Some st
                else case add_points ip_text points (as_scores st) of
                       None \<Rightarrow> None
                     | Some (scores, total_score) \<Rightarrow>
                         (if total_score \<ge> ban_threshold (cfg_ban config)
                          then
                            let created_at = ck_award ck;
                                ban_hours = min (ban_duration_hours (cfg_ban config)) kMaxBanDurationHours;
                                block = \<lparr>tb_text = ip_text, tb_is_cidr = False, tb_address = client_ip,
                                         tb_prefix_len = 0, tb_source = ''score'',
                                         tb_score_at_block = total_score, tb_created_at = created_at,
                                         tb_expires_at = tick_add created_at (hours ban_hours)\<rparr>
                            in Some (st\<lparr>as_ip_blocks := add_block block (ck_add ck) (as_ip_blocks st),
                                        as_scores := reset_score ip_text scores\<rparr>)
                          else Some (st\<lparr>as_scores := scores\<rparr>))))"

definition record_events :: "GeoLocation option \<Rightarrow> RequestEvent \<Rightarrow> AppState \<Rightarrow> AppState" where
  "record_events geo event st =
     (let st = (case geo of
                  None \<Rightarrow> st
                | Some g \<Rightarrow>
                    st\<lparr>as_globe_events := globe_record
                         \<lparr>arc_seq = 0, arc_timestamp = re_timestamp event, arc_lat = geo_lat g,
                          arc_lon = geo_lon g, arc_blocked = re_blocked event\<rparr> (as_globe_events st)\<rparr>)
      in st\<lparr>as_request_log := rq_record event (as_request_log st)\<rparr>)"

section \<open>The phases of a request\<close>

definition path_of :: "string \<Rightarrow> string" where
  "path_of target = (case find_char (CHR ''?'') target of None \<Rightarrow> target | Some i \<Rightarrow> take i target)"

definition is_whitelisted :: "connection \<Rightarrow> RuntimeConfig \<Rightarrow> request_header \<Rightarrow> bool" where
  "is_whitelisted cn config header \<longleftrightarrow>
     is_ip_whitelisted (cn_to_string cn) (cfg_whitelist config) (cn_client_ip cn)
     \<or> is_route_whitelisted (cfg_whitelist config) (path_of (hd_target header))"

definition host_header_of :: "request_header \<Rightarrow> string" where
  "host_header_of header = (case hd_find header ''Host'' of None \<Rightarrow> [] | Some v \<Rightarrow> v)"

definition start_event :: "connection \<Rightarrow> clocks \<Rightarrow> request_header \<Rightarrow> RequestEvent" where
  "start_event cn ck header =
     \<lparr>re_seq = 0, re_timestamp = ck_event ck, re_client_ip = client_ip_text cn,
      re_country = (if geo_country_of cn = [] then ''unknown'' else geo_country_of cn),
      re_isp = (if geo_isp_of cn = [] then ''unknown'' else geo_isp_of cn),
      re_user_agent = user_agent_of header, re_method = hd_method_string header,
      re_path = hd_target header, re_domain = host_header_of header,
      re_listener = cn_listener_label cn, re_blocked = False, re_block_reason = [],
      re_bytes_transferred = 0, re_status_code = 0\<rparr>"

text \<open>The lines every branch ends with: the event takes the size and status of the reply and is
  recorded.\<close>

definition finish_event :: "connection \<Rightarrow> nat \<Rightarrow> http_response \<Rightarrow> RequestEvent \<Rightarrow> AppState \<Rightarrow> AppState" where
  "finish_event cn request_bytes response event st =
     record_events (geo_of cn)
       (event\<lparr>re_bytes_transferred := word_of_nat (request_bytes + length (rp_body response)),
              re_status_code := int (rp_status response)\<rparr>) st"

text \<open>A gate that refuses without scoring.\<close>

definition refuse ::
  "connection \<Rightarrow> request_header \<Rightarrow> string \<Rightarrow> string \<Rightarrow> nat \<Rightarrow> RequestEvent \<Rightarrow> AppState
     \<Rightarrow> AppState \<times> http_response" where
  "refuse cn header why html status event st =
     (let response = make_html_response (cn_beast cn) (hd_version header) html status
      in (finish_event cn 0 response (event\<lparr>re_blocked := True, re_block_reason := why\<rparr>) st, response))"

text \<open>A failed check: the client is scored, the event recorded and the blocked page sent.\<close>

definition reject ::
  "connection \<Rightarrow> RuntimeConfig \<Rightarrow> clocks \<Rightarrow> request_header \<Rightarrow> nat \<Rightarrow> CheckResult \<Rightarrow> RequestEvent \<Rightarrow> AppState
     \<Rightarrow> (AppState \<times> http_response) option" where
  "reject cn config ck header request_bytes result event st =
     (case award_score config ck (cn_client_ip cn) (client_ip_text cn) (check_name result) st of
        None \<Rightarrow> None
      | Some st \<Rightarrow>
          (let response = make_html_response (cn_beast cn) (hd_version header)
                 (resolve_page_html (blocked_html (cfg_pages config)) kDefaultBlockedHtml) 403;
               event = event\<lparr>re_blocked := True,
                             re_block_reason := check_name result @ '': '' @ reason result\<rparr>
           in Some (finish_event cn request_bytes response event st, response)))"

datatype header_outcome =
    Close http_response
  | ReadBody bool ResolvedSite RequestEvent

definition closing :: "(AppState \<times> http_response) option \<Rightarrow> (AppState \<times> header_outcome) option" where
  "closing = map_option (\<lambda>(st, response). (st, Close response))"

definition header_phase ::
  "connection \<Rightarrow> RuntimeConfig \<Rightarrow> clocks \<Rightarrow> request_header \<Rightarrow> AppState \<Rightarrow> (AppState \<times> header_outcome) option" where
  "header_phase cn config ck header st =
     (let path = path_of (hd_target header);
          whitelisted = is_whitelisted cn config header;
          event = start_event cn ck header;
          host_header = host_header_of header
      in
      if eo_enabled (cfg_emergency_off config)
      then closing (Some (refuse cn header ''emergency off'' kEmergencyOffHtml 503 event st))
      else
      let site = resolve_site config host_header in
      if \<not> rs_enabled site
      then closing (Some (refuse cn header ''site disabled''
             (resolve_page_html (blocked_html (cfg_pages config)) kDefaultBlockedHtml) 403 event st))
      else if \<not> whitelisted \<and> is_blocked (cn_client_ip cn) (ck_gate ck) (as_ip_blocks st)
      then closing (Some (refuse cn header ''banned: temporarily blocked (manual or score threshold)''
             (resolve_page_html (banned_html (cfg_pages config)) kDefaultBannedHtml) 403 event st))
      else
      let (tracker, result) = check_request_rate (cn_to_string cn) (cfg_speed_check config)
             (as_rate_tracker st) (cn_client_ip cn) path header (ck_rate ck);
          st = st\<lparr>as_rate_tracker := tracker\<rparr>
      in
      if \<not> whitelisted \<and> blocked result then closing (reject cn config ck header 0 result event st)
      else
      let result = check_method_allowlist (cfg_method_check config) (hd_method_string header) in
      if \<not> whitelisted \<and> blocked result then closing (reject cn config ck header 0 result event st)
      else
      let result = evaluate_header_checks (cn_to_string cn) (cfg_blacklist config) (cn_client_ip cn) path
             header (geo_isp_of cn) in
      if \<not> whitelisted \<and> blocked result then closing (reject cn config ck header 0 result event st)
      else
      if (hd_method_string header = ''GET'' \<or> hd_method_string header = ''HEAD'')
         \<and> path = ''/robots.txt''
         \<and> (bl_fake_routes (cfg_blacklist config) \<noteq> [] \<or> custom_content (cfg_robots_txt config) \<noteq> [])
      then
        let body = build_robots_txt_body (custom_content (cfg_robots_txt config))
                     (bl_fake_routes (cfg_blacklist config));
            response = make_robots_txt_response (cn_beast cn) (hd_version header) body (hd_method_string header)
        in Some (finish_event cn 0 response event st, Close response)
      else Some (st, ReadBody whitelisted site event))"

definition received_request :: "connection \<Rightarrow> request_header \<Rightarrow> string \<Rightarrow> http_request" where
  "received_request cn header body =
     \<lparr>hd_version = hd_version header, hd_method_string = hd_method_string header,
      hd_target = hd_target header, hd_find = hd_find header, hr_body = body,
      hr_keep_alive = cn_keep_alive cn header\<rparr>"

text \<open>\<open>Inr\<close> is the request to forward.\<close>

definition body_phase ::
  "connection \<Rightarrow> RuntimeConfig \<Rightarrow> clocks \<Rightarrow> request_header \<Rightarrow> bool \<Rightarrow> RequestEvent \<Rightarrow> string \<Rightarrow> AppState
     \<Rightarrow> (AppState \<times> (http_response + http_request)) option" where
  "body_phase cn config ck header whitelisted event body st =
     (let request = received_request cn header body;
          result = evaluate_body_checks (cfg_blacklist config) (hr_body request)
      in if \<not> whitelisted \<and> blocked result
         then map_option (\<lambda>(st, response). (st, Inl response))
                (reject cn config ck header (length (hr_body request)) result event st)
         else Some (st, Inr request))"

text \<open>\<open>None\<close> is an exception of \<open>forward_to_upstream\<close>.\<close>

definition upstream_phase ::
  "connection \<Rightarrow> RuntimeConfig \<Rightarrow> request_header \<Rightarrow> bool \<Rightarrow> nat \<Rightarrow> RequestEvent \<Rightarrow> http_response option
     \<Rightarrow> AppState \<Rightarrow> AppState \<times> http_response \<times> bool" where
  "upstream_phase cn config header keep_alive request_body_size event upstream_response st =
     (case upstream_response of
        None \<Rightarrow>
          (let bad_gateway = make_html_response (cn_beast cn) (hd_version header) kBadGatewayHtml 502
           in (finish_event cn request_body_size bad_gateway event st, bad_gateway, False))
      | Some response \<Rightarrow>
          (let response =
                 (case find_status_page_html (status_pages (cfg_pages config)) (rp_status response) of
                    None \<Rightarrow> response
                  | Some override_html \<Rightarrow>
                      set_response_field ''Content-Type'' ''text/html; charset=utf-8''
                        (response\<lparr>rp_body := override_html\<rparr>));
               response = prepare_response (cn_beast cn) (response\<lparr>rp_keep_alive := keep_alive\<rparr>)
           in (finish_event cn request_body_size response event st, response, keep_alive)))"

section \<open>Scoring\<close>

lemma award_score_frame:
  assumes "award_score config ck ip ip_text name st = Some st'"
  shows "as_config st' = as_config st" "as_request_log st' = as_request_log st"
    "as_rate_tracker st' = as_rate_tracker st" "as_globe_events st' = as_globe_events st"
  using assms by (auto simp: award_score_def Let_def split: if_splits option.splits)

lemma award_score_total:
  assumes "score_ok (as_scores st)"
  shows "\<exists>st'. award_score config ck ip ip_text name st = Some st'"
proof (cases "um_find (ban_scores (cfg_ban config)) name")
  case (Some points)
  obtain t' where "add_points ip_text points (as_scores st) = Some (t', clamp_int (current_score (as_scores st) ip_text + points))"
    using add_points_total [OF assms] by blast
  with Some show ?thesis by (simp add: award_score_def Let_def)
qed (simp add: award_score_def)

text \<open>The expiry of a ban is exact for every clock reading up to the year 2116.\<close>

lemma ban_expiry_exact:
  assumes "0 \<le> created" and "created \<le> 2 ^ 62" and "0 \<le> n"
  shows "tick_add created (hours (min n kMaxBanDurationHours)) = created + hours (min n kMaxBanDurationHours)"
proof (rule tick_add_exact)
  have "0 \<le> min n kMaxBanDurationHours" "min n kMaxBanDurationHours \<le> 87600"
    using assms by (simp_all add: kMaxBanDurationHours_def)
  then have "0 \<le> hours (min n kMaxBanDurationHours)" "hours (min n kMaxBanDurationHours) \<le> hours 87600"
    by (simp_all add: hours_def minutes_def seconds_def)
  moreover have "hours 87600 < 2 ^ 62" by (simp add: hours_def minutes_def seconds_def)
  ultimately show "- (2 ^ 63) \<le> created + hours (min n kMaxBanDurationHours)"
    "created + hours (min n kMaxBanDurationHours) < 2 ^ 63" using assms by simp_all
qed

text \<open>Only the upper end is capped: a large negative duration from a hand-edited file wraps, and
  the ban ends centuries from now.\<close>

lemma negative_ban_duration_wraps:
  "tick_add (seconds 1700000000) (hours (min (- 3100000) kMaxBanDurationHours)) > seconds 8900000000"
  by (simp add: tick_add_def wrap64_def hours_def minutes_def seconds_def kMaxBanDurationHours_def)

lemma add_points_current: "add_points ip points t = Some (t', n) \<Longrightarrow> current_score t' ip = n"
  by (auto simp: add_points_def Let_def current_score_def umap split: option.splits prod.splits)

definition points_for :: "RuntimeConfig \<Rightarrow> string \<Rightarrow> int" where
  "points_for config name =
     (if ban_enabled (cfg_ban config)
      then (case um_find (ban_scores (cfg_ban config)) name of None \<Rightarrow> 0 | Some points \<Rightarrow> max 0 points)
      else 0)"

lemma award_score_cases:
  fixes config :: RuntimeConfig and ip_text name :: string
  assumes "score_ok (as_scores st)"
  defines "total_score \<equiv> clamp_int (current_score (as_scores st) ip_text + points_for config name)"
  shows "points_for config name = 0 \<Longrightarrow> award_score config ck ip ip_text name st = Some st"
    and "0 < points_for config name \<Longrightarrow> total_score < ban_threshold (cfg_ban config) \<Longrightarrow>
      \<exists>scores. award_score config ck ip ip_text name st = Some (st\<lparr>as_scores := scores\<rparr>)
        \<and> current_score scores ip_text = total_score"
    and "0 < points_for config name \<Longrightarrow> ban_threshold (cfg_ban config) \<le> total_score \<Longrightarrow>
      \<exists>scores b. award_score config ck ip ip_text name st
          = Some (st\<lparr>as_ip_blocks := add_block b (ck_add ck) (as_ip_blocks st), as_scores := reset_score ip_text scores\<rparr>)
        \<and> \<not> tb_is_cidr b \<and> tb_address b = ip
        \<and> tb_expires_at b = tick_add (ck_award ck) (hours (min (ban_duration_hours (cfg_ban config)) kMaxBanDurationHours))"
proof -
  show "points_for config name = 0 \<Longrightarrow> award_score config ck ip ip_text name st = Some st"
    by (auto simp: points_for_def award_score_def split: if_splits option.splits)
next
  assume pos: "0 < points_for config name"
  then have cfg: "ban_enabled (cfg_ban config)" "um_find (ban_scores (cfg_ban config)) name = Some (points_for config name)"
    by (auto simp: points_for_def split: if_splits option.splits)
  obtain scores where add: "add_points ip_text (points_for config name) (as_scores st) = Some (scores, total_score)"
    using add_points_total [OF assms(1)] unfolding total_score_def by blast
  note def = award_score_def cfg add Let_def
  show "\<exists>scores. award_score config ck ip ip_text name st = Some (st\<lparr>as_scores := scores\<rparr>)
        \<and> current_score scores ip_text = total_score" if "total_score < ban_threshold (cfg_ban config)"
  proof (intro exI conjI)
    show "award_score config ck ip ip_text name st = Some (st\<lparr>as_scores := scores\<rparr>)"
      using that pos by (simp add: def)
    show "current_score scores ip_text = total_score"
      by (rule add_points_current [OF add])
  qed
  show "\<exists>scores b. award_score config ck ip ip_text name st
          = Some (st\<lparr>as_ip_blocks := add_block b (ck_add ck) (as_ip_blocks st), as_scores := reset_score ip_text scores\<rparr>)
        \<and> \<not> tb_is_cidr b \<and> tb_address b = ip
        \<and> tb_expires_at b = tick_add (ck_award ck) (hours (min (ban_duration_hours (cfg_ban config)) kMaxBanDurationHours))"
    if "ban_threshold (cfg_ban config) \<le> total_score"
  proof (intro exI conjI)
    let ?b = "\<lparr>tb_text = ip_text, tb_is_cidr = False, tb_address = ip, tb_prefix_len = 0, tb_source = ''score'',
       tb_score_at_block = total_score, tb_created_at = ck_award ck,
       tb_expires_at = tick_add (ck_award ck) (hours (min (ban_duration_hours (cfg_ban config)) kMaxBanDurationHours))\<rparr>"
    show "award_score config ck ip ip_text name st
          = Some (st\<lparr>as_ip_blocks := add_block ?b (ck_add ck) (as_ip_blocks st), as_scores := reset_score ip_text scores\<rparr>)"
      using that pos by (simp add: def)
  qed simp_all
qed

text \<open>There is one ban per address, and the newest replaces the others: a request that was let in before an
  administrator banned its address for long, and whose body then fails a check, cuts that ban
  short.\<close>

lemma score_ban_replaces_longer_ban:
  assumes "score_ok (as_scores st)" and "0 < points_for config name"
    and "ban_threshold (cfg_ban config) \<le> clamp_int (current_score (as_scores st) ip_text + points_for config name)"
    and "ib_cidrs (as_ip_blocks st) = []"
    and "tick_add (ck_award ck) (hours (min (ban_duration_hours (cfg_ban config)) kMaxBanDurationHours)) \<le> later"
  shows "\<exists>st'. award_score config ck ip ip_text name st = Some st' \<and> \<not> is_blocked ip later (as_ip_blocks st')"
proof -
  obtain scores b where a: "award_score config ck ip ip_text name st
      = Some (st\<lparr>as_ip_blocks := add_block b (ck_add ck) (as_ip_blocks st), as_scores := reset_score ip_text scores\<rparr>)"
    and b: "\<not> tb_is_cidr b" "tb_address b = ip"
      "tb_expires_at b = tick_add (ck_award ck) (hours (min (ban_duration_hours (cfg_ban config)) kMaxBanDurationHours))"
    using award_score_cases(3) [OF assms(1-3)] by blast
  have "\<not> is_blocked ip later (add_block b (ck_add ck) (as_ip_blocks st))"
    using b assms(4,5) by (simp add: is_blocked_def add_block_def prune_expired_locked_def Let_def umap)
  with a show ?thesis by simp
qed

lemma reset_score_current: "current_score (reset_score ip t) ip = 0"
  by (simp add: current_score_def reset_score_def umap)


section \<open>What a request is answered with\<close>

lemma make_html_response_parts:
  assumes "beast_ok b"
  shows "rp_status (make_html_response b version html status) = status"
    "rp_body (make_html_response b version html status) = html"
    "\<not> rp_keep_alive (make_html_response b version html status)"
  using prepare_response_keeps [OF assms]
  by (simp_all add: make_html_response_def Let_def set_response_field_def empty_response_def)

lemma make_robots_txt_response_parts:
  assumes "beast_ok b"
  shows "rp_status (make_robots_txt_response b version body method) = 200"
    "rp_body (make_robots_txt_response b version body method) = (if method = ''HEAD'' then [] else body)"
    "\<not> rp_keep_alive (make_robots_txt_response b version body method)"
  using prepare_response_keeps [OF assms]
  by (simp_all add: make_robots_txt_response_def Let_def set_response_field_def empty_response_def)

text \<open>The policy: what is decided about a request from its header alone, in the order of the gates.\<close>

datatype decision =
    EmergencyOff
  | SiteDisabled
  | Banned
  | Rejected CheckResult
  | Robots
  | Admit

definition rate_check :: "connection \<Rightarrow> RuntimeConfig \<Rightarrow> clocks \<Rightarrow> request_header \<Rightarrow> AppState
    \<Rightarrow> RequestRateTracker \<times> CheckResult" where
  "rate_check cn config ck header st =
     check_request_rate (cn_to_string cn) (cfg_speed_check config) (as_rate_tracker st) (cn_client_ip cn)
       (path_of (hd_target header)) header (ck_rate ck)"

definition header_check :: "connection \<Rightarrow> RuntimeConfig \<Rightarrow> request_header \<Rightarrow> CheckResult" where
  "header_check cn config header =
     evaluate_header_checks (cn_to_string cn) (cfg_blacklist config) (cn_client_ip cn)
       (path_of (hd_target header)) header (geo_isp_of cn)"

definition method_check :: "RuntimeConfig \<Rightarrow> request_header \<Rightarrow> CheckResult" where
  "method_check config header = check_method_allowlist (cfg_method_check config) (hd_method_string header)"

definition serves_robots :: "RuntimeConfig \<Rightarrow> request_header \<Rightarrow> bool" where
  "serves_robots config header \<longleftrightarrow>
     hd_method_string header \<in> {''GET'', ''HEAD''} \<and> path_of (hd_target header) = ''/robots.txt''
     \<and> (bl_fake_routes (cfg_blacklist config) \<noteq> [] \<or> custom_content (cfg_robots_txt config) \<noteq> [])"

definition decide :: "connection \<Rightarrow> RuntimeConfig \<Rightarrow> clocks \<Rightarrow> request_header \<Rightarrow> AppState \<Rightarrow> decision" where
  "decide cn config ck header st =
     (let verdicts = filter blocked [snd (rate_check cn config ck header st), method_check config header,
                                     header_check cn config header]
      in if eo_enabled (cfg_emergency_off config) then EmergencyOff
         else if \<not> rs_enabled (resolve_site config (host_header_of header)) then SiteDisabled
         else if \<not> is_whitelisted cn config header \<and> is_blocked (cn_client_ip cn) (ck_gate ck) (as_ip_blocks st)
         then Banned
         else if \<not> is_whitelisted cn config header \<and> verdicts \<noteq> [] then Rejected (hd verdicts)
         else if serves_robots config header then Robots
         else Admit)"

fun status_of :: "decision \<Rightarrow> nat" where
  "status_of EmergencyOff = 503"
| "status_of Robots = 200"
| "status_of _ = 403"

fun page_of :: "RuntimeConfig \<Rightarrow> request_header \<Rightarrow> decision \<Rightarrow> string" where
  "page_of config header EmergencyOff = kEmergencyOffHtml"
| "page_of config header Banned = resolve_page_html (banned_html (cfg_pages config)) kDefaultBannedHtml"
| "page_of config header Robots =
     (if hd_method_string header = ''HEAD'' then []
      else build_robots_txt_body (custom_content (cfg_robots_txt config)) (bl_fake_routes (cfg_blacklist config)))"
| "page_of config header _ = resolve_page_html (blocked_html (cfg_pages config)) kDefaultBlockedHtml"

fun reason_of :: "decision \<Rightarrow> string" where
  "reason_of EmergencyOff = ''emergency off''"
| "reason_of SiteDisabled = ''site disabled''"
| "reason_of Banned = ''banned: temporarily blocked (manual or score threshold)''"
| "reason_of (Rejected result) = check_name result @ '': '' @ reason result"
| "reason_of _ = []"

text \<open>The effect of a decision on rates, scores and bans: the early gates have none, the others count the
  request, and a rejection scores the client.\<close>

definition apply_decision ::
  "connection \<Rightarrow> RuntimeConfig \<Rightarrow> clocks \<Rightarrow> request_header \<Rightarrow> decision \<Rightarrow> AppState \<Rightarrow> AppState option" where
  "apply_decision cn config ck header d st =
     (if d \<in> {EmergencyOff, SiteDisabled, Banned} then Some st
      else let st = st\<lparr>as_rate_tracker := fst (rate_check cn config ck header st)\<rparr>
           in case d of
                Rejected result \<Rightarrow>
                  award_score config ck (cn_client_ip cn) (client_ip_text cn) (check_name result) st
              | _ \<Rightarrow> Some st)"

text \<open>The event a closing decision is recorded with.\<close>

definition event_of :: "connection \<Rightarrow> RuntimeConfig \<Rightarrow> clocks \<Rightarrow> request_header \<Rightarrow> decision \<Rightarrow> RequestEvent" where
  "event_of cn config ck header d =
     (start_event cn ck header)\<lparr>re_blocked := (d \<noteq> Robots), re_block_reason := reason_of d,
        re_bytes_transferred := word_of_nat (length (page_of config header d)),
        re_status_code := int (status_of d)\<rparr>"

lemma start_event_unblocked [simp]:
  "re_blocked (start_event cn ck header) = False" "re_block_reason (start_event cn ck header) = []"
  by (simp_all add: start_event_def)

lemma refuse_eq:
  assumes "beast_ok (cn_beast cn)"
  obtains r where "refuse cn header why html status event st
      = (record_events (geo_of cn) (event\<lparr>re_blocked := True, re_block_reason := why,
           re_bytes_transferred := word_of_nat (length html), re_status_code := int status\<rparr>) st, r)"
    "rp_status r = status" "rp_body r = html" "\<not> rp_keep_alive r"
  by (rule that, simp add: refuse_def Let_def finish_event_def make_html_response_parts [OF assms])
     (simp_all add: make_html_response_parts [OF assms])

lemma reject_eq:
  assumes "beast_ok (cn_beast cn)"
    and "award_score config ck (cn_client_ip cn) (client_ip_text cn) (check_name result) st = Some st1"
  defines "html \<equiv> resolve_page_html (blocked_html (cfg_pages config)) kDefaultBlockedHtml"
  obtains r where "reject cn config ck header n result event st
      = Some (record_events (geo_of cn) (event\<lparr>re_blocked := True, re_block_reason := reason_of (Rejected result),
           re_bytes_transferred := word_of_nat (n + length html), re_status_code := 403\<rparr>) st1, r)"
    "rp_status r = 403" "rp_body r = html" "\<not> rp_keep_alive r"
  by (rule that, simp add: reject_def Let_def finish_event_def make_html_response_parts [OF assms(1)] assms(2) html_def)
     (simp_all add: make_html_response_parts [OF assms(1)] html_def)

lemma closing_simps [simp]: "closing (Some (st, r)) = Some (st, Close r)" "closing None = None"
  by (simp_all add: closing_def)

text \<open>A header phase that carries out a decision.\<close>

definition carries_out ::
  "connection \<Rightarrow> RuntimeConfig \<Rightarrow> clocks \<Rightarrow> request_header \<Rightarrow> AppState \<Rightarrow> decision \<Rightarrow> bool" where
  "carries_out cn config ck header st d \<longleftrightarrow>
     (\<exists>st1. apply_decision cn config ck header d st = Some st1
      \<and> (if d = Admit
         then header_phase cn config ck header st
            = Some (st1, ReadBody (is_whitelisted cn config header)
                           (resolve_site config (host_header_of header)) (start_event cn ck header))
         else \<exists>r. header_phase cn config ck header st
            = Some (record_events (geo_of cn) (event_of cn config ck header d) st1, Close r)
           \<and> rp_status r = status_of d \<and> rp_body r = page_of config header d \<and> \<not> rp_keep_alive r))"

definition counted :: "connection \<Rightarrow> RuntimeConfig \<Rightarrow> clocks \<Rightarrow> request_header \<Rightarrow> AppState \<Rightarrow> AppState" where
  "counted cn config ck header st = st\<lparr>as_rate_tracker := fst (rate_check cn config ck header st)\<rparr>"

lemma counted_scores [simp]: "as_scores (counted cn config ck header st) = as_scores st"
  by (simp add: counted_def)

lemma header_phase_gates:
  "header_phase cn config ck header st =
     (let event = start_event cn ck header;
          site = resolve_site config (host_header_of header);
          w = is_whitelisted cn config header;
          st1 = counted cn config ck header st;
          fails = (\<lambda>result. \<not> w \<and> blocked result) in
      if eo_enabled (cfg_emergency_off config)
      then closing (Some (refuse cn header (reason_of EmergencyOff) (page_of config header EmergencyOff) 503 event st))
      else if \<not> rs_enabled site
      then closing (Some (refuse cn header (reason_of SiteDisabled) (page_of config header SiteDisabled) 403 event st))
      else if \<not> w \<and> is_blocked (cn_client_ip cn) (ck_gate ck) (as_ip_blocks st)
      then closing (Some (refuse cn header (reason_of Banned) (page_of config header Banned) 403 event st))
      else if fails (snd (rate_check cn config ck header st))
      then closing (reject cn config ck header 0 (snd (rate_check cn config ck header st)) event st1)
      else if fails (method_check config header)
      then closing (reject cn config ck header 0 (method_check config header) event st1)
      else if fails (header_check cn config header)
      then closing (reject cn config ck header 0 (header_check cn config header) event st1)
      else if serves_robots config header
      then (let response = make_robots_txt_response (cn_beast cn) (hd_version header)
                  (build_robots_txt_body (custom_content (cfg_robots_txt config)) (bl_fake_routes (cfg_blacklist config)))
                  (hd_method_string header)
            in Some (finish_event cn 0 response event st1, Close response))
      else Some (st1, ReadBody w site event))"
  unfolding header_phase_def Let_def serves_robots_def counted_def rate_check_def [symmetric]
    header_check_def [symmetric] method_check_def [symmetric] by (simp add: split_def)

lemma refused_carries_out:
  assumes "beast_ok (cn_beast cn)" and "d \<in> {EmergencyOff, SiteDisabled, Banned}"
    and "header_phase cn config ck header st
        = closing (Some (refuse cn header (reason_of d) (page_of config header d) (status_of d) (start_event cn ck header) st))"
  shows "carries_out cn config ck header st d"
proof -
  obtain r where r: "refuse cn header (reason_of d) (page_of config header d) (status_of d) (start_event cn ck header) st
    = (record_events (geo_of cn) ((start_event cn ck header)\<lparr>re_blocked := True, re_block_reason := reason_of d,
         re_bytes_transferred := word_of_nat (length (page_of config header d)), re_status_code := int (status_of d)\<rparr>) st, r)"
    "rp_status r = status_of d" "rp_body r = page_of config header d" "\<not> rp_keep_alive r"
    by (rule refuse_eq [OF assms(1)])
  have "event_of cn config ck header d = (start_event cn ck header)\<lparr>re_blocked := True, re_block_reason := reason_of d,
         re_bytes_transferred := word_of_nat (length (page_of config header d)), re_status_code := int (status_of d)\<rparr>"
    using assms(2) by (auto simp: event_of_def)
  with r assms(2,3) show ?thesis by (auto simp: apply_decision_def carries_out_def)
qed

lemma rejected_carries_out:
  assumes "beast_ok (cn_beast cn)" and "score_ok (as_scores st)"
    and "header_phase cn config ck header st
        = closing (reject cn config ck header 0 result (start_event cn ck header) (counted cn config ck header st))"
  shows "carries_out cn config ck header st (Rejected result)"
proof -
  obtain st1 where st1: "award_score config ck (cn_client_ip cn) (client_ip_text cn) (check_name result)
      (counted cn config ck header st) = Some st1"
  proof -
    have "score_ok (as_scores (counted cn config ck header st))" using assms(2) by simp
    from award_score_total [OF this] that show ?thesis by blast
  qed
  obtain r where r: "reject cn config ck header 0 result (start_event cn ck header) (counted cn config ck header st)
    = Some (record_events (geo_of cn) ((start_event cn ck header)\<lparr>re_blocked := True, re_block_reason := reason_of (Rejected result),
         re_bytes_transferred := word_of_nat (0 + length (page_of config header (Rejected result))), re_status_code := 403\<rparr>) st1, r)"
    "rp_status r = 403" "rp_body r = page_of config header (Rejected result)" "\<not> rp_keep_alive r"
    unfolding page_of.simps by (rule reject_eq [OF assms(1) st1])
  have "event_of cn config ck header (Rejected result) = (start_event cn ck header)\<lparr>re_blocked := True,
         re_block_reason := reason_of (Rejected result),
         re_bytes_transferred := word_of_nat (0 + length (page_of config header (Rejected result))), re_status_code := 403\<rparr>"
    by (simp add: event_of_def)
  with r assms(3) st1 show ?thesis by (simp add: apply_decision_def counted_def carries_out_def)
qed

lemma passed_carries_out:
  assumes "beast_ok (cn_beast cn)" and "\<not> eo_enabled (cfg_emergency_off config)"
    and "rs_enabled (resolve_site config (host_header_of header))"
    and "is_whitelisted cn config header
      \<or> \<not> is_blocked (cn_client_ip cn) (ck_gate ck) (as_ip_blocks st)
        \<and> \<not> blocked (snd (rate_check cn config ck header st)) \<and> \<not> blocked (method_check config header)
        \<and> \<not> blocked (header_check cn config header)"
  shows "carries_out cn config ck header st (if serves_robots config header then Robots else Admit)"
proof (cases "serves_robots config header")
  case True
  have h: "header_phase cn config ck header st =
    (let response = make_robots_txt_response (cn_beast cn) (hd_version header)
          (build_robots_txt_body (custom_content (cfg_robots_txt config)) (bl_fake_routes (cfg_blacklist config)))
          (hd_method_string header)
     in Some (finish_event cn 0 response (start_event cn ck header) (counted cn config ck header st), Close response))"
    using assms(2-4) True by (auto simp: header_phase_gates Let_def)
  have "event_of cn config ck header Robots = (start_event cn ck header)
     \<lparr>re_bytes_transferred := word_of_nat (length (page_of config header Robots)), re_status_code := 200\<rparr>"
    by (simp add: event_of_def start_event_def)
  with h True show ?thesis
    by (simp add: apply_decision_def counted_def finish_event_def make_robots_txt_response_parts [OF assms(1)] carries_out_def)
next
  case False
  then have "header_phase cn config ck header st = Some (counted cn config ck header st,
      ReadBody (is_whitelisted cn config header) (resolve_site config (host_header_of header)) (start_event cn ck header))"
    using assms(2-4) by (auto simp: header_phase_gates Let_def)
  with False show ?thesis by (simp add: apply_decision_def counted_def carries_out_def)
qed

text \<open>C7: The pipeline refines the policy: whatever a request's header, the header phase returns, with
  the rates, scores and bans the decision calls for; an admitted request goes on to its body
  unrecorded, and every other is answered with the decision's status and page on a connection
  that is then closed, exactly one event with that status, size and reason being recorded.\<close>

theorem header_phase_refines:
  assumes "beast_ok (cn_beast cn)" and "score_ok (as_scores st)"
  shows "carries_out cn config ck header st (decide cn config ck header st)"
proof -
  let ?w = "is_whitelisted cn config header"
  let ?on = "\<not> eo_enabled (cfg_emergency_off config)"
  let ?enabled = "rs_enabled (resolve_site config (host_header_of header))"
  let ?banned = "is_blocked (cn_client_ip cn) (ck_gate ck) (as_ip_blocks st)"
  let ?rate = "snd (rate_check cn config ck header st)"
  let ?verb = "method_check config header"
  let ?lists = "header_check cn config header"
  note eval = header_phase_gates decide_def Let_def
  consider (off) "\<not> ?on" | (disabled) ?on "\<not> ?enabled" | (banned) ?on ?enabled "\<not> ?w" ?banned
    | (rate) ?on ?enabled "\<not> ?w" "\<not> ?banned" "blocked ?rate"
    | (verb) ?on ?enabled "\<not> ?w" "\<not> ?banned" "\<not> blocked ?rate" "blocked ?verb"
    | (lists) ?on ?enabled "\<not> ?w" "\<not> ?banned" "\<not> blocked ?rate" "\<not> blocked ?verb" "blocked ?lists"
    | (passed) ?on ?enabled "?w \<or> \<not> ?banned \<and> \<not> blocked ?rate \<and> \<not> blocked ?verb \<and> \<not> blocked ?lists"
    by blast
  then show ?thesis
  proof cases
    case off
    then show ?thesis using refused_carries_out [OF assms(1), of EmergencyOff] by (simp add: eval)
  next
    case disabled
    then show ?thesis using refused_carries_out [OF assms(1), of SiteDisabled] by (simp add: eval)
  next
    case banned
    then show ?thesis using refused_carries_out [OF assms(1), of Banned] by (simp add: eval)
  next
    case rate
    then show ?thesis using rejected_carries_out [OF assms, of config ck header ?rate] by (simp add: eval)
  next
    case verb
    then show ?thesis using rejected_carries_out [OF assms, of config ck header ?verb] by (simp add: eval)
  next
    case lists
    then show ?thesis using rejected_carries_out [OF assms, of config ck header ?lists] by (simp add: eval)
  next
    case passed
    then have "decide cn config ck header st = (if serves_robots config header then Robots else Admit)"
      by (auto simp: decide_def Let_def)
    with passed_carries_out [OF assms(1) passed] show ?thesis by simp
  qed
qed

text \<open>A whitelisted visitor, or any visitor on a whitelisted route, is refused only by the two
  operator switches: with the emergency switch off and its site enabled, the request is served
  the robots file or forwarded, whatever the bans, rates and blacklists say, and neither its score nor
  any ban changes.\<close>

theorem whitelisted_never_refused:
  assumes "is_whitelisted cn config header" and "\<not> eo_enabled (cfg_emergency_off config)"
    and "rs_enabled (resolve_site config (host_header_of header))"
  shows "\<exists>st' outcome. header_phase cn config ck header st = Some (st', outcome)
    \<and> as_scores st' = as_scores st \<and> as_ip_blocks st' = as_ip_blocks st
    \<and> (case outcome of
         Close r \<Rightarrow> serves_robots config header
           \<and> r = make_robots_txt_response (cn_beast cn) (hd_version header)
                   (build_robots_txt_body (custom_content (cfg_robots_txt config)) (bl_fake_routes (cfg_blacklist config)))
                   (hd_method_string header)
       | ReadBody w site event \<Rightarrow>
           body_phase cn config ck' header w event body st'
             = Some (st', Inr (received_request cn header body)))"
  using assms
  by (simp add: header_phase_def Let_def split_def serves_robots_def finish_event_def record_events_def
      body_phase_def split: option.split)

section \<open>The session\<close>

datatype action =
    Forwarded RuntimeConfig http_request UpstreamConfig
  | Answered http_response bool

text \<open>Where the coroutine is suspended; \<open>Aborted\<close> is an exception out of a stream operation.\<close>

datatype session_pc =
    NextRequest
  | AwaitHeader RuntimeConfig
  | AwaitBody RuntimeConfig request_header bool ResolvedSite RequestEvent
  | AwaitUpstream RuntimeConfig request_header RequestEvent http_request
  | Replying http_response bool
  | Finished
  | Aborted
  | Undefined

record session =
  ss_state :: AppState
  ss_pc :: session_pc
  ss_trace :: "action list"

definition new_session :: "AppState \<Rightarrow> session" where
  "new_session st = \<lparr>ss_state = st, ss_pc = NextRequest, ss_trace = []\<rparr>"

fun may_abort :: "session_pc \<Rightarrow> bool" where
  "may_abort (AwaitHeader _) = True"
| "may_abort (AwaitBody _ _ _ _ _) = True"
| "may_abort (Replying _ _) = True"
| "may_abort _ = False"

text \<open>The loop of \<open>run_http_session\<close>.  The parser throws on a body beyond its limit.  In \<open>others\<close> the other sessions, the administrator and the
  background threads change the shared state; of the score tracker they keep the invariant and
  consume at most one sequence number at a time.\<close>

inductive session_step :: "connection \<Rightarrow> session \<Rightarrow> session \<Rightarrow> bool" for cn where
  fetch: "ss_pc s = NextRequest \<Longrightarrow>
    session_step cn s (s\<lparr>ss_pc := AwaitHeader (as_config (ss_state s))\<rparr>)"
| header_close: "ss_pc s = AwaitHeader config \<Longrightarrow>
    header_phase cn config ck header (ss_state s) = Some (st, Close r) \<Longrightarrow>
    session_step cn s (s\<lparr>ss_state := st, ss_pc := Replying r False\<rparr>)"
| header_open: "ss_pc s = AwaitHeader config \<Longrightarrow>
    header_phase cn config ck header (ss_state s) = Some (st, ReadBody w site event) \<Longrightarrow>
    session_step cn s (s\<lparr>ss_state := st, ss_pc := AwaitBody config header w site event\<rparr>)"
| header_undefined: "ss_pc s = AwaitHeader config \<Longrightarrow>
    header_phase cn config ck header (ss_state s) = None \<Longrightarrow>
    session_step cn s (s\<lparr>ss_pc := Undefined\<rparr>)"
| body_close: "ss_pc s = AwaitBody config header w site event \<Longrightarrow>
    body_phase cn config ck header w event body (ss_state s) = Some (st, Inl r) \<Longrightarrow>
    length body \<le> max_body_bytes (cfg_limits config) \<Longrightarrow>
    session_step cn s (s\<lparr>ss_state := st, ss_pc := Replying r False\<rparr>)"
| body_open: "ss_pc s = AwaitBody config header w site event \<Longrightarrow>
    body_phase cn config ck header w event body (ss_state s) = Some (st, Inr request) \<Longrightarrow>
    length body \<le> max_body_bytes (cfg_limits config) \<Longrightarrow>
    session_step cn s (s\<lparr>ss_state := st, ss_pc := AwaitUpstream config header event request,
      ss_trace := ss_trace s @ [Forwarded config request (rs_upstream site)]\<rparr>)"
| body_undefined: "ss_pc s = AwaitBody config header w site event \<Longrightarrow>
    body_phase cn config ck header w event body (ss_state s) = None \<Longrightarrow>
    length body \<le> max_body_bytes (cfg_limits config) \<Longrightarrow>
    session_step cn s (s\<lparr>ss_pc := Undefined\<rparr>)"
| upstream: "ss_pc s = AwaitUpstream config header event request \<Longrightarrow>
    upstream_phase cn config header (hr_keep_alive request) (length (hr_body request)) event answer (ss_state s)
      = (st, r, keep) \<Longrightarrow>
    session_step cn s (s\<lparr>ss_state := st, ss_pc := Replying r keep\<rparr>)"
| reply: "ss_pc s = Replying r keep \<Longrightarrow>
    session_step cn s (s\<lparr>ss_pc := (if keep then NextRequest else Finished),
      ss_trace := ss_trace s @ [Answered r keep]\<rparr>)"
| abort: "may_abort (ss_pc s) \<Longrightarrow> session_step cn s (s\<lparr>ss_pc := Aborted\<rparr>)"
| others: "score_ok (as_scores st) \<Longrightarrow>
    unat (st_next_seq (as_scores st)) \<le> unat (st_next_seq (as_scores (ss_state s))) + 1 \<Longrightarrow>
    session_step cn s (s\<lparr>ss_state := st\<rparr>)"

inductive_cases session_stepE: "session_step cn s s'"

text \<open>What a forwarded request has passed.\<close>

definition header_of :: "http_request \<Rightarrow> request_header" where
  "header_of r = \<lparr>hd_version = hd_version r, hd_method_string = hd_method_string r, hd_target = hd_target r,
     hd_find = hd_find r\<rparr>"

lemma header_of_received [simp]: "header_of (received_request cn header body) = header"
  by (simp add: header_of_def received_request_def)

definition passed_header :: "connection \<Rightarrow> RuntimeConfig \<Rightarrow> request_header \<Rightarrow> bool" where
  "passed_header cn config header \<longleftrightarrow>
     \<not> eo_enabled (cfg_emergency_off config)
     \<and> rs_enabled (resolve_site config (host_header_of header))
     \<and> (is_whitelisted cn config header
        \<or> \<not> blocked (method_check config header) \<and> \<not> blocked (header_check cn config header))
     \<and> \<not> serves_robots config header"

definition admitted :: "connection \<Rightarrow> RuntimeConfig \<Rightarrow> http_request \<Rightarrow> UpstreamConfig \<Rightarrow> bool" where
  "admitted cn config request upstream \<longleftrightarrow>
     passed_header cn config (header_of request)
     \<and> length (hr_body request) \<le> max_body_bytes (cfg_limits config)
     \<and> (is_whitelisted cn config (header_of request)
        \<or> \<not> blocked (evaluate_body_checks (cfg_blacklist config) (hr_body request)))
     \<and> upstream = rs_upstream (resolve_site config (host_header_of (header_of request)))"

lemma closing_not_open: "closing x \<noteq> Some (st, ReadBody w site event)"
  by (cases x) (auto simp: closing_def)

lemma header_phase_open:
  assumes "header_phase cn config ck header st = Some (st', ReadBody w site event)"
  shows "passed_header cn config header" "w = is_whitelisted cn config header"
    "site = resolve_site config (host_header_of header)" "event = start_event cn ck header"
    "as_request_log st' = as_request_log st" "as_scores st' = as_scores st"
  using assms unfolding header_phase_def Let_def split_def
  by (auto simp: closing_not_open passed_header_def header_check_def method_check_def serves_robots_def
      simp del: closing_simps split: if_splits)

lemma body_phase_open:
  assumes "body_phase cn config ck header w event body st = Some (st', Inr request)"
  shows "request = received_request cn header body" "st' = st"
    "w \<or> \<not> blocked (evaluate_body_checks (cfg_blacklist config) body)"
  using assms by (auto simp: body_phase_def Let_def received_request_def split: if_splits)

definition session_inv :: "connection \<Rightarrow> session \<Rightarrow> bool" where
  "session_inv cn s \<longleftrightarrow>
     (\<forall>config request upstream. Forwarded config request upstream \<in> set (ss_trace s) \<longrightarrow>
        admitted cn config request upstream)
     \<and> (case ss_pc s of
          AwaitBody config header w site event \<Rightarrow>
            passed_header cn config header \<and> w = is_whitelisted cn config header
            \<and> site = resolve_site config (host_header_of header)
        | _ \<Rightarrow> True)"

lemma session_inv_new: "session_inv cn (new_session st)"
  by (simp add: session_inv_def new_session_def)

lemma session_inv_step:
  assumes "session_step cn s s'" and "session_inv cn s"
  shows "session_inv cn s'"
  using assms
proof (induction rule: session_step.induct)
  case (header_open s config ck header st w site event)
  then show ?case using header_phase_open [OF header_open(2)] by (simp add: session_inv_def)
next
  case (body_open s config header w site event body st request)
  then show ?case
    using body_phase_open [OF body_open(2)]
    by (auto simp: session_inv_def admitted_def) (simp_all add: received_request_def)
qed (auto simp: session_inv_def split: if_splits)

text \<open>No request reaches an origin unless it passed every gate: in every run of a session, whatever
  the visitor sends and whatever other threads do to the shared state in between, a forwarded
  request had the emergency switch off and its site enabled in the configuration it was judged
  by, is within its body limit, goes to that site's origin, and was either whitelisted or passed the
  method, header and body checks of that configuration.\<close>

theorem forwarded_requests_admitted:
  assumes "(session_step cn)\<^sup>*\<^sup>* (new_session st) s" and "Forwarded config request upstream \<in> set (ss_trace s)"
  shows "admitted cn config request upstream"
proof -
  from assms(1) have "session_inv cn s"
    by (induction rule: rtranclp_induct) (use session_inv_new session_inv_step in blast)+
  with assms(2) show ?thesis by (simp add: session_inv_def)
qed

text \<open>The protocol of a session's actions.\<close>

datatype exchange = Idle | Pending_Reply | Over

fun advance :: "action \<Rightarrow> exchange option \<Rightarrow> exchange option" where
  "advance (Forwarded _ _ _) (Some Idle) = Some Pending_Reply"
| "advance (Answered _ keep) (Some Idle) = (if keep then None else Some Over)"
| "advance (Answered _ keep) (Some Pending_Reply) = Some (if keep then Idle else Over)"
| "advance _ _ = None"

definition exchange_after :: "action list \<Rightarrow> exchange option" where
  "exchange_after as = fold advance as (Some Idle)"

lemma exchange_after_simps [simp]:
  "exchange_after [] = Some Idle" "exchange_after (as @ [a]) = advance a (exchange_after as)"
  by (simp_all add: exchange_after_def)

lemma exchange_after_append: "exchange_after (as @ bs) = fold advance bs (exchange_after as)"
  by (simp add: exchange_after_def)

lemma advance_None [simp]: "advance a None = None"
  by (cases a) simp_all

lemma fold_advance_None: "fold advance as None = None"
  by (induction as) simp_all

fun expects :: "session_pc \<Rightarrow> exchange option \<Rightarrow> bool" where
  "expects (AwaitUpstream _ _ _ _) e = (e = Some Pending_Reply)"
| "expects (Replying r keep) e = (e = Some Pending_Reply \<or> e = Some Idle \<and> \<not> keep)"
| "expects Finished e = (e = Some Over)"
| "expects Aborted e = (e \<noteq> None)"
| "expects Undefined e = (e \<noteq> None)"
| "expects _ e = (e = Some Idle)"

definition exchange_inv :: "session \<Rightarrow> bool" where
  "exchange_inv s \<longleftrightarrow> expects (ss_pc s) (exchange_after (ss_trace s))"

lemma exchange_inv_step: "session_step cn s s' \<Longrightarrow> exchange_inv s \<Longrightarrow> exchange_inv s'"
proof (induction rule: session_step.induct)
  case (abort s)
  then show ?case by (cases "ss_pc s") (auto simp: exchange_inv_def)
qed (auto simp: exchange_inv_def split: if_splits)

lemma exchange_inv_reachable: "(session_step cn)\<^sup>*\<^sup>* (new_session st) s \<Longrightarrow> exchange_inv s"
proof (induction rule: rtranclp_induct)
  case base
  then show ?case by (simp add: exchange_inv_def new_session_def)
next
  case (step s s')
  then show ?case by (blast intro: exchange_inv_step)
qed


lemma reset_score_seq [simp]: "st_next_seq (reset_score ip t) = st_next_seq t"
  by (simp add: reset_score_def)

lemma award_score_seq:
  assumes "award_score config ck ip ip_text name st = Some st'" and "score_ok (as_scores st)"
    and "st_next_seq (as_scores st) \<noteq> - 1"
  shows "score_ok (as_scores st') \<and> unat (st_next_seq (as_scores st')) \<le> unat (st_next_seq (as_scores st)) + 1"
proof -
  have bump: "unat (st_next_seq (as_scores st) + 1) \<le> unat (st_next_seq (as_scores st)) + 1"
    by (simp add: unat_word_ariths)
  show ?thesis
  proof (cases "as_scores st' = as_scores st")
    case False
    with assms(1) obtain points scores n where add: "add_points ip_text points (as_scores st) = Some (scores, n)"
      "as_scores st' = scores \<or> as_scores st' = reset_score ip_text scores"
      by (auto simp: award_score_def Let_def split: if_splits option.splits)
    note ok = add_points_score_ok [OF assms(2,3) add(1)]
    with add(2) bump show ?thesis by (auto simp: reset_score_ok)
  qed (use assms(2) in simp)
qed

definition scores_advance :: "AppState \<Rightarrow> AppState \<Rightarrow> bool" where
  "scores_advance st st' \<longleftrightarrow> score_ok (as_scores st')
     \<and> unat (st_next_seq (as_scores st')) \<le> unat (st_next_seq (as_scores st)) + 1"

lemma record_events_scores [simp]: "as_scores (record_events geo event st) = as_scores st"
  by (simp add: record_events_def Let_def split: option.split)

lemma finish_event_scores [simp]: "as_scores (finish_event cn n r event st) = as_scores st"
  by (simp add: finish_event_def)

lemma reject_advance:
  assumes "score_ok (as_scores st)" and "st_next_seq (as_scores st) \<noteq> - 1"
  obtains st' r where "reject cn config ck header n result event st = Some (st', r)" "scores_advance st st'"
proof -
  obtain st1 where st1: "award_score config ck (cn_client_ip cn) (client_ip_text cn) (check_name result) st = Some st1"
    using award_score_total [OF assms(1)] by blast
  with award_score_seq [OF st1 assms] that show ?thesis
    by (auto simp: reject_def Let_def scores_advance_def)
qed

definition advances :: "(AppState \<times> 'o) option \<Rightarrow> AppState \<Rightarrow> bool" where
  "advances result st \<longleftrightarrow> (\<exists>st' outcome. result = Some (st', outcome) \<and> scores_advance st st')"

lemma header_phase_advance:
  assumes "score_ok (as_scores st)" and "st_next_seq (as_scores st) \<noteq> - 1"
  shows "advances (header_phase cn config ck header st) st"
proof -
  have rejected [simp]: "advances (closing (reject cn config ck header 0 result event (st\<lparr>as_rate_tracker := t\<rparr>))) st"
    for result event t
  proof -
    obtain st' r where "reject cn config ck header 0 result event (st\<lparr>as_rate_tracker := t\<rparr>) = Some (st', r)"
      "scores_advance (st\<lparr>as_rate_tracker := t\<rparr>) st'"
      by (rule reject_advance [of "st\<lparr>as_rate_tracker := t\<rparr>" cn config ck header 0 result event]) (use assms in simp_all)
    then show ?thesis by (auto simp: advances_def scores_advance_def)
  qed
  have refused [simp]: "advances (closing (Some (refuse cn header why html status event st))) st" for why html status event
    using assms(1) by (simp add: advances_def refuse_def Let_def scores_advance_def)
  have finished [simp]: "advances (Some (finish_event cn n r event (st\<lparr>as_rate_tracker := t\<rparr>), outcome)) st"
    for n r event t and outcome :: header_outcome
    using assms(1) by (simp add: advances_def scores_advance_def)
  have passed [simp]: "advances (Some (st\<lparr>as_rate_tracker := t\<rparr>, outcome)) st" for t and outcome :: header_outcome
    using assms(1) by (simp add: advances_def scores_advance_def)
  show ?thesis unfolding header_phase_def Let_def split_def by simp
qed

lemma body_phase_advance:
  assumes "score_ok (as_scores st)" and "st_next_seq (as_scores st) \<noteq> - 1"
  shows "advances (body_phase cn config ck header w event body st) st"
proof -
  obtain st' r where "reject cn config ck header (length body) (evaluate_body_checks (cfg_blacklist config) body) event st
      = Some (st', r)" "scores_advance st st'"
    by (rule reject_advance [OF assms])
  with assms(1) show ?thesis
    by (auto simp: advances_def body_phase_def Let_def received_request_def scores_advance_def)
qed

lemma upstream_phase_scores:
  "upstream_phase cn config header ka n event answer st = (st', r, keep) \<Longrightarrow> as_scores st' = as_scores st"
  by (auto simp: upstream_phase_def Let_def split: option.splits)

lemma session_step_advance:
  assumes "session_step cn s s'" and "score_ok (as_scores (ss_state s))"
    and "st_next_seq (as_scores (ss_state s)) \<noteq> - 1" and "ss_pc s \<noteq> Undefined"
  shows "scores_advance (ss_state s) (ss_state s') \<and> ss_pc s' \<noteq> Undefined"
  using assms
proof (induction rule: session_step.induct)
  case (header_close s config ck header st r)
  then show ?case using header_phase_advance [of "ss_state s" cn config ck header] by (auto simp: advances_def)
next
  case (header_open s config ck header st w site event)
  then show ?case using header_phase_advance [of "ss_state s" cn config ck header] by (auto simp: advances_def)
next
  case (header_undefined s config ck header)
  then show ?case using header_phase_advance [of "ss_state s" cn config ck header] by (auto simp: advances_def)
next
  case (body_close s config header w site event ck body st r)
  then show ?case using body_phase_advance [of "ss_state s" cn config ck header w event body] by (auto simp: advances_def)
next
  case (body_open s config header w site event ck body st request)
  then show ?case using body_phase_advance [of "ss_state s" cn config ck header w event body] by (auto simp: advances_def)
next
  case (body_undefined s config header w site event ck body)
  then show ?case using body_phase_advance [of "ss_state s" cn config ck header w event body] by (auto simp: advances_def)
next
  case (upstream s config header event request answer st r keep)
  then show ?case using upstream_phase_scores [OF upstream(2)] by (simp add: scores_advance_def)
qed (simp_all add: scores_advance_def)

text \<open>No run of a session reaches undefined behaviour through the score tracker: from a fresh
  tracker, after any number of steps below \<open>2^64\<close>, the other threads' included, the session is not
  in the undefined state and the tracker satisfies its invariant.\<close>

theorem session_never_undefined:
  assumes "(session_step cn ^^ n) (new_session st) s" and "n < 2 ^ 64"
    and "as_scores st = new_score_tracker m"
  shows "ss_pc s \<noteq> Undefined \<and> score_ok (as_scores (ss_state s))"
proof -
  have "ss_pc s \<noteq> Undefined \<and> score_ok (as_scores (ss_state s))
      \<and> unat (st_next_seq (as_scores (ss_state s))) \<le> n"
    using assms(1,2)
  proof (induction n arbitrary: s)
    case 0
    then have "s = new_session st" by simp
    moreover have "st_next_seq (new_score_tracker m) = 0" by (simp add: new_score_tracker_def)
    ultimately show ?case using assms(3) by (simp add: new_session_def)
  next
    case (Suc n)
    then obtain t where t: "(session_step cn ^^ n) (new_session st) t" "session_step cn t s" by auto
    with Suc have IH: "ss_pc t \<noteq> Undefined" "score_ok (as_scores (ss_state t))"
      "unat (st_next_seq (as_scores (ss_state t))) \<le> n" by simp_all
    have "st_next_seq (as_scores (ss_state t)) \<noteq> - 1"
    proof
      assume "st_next_seq (as_scores (ss_state t)) = - 1"
      with IH(3) Suc.prems(2) show False by (simp add: unat_u64_max)
    qed
    with session_step_advance [OF t(2) IH(2) _ IH(1)] IH(3) show ?case
      by (auto simp: scores_advance_def)
  qed
  then show ?thesis by simp
qed

text \<open>The origin's answer: when forwarding fails the visitor gets a 502 on a closing connection;
  otherwise the answer keeps its status, the keep-alive of the request decides, and only the body is
  replaced, exactly when a page is configured for the status.  Either way one event is recorded,
  with the status sent and the sizes of request and reply.\<close>

theorem upstream_phase_replies:
  assumes "beast_ok (cn_beast cn)"
  shows "\<exists>st' r keep. upstream_phase cn config header keep_alive n event answer st = (st', r, keep)
    \<and> rp_keep_alive r = keep
    \<and> st' = record_events (geo_of cn) (event\<lparr>re_bytes_transferred := word_of_nat (n + length (rp_body r)),
               re_status_code := int (rp_status r)\<rparr>) st
    \<and> (case answer of
         None \<Rightarrow> rp_status r = 502 \<and> rp_body r = kBadGatewayHtml \<and> \<not> keep
       | Some a \<Rightarrow> rp_status r = rp_status a \<and> keep = keep_alive
           \<and> rp_body r = (case page_map config (int (rp_status a)) of None \<Rightarrow> rp_body a | Some p \<Rightarrow> sp_html p))"
proof -
  have page: "find_status_page_html pages code_value = map_option sp_html (keyed sp_code pages (int code_value))"
    for pages code_value
    by (induction pages) (auto simp: keyed_def)
  note parts = make_html_response_parts [OF assms] prepare_response_keeps [OF assms]
  show ?thesis
    by (cases answer)
       (auto simp: upstream_phase_def Let_def finish_event_def parts page page_map_def set_response_field_def split: option.split)
qed

section \<open>Samples\<close>

definition sample_connection :: connection where
  "sample_connection = \<lparr>cn_beast = announcing_beast, cn_to_string = (\<lambda>_. ''10.0.0.1''),
     cn_keep_alive = (\<lambda>_. True), cn_geoip = None, cn_asn = None, cn_client_ip = V4 [10, 0, 0, 1],
     cn_listener_label = ''http''\<rparr>"

definition sample_state :: "RuntimeConfig \<Rightarrow> AppState" where
  "sample_state config = \<lparr>as_config = config, as_request_log = new_request_log 5000 [],
     as_ip_blocks = new_ip_block_tracker 1, as_scores = new_score_tracker 4,
     as_rate_tracker = new_rate_tracker, as_globe_events = new_globe_event_log 5\<rparr>"

definition sample_header :: request_header where
  "sample_header = \<lparr>hd_version = 11, hd_method_string = ''GET'', hd_target = ''/'', hd_find = (\<lambda>_. None)\<rparr>"

definition sample_clocks :: clocks where
  "sample_clocks = \<lparr>ck_event = 1, ck_gate = 2, ck_rate = 3, ck_award = 4, ck_add = 5\<rparr>"

lemmas sample_defs = sample_connection_def sample_state_def sample_header_def sample_clocks_def

definition strict_config :: RuntimeConfig where
  "strict_config = default_config\<lparr>cfg_ban := default_ban\<lparr>ban_enabled := True, ban_threshold := 50\<rparr>,
     cfg_method_check := \<lparr>mc_enabled = True, mc_allowed_methods = [''POST'']\<rparr>\<rparr>"

lemma sample_ok [simp]: "beast_ok (cn_beast sample_connection)" "score_ok (as_scores (sample_state config))"
  "blocks_ok (as_ip_blocks (sample_state config))"
  by (simp_all add: sample_defs announcing_beast_ok)


lemma header_phase_refines_witness:
  "carries_out sample_connection strict_config sample_clocks sample_header (sample_state strict_config)
     (decide sample_connection strict_config sample_clocks sample_header (sample_state strict_config))"
  using header_phase_refines [OF sample_ok(1,2)] by blast

definition open_config :: RuntimeConfig where
  "open_config = default_config\<lparr>cfg_whitelist := \<lparr>wl_ip_exact = [\<lparr>entry_value = ''10.0.0.1'', entry_created_at = 0,
     entry_created_by = [], entry_source = []\<rparr>], wl_ip_cidrs = [], wl_routes = []\<rparr>\<rparr>"

lemma whitelisted_never_refused_witness:
  "\<exists>st' outcome. header_phase sample_connection open_config sample_clocks sample_header (sample_state open_config)
     = Some (st', outcome) \<and> as_ip_blocks st' = as_ip_blocks (sample_state open_config)"
proof -
  have "is_whitelisted sample_connection open_config sample_header"
    by (simp add: is_whitelisted_def is_ip_whitelisted_def open_config_def sample_connection_def)
  moreover have "\<not> eo_enabled (cfg_emergency_off open_config)"
    "rs_enabled (resolve_site open_config (host_header_of sample_header))"
    by (simp_all add: open_config_def default_config_simps resolve_site_def)
  ultimately show ?thesis
    using whitelisted_never_refused [of sample_connection open_config sample_header sample_clocks "sample_state open_config"]
    by blast
qed

definition sample_site :: ResolvedSite where
  "sample_site = \<lparr>rs_upstream = default_upstream, rs_cert_file = None, rs_key_file = None, rs_enabled = True,
     rs_matched = False\<rparr>"

lemma sample_header_phase:
  "header_phase sample_connection default_config sample_clocks sample_header (sample_state default_config)
    = Some (sample_state default_config,
            ReadBody False sample_site (start_event sample_connection sample_clocks sample_header))"
  by (simp add: header_phase_def Let_def sample_defs sample_site_def default_config_simps resolve_site_def
      is_whitelisted_def is_ip_whitelisted_def is_route_whitelisted_def is_blocked_def new_ip_block_tracker_def
      check_request_rate_def check_method_allowlist_def evaluate_header_checks_def check_ip_blacklist_def
      check_fake_routes_def check_defs pattern_check_def geo_isp_of_def path_of_def find_char_def)

lemma sample_body_phase:
  "body_phase sample_connection default_config sample_clocks sample_header False
      (start_event sample_connection sample_clocks sample_header) [] (sample_state default_config)
    = Some (sample_state default_config, Inr (received_request sample_connection sample_header []))"
  by (simp add: body_phase_def Let_def received_request_def default_config_simps evaluate_body_checks_def
      check_body_size_def check_body_blacklist_def pattern_check_def)

lemma three_steps: "R a b \<Longrightarrow> R b c \<Longrightarrow> R c d \<Longrightarrow> (R ^^ 3) a d"
  by (auto simp: numeral_3_eq_3)

lemma sample_session_run:
  "\<exists>s. (session_step sample_connection)\<^sup>*\<^sup>* (new_session (sample_state default_config)) s
     \<and> ss_trace s = [Forwarded default_config (received_request sample_connection sample_header []) default_upstream]
     \<and> (session_step sample_connection ^^ 3) (new_session (sample_state default_config)) s"
proof -
  let ?cn = sample_connection
  let ?st = "sample_state default_config"
  let ?ev = "start_event ?cn sample_clocks sample_header"
  let ?req = "received_request ?cn sample_header []"
  let ?s0 = "new_session ?st"
  let ?s1 = "?s0\<lparr>ss_pc := AwaitHeader default_config\<rparr>"
  let ?s2 = "?s1\<lparr>ss_state := ?st, ss_pc := AwaitBody default_config sample_header False sample_site ?ev\<rparr>"
  let ?s3 = "?s2\<lparr>ss_state := ?st, ss_pc := AwaitUpstream default_config sample_header ?ev ?req,
      ss_trace := ss_trace ?s2 @ [Forwarded default_config ?req (rs_upstream sample_site)]\<rparr>"
  have "session_step ?cn ?s0 (?s0\<lparr>ss_pc := AwaitHeader (as_config (ss_state ?s0))\<rparr>)"
    by (rule session_step.fetch) (simp add: new_session_def)
  then have 1: "session_step ?cn ?s0 ?s1" by (simp add: new_session_def sample_state_def)
  have 2: "session_step ?cn ?s1 ?s2"
    by (rule session_step.header_open [where ck = sample_clocks]) (simp_all add: new_session_def sample_header_phase)
  have 3: "session_step ?cn ?s2 ?s3"
    by (rule session_step.body_open [where ck = sample_clocks and body = "[]" and w = False])
       (simp_all add: new_session_def sample_body_phase)
  have run: "(session_step ?cn ^^ 3) ?s0 ?s3" by (rule three_steps [of "session_step ?cn", OF 1 2 3])
  then have "(session_step ?cn)\<^sup>*\<^sup>* ?s0 ?s3" by (rule relpowp_imp_rtranclp)
  moreover have "ss_trace ?s3 = [Forwarded default_config ?req default_upstream]"
    by (simp add: new_session_def sample_site_def)
  ultimately show ?thesis using run by blast
qed

lemma forwarded_requests_admitted_witness:
  "admitted sample_connection default_config (received_request sample_connection sample_header []) default_upstream"
proof -
  obtain s where "(session_step sample_connection)\<^sup>*\<^sup>* (new_session (sample_state default_config)) s"
    "ss_trace s = [Forwarded default_config (received_request sample_connection sample_header []) default_upstream]"
    using sample_session_run by blast
  then show ?thesis by (intro forwarded_requests_admitted) auto
qed


lemma session_never_undefined_witness:
  "\<exists>s. (session_step sample_connection ^^ 3) (new_session (sample_state default_config)) s \<and> ss_pc s \<noteq> Undefined"
proof -
  obtain s where s: "(session_step sample_connection ^^ 3) (new_session (sample_state default_config)) s"
    using sample_session_run by blast
  have "as_scores (sample_state default_config) = new_score_tracker 4" by (simp add: sample_state_def)
  with session_never_undefined [OF s] s show ?thesis by auto
qed

lemma upstream_phase_replies_witness:
  "\<exists>st' r. upstream_phase sample_connection default_config sample_header True 0
      (start_event sample_connection sample_clocks sample_header) None (sample_state default_config) = (st', r, False)
    \<and> rp_status r = 502"
proof -
  obtain st' r keep where "upstream_phase sample_connection default_config sample_header True 0
      (start_event sample_connection sample_clocks sample_header) None (sample_state default_config) = (st', r, keep)"
    "rp_status r = 502" "\<not> keep"
    using upstream_phase_replies [OF sample_ok(1), where config = default_config and header = sample_header
        and keep_alive = True and n = 0 and event = "start_event sample_connection sample_clocks sample_header"
        and answer = None and st = "sample_state default_config"] by auto
  then show ?thesis by simp
qed

end
