(* ===== verification/Atomic_File.thy ===== *)
theory Atomic_File
  imports Prelude
begin

text \<open>
  \<^verbatim>\<open>util/atomic_file.*\<close>: replacing a file through a temporary one.  A file system is a map from
  paths to contents and permission bits, with the POSIX meaning of the calls the function makes;
  which calls fail, and how much each \<open>write\<close> takes, is the environment's script.  The model
  returns the file system after every call, so a statement about all of them covers a crash, and
  a concurrent reader, at any moment.
\<close>

section \<open>Files\<close>

record disk_file =
  df_contents :: string
  df_mode :: u32

type_synonym file_system = "string \<Rightarrow> disk_file option"

datatype ExistingFileMode = Reset | Preserve

datatype write_outcome = Written nat | Interrupted | Failed string

record sys_script =
  sy_umask :: u32
  sy_open :: "string option"
  sy_fchmod :: "string option"
  sy_writes :: "write_outcome list"
  sy_fsync :: "string option"
  sy_close :: "string option"
  sy_rename :: "string option"

text \<open>\<open>None\<close> in the script is success, \<open>Some\<close> the text of \<open>strerror\<close>.\<close>

definition throw_errno :: "string \<Rightarrow> string \<Rightarrow> string \<Rightarrow> error" where
  "throw_errno what path why = RuntimeError (what @ '' '' @ path @ '': '' @ why)"

definition open_trunc :: "u32 \<Rightarrow> u32 \<Rightarrow> string \<Rightarrow> file_system \<Rightarrow> file_system" where
  "open_trunc umask mode path fs =
     (case fs path of
        Some f \<Rightarrow> fs(path \<mapsto> f\<lparr>df_contents := []\<rparr>)
      | None \<Rightarrow> fs(path \<mapsto> \<lparr>df_contents = [], df_mode = mode AND NOT umask\<rparr>))"

definition fchmod :: "u32 \<Rightarrow> string \<Rightarrow> file_system \<Rightarrow> file_system" where
  "fchmod mode path fs = fs(path := map_option (\<lambda>f. f\<lparr>df_mode := mode\<rparr>) (fs path))"

definition append_to :: "string \<Rightarrow> string \<Rightarrow> file_system \<Rightarrow> file_system" where
  "append_to chunk path fs = fs(path := map_option (\<lambda>f. f\<lparr>df_contents := df_contents f @ chunk\<rparr>) (fs path))"

definition unlink :: "string \<Rightarrow> file_system \<Rightarrow> file_system" where
  "unlink path fs = fs(path := None)"

definition rename_file :: "string \<Rightarrow> string \<Rightarrow> file_system \<Rightarrow> file_system" where
  "rename_file from_path to_path fs = (fs(from_path := None))(to_path := fs from_path)"

section \<open>Writing\<close>

text \<open>The write loop: the file systems it passes through, and its end; \<open>None\<close> when the script ends
  before the loop does.  \<open>write\<close> takes at most what it is given.\<close>

fun write_loop :: "write_outcome list \<Rightarrow> string \<Rightarrow> string \<Rightarrow> file_system \<Rightarrow> file_system list \<times> unit result option" where
  "write_loop [] path remaining fs = ([], if remaining = [] then Some (Inr ()) else None)"
| "write_loop (w # ws) path remaining fs =
     (if remaining = [] then ([], Some (Inr ()))
      else case w of
             Failed why \<Rightarrow> ([], Some (throw (throw_errno ''cannot write'' path why)))
           | Interrupted \<Rightarrow> write_loop ws path remaining fs
           | Written n \<Rightarrow>
               (let fs' = append_to (take n remaining) path fs;
                    (states, finish) = write_loop ws path (drop n remaining) fs'
                in (fs' # states, finish)))"

definition last_state :: "file_system \<Rightarrow> file_system list \<Rightarrow> file_system" where
  "last_state fs states = (if states = [] then fs else last states)"

text \<open>The destructor of the temporary file runs when an exception leaves the function.\<close>

definition failing :: "string \<Rightarrow> file_system \<Rightarrow> error \<Rightarrow> file_system list \<times> unit result option" where
  "failing tmp fs e = ([unlink tmp fs], Some (throw e))"

definition and_then ::
  "file_system list \<Rightarrow> file_system list \<times> unit result option \<Rightarrow> file_system list \<times> unit result option" where
  "and_then states r = (states @ fst r, snd r)"

definition write_file_atomically ::
  "sys_script \<Rightarrow> string \<Rightarrow> string \<Rightarrow> u32 \<Rightarrow> ExistingFileMode \<Rightarrow> file_system
     \<Rightarrow> file_system list \<times> unit result option" where
  "write_file_atomically sys path contents mode existing fs =
     (let mode = (if existing = Preserve
                  then (case fs path of Some current \<Rightarrow> df_mode current AND 0xFFF | None \<Rightarrow> mode)
                  else mode);
          tmp = path @ ''.tmp''
      in case sy_open sys of
        Some why \<Rightarrow> failing tmp fs (throw_errno ''cannot write'' tmp why)
      | None \<Rightarrow>
      let fs = open_trunc (sy_umask sys) mode tmp fs in and_then [fs] (
      case sy_fchmod sys of
        Some why \<Rightarrow> failing tmp fs (throw_errno ''cannot set permissions on'' tmp why)
      | None \<Rightarrow>
      let fs = fchmod mode tmp fs in and_then [fs] (
      let (states, finish) = write_loop (sy_writes sys) tmp contents fs; fs = last_state fs states in and_then states (
      case finish of
        None \<Rightarrow> ([], None)
      | Some (Inl e) \<Rightarrow> failing tmp fs e
      | Some (Inr _) \<Rightarrow>
      (case sy_fsync sys of
        Some why \<Rightarrow> failing tmp fs (throw_errno ''cannot sync'' tmp why)
      | None \<Rightarrow>
      (case sy_close sys of
        Some why \<Rightarrow> failing tmp fs (throw_errno ''cannot close'' tmp why)
      | None \<Rightarrow>
      (case sy_rename sys of
        Some why \<Rightarrow> failing tmp fs (throw_errno ''cannot replace'' path why)
      | None \<Rightarrow> ([rename_file tmp path fs], Some (Inr ())))))))))"

section \<open>What readers see\<close>

lemma tmp_neq [simp]: "p @ ''.tmp'' \<noteq> p"
  by simp

definition final_mode :: "u32 \<Rightarrow> ExistingFileMode \<Rightarrow> disk_file option \<Rightarrow> u32" where
  "final_mode mode existing old =
     (if existing = Preserve then (case old of Some current \<Rightarrow> df_mode current AND 0xFFF | None \<Rightarrow> mode) else mode)"

text \<open>A moment of the replacement: the target is the old file, the rest of the file system is
  untouched, and the temporary file holds data only under the final permissions.\<close>

definition undisturbed :: "string \<Rightarrow> u32 \<Rightarrow> file_system \<Rightarrow> file_system \<Rightarrow> bool" where
  "undisturbed path mode old fs \<longleftrightarrow>
     (\<forall>p. p \<noteq> path @ ''.tmp'' \<longrightarrow> fs p = old p)
     \<and> (\<forall>f. fs (path @ ''.tmp'') = Some f \<longrightarrow> df_contents f = [] \<or> df_mode f = mode)"

definition replaced :: "string \<Rightarrow> string \<Rightarrow> u32 \<Rightarrow> file_system \<Rightarrow> file_system \<Rightarrow> bool" where
  "replaced path contents mode old fs \<longleftrightarrow>
     fs = old(path \<mapsto> \<lparr>df_contents = contents, df_mode = mode\<rparr>, path @ ''.tmp'' := None)"

text \<open>During the loop the temporary file holds what has been written so far.\<close>

definition writing :: "string \<Rightarrow> u32 \<Rightarrow> file_system \<Rightarrow> string \<Rightarrow> file_system \<Rightarrow> bool" where
  "writing path mode old sofar fs \<longleftrightarrow>
     fs = old(path @ ''.tmp'' \<mapsto> \<lparr>df_contents = sofar, df_mode = mode\<rparr>)"

lemma writing_undisturbed: "writing path mode old sofar fs \<Longrightarrow> undisturbed path mode old fs"
  by (simp add: writing_def undisturbed_def)

lemma writing_append:
  "writing path mode old sofar fs \<Longrightarrow> writing path mode old (sofar @ chunk) (append_to chunk (path @ ''.tmp'') fs)"
  by (simp add: writing_def append_to_def)

fun granted :: "write_outcome list \<Rightarrow> nat" where
  "granted [] = 0"
| "granted (Written n # ws) = n + granted ws"
| "granted (_ # ws) = granted ws"

lemma last_state_Cons [simp]: "last_state fs (s # states) = last_state s states"
  by (simp add: last_state_def)

lemma last_state_Nil [simp]: "last_state fs [] = fs"
  by (simp add: last_state_def)

lemma write_loop_writes:
  assumes "write_loop ws (path @ ''.tmp'') remaining fs = (states, finish)" and "writing path mode old sofar fs"
  shows "list_all (undisturbed path mode old) states"
    and "\<exists>done'. writing path mode old done' (last_state fs states)
      \<and> (finish = Some (Inr ()) \<longrightarrow> done' = sofar @ remaining)"
    and "finish = None \<Longrightarrow> granted ws < length remaining"
proof -
  have "list_all (undisturbed path mode old) states
      \<and> (\<exists>done'. writing path mode old done' (last_state fs states)
            \<and> (finish = Some (Inr ()) \<longrightarrow> done' = sofar @ remaining))
      \<and> (finish = None \<longrightarrow> granted ws < length remaining)"
    using assms
  proof (induction ws arbitrary: remaining fs states sofar)
    case Nil
    then show ?case by (auto split: if_splits)
  next
    case (Cons w ws)
    show ?case
    proof (cases "remaining = []")
      case True
      with Cons.prems show ?thesis by auto
    next
      case False
      show ?thesis
      proof (cases w)
        case (Written n)
        let ?fs = "append_to (take n remaining) (path @ ''.tmp'') fs"
        obtain states' where loop: "write_loop ws (path @ ''.tmp'') (drop n remaining) ?fs = (states', finish)"
          "states = ?fs # states'"
          using Cons.prems(1) False Written by (auto simp: Let_def split: prod.splits)
        have now: "writing path mode old (sofar @ take n remaining) ?fs" by (rule writing_append [OF Cons.prems(2)])
        from Cons.IH [OF loop(1) now] show ?thesis
          using loop(2) writing_undisturbed [OF now] Written by auto
      next
        case Interrupted
        with Cons.prems False Cons.IH [of remaining fs states "sofar"] show ?thesis by simp
      next
        case (Failed why)
        with Cons.prems False show ?thesis by auto
      qed
    qed
  qed
  then show "list_all (undisturbed path mode old) states"
    "\<exists>done'. writing path mode old done' (last_state fs states) \<and> (finish = Some (Inr ()) \<longrightarrow> done' = sofar @ remaining)"
    "finish = None \<Longrightarrow> granted ws < length remaining" by blast+
qed

text \<open>The contract of the header, as a predicate on what the function passes through and returns.\<close>

definition atomic_outcome ::
  "string \<Rightarrow> string \<Rightarrow> u32 \<Rightarrow> file_system \<Rightarrow> file_system list \<times> unit result option \<Rightarrow> bool" where
  "atomic_outcome path contents mode old r \<longleftrightarrow>
     list_all (\<lambda>fs. undisturbed path mode old fs \<or> snd r = Some (Inr ()) \<and> replaced path contents mode old fs) (fst r)
     \<and> (case snd r of
          None \<Rightarrow> True
        | Some (Inl e) \<Rightarrow> fst r \<noteq> [] \<and> last (fst r) = old(path @ ''.tmp'' := None)
        | Some (Inr _) \<Rightarrow> fst r \<noteq> [] \<and> replaced path contents mode old (last (fst r)))"

lemma atomic_and_then:
  assumes "list_all (undisturbed path mode old) states" and "atomic_outcome path contents mode old r"
  shows "atomic_outcome path contents mode old (and_then states r)"
  using assms by (auto simp: atomic_outcome_def and_then_def list_all_iff split: option.splits sum.splits)

lemma atomic_failing:
  assumes "\<forall>p. p \<noteq> path @ ''.tmp'' \<longrightarrow> fs p = old p"
  shows "atomic_outcome path contents mode old (failing (path @ ''.tmp'') fs e)"
  using assms by (auto simp: atomic_outcome_def failing_def undisturbed_def unlink_def)

lemma writing_others: "writing path mode old sofar fs \<Longrightarrow> \<forall>p. p \<noteq> path @ ''.tmp'' \<longrightarrow> fs p = old p"
  by (simp add: writing_def)

text \<open>C22: The file is replaced whole or not at all: after every system call, so at any crash and for
  any concurrent reader, the target holds its old contents and permissions or, once the function is
  about to return normally, the complete new contents with the requested ones; on an exception the
  target is untouched and the temporary file gone, no other file ever changes, and data is never
  in a temporary file with other permissions than the final ones.\<close>

theorem write_file_atomically_atomic:
  "atomic_outcome path contents (final_mode mode existing (fs path)) fs
     (write_file_atomically sys path contents mode existing fs)"
proof -
  define m where "m = final_mode mode existing (fs path)"
  let ?tmp = "path @ ''.tmp''"
  define fs1 where "fs1 = open_trunc (sy_umask sys) m ?tmp fs"
  define fs2 where "fs2 = fchmod m ?tmp fs1"
  have 1: "undisturbed path m fs fs1"
    by (auto simp: fs1_def open_trunc_def undisturbed_def split: option.split)
  have 2: "writing path m fs [] fs2"
    by (auto simp: fs2_def fs1_def fchmod_def open_trunc_def writing_def split: option.split)
  obtain states finish where loop: "write_loop (sy_writes sys) ?tmp contents fs2 = (states, finish)" by fastforce
  note w = write_loop_writes [OF loop 2]
  from w(2) obtain done' where d: "writing path m fs done' (last_state fs2 states)"
    "finish = Some (Inr ()) \<longrightarrow> done' = contents" by auto
  have fail0: "atomic_outcome path contents m fs (failing ?tmp fs e)" for e by (rule atomic_failing) simp
  have fail1: "atomic_outcome path contents m fs (failing ?tmp fs1 e)" for e
    using 1 by (intro atomic_failing) (simp add: undisturbed_def)
  have fail2: "atomic_outcome path contents m fs (failing ?tmp (last_state fs2 states) e)" for e
    by (intro atomic_failing) (rule writing_others [OF d(1)])
  have success: "atomic_outcome path contents m fs
      ([rename_file ?tmp path (last_state fs2 states)], Some (Inr ()))" if "finish = Some (Inr ())"
    using d that by (auto simp: atomic_outcome_def replaced_def rename_file_def writing_def)
  have pending: "atomic_outcome path contents m fs ([], None)" by (simp add: atomic_outcome_def)
  have "write_file_atomically sys path contents mode existing fs =
    (case sy_open sys of Some why \<Rightarrow> failing ?tmp fs (throw_errno ''cannot write'' ?tmp why) | None \<Rightarrow>
      and_then [fs1] (case sy_fchmod sys of
        Some why \<Rightarrow> failing ?tmp fs1 (throw_errno ''cannot set permissions on'' ?tmp why) | None \<Rightarrow>
      and_then [fs2] (and_then states (case finish of
          None \<Rightarrow> ([], None)
        | Some (Inl e) \<Rightarrow> failing ?tmp (last_state fs2 states) e
        | Some (Inr _) \<Rightarrow> (case sy_fsync sys of
            Some why \<Rightarrow> failing ?tmp (last_state fs2 states) (throw_errno ''cannot sync'' ?tmp why)
          | None \<Rightarrow> (case sy_close sys of
            Some why \<Rightarrow> failing ?tmp (last_state fs2 states) (throw_errno ''cannot close'' ?tmp why)
          | None \<Rightarrow> (case sy_rename sys of
            Some why \<Rightarrow> failing ?tmp (last_state fs2 states) (throw_errno ''cannot replace'' path why)
          | None \<Rightarrow> ([rename_file ?tmp path (last_state fs2 states)], Some (Inr ())))))))))"
    unfolding write_file_atomically_def Let_def final_mode_def [symmetric] m_def [symmetric]
      fs1_def [symmetric] fs2_def [symmetric] loop prod.case by (rule refl)
  then show ?thesis
    unfolding m_def [symmetric]
    by (auto split: option.split sum.split intro!: atomic_and_then 1 writing_undisturbed [OF 2] w(1) fail0 fail1 fail2 success pending)
qed

end
