(* ===== verification/Config_Store.thy ===== *)
theory Config_Store
  imports Runtime_Config
begin

text \<open>
  \<^verbatim>\<open>config/config_store.*\<close>: the published configuration snapshot, the writer thread that brings the
  file up to date behind it, and the poll for external edits.  Each critical section and each file
  access is a step; updates exclude one another (\<open>write_mutex_\<close>) but not the poll or the writer.
  The codec is a parameter; every write of the file gets a new modification time.
\<close>

section \<open>The system\<close>

record codec =
  to_yaml_config :: "RuntimeConfig \<Rightarrow> string"
  parse_yaml_config :: "string \<Rightarrow> RuntimeConfig result"

text \<open>Where \<open>update\<close>, \<open>poll_for_external_changes\<close> and \<open>writer_loop\<close> stand between their critical
  sections.\<close>

datatype update_pc = No_Update | Mutating RuntimeConfig | Queueing RuntimeConfig

datatype poll_pc = No_Poll | Reading nat | Publishing RuntimeConfig nat

datatype config_writer_pc = Idle_Writer | Persisting RuntimeConfig | Stamping | Stopped

record config_system =
  cs_current :: RuntimeConfig
  cs_last_mtime :: nat
  cs_pending_write :: "RuntimeConfig option"
  cs_stop :: bool
  cs_file :: "(string \<times> nat) option"
  cs_clock :: nat
  cs_update :: update_pc
  cs_poll :: poll_pc
  cs_writer :: config_writer_pc

definition put_file :: "string \<Rightarrow> config_system \<Rightarrow> config_system" where
  "put_file contents s = s\<lparr>cs_file := Some (contents, cs_clock s), cs_clock := cs_clock s + 1\<rparr>"

text \<open>\<open>load_or_create\<close> before the threads start; \<open>io\<close> is the outcome of writing the defaults.\<close>

definition load_or_create :: "codec \<Rightarrow> error option \<Rightarrow> (string \<times> nat) option \<Rightarrow> config_system result" where
  "load_or_create cd io file =
     (let created = (case file of
                       Some f \<Rightarrow> Inr f
                     | None \<Rightarrow> (case io of Some e \<Rightarrow> throw e | None \<Rightarrow> Inr (to_yaml_config cd default_config, 0)))
      in bind_result created (\<lambda>(contents, mtime).
         bind_result (parse_yaml_config cd contents) (\<lambda>config.
           Inr \<lparr>cs_current = config, cs_last_mtime = mtime, cs_pending_write = None, cs_stop = False,
                cs_file = Some (contents, mtime), cs_clock = mtime + 1, cs_update = No_Update,
                cs_poll = No_Poll, cs_writer = Idle_Writer\<rparr>)))"

section \<open>Steps\<close>

type_synonym mutator = "RuntimeConfig \<Rightarrow> RuntimeConfig result"

text \<open>\<open>Updated m\<close> is the moment the mutator's result is published, \<open>Refused m\<close> the exception.\<close>

datatype config_event =
    Updated mutator
  | Refused mutator
  | Update_Step
  | Polled
  | Writer_Step
  | Write_Failed
  | Stop
  | External_Edit

inductive config_step :: "codec \<Rightarrow> config_system \<Rightarrow> config_event \<Rightarrow> config_system \<Rightarrow> bool" for cd where
  copy: "cs_update s = No_Update \<Longrightarrow> \<not> cs_stop s \<Longrightarrow>
    config_step cd s Update_Step (s\<lparr>cs_update := Mutating (cs_current s)\<rparr>)"
| refuse: "cs_update s = Mutating c \<Longrightarrow> m c = Inl e \<Longrightarrow>
    config_step cd s (Refused m) (s\<lparr>cs_update := No_Update\<rparr>)"
| publish: "cs_update s = Mutating c \<Longrightarrow> m c = Inr c' \<Longrightarrow>
    config_step cd s (Updated m) (s\<lparr>cs_current := c', cs_update := Queueing c'\<rparr>)"
| queue: "cs_update s = Queueing c \<Longrightarrow>
    config_step cd s Update_Step (s\<lparr>cs_pending_write := Some c, cs_update := No_Update\<rparr>)"
| poll_stat: "cs_poll s = No_Poll \<Longrightarrow> cs_file s = Some (contents, mtime) \<Longrightarrow> mtime \<noteq> cs_last_mtime s \<Longrightarrow>
    config_step cd s Polled (s\<lparr>cs_poll := Reading mtime\<rparr>)"
| poll_parse: "cs_poll s = Reading mtime \<Longrightarrow> cs_file s = Some (contents, mtime') \<Longrightarrow>
    parse_yaml_config cd contents = Inr c \<Longrightarrow>
    config_step cd s Polled (s\<lparr>cs_poll := Publishing c mtime\<rparr>)"
| poll_ignore: "cs_poll s = Reading mtime \<Longrightarrow>
    (case cs_file s of None \<Rightarrow> True | Some (contents, _) \<Rightarrow> \<not> is_ok (parse_yaml_config cd contents)) \<Longrightarrow>
    config_step cd s Polled (s\<lparr>cs_poll := No_Poll\<rparr>)"
| poll_publish: "cs_poll s = Publishing c mtime \<Longrightarrow>
    config_step cd s Polled (s\<lparr>cs_current := c, cs_last_mtime := mtime, cs_poll := No_Poll\<rparr>)"
| take: "cs_writer s = Idle_Writer \<Longrightarrow> cs_pending_write s = Some c \<Longrightarrow>
    config_step cd s Writer_Step (s\<lparr>cs_pending_write := None, cs_writer := Persisting c\<rparr>)"
| exit: "cs_writer s = Idle_Writer \<Longrightarrow> cs_pending_write s = None \<Longrightarrow> cs_stop s \<Longrightarrow>
    config_step cd s Writer_Step (s\<lparr>cs_writer := Stopped\<rparr>)"
| persist: "cs_writer s = Persisting c \<Longrightarrow>
    config_step cd s Writer_Step ((put_file (to_yaml_config cd c) s)\<lparr>cs_writer := Stamping\<rparr>)"
| persist_fail: "cs_writer s = Persisting c \<Longrightarrow>
    config_step cd s Write_Failed (s\<lparr>cs_writer := Idle_Writer\<rparr>)"
| stamp: "cs_writer s = Stamping \<Longrightarrow> cs_file s = Some (contents, mtime) \<Longrightarrow>
    config_step cd s Writer_Step (s\<lparr>cs_last_mtime := mtime, cs_writer := Idle_Writer\<rparr>)"
| stop: "cs_update s = No_Update \<Longrightarrow> config_step cd s Stop (s\<lparr>cs_stop := True\<rparr>)"
| external: "config_step cd s External_Edit (put_file contents s)"

inductive config_run :: "codec \<Rightarrow> config_system \<Rightarrow> config_event list \<Rightarrow> config_system \<Rightarrow> bool" for cd s where
  start: "config_run cd s [] s"
| more: "config_run cd s es s' \<Longrightarrow> config_step cd s' e s'' \<Longrightarrow> config_run cd s (es @ [e]) s''"

inductive_cases config_stepE: "config_step cd s e s'"
inductive_simps config_run_Nil [simp]: "config_run cd s [] s'"

text \<open>The successful updates of a run, and the configuration they make of an initial one.\<close>

fun updates :: "config_event list \<Rightarrow> mutator list" where
  "updates [] = []"
| "updates (Updated m # es) = m # updates es"
| "updates (_ # es) = updates es"

fun apply_updates :: "mutator list \<Rightarrow> RuntimeConfig \<Rightarrow> RuntimeConfig option" where
  "apply_updates [] c = Some c"
| "apply_updates (m # ms) c = (case m c of Inl _ \<Rightarrow> None | Inr c' \<Rightarrow> apply_updates ms c')"

lemma updates_append [simp]: "updates (es @ es') = updates es @ updates es'"
  by (induction es rule: updates.induct) simp_all

lemma apply_updates_append:
  "apply_updates (ms @ ms') c = (case apply_updates ms c of None \<Rightarrow> None | Some c' \<Rightarrow> apply_updates ms' c')"
  by (induction ms arbitrary: c) (auto split: sum.split)

definition quiet :: "config_event \<Rightarrow> bool" where
  "quiet e \<longleftrightarrow> e \<noteq> Polled"

definition intact :: "config_event \<Rightarrow> bool" where
  "intact e \<longleftrightarrow> e \<noteq> Polled \<and> e \<noteq> Write_Failed \<and> e \<noteq> External_Edit"

section \<open>Updates are not lost\<close>

fun working_copy :: "update_pc \<Rightarrow> RuntimeConfig option" where
  "working_copy No_Update = None"
| "working_copy (Mutating c) = Some c"
| "working_copy (Queueing c) = Some c"

definition update_inv :: "RuntimeConfig \<Rightarrow> mutator list \<Rightarrow> config_system \<Rightarrow> bool" where
  "update_inv c0 ms s \<longleftrightarrow> apply_updates ms c0 = Some (cs_current s)
     \<and> working_copy (cs_update s) \<in> {None, Some (cs_current s)} \<and> cs_poll s = No_Poll"

lemma update_inv_step:
  "config_step cd s e s' \<Longrightarrow> quiet e \<Longrightarrow> update_inv c0 ms s \<Longrightarrow> update_inv c0 (ms @ updates [e]) s'"
  by (induction rule: config_step.induct)
     (simp_all add: update_inv_def apply_updates_append quiet_def put_file_def)

lemma load_or_create_start:
  assumes "load_or_create cd io file = Inr s"
  shows "cs_poll s = No_Poll" "cs_update s = No_Update" "cs_writer s = Idle_Writer" "\<not> cs_stop s"
    "cs_pending_write s = None"
  using assms by (auto simp: load_or_create_def Let_def bind_result_Inr_iff split: option.splits)

lemma update_inv_run:
  assumes "load_or_create cd io file = Inr s0" and "config_run cd s0 es s" and "list_all quiet es"
  shows "update_inv (cs_current s0) (updates es) s"
  using assms(2,3)
proof (induction rule: config_run.induct)
  case start
  then show ?case using load_or_create_start [OF assms(1)] by (simp add: update_inv_def)
next
  case (more es s' e s'')
  then show ?case by (simp add: update_inv_step)
qed

text \<open>C23: Updates serialise: in every interleaving of updates, the writer thread, failed writes, shutdown
  and external edits in which no poll takes effect, the published configuration is the initial
  one with every successful update applied in order, and a mutator that throws has changed
  nothing.\<close>

theorem updates_serialise:
  assumes "load_or_create cd io file = Inr s0" and "config_run cd s0 es s" and "list_all quiet es"
  shows "apply_updates (updates es) (cs_current s0) = Some (cs_current s)"
  using update_inv_run [OF assms] by (simp add: update_inv_def)

section \<open>Persistence\<close>

text \<open>What the file will hold once the writer has caught up.\<close>

fun to_persist :: "update_pc \<Rightarrow> RuntimeConfig option \<Rightarrow> config_writer_pc \<Rightarrow> RuntimeConfig option" where
  "to_persist (Queueing c) pending_write writer = Some c"
| "to_persist _ (Some c) writer = Some c"
| "to_persist _ None (Persisting c) = Some c"
| "to_persist _ None _ = None"

definition persisted :: "codec \<Rightarrow> config_system \<Rightarrow> bool" where
  "persisted cd s \<longleftrightarrow> (\<exists>t. cs_file s = Some (to_yaml_config cd (cs_current s), t))"

definition persist_inv :: "codec \<Rightarrow> mutator list \<Rightarrow> config_system \<Rightarrow> bool" where
  "persist_inv cd ms s \<longleftrightarrow>
     (let todo = to_persist (cs_update s) (cs_pending_write s) (cs_writer s)
      in todo \<in> {None, Some (cs_current s)} \<and> (todo = None \<longrightarrow> ms = [] \<or> persisted cd s))
     \<and> (cs_stop s \<longrightarrow> cs_update s = No_Update)
     \<and> (cs_writer s = Stopped \<longrightarrow> cs_stop s \<and> cs_pending_write s = None)"

lemma to_persist_Mutating [simp]: "to_persist (Mutating c) p w = to_persist No_Update p w"
  by (cases p; cases w) simp_all

lemma persist_inv_step:
  assumes "config_step cd s e s'" and "intact e" and "persist_inv cd ms s" and "update_inv c0 ms s"
  shows "persist_inv cd (ms @ updates [e]) s'"
  using assms
proof (induction rule: config_step.induct)
  case (persist s c)
  then show ?case
    by (cases "cs_update s"; cases "cs_pending_write s") (auto simp: persist_inv_def persisted_def put_file_def update_inv_def)
next
  case (take s c)
  then show ?case by (cases "cs_update s") (auto simp: persist_inv_def persisted_def)
next
  case (queue s c)
  then show ?case by (auto simp: persist_inv_def persisted_def update_inv_def)
next
  case (exit s)
  then show ?case by (auto simp: persist_inv_def persisted_def)
next
  case (stamp s contents mtime)
  then show ?case
    by (cases "cs_update s"; cases "cs_pending_write s") (auto simp: persist_inv_def persisted_def)
qed (auto simp: persist_inv_def persisted_def intact_def Let_def)


section \<open>Samples\<close>

text \<open>A codec whose texts are the code and port of a configuration: enough to tell three apart.\<close>

definition sample_codec :: codec where
  "sample_codec = \<lparr>to_yaml_config = (\<lambda>c. show_nat (unat (http_port (cfg_http c)))),
     parse_yaml_config = (\<lambda>t. Inr (default_config\<lparr>cfg_http := default_http\<lparr>http_port := word_of_nat (read_nat t)\<rparr>\<rparr>))\<rparr>"

definition set_port :: "u16 \<Rightarrow> mutator" where
  "set_port p c = Inr (c\<lparr>cfg_http := (cfg_http c)\<lparr>http_port := p\<rparr>\<rparr>)"

definition start_system :: config_system where
  "start_system = \<lparr>cs_current = default_config\<lparr>cfg_http := default_http\<lparr>http_port := 80\<rparr>\<rparr>, cs_last_mtime = 0, cs_pending_write = None,
     cs_stop = False, cs_file = Some (show_nat 80, 0), cs_clock = 1, cs_update = No_Update,
     cs_poll = No_Poll, cs_writer = Idle_Writer\<rparr>"

lemma start_system_loaded: "load_or_create sample_codec None None = Inr start_system"
  by (simp add: load_or_create_def Let_def sample_codec_def start_system_def default_config_def default_http_def)

text \<open>One update, published and queued.\<close>

lemma update_run:
  assumes "config_run cd s0 es s" and "cs_update s = No_Update" and "\<not> cs_stop s" and "m (cs_current s) = Inr c"
  shows "config_run cd s0 (es @ [Update_Step, Updated m, Update_Step])
     (s\<lparr>cs_current := c, cs_pending_write := Some c, cs_update := No_Update\<rparr>)"
proof -
  let ?s1 = "s\<lparr>cs_update := Mutating (cs_current s)\<rparr>"
  let ?s2 = "?s1\<lparr>cs_current := c, cs_update := Queueing c\<rparr>"
  let ?s3 = "?s2\<lparr>cs_pending_write := Some c, cs_update := No_Update\<rparr>"
  have "config_run cd s0 (((es @ [Update_Step]) @ [Updated m]) @ [Update_Step]) ?s3"
  proof (intro config_run.more)
    show "config_run cd s0 es s" by (rule assms(1))
    show "config_step cd s Update_Step ?s1" using assms(2,3) by (rule config_step.copy)
    show "config_step cd ?s1 (Updated m) ?s2" by (rule config_step.publish [where c = "cs_current s"]) (simp_all add: assms(4))
    show "config_step cd ?s2 Update_Step ?s3" by (rule config_step.queue) simp
  qed
  then show ?thesis by simp
qed

lemma updates_serialise_witness:
  "\<exists>s. config_run sample_codec start_system [Update_Step, Updated (set_port 81), Update_Step] s
     \<and> set_port 81 (cs_current start_system) = Inr (cs_current s)"
proof -
  obtain c where c: "set_port 81 (cs_current start_system) = Inr c" by (simp add: set_port_def)
  have "config_run sample_codec start_system ([] @ [Update_Step, Updated (set_port 81), Update_Step])
      (start_system\<lparr>cs_current := c, cs_pending_write := Some c, cs_update := No_Update\<rparr>)"
    by (rule update_run) (simp_all add: start_system_def c [simplified start_system_def, simplified])
  then have run: "config_run sample_codec start_system [Update_Step, Updated (set_port 81), Update_Step]
      (start_system\<lparr>cs_current := c, cs_pending_write := Some c, cs_update := No_Update\<rparr>)" by simp
  from updates_serialise [OF start_system_loaded run] run show ?thesis
    by (auto simp: quiet_def c)
qed


text \<open>The poll, however, can undo an update without any external edit: it sees the new modification
  time of the writer's own file before the writer has noted it, reads that file, and publishes it
  over an update made in between, which is then missing from the snapshot although it will reach
  the file.\<close>

definition ports :: "config_system \<Rightarrow> u16" where
  "ports s = http_port (cfg_http (cs_current s))"

lemma poll_loses_update:
  "\<exists>s. config_run sample_codec start_system
       [Update_Step, Updated (set_port 81), Update_Step, Writer_Step, Writer_Step, Polled, Polled,
        Update_Step, Updated (set_port 82), Update_Step, Polled, Writer_Step] s
     \<and> cs_update s = No_Update \<and> cs_poll s = No_Poll \<and> ports s = 81"
proof -
  obtain c where c: "set_port 81 (cs_current start_system) = Inr c" by (simp add: set_port_def)
  then have cdef: "c = default_config\<lparr>cfg_http := default_http\<lparr>http_port := 81\<rparr>\<rparr>"
    by (simp add: set_port_def start_system_def)
  obtain d where d: "set_port 82 c = Inr d" by (simp add: set_port_def)
  let ?s3 = "start_system\<lparr>cs_current := c, cs_pending_write := Some c, cs_update := No_Update\<rparr>"
  let ?s4 = "?s3\<lparr>cs_pending_write := None, cs_writer := Persisting c\<rparr>"
  let ?s5 = "(put_file (to_yaml_config sample_codec c) ?s4)\<lparr>cs_writer := Stamping\<rparr>"
  let ?s6 = "?s5\<lparr>cs_poll := Reading 1\<rparr>"
  let ?s7 = "?s6\<lparr>cs_poll := Publishing c 1\<rparr>"
  let ?s10 = "?s7\<lparr>cs_current := d, cs_pending_write := Some d, cs_update := No_Update\<rparr>"
  let ?s11 = "?s10\<lparr>cs_current := c, cs_last_mtime := 1, cs_poll := No_Poll\<rparr>"
  let ?s12 = "?s11\<lparr>cs_last_mtime := 1, cs_writer := Idle_Writer\<rparr>"
  have parse: "parse_yaml_config sample_codec (show_nat 81) = Inr c"
    by (simp add: sample_codec_def cdef)
  have emit: "to_yaml_config sample_codec c = show_nat 81" by (simp add: sample_codec_def cdef)
  have first: "config_run sample_codec start_system ([] @ [Update_Step, Updated (set_port 81), Update_Step]) ?s3"
    by (rule update_run) (simp_all add: start_system_def c [simplified start_system_def, simplified])
  have "config_run sample_codec start_system
      ((((([] @ [Update_Step, Updated (set_port 81), Update_Step]) @ [Writer_Step]) @ [Writer_Step]) @ [Polled]) @ [Polled]) ?s7"
  proof (intro config_run.more)
    show "config_run sample_codec start_system ([] @ [Update_Step, Updated (set_port 81), Update_Step]) ?s3"
      by (rule first)
    show "config_step sample_codec ?s3 Writer_Step ?s4" by (rule config_step.take) (simp_all add: start_system_def)
    show "config_step sample_codec ?s4 Writer_Step ?s5" by (rule config_step.persist) simp
    show "config_step sample_codec ?s5 Polled ?s6"
      by (rule config_step.poll_stat) (simp_all add: put_file_def start_system_def)
    show "config_step sample_codec ?s6 Polled ?s7"
      by (rule config_step.poll_parse [where contents = "show_nat 81" and mtime' = 1])
         (simp_all add: put_file_def start_system_def emit parse)
  qed
  then have "config_run sample_codec start_system
      (((((([] @ [Update_Step, Updated (set_port 81), Update_Step]) @ [Writer_Step]) @ [Writer_Step]) @ [Polled]) @ [Polled])
         @ [Update_Step, Updated (set_port 82), Update_Step]) ?s10"
    by (rule update_run) (simp_all add: put_file_def start_system_def d)
  then have "config_run sample_codec start_system
      (((((((([] @ [Update_Step, Updated (set_port 81), Update_Step]) @ [Writer_Step]) @ [Writer_Step]) @ [Polled]) @ [Polled])
         @ [Update_Step, Updated (set_port 82), Update_Step]) @ [Polled]) @ [Writer_Step]) ?s12"
  proof (intro config_run.more)
    show "config_step sample_codec ?s10 Polled ?s11" by (rule config_step.poll_publish) simp
    show "config_step sample_codec ?s11 Writer_Step ?s12"
      by (rule config_step.stamp) (simp_all add: put_file_def start_system_def)
  qed
  then show ?thesis by (intro exI [of _ ?s12]) (simp add: ports_def cdef put_file_def start_system_def)
qed

end
