(* ===== verification/Http_Util.thy ===== *)
theory Http_Util
  imports Upstream Json_Lib Codecs
begin

text \<open>
  \<^verbatim>\<open>admin/http_util.cpp\<close> and \<^verbatim>\<open>admin/static_files.cpp\<close>: query parameters, the shape of JSON
  answers, and the files of the admin user interface.  A path is the list of its components;
  \<open>weakly_canonical\<close> and \<open>is_regular_file\<close> are the file system's and so parameters.
\<close>

section \<open>Query parameters\<close>

definition from_chars_size :: "string \<Rightarrow> nat option" where
  "from_chars_size s =
     (let ds = takeWhile isdigit s in
      if ds = [] then None else if read_nat ds < 2 ^ 64 then Some (read_nat ds) else None)"

text \<open>The loop over \<open>query\<close>; \<open>pair\<close> is the text up to the next ampersand.\<close>

function query_loop :: "string \<Rightarrow> string \<Rightarrow> nat \<Rightarrow> nat" where
  "query_loop query key fallback =
     (if query = [] then fallback
      else
        let amp = find_char (CHR ''&'') query;
            pair = (case amp of None \<Rightarrow> query | Some i \<Rightarrow> take i query);
            eq = find_char (CHR ''='') pair
        in if (case eq of None \<Rightarrow> False | Some i \<Rightarrow> take i pair = key)
           then (case from_chars_size (drop (Suc (the eq)) pair) of None \<Rightarrow> fallback | Some v \<Rightarrow> v)
           else case amp of
                  None \<Rightarrow> fallback
                | Some i \<Rightarrow> query_loop (drop (Suc i) query) key fallback)"
  by pat_completeness auto
termination
  by (relation "measure (\<lambda>(query, _). length query)") auto

declare query_loop.simps [simp del]

definition query_param_size_t :: "string \<Rightarrow> string \<Rightarrow> nat \<Rightarrow> nat" where
  "query_param_size_t target key fallback =
     (case find_char (CHR ''?'') target of
        None \<Rightarrow> fallback
      | Some qpos \<Rightarrow> query_loop (drop (Suc qpos) target) key fallback)"

lemma query_loop_bounded: "fallback < 2 ^ 64 \<Longrightarrow> query_loop query key fallback < 2 ^ 64"
proof (induction query key fallback rule: query_loop.induct)
  case (1 query key fallback)
  then show ?case
    by (subst query_loop.simps) (auto simp: Let_def from_chars_size_def split: option.splits)
qed

text \<open>A page size requested of the API is a machine size: the digits of the parameter when they fit
  into 64 bits, and the default otherwise.\<close>

theorem query_param_bounded:
  assumes "fallback < 2 ^ 64"
  shows "query_param_size_t target key fallback < 2 ^ 64"
  using query_loop_bounded [OF assms] assms
  by (auto simp: query_param_size_t_def split: option.splits)

theorem query_param_found:
  assumes "CHR ''?'' \<notin> set path" and "CHR ''='' \<notin> set key" and "CHR ''&'' \<notin> set key"
    and "n < 2 ^ 64"
  shows "query_param_size_t (path @ ''?'' @ key @ ''='' @ show_nat n) key fallback = n"
proof -
  let ?q = "key @ CHR ''='' # show_nat n"
  have digits: "\<forall>c \<in> set (show_nat n). isdigit c"
    using show_nat_digits [of n] by (simp add: list_all_iff)
  then have "CHR ''&'' \<notin> set ?q"
    using assms(3) by (auto simp: isdigit_def dest: bspec)
  then have amp: "find_char (CHR ''&'') ?q = None" by (simp add: find_char_None)
  have eq: "find_char (CHR ''='') ?q = Some (length key)"
    using find_char_append [OF assms(2)] by simp
  have v: "from_chars_size (show_nat n) = Some n"
    using digits assms(4) by (simp add: from_chars_size_def takeWhile_eq_all_conv [THEN iffD2])
  have "query_loop ?q key fallback = n"
    by (subst query_loop.simps) (simp add: Let_def amp eq v)
  moreover have "find_char (CHR ''?'') (path @ ''?'' @ ?q) = Some (length path)"
    using find_char_append [OF assms(1)] by simp
  ultimately show ?thesis by (simp add: query_param_size_t_def)
qed

section \<open>Answers\<close>

text \<open>A response and its \<open>Set-Cookie\<close> fields: the only field that is inserted more than once.\<close>

record server_response =
  sr_message :: http_response
  sr_set_cookie :: "string list"

definition server_status :: "server_response \<Rightarrow> nat" where
  "server_status r = rp_status (sr_message r)"

definition prepare_payload :: "beast \<Rightarrow> server_response \<Rightarrow> server_response" where
  "prepare_payload b r = r\<lparr>sr_message := prepare_response b (sr_message r)\<rparr>"

definition insert_cookie :: "string \<Rightarrow> server_response \<Rightarrow> server_response" where
  "insert_cookie c r = r\<lparr>sr_set_cookie := sr_set_cookie r @ [c]\<rparr>"

definition set_cookie :: "string \<Rightarrow> server_response \<Rightarrow> server_response" where
  "set_cookie c r = r\<lparr>sr_set_cookie := [c]\<rparr>"

record web =
  wb_beast :: beast
  wb_json :: json_lib

definition json_response :: "web \<Rightarrow> nat \<Rightarrow> json \<Rightarrow> nat \<Rightarrow> server_response" where
  "json_response w status body version =
     (let res = \<lparr>rp_version = version, rp_status = status, rp_find = (\<lambda>_. None), rp_keep_alive = True,
                 rp_body = []\<rparr>;
          res = set_response_field ''Server'' ''atomwall-admin'' res;
          res = set_response_field ''Content-Type'' ''application/json'' res;
          res = set_response_field ''X-Content-Type-Options'' ''nosniff'' res;
          res = set_response_field ''Cache-Control'' ''no-store'' res;
          res = res\<lparr>rp_body := jl_serialize (wb_json w) body\<rparr>
      in prepare_payload (wb_beast w) \<lparr>sr_message = res, sr_set_cookie = []\<rparr>)"

definition error_response :: "web \<Rightarrow> nat \<Rightarrow> string \<Rightarrow> nat \<Rightarrow> server_response" where
  "error_response w status message version =
     json_response w status (JObject [(''error'', JString message)]) version"

definition keep_alive :: "bool \<Rightarrow> server_response \<Rightarrow> server_response" where
  "keep_alive k r = r\<lparr>sr_message := (sr_message r)\<lparr>rp_keep_alive := k\<rparr>\<rparr>"

lemma json_response_simps:
  assumes "beast_ok (wb_beast w)"
  shows "server_status (json_response w status body version) = status"
    "sr_set_cookie (json_response w status body version) = []"
    "rp_body (sr_message (json_response w status body version)) = jl_serialize (wb_json w) body"
    "rp_find (sr_message (json_response w status body version)) ''Cache-Control'' = Some ''no-store''"
    "rp_find (sr_message (json_response w status body version)) ''Content-Type'' = Some ''application/json''"
  using prepare_response_keeps [OF assms]
  by (simp_all add: json_response_def server_status_def prepare_payload_def set_response_field_def
      length_fields_def Let_def)

lemma error_response_simps:
  assumes "beast_ok (wb_beast w)"
  shows "server_status (error_response w status message version) = status"
    "sr_set_cookie (error_response w status message version) = []"
  using json_response_simps [OF assms] by (simp_all add: error_response_def)

section \<open>Static files\<close>

type_synonym path = "string list"

record file_system =
  fs_weakly_canonical :: "path \<Rightarrow> path option"
  fs_is_regular_file :: "path \<Rightarrow> bool option"

fun percent_decode :: "string \<Rightarrow> string" where
  "percent_decode (c # a # b # rest) =
     (if c = CHR ''%'' \<and> hex_value a \<noteq> None \<and> hex_value b \<noteq> None
      then char_of (16 * the (hex_value a) + the (hex_value b)) # percent_decode rest
      else c # percent_decode (a # b # rest))"
| "percent_decode (c # rest) = c # percent_decode rest"
| "percent_decode [] = []"

text \<open>\<open>std::getline\<close> with the separator \<open>/\<close>: \<open>segment\<close> is what was read since the last one.\<close>

fun getline_segments :: "string \<Rightarrow> string \<Rightarrow> string list" where
  "getline_segments segment [] = (if segment = [] then [] else [segment])"
| "getline_segments segment (c # rest) =
     (if c = CHR ''/'' then segment # getline_segments [] rest
      else getline_segments (segment @ [c]) rest)"

fun relative_path :: "string list \<Rightarrow> path \<Rightarrow> path option" where
  "relative_path [] relative = Some relative"
| "relative_path (segment # segments) relative =
     (if segment = [] \<or> segment = ''.'' then relative_path segments relative
      else if segment = ''..'' then None
      else relative_path segments (relative @ [segment]))"

text \<open>\<open>std::mismatch\<close>: the position of the first difference in the first sequence.\<close>

fun std_mismatch :: "'a list \<Rightarrow> 'a list \<Rightarrow> nat" where
  "std_mismatch (x # xs) (y # ys) = (if x = y then Suc (std_mismatch xs ys) else 0)"
| "std_mismatch xs ys = 0"

definition resolve_under :: "file_system \<Rightarrow> path \<Rightarrow> path \<Rightarrow> path option" where
  "resolve_under fs static_root relative =
     (case fs_weakly_canonical fs static_root of
        None \<Rightarrow> None
      | Some canonical_root \<Rightarrow>
          (case fs_weakly_canonical fs (canonical_root @ relative) of
             None \<Rightarrow> None
           | Some candidate \<Rightarrow>
               (if std_mismatch canonical_root candidate \<noteq> length canonical_root then None
                else if fs_is_regular_file fs candidate \<noteq> Some True then None
                else Some candidate)))"

definition resolve_static_path :: "file_system \<Rightarrow> path \<Rightarrow> string \<Rightarrow> path option" where
  "resolve_static_path fs static_root request_target =
     (let path_part = (case find_char (CHR ''?'') request_target of
                         None \<Rightarrow> request_target | Some i \<Rightarrow> take i request_target);
          decoded = percent_decode path_part
      in if CHR 0x00 \<in> set decoded then None
         else case relative_path (getline_segments [] decoded) [] of
                None \<Rightarrow> None
              | Some relative \<Rightarrow>
                  resolve_under fs static_root (if relative = [] then [''index.html''] else relative))"

text \<open>\<open>path.extension()\<close>: the last component from its last dot, unless the dot starts it.\<close>

definition extension :: "path \<Rightarrow> string" where
  "extension p =
     (let name = (if p = [] then [] else last p) in
      if name = ''.'' \<or> name = ''..'' then []
      else case rfind_char (CHR ''.'') name of
             None \<Rightarrow> []
           | Some i \<Rightarrow> if i = 0 then [] else drop i name)"

definition mime_type_for :: "path \<Rightarrow> string" where
  "mime_type_for p =
     (let ext = extension p in
      if ext = ''.html'' then ''text/html; charset=utf-8''
      else if ext = ''.css'' then ''text/css; charset=utf-8''
      else if ext = ''.js'' then ''application/javascript; charset=utf-8''
      else if ext = ''.json'' then ''application/json; charset=utf-8''
      else if ext = ''.svg'' then ''image/svg+xml''
      else if ext = ''.png'' then ''image/png''
      else if ext = ''.webp'' then ''image/webp''
      else if ext = ''.ico'' then ''image/x-icon''
      else ''application/octet-stream'')"

lemma std_mismatch_prefix: "std_mismatch xs ys = length xs \<longleftrightarrow> prefix xs ys"
  by (induction xs ys rule: std_mismatch.induct) auto

definition plain_segment :: "string \<Rightarrow> bool" where
  "plain_segment s \<longleftrightarrow> s \<noteq> [] \<and> s \<noteq> ''.'' \<and> s \<noteq> ''..'' \<and> CHR ''/'' \<notin> set s \<and> CHR 0x00 \<notin> set s"

lemma relative_path_eq:
  "relative_path segments acc =
     (let kept = filter (\<lambda>s. s \<noteq> [] \<and> s \<noteq> ''.'') segments in
      if ''..'' \<in> set kept then None else Some (acc @ kept))"
  by (induction segments arbitrary: acc) (auto simp: Let_def)

lemma getline_segments_chars:
  "s \<in> set (getline_segments segment input) \<Longrightarrow> CHR ''/'' \<notin> set segment \<Longrightarrow>
     CHR ''/'' \<notin> set s \<and> set s \<subseteq> set segment \<union> set input"
  by (induction segment input arbitrary: s rule: getline_segments.induct) (auto split: if_splits)

lemma resolve_static_path_eq:
  "resolve_static_path fs static_root target = Some p \<longleftrightarrow>
     (let decoded = percent_decode (takeWhile (\<lambda>c. c \<noteq> CHR ''?'') target);
          segments = filter (\<lambda>s. s \<noteq> [] \<and> s \<noteq> ''.'') (getline_segments [] decoded);
          relative = (if segments = [] then [''index.html''] else segments)
      in (\<forall>s \<in> set relative. plain_segment s) \<and> CHR 0x00 \<notin> set decoded
         \<and> (\<exists>r. fs_weakly_canonical fs static_root = Some r \<and> fs_weakly_canonical fs (r @ relative) = Some p
              \<and> prefix r p \<and> fs_is_regular_file fs p = Some True))"
proof -
  define d where "d = percent_decode (takeWhile (\<lambda>c. c \<noteq> CHR ''?'') target)"
  define segs where "segs = filter (\<lambda>s. s \<noteq> [] \<and> s \<noteq> ''.'') (getline_segments [] d)"
  have pp: "(case find_char (CHR ''?'') target of None \<Rightarrow> target | Some i \<Rightarrow> take i target)
      = takeWhile (\<lambda>c. c \<noteq> CHR ''?'') target"
  proof (cases "find_char (CHR ''?'') target")
    case None
    then have "CHR ''?'' \<notin> set target" by (simp add: find_char_None)
    then have "takeWhile (\<lambda>c. c \<noteq> CHR ''?'') target = target"
      by (intro takeWhile_eq_all_conv [THEN iffD2]) auto
    with None show ?thesis by (simp only: option.case)
  next
    case (Some i)
    define a b where "a = take i target" and "b = drop (Suc i) target"
    from find_char_split [OF Some] have t: "target = a @ CHR ''?'' # b" and "CHR ''?'' \<notin> set a"
      by (simp_all add: a_def b_def)
    then have "takeWhile (\<lambda>c. c \<noteq> CHR ''?'') (a @ CHR ''?'' # b) = a"
      by (subst takeWhile_append2) auto
    with Some show ?thesis by (simp only: option.case flip: t a_def)
  qed
  have segs: "s \<in> set segs \<Longrightarrow> s \<noteq> [] \<and> s \<noteq> ''.'' \<and> CHR ''/'' \<notin> set s \<and> set s \<subseteq> set d" for s
    using getline_segments_chars [of s "[]" d] by (auto simp: segs_def)
  define rel where "rel = (if segs = [] then [''index.html''] else segs)"
  have clean: "(\<forall>s \<in> set rel. plain_segment s) \<longleftrightarrow> ''..'' \<notin> set segs" if "CHR 0x00 \<notin> set d"
    using segs that by (auto simp: plain_segment_def rel_def)
  have search: "resolve_under fs static_root rel = Some p
      \<longleftrightarrow> (\<exists>r. fs_weakly_canonical fs static_root = Some r \<and> fs_weakly_canonical fs (r @ rel) = Some p
            \<and> prefix r p \<and> fs_is_regular_file fs p = Some True)"
    unfolding resolve_under_def by (auto simp: std_mismatch_prefix split: option.splits if_splits)
  show ?thesis
    unfolding resolve_static_path_def Let_def pp relative_path_eq d_def [symmetric] segs_def [symmetric]
      append_Nil rel_def [symmetric]
    using clean search
    by (cases "CHR 0x00 \<in> set d"; cases "''..'' \<in> set segs") (simp_all flip: rel_def)
qed

text \<open>C32: What the user interface serves: a file is answered exactly when the decoded path holds no NUL,
  none of its segments is \<open>..\<close>, and the canonical form of the joined path is a regular file below
  the canonical root, component by component.  So neither encodings nor links escape the root.\<close>

theorem resolve_static_path_iff:
  "resolve_static_path fs static_root target = Some p \<longleftrightarrow>
     (let decoded = percent_decode (takeWhile (\<lambda>c. c \<noteq> CHR ''?'') target);
          segments = filter (\<lambda>s. s \<noteq> [] \<and> s \<noteq> ''.'') (getline_segments [] decoded);
          relative = (if segments = [] then [''index.html''] else segments)
      in (\<forall>s \<in> set relative. plain_segment s) \<and> CHR 0x00 \<notin> set decoded
         \<and> (\<exists>r. fs_weakly_canonical fs static_root = Some r \<and> fs_weakly_canonical fs (r @ relative) = Some p
              \<and> prefix r p \<and> fs_is_regular_file fs p = Some True))"
  by (rule resolve_static_path_eq)

definition sample_fs :: file_system where
  "sample_fs = \<lparr>fs_weakly_canonical = Some,
     fs_is_regular_file = (\<lambda>p. Some (p = [''/'', ''webui'', ''index.html'']))\<rparr>"

theorem resolve_static_path_samples:
  "resolve_static_path sample_fs [''/'', ''webui''] ''/?x=1'' = Some [''/'', ''webui'', ''index.html'']"
  "resolve_static_path sample_fs [''/'', ''webui''] ''/%69ndex.html'' = Some [''/'', ''webui'', ''index.html'']"
  "resolve_static_path sample_fs [''/'', ''webui''] ''/%2e%2E/webui/index.html'' = None"
  "resolve_static_path sample_fs [''/'', ''webui''] ''/index.html%00'' = None"
  by code_simp+

theorem resolve_static_path_iff_witness:
  "resolve_static_path sample_fs [''/'', ''webui''] ''/?x=1'' = Some [''/'', ''webui'', ''index.html'']
   \<and> resolve_static_path sample_fs [''/'', ''webui''] ''/..'' \<noteq> Some [''/'', ''webui'']"
  unfolding resolve_static_path_iff
  by (auto simp: Let_def sample_fs_def plain_segment_def)

end
