(* ===== verification/Url_Fetch.thy ===== *)
theory Url_Fetch
  imports Net_Utils
begin

text \<open>
  \<^verbatim>\<open>admin/url_fetch.cpp\<close>: downloading a list from a URL an administrator typed.  The URL parser,
  the refusal of internal addresses and the order of the network operations are the code's; the
  classification of single addresses and their text form (Boost) and the network are parameters.
  A fetch returns its result and the network operations it performed.
\<close>

section \<open>URLs\<close>

record ParsedUrl =
  pu_https :: bool
  pu_host :: string
  pu_port :: string
  pu_target :: string

definition substr_to :: "nat option \<Rightarrow> string \<Rightarrow> string" where
  "substr_to n s = (case n of None \<Rightarrow> s | Some i \<Rightarrow> take i s)"

text \<open>The host and the port of the authority.\<close>

definition parse_authority :: "string \<Rightarrow> (string \<times> string) option" where
  "parse_authority authority =
     (if authority \<noteq> [] \<and> hd authority = CHR ''['' then
        (case find_char (CHR '']'') authority of
           None \<Rightarrow> None
         | Some close \<Rightarrow>
             (let rest = drop (close + 1) authority in
              Some (drop 1 (take close authority),
                    if rest \<noteq> [] \<and> hd rest = CHR '':'' then drop 1 rest else [])))
      else
        (case find_char (CHR '':'') authority of
           None \<Rightarrow> Some (authority, [])
         | Some colon \<Rightarrow> Some (take colon authority, drop (colon + 1) authority)))"

definition parse_after_scheme :: "bool \<Rightarrow> string \<Rightarrow> ParsedUrl option" where
  "parse_after_scheme https view =
     (let slash = find_char (CHR ''/'') view;
          authority = substr_to slash view;
          target = (case slash of None \<Rightarrow> ''/'' | Some i \<Rightarrow> drop i view);
          target = (if target = [] then ''/'' else target)
      in if authority = [] then None
         else if CHR ''@'' \<in> set authority then None
         else case parse_authority authority of
                None \<Rightarrow> None
              | Some (host, port) \<Rightarrow>
                  (if host = [] then None
                   else Some \<lparr>pu_https = https, pu_host = host,
                          pu_port = (if port = [] then if https then ''443'' else ''80'' else port),
                          pu_target = target\<rparr>))"

definition parse_url :: "string \<Rightarrow> ParsedUrl option" where
  "parse_url url =
     (if take 7 url = ''http://'' then parse_after_scheme False (drop 7 url)
      else if take 8 url = ''https://'' then parse_after_scheme True (drop 8 url)
      else None)"

section \<open>Addresses that must not be reached\<close>

record address_lib =
  al_make_address :: "string \<Rightarrow> ip_address option"
  al_is_loopback :: "ip_address \<Rightarrow> bool"
  al_is_multicast :: "ip_address \<Rightarrow> bool"
  al_is_unspecified :: "ip_address \<Rightarrow> bool"
  al_is_v4_mapped :: "bytes \<Rightarrow> bool"
  al_make_address_v4 :: "bytes \<Rightarrow> bytes"

definition unwrap_v4_mapped :: "address_lib \<Rightarrow> ip_address \<Rightarrow> ip_address" where
  "unwrap_v4_mapped L address =
     (case address of
        V6 v6 _ \<Rightarrow> if al_is_v4_mapped L v6 then V4 (al_make_address_v4 L v6) else address
      | V4 _ \<Rightarrow> address)"

definition kDeniedRanges :: "string list" where
  "kDeniedRanges = [''10.0.0.0/8'', ''172.16.0.0/12'', ''192.168.0.0/16'', ''169.254.0.0/16'',
     ''100.64.0.0/10'', ''0.0.0.0/8'', ''fc00::/7'', ''fe80::/10'']"

fun in_denied :: "address_lib \<Rightarrow> ticks \<Rightarrow> string list \<Rightarrow> ip_address \<Rightarrow> bool" where
  "in_denied L now [] address = False"
| "in_denied L now (cidr # ranges) address =
     (if (case parse_cidr (al_make_address L) now cidr of None \<Rightarrow> False | Some r \<Rightarrow> address_in_cidr address r)
      then True else in_denied L now ranges address)"

definition is_disallowed_address :: "address_lib \<Rightarrow> ticks \<Rightarrow> ip_address \<Rightarrow> bool" where
  "is_disallowed_address L now raw_address =
     (let address = unwrap_v4_mapped L raw_address in
      if al_is_loopback L address \<or> al_is_multicast L address \<or> al_is_unspecified L address then True
      else in_denied L now kDeniedRanges address)"

section \<open>The download\<close>

record UrlFetchResult =
  uf_ok :: bool
  uf_body :: string
  uf_error :: string

record get_request =
  gr_target :: string
  gr_host :: string
  gr_user_agent :: string
  gr_connection :: string

type_synonym endpoint = "ip_address \<times> u16"

datatype read_outcome = Body_Limit | Read_Error string | Complete nat string

record download_net =
  dn_resolve :: "string \<Rightarrow> string \<Rightarrow> string + endpoint list"
  dn_connect :: "endpoint \<Rightarrow> int \<Rightarrow> string option"
  dn_set_sni :: "string \<Rightarrow> bool"
  dn_handshake :: "string option"
  dn_write :: "bool \<Rightarrow> get_request \<Rightarrow> string option"
  dn_read :: "bool \<Rightarrow> nat \<Rightarrow> read_outcome"

datatype net_action =
    Resolve_Host string string
  | Connect endpoint
  | Tls_Handshake string
  | Send bool get_request
  | Receive bool nat

definition fetch_failed :: "string \<Rightarrow> UrlFetchResult" where
  "fetch_failed e = \<lparr>uf_ok = False, uf_body = [], uf_error = e\<rparr>"

definition redirect_advice :: string where
  "redirect_advice = map char_of [32, 226, 128, 148 :: nat] @
     '' redirects aren'' @ [CHR 0x27] @ ''t followed, paste the final URL directly''"

definition read_response :: "read_outcome \<Rightarrow> nat \<Rightarrow> UrlFetchResult" where
  "read_response outcome max_bytes =
     (case outcome of
        Body_Limit \<Rightarrow> fetch_failed (''response exceeded '' @ show_nat max_bytes @ '' byte limit'')
      | Read_Error e \<Rightarrow> fetch_failed e
      | Complete status body \<Rightarrow>
          (if status div 100 = 3
           then fetch_failed (''server returned a redirect ('' @ show_nat status @ '')'' @ redirect_advice)
           else if status div 100 \<noteq> 2 then fetch_failed (''server returned HTTP '' @ show_nat status)
           else \<lparr>uf_ok = True, uf_body = body, uf_error = []\<rparr>))"

text \<open>Writing the request and reading the answer, over the plain stream or over TLS.\<close>

definition exchange_request :: "download_net \<Rightarrow> bool \<Rightarrow> get_request \<Rightarrow> nat \<Rightarrow> UrlFetchResult \<times> net_action list" where
  "exchange_request nw tls request max_bytes =
     (case dn_write nw tls request of
        Some e \<Rightarrow> (fetch_failed e, [Send tls request])
      | None \<Rightarrow> (read_response (dn_read nw tls max_bytes) max_bytes, [Send tls request, Receive tls max_bytes]))"

text \<open>The loop that keeps the first endpoint whose address is allowed.\<close>

fun first_allowed :: "address_lib \<Rightarrow> ticks \<Rightarrow> endpoint list \<Rightarrow> endpoint option" where
  "first_allowed L now [] = None"
| "first_allowed L now (entry # endpoints) =
     (if is_disallowed_address L now (fst entry) then first_allowed L now endpoints else Some entry)"

definition connect_and_get ::
  "download_net \<Rightarrow> ParsedUrl \<Rightarrow> endpoint \<Rightarrow> nat \<Rightarrow> int \<Rightarrow> UrlFetchResult \<times> net_action list" where
  "connect_and_get nw parsed filtered max_bytes timeout =
     (let request = \<lparr>gr_target = pu_target parsed, gr_host = pu_host parsed,
                     gr_user_agent = ''atomwall-admin/1.0'', gr_connection = ''close''\<rparr>
      in case dn_connect nw filtered timeout of
           Some e \<Rightarrow> (fetch_failed (''could not connect: '' @ e), [Connect filtered])
         | None \<Rightarrow>
             (if \<not> pu_https parsed
              then apsnd (\<lambda>acts. Connect filtered # acts) (exchange_request nw False request max_bytes)
              else if \<not> dn_set_sni nw (pu_host parsed)
              then (fetch_failed ''failed to set SNI hostname'', [Connect filtered])
              else case dn_handshake nw of
                     Some e \<Rightarrow> (fetch_failed (''TLS handshake failed: '' @ e),
                                [Connect filtered, Tls_Handshake (pu_host parsed)])
                   | None \<Rightarrow>
                       apsnd (\<lambda>acts. [Connect filtered, Tls_Handshake (pu_host parsed)] @ acts)
                         (exchange_request nw True request max_bytes)))"

definition fetch_url ::
  "address_lib \<Rightarrow> ticks \<Rightarrow> download_net \<Rightarrow> string \<Rightarrow> nat \<Rightarrow> int \<Rightarrow> UrlFetchResult \<times> net_action list" where
  "fetch_url L now nw url max_bytes timeout =
     (case parse_url url of
        None \<Rightarrow> (fetch_failed ''expected an http:// or https:// URL'', [])
      | Some parsed \<Rightarrow>
          (case dn_resolve nw (pu_host parsed) (pu_port parsed) of
             Inl e \<Rightarrow> (fetch_failed (''could not resolve host: '' @ e),
                       [Resolve_Host (pu_host parsed) (pu_port parsed)])
           | Inr endpoints \<Rightarrow>
               (case first_allowed L now endpoints of
                  None \<Rightarrow> (fetch_failed ''refusing to fetch from a loopback/private/internal address'',
                           [Resolve_Host (pu_host parsed) (pu_port parsed)])
                | Some filtered \<Rightarrow>
                    apsnd (\<lambda>acts. Resolve_Host (pu_host parsed) (pu_port parsed) # acts)
                      (connect_and_get nw parsed filtered max_bytes timeout))))"

section \<open>What an internal address is\<close>

text \<open>The documented behaviour of the address functions.\<close>

definition zeros :: "nat \<Rightarrow> bytes" where
  "zeros n = replicate n 0"

definition denied_bases :: "(string \<times> ip_address) list" where
  "denied_bases =
     [(''10.0.0.0'', V4 [10, 0, 0, 0]), (''172.16.0.0'', V4 [172, 16, 0, 0]),
      (''192.168.0.0'', V4 [192, 168, 0, 0]), (''169.254.0.0'', V4 [169, 254, 0, 0]),
      (''100.64.0.0'', V4 [100, 64, 0, 0]), (''0.0.0.0'', V4 [0, 0, 0, 0]),
      (''fc00::'', V6 (0xFC # zeros 15) 0), (''fe80::'', V6 (0xFE # 0x80 # zeros 14) 0)]"

definition address_lib_ok :: "address_lib \<Rightarrow> bool" where
  "address_lib_ok L \<longleftrightarrow>
     (\<forall>(t, a) \<in> set denied_bases. al_make_address L t = Some a)
     \<and> (\<forall>b. length b = 4 \<longrightarrow> al_is_loopback L (V4 b) = (b ! 0 = 127)
           \<and> al_is_multicast L (V4 b) = (b ! 0 AND 0xF0 = 0xE0) \<and> al_is_unspecified L (V4 b) = (b = zeros 4))
     \<and> (\<forall>b s. length b = 16 \<longrightarrow> al_is_loopback L (V6 b s) = (b = zeros 15 @ [1])
           \<and> al_is_multicast L (V6 b s) = (b ! 0 = 0xFF) \<and> al_is_unspecified L (V6 b s) = (b = zeros 16)
           \<and> al_is_v4_mapped L b = (take 12 b = mapped_prefix)
           \<and> (al_is_v4_mapped L b \<longrightarrow> al_make_address_v4 L b = drop 12 b))"

text \<open>The specification, in the terms of the registries: loopback, private, shared, link-local,
  unspecified and multicast addresses, and the same addresses behind the IPv4-mapped prefix.\<close>

definition internal_v4 :: "bytes \<Rightarrow> bool" where
  "internal_v4 b \<longleftrightarrow>
     (let b0 = unat (b ! 0); b1 = unat (b ! 1) in
      b0 \<in> {0, 10, 127} \<or> b0 = 172 \<and> 16 \<le> b1 \<and> b1 \<le> 31 \<or> b0 = 192 \<and> b1 = 168
      \<or> b0 = 169 \<and> b1 = 254 \<or> b0 = 100 \<and> 64 \<le> b1 \<and> b1 \<le> 127 \<or> 224 \<le> b0 \<and> b0 \<le> 239)"

definition internal_v6 :: "bytes \<Rightarrow> bool" where
  "internal_v6 b \<longleftrightarrow>
     (let b0 = unat (b ! 0); b1 = unat (b ! 1) in
      b = zeros 16 \<or> b = zeros 15 @ [1] \<or> b0 \<in> {0xFC, 0xFD, 0xFF} \<or> b0 = 0xFE \<and> 0x80 \<le> b1 \<and> b1 \<le> 0xBF)"

fun internal :: "ip_address \<Rightarrow> bool" where
  "internal (V4 b) = internal_v4 b"
| "internal (V6 b s) = (if take 12 b = mapped_prefix then internal_v4 (drop 12 b) else internal_v6 b)"

text \<open>A comparison under a mask of leading bits is a range test.\<close>

lemma unat_top_mask:
  "k \<le> 8 \<Longrightarrow> unat (b AND push_bit k (mask (8 - k)) :: u8) = unat b div 2 ^ k * 2 ^ k"
proof -
  assume k: "k \<le> 8"
  have "b AND push_bit k (mask (8 - k)) = push_bit k (drop_bit k b)"
    by (rule bit_eqI) (use k in \<open>auto simp: bit_and_iff bit_push_bit_iff bit_mask_iff bit_drop_bit_eq\<close>)
  moreover have "unat b < 256" using unsigned_less [of b] by simp
  then have "unat b div 2 ^ k * 2 ^ k < 256"
    by (meson div_times_less_eq_dividend le_less_trans)
  moreover have "unat (push_bit k (drop_bit k b)) = take_bit 8 (push_bit k (drop_bit k (unat b)))"
    by (simp add: unsigned_push_bit_eq unsigned_drop_bit_eq take_bit_nat_eq_self \<open>unat b < 256\<close>)
  ultimately show ?thesis
    by (simp only: push_bit_eq_mult [where 'a = nat] drop_bit_eq_div [where 'a = nat]) (simp add: take_bit_eq_mod)
qed

lemma mask_ranges:
  fixes b :: u8
  shows "b AND 0xF0 = 0x10 \<longleftrightarrow> 16 \<le> unat b \<and> unat b \<le> 31"
    "b AND 0xF0 = 0xE0 \<longleftrightarrow> 224 \<le> unat b \<and> unat b \<le> 239"
    "b AND 0xC0 = 0x40 \<longleftrightarrow> 64 \<le> unat b \<and> unat b \<le> 127"
    "b AND 0xC0 = 0x80 \<longleftrightarrow> 128 \<le> unat b \<and> unat b \<le> 191"
    "b AND 0xFE = 0xFC \<longleftrightarrow> 252 \<le> unat b \<and> unat b \<le> 253"
proof -
  have m: "(0xF0 :: u8) = push_bit 4 (mask (8 - 4))" "(0xC0 :: u8) = push_bit 6 (mask (8 - 6))"
    "(0xFE :: u8) = push_bit 1 (mask (8 - 1))"
    by (simp_all add: mask_eq_exp_minus_1)
  have b: "unat b < 256" using unsigned_less [of b] by simp
  show "b AND 0xF0 = 0x10 \<longleftrightarrow> 16 \<le> unat b \<and> unat b \<le> 31"
    "b AND 0xF0 = 0xE0 \<longleftrightarrow> 224 \<le> unat b \<and> unat b \<le> 239"
    "b AND 0xC0 = 0x40 \<longleftrightarrow> 64 \<le> unat b \<and> unat b \<le> 127"
    "b AND 0xC0 = 0x80 \<longleftrightarrow> 128 \<le> unat b \<and> unat b \<le> 191"
    "b AND 0xFE = 0xFC \<longleftrightarrow> 252 \<le> unat b \<and> unat b \<le> 253"
    unfolding m word_unat_eq_iff [of "b AND push_bit _ _"]
    by (subst unat_top_mask; use b in auto)+
qed

text \<open>What each denied range means for the bytes of an address.\<close>

lemma denied_texts:
  assumes "address_lib_ok L"
  shows "in_denied L now kDeniedRanges a \<longleftrightarrow>
     (\<exists>(base, n) \<in> set [(V4 [10, 0, 0, 0], 8), (V4 [172, 16, 0, 0], 12), (V4 [192, 168, 0, 0], 16),
        (V4 [169, 254, 0, 0], 16), (V4 [100, 64, 0, 0], 10), (V4 [0, 0, 0, 0], 8),
        (V6 (0xFC # zeros 15) 0, 7), (V6 (0xFE # 0x80 # zeros 14) 0, 10)].
        if is_v4 a \<and> is_v4 base then prefix_matches (v4_bytes a) (v4_bytes base) n
        else is_v6 a \<and> is_v6 base \<and> prefix_matches (v6_bytes a) (v6_bytes base) n)"
proof -
  have mk: "al_make_address L ''10.0.0.0'' = Some (V4 [10, 0, 0, 0])"
    "al_make_address L ''172.16.0.0'' = Some (V4 [172, 16, 0, 0])"
    "al_make_address L ''192.168.0.0'' = Some (V4 [192, 168, 0, 0])"
    "al_make_address L ''169.254.0.0'' = Some (V4 [169, 254, 0, 0])"
    "al_make_address L ''100.64.0.0'' = Some (V4 [100, 64, 0, 0])"
    "al_make_address L ''0.0.0.0'' = Some (V4 [0, 0, 0, 0])"
    "al_make_address L ''fc00::'' = Some (V6 (0xFC # zeros 15) 0)"
    "al_make_address L ''fe80::'' = Some (V6 (0xFE # 0x80 # zeros 14) 0)"
    using assms by (simp_all add: address_lib_ok_def denied_bases_def)
  have split: "find_char (CHR ''/'') ''10.0.0.0/8'' = Some 8" "find_char (CHR ''/'') ''172.16.0.0/12'' = Some 10"
    "find_char (CHR ''/'') ''192.168.0.0/16'' = Some 11" "find_char (CHR ''/'') ''169.254.0.0/16'' = Some 11"
    "find_char (CHR ''/'') ''100.64.0.0/10'' = Some 10" "find_char (CHR ''/'') ''0.0.0.0/8'' = Some 7"
    "find_char (CHR ''/'') ''fc00::/7'' = Some 6" "find_char (CHR ''/'') ''fe80::/10'' = Some 6"
    by (simp_all add: find_char_def)
  have len: "from_chars_unsigned ''8'' = Some (8, [])" "from_chars_unsigned ''12'' = Some (12, [])"
    "from_chars_unsigned ''16'' = Some (16, [])" "from_chars_unsigned ''10'' = Some (10, [])"
    "from_chars_unsigned ''7'' = Some (7, [])"
    by (simp_all add: from_chars_unsigned_def isdigit_def read_nat_def digit_value_def)
  show ?thesis
    by (simp add: kDeniedRanges_def parse_cidr_def split len mk address_in_cidr_def)
qed

lemma range_bytes:
  "prefix_matches (a # b # bs) (10 # x) 8 \<longleftrightarrow> a = 10"
  "prefix_matches (a # b # bs) (0 # x) 8 \<longleftrightarrow> a = 0"
  "prefix_matches (a # b # bs) (172 # 16 # x) 12 \<longleftrightarrow> a = 172 \<and> b AND 0xF0 = 0x10"
  "prefix_matches (a # b # bs) (192 # 168 # x) 16 \<longleftrightarrow> a = 192 \<and> b = 168"
  "prefix_matches (a # b # bs) (169 # 254 # x) 16 \<longleftrightarrow> a = 169 \<and> b = 254"
  "prefix_matches (a # b # bs) (100 # 64 # x) 10 \<longleftrightarrow> a = 100 \<and> b AND 0xC0 = 0x40"
  "prefix_matches (a # b # bs) (0xFC # x) 7 \<longleftrightarrow> a AND 0xFE = 0xFC"
  "prefix_matches (a # b # bs) (0xFE # 0x80 # x) 10 \<longleftrightarrow> a = 0xFE \<and> b AND 0xC0 = 0x80"
proof -
  have m: "(4080 :: u8) = 240" "(16320 :: u8) = 192" "(510 :: u8) = 254" by simp_all
  show "prefix_matches (a # b # bs) (10 # x) 8 \<longleftrightarrow> a = 10"
    "prefix_matches (a # b # bs) (0 # x) 8 \<longleftrightarrow> a = 0"
    "prefix_matches (a # b # bs) (172 # 16 # x) 12 \<longleftrightarrow> a = 172 \<and> b AND 0xF0 = 0x10"
    "prefix_matches (a # b # bs) (192 # 168 # x) 16 \<longleftrightarrow> a = 192 \<and> b = 168"
    "prefix_matches (a # b # bs) (169 # 254 # x) 16 \<longleftrightarrow> a = 169 \<and> b = 254"
    "prefix_matches (a # b # bs) (100 # 64 # x) 10 \<longleftrightarrow> a = 100 \<and> b AND 0xC0 = 0x40"
    "prefix_matches (a # b # bs) (0xFC # x) 7 \<longleftrightarrow> a AND 0xFE = 0xFC"
    "prefix_matches (a # b # bs) (0xFE # 0x80 # x) 10 \<longleftrightarrow> a = 0xFE \<and> b AND 0xC0 = 0x80"
    by (simp_all add: prefix_matches_def Let_def m)
       (auto simp: numeral_2_eq_2 atLeast0_lessThan_Suc m)
qed

lemma byte_eq: "(b :: u8) = word_of_nat n \<longleftrightarrow> unat b = n" if "n < 256"
proof -
  have "unat (word_of_nat n :: u8) = n"
    using that by (simp add: unsigned_of_nat take_bit_nat_eq_self)
  then show ?thesis by (simp only: word_unat_eq_iff)
qed

lemma disallowed_v4:
  assumes L: "address_lib_ok L" and len: "length b = 4"
  shows "al_is_loopback L (V4 b) \<or> al_is_multicast L (V4 b) \<or> al_is_unspecified L (V4 b)
           \<or> in_denied L now kDeniedRanges (V4 b) \<longleftrightarrow> internal_v4 b"
proof -
  obtain a1 a2 a3 a4 where b: "b = [a1, a2, a3, a4]"
    using len by (auto simp: length_Suc_conv numeral_eq_Suc)
  have lib: "al_is_loopback L (V4 b) = (a1 = 127)" "al_is_multicast L (V4 b) = (a1 AND 0xF0 = 0xE0)"
    "al_is_unspecified L (V4 b) = (b = zeros 4)"
    using L len by (simp_all add: address_lib_ok_def b)
  have eqs: "a1 = 10 \<longleftrightarrow> unat a1 = 10" "a1 = 127 \<longleftrightarrow> unat a1 = 127" "a1 = 172 \<longleftrightarrow> unat a1 = 172"
    "a1 = 192 \<longleftrightarrow> unat a1 = 192" "a1 = 169 \<longleftrightarrow> unat a1 = 169" "a1 = 100 \<longleftrightarrow> unat a1 = 100"
    "a1 = 0 \<longleftrightarrow> unat a1 = 0" "a2 = 168 \<longleftrightarrow> unat a2 = 168" "a2 = 254 \<longleftrightarrow> unat a2 = 254"
    using byte_eq [of _ a1] byte_eq [of _ a2] by (simp_all add: word_unat_eq_iff)
  have denied: "in_denied L now kDeniedRanges (V4 b) \<longleftrightarrow>
      unat a1 = 10 \<or> unat a1 = 172 \<and> 16 \<le> unat a2 \<and> unat a2 \<le> 31 \<or> unat a1 = 192 \<and> unat a2 = 168
      \<or> unat a1 = 169 \<and> unat a2 = 254 \<or> unat a1 = 100 \<and> 64 \<le> unat a2 \<and> unat a2 \<le> 127 \<or> unat a1 = 0"
    unfolding denied_texts [OF L] b by (simp add: range_bytes mask_ranges flip: eqs)
  have "b = zeros 4 \<longrightarrow> unat a1 = 0" by (simp add: b zeros_def numeral_eq_Suc)
  then show ?thesis
    unfolding lib denied internal_v4_def mask_ranges eqs by (simp add: b Let_def) argo
qed

lemma disallowed_v6:
  assumes L: "address_lib_ok L" and len: "length b = 16"
  shows "al_is_loopback L (V6 b s) \<or> al_is_multicast L (V6 b s) \<or> al_is_unspecified L (V6 b s)
           \<or> in_denied L now kDeniedRanges (V6 b s) \<longleftrightarrow> internal_v6 b"
proof -
  obtain a1 a2 bs where b: "b = a1 # a2 # bs"
    using len by (auto simp: length_Suc_conv numeral_eq_Suc)
  have lib: "al_is_loopback L (V6 b s) = (b = zeros 15 @ [1])" "al_is_multicast L (V6 b s) = (a1 = 0xFF)"
    "al_is_unspecified L (V6 b s) = (b = zeros 16)"
    using L len by (simp_all add: address_lib_ok_def b)
  have eqs: "a1 = 0xFF \<longleftrightarrow> unat a1 = 0xFF" "a1 = 0xFE \<longleftrightarrow> unat a1 = 0xFE"
    by (simp_all add: word_unat_eq_iff)
  have denied: "in_denied L now kDeniedRanges (V6 b s) \<longleftrightarrow>
      252 \<le> unat a1 \<and> unat a1 \<le> 253 \<or> unat a1 = 0xFE \<and> 128 \<le> unat a2 \<and> unat a2 \<le> 191"
    unfolding denied_texts [OF L] b by (simp add: range_bytes mask_ranges flip: eqs)
  have "252 \<le> unat a1 \<and> unat a1 \<le> 253 \<longleftrightarrow> unat a1 = 252 \<or> unat a1 = 253" by linarith
  then show ?thesis
    unfolding lib denied internal_v6_def eqs by (simp add: b Let_def) argo
qed

text \<open>The guard against requests to the inside: for every well-formed address the code refuses exactly
  the loopback, private, shared, link-local, unspecified and multicast addresses, and an IPv6 address
  that maps an IPv4 address is treated as that address.\<close>

theorem is_disallowed_address_iff:
  assumes "address_lib_ok L" and "wf_address a"
  shows "is_disallowed_address L now a \<longleftrightarrow> internal a"
proof (cases a)
  case (V4 b)
  with assms disallowed_v4 [OF assms(1), of b now] show ?thesis
    by (auto simp: is_disallowed_address_def unwrap_v4_mapped_def)
next
  case (V6 b s)
  with assms have len: "length b = 16" by simp
  with assms(1) have m: "al_is_v4_mapped L b = (take 12 b = mapped_prefix)"
    "take 12 b = mapped_prefix \<Longrightarrow> al_make_address_v4 L b = drop 12 b"
    by (simp_all add: address_lib_ok_def)
  show ?thesis
    using disallowed_v4 [OF assms(1), of "drop 12 b" now] disallowed_v6 [OF assms(1) len, of s now] m len
    by (auto simp: V6 is_disallowed_address_def unwrap_v4_mapped_def)
qed

section \<open>What a download does\<close>

lemma first_allowed_Some:
  "first_allowed L now eps = Some ep \<Longrightarrow> ep \<in> set eps \<and> \<not> is_disallowed_address L now (fst ep)"
  by (induction eps) (auto split: if_splits)

lemma first_allowed_None:
  "first_allowed L now eps = None \<longleftrightarrow> (\<forall>ep \<in> set eps. is_disallowed_address L now (fst ep))"
  by (induction eps) auto

text \<open>The operations after the connection is chosen.\<close>

fun after_connect :: "net_action \<Rightarrow> bool" where
  "after_connect (Resolve_Host _ _) = False"
| "after_connect (Connect _) = False"
| "after_connect _ = True"

lemma exchange_request_trace: "list_all after_connect (snd (exchange_request nw tls r m))"
  by (simp add: exchange_request_def split: option.split)

lemma connect_and_get_trace:
  "\<exists>tail. snd (connect_and_get nw parsed ep m t) = Connect ep # tail \<and> list_all after_connect tail"
  by (auto simp: connect_and_get_def Let_def exchange_request_trace split: option.split)

lemma exchange_request_ok:
  "uf_ok (fst (exchange_request nw tls r m)) \<Longrightarrow>
     \<exists>status. dn_read nw tls m = Complete status (uf_body (fst (exchange_request nw tls r m))) \<and> status div 100 = 2"
  by (auto simp: exchange_request_def read_response_def fetch_failed_def
      split: option.splits read_outcome.splits if_splits)

lemma connect_and_get_ok:
  "uf_ok (fst (connect_and_get nw parsed ep m t)) \<Longrightarrow>
     dn_connect nw ep t = None \<and> (pu_https parsed \<longrightarrow> dn_handshake nw = None)
     \<and> (\<exists>status. dn_read nw (pu_https parsed) m = Complete status (uf_body (fst (connect_and_get nw parsed ep m t)))
          \<and> status div 100 = 2)"
  using exchange_request_ok [of nw]
  by (auto simp: connect_and_get_def Let_def fetch_failed_def split: option.splits if_splits)


definition boost_addresses :: address_lib where
  "boost_addresses =
     \<lparr>al_make_address = map_of denied_bases,
      al_is_loopback = (\<lambda>a. case a of V4 b \<Rightarrow> b ! 0 = 127 | V6 b _ \<Rightarrow> b = zeros 15 @ [1]),
      al_is_multicast = (\<lambda>a. case a of V4 b \<Rightarrow> b ! 0 AND 0xF0 = 0xE0 | V6 b _ \<Rightarrow> b ! 0 = 0xFF),
      al_is_unspecified = (\<lambda>a. case a of V4 b \<Rightarrow> b = zeros 4 | V6 b _ \<Rightarrow> b = zeros 16),
      al_is_v4_mapped = (\<lambda>b. take 12 b = mapped_prefix), al_make_address_v4 = drop 12\<rparr>"

lemma boost_addresses_ok: "address_lib_ok boost_addresses"
  by (simp add: address_lib_ok_def boost_addresses_def denied_bases_def)

text \<open>A host with a mapped loopback address, a private one and a public one: only the last is contacted.\<close>

definition sample_net :: download_net where
  "sample_net =
     \<lparr>dn_resolve = (\<lambda>h p. Inr [(V6 (mapped_prefix @ [127, 0, 0, 1]) 0, 80), (V4 [10, 0, 0, 5], 80),
        (V4 [203, 0, 113, 7], 80)]),
      dn_connect = (\<lambda>_ _. None), dn_set_sni = (\<lambda>_. True), dn_handshake = None, dn_write = (\<lambda>_ _. None),
      dn_read = (\<lambda>_ _. Complete 200 ''1.2.3.4'')\<rparr>"

lemma length_mapped_prefix [simp]: "length mapped_prefix = 12"
  by (simp add: mapped_prefix_def)

lemma sample_disallowed:
  "is_disallowed_address boost_addresses now (V6 (mapped_prefix @ [127, 0, 0, 1]) 0)"
  "is_disallowed_address boost_addresses now (V4 [10, 0, 0, 5])"
  "\<not> is_disallowed_address boost_addresses now (V4 [203, 0, 113, 7])"
  by (simp_all add: is_disallowed_address_iff boost_addresses_ok internal_v4_def)

lemma sample_resolve_wf:
  "dn_resolve sample_net h p = Inr es \<Longrightarrow> ep \<in> set es \<Longrightarrow> wf_address (fst ep)"
  by (auto simp: sample_net_def)

lemma sample_fetch:
  "fetch_url boost_addresses now sample_net ''http://lists.example/ips.list'' 100 60 =
     (\<lparr>uf_ok = True, uf_body = ''1.2.3.4'', uf_error = []\<rparr>,
      [Resolve_Host ''lists.example'' ''80'', Connect (V4 [203, 0, 113, 7], 80),
       Send False \<lparr>gr_target = ''/ips.list'', gr_host = ''lists.example'',
         gr_user_agent = ''atomwall-admin/1.0'', gr_connection = ''close''\<rparr>, Receive False 100])"
proof -
  have p: "parse_url ''http://lists.example/ips.list'' =
      Some \<lparr>pu_https = False, pu_host = ''lists.example'', pu_port = ''80'', pu_target = ''/ips.list''\<rparr>"
    by (simp add: parse_url_def parse_after_scheme_def parse_authority_def find_char_def substr_to_def)
  have f: "first_allowed boost_addresses now
      [(V6 (mapped_prefix @ [127, 0, 0, 1]) 0, 80), (V4 [10, 0, 0, 5], 80), (V4 [203, 0, 113, 7], 80)]
      = Some (V4 [203, 0, 113, 7], 80)"
    by (simp add: sample_disallowed)
  show ?thesis
    by (simp add: fetch_url_def p f connect_and_get_def exchange_request_def read_response_def
        sample_net_def Let_def del: first_allowed.simps)
qed


section \<open>Parsing\<close>

text \<open>A URL with an explicit port is taken apart as it was put together, and the first colon and the
  first slash decide: what follows the slash is the target, whatever it contains.\<close>

theorem parse_url_explicit_port:
  assumes "host \<noteq> []" "set host \<inter> {CHR ''/'', CHR '':'', CHR ''@'', CHR ''[''} = {}"
    and "port \<noteq> []" "set port \<inter> {CHR ''/'', CHR ''@''} = {}"
  shows "parse_url ((if https then ''https://'' else ''http://'') @ host @ '':'' @ port @ ''/'' @ rest) =
     Some \<lparr>pu_https = https, pu_host = host, pu_port = port, pu_target = ''/'' @ rest\<rparr>"
proof -
  let ?a = "host @ CHR '':'' # port"
  have slash: "find_char (CHR ''/'') (?a @ CHR ''/'' # rest) = Some (length ?a)"
    by (rule find_char_append) (use assms(2,4) in auto)
  have colon: "find_char (CHR '':'') ?a = Some (length host)"
    by (rule find_char_append) (use assms(2) in auto)
  have hd: "hd ?a \<noteq> CHR ''[''" using assms(1,2) by (cases host) auto
  have "parse_after_scheme https (?a @ CHR ''/'' # rest) =
      Some \<lparr>pu_https = https, pu_host = host, pu_port = port, pu_target = ''/'' @ rest\<rparr>"
    using assms hd unfolding parse_after_scheme_def slash
    by (simp add: substr_to_def parse_authority_def colon)
  then show ?thesis by (cases https) (simp_all add: parse_url_def)
qed

end
