(* ===== verification/Json_View.thy ===== *)
theory Json_View
  imports Json_Lib User_Store Blacklist_Ops Event_Logs Request_Log Ip_Block_Tracker Time_Format
begin

text \<open>
  \<^verbatim>\<open>admin/json_view.cpp\<close>: what the administration interface and the globe are told about each
  part of the state.  An object lists its members in the order of the assignments; the scores of
  the ban settings, a map in the source, appear in the order of their association list.  The
  theorems are about what these views reveal: they are functions of the public parts of the
  accounts alone.
\<close>

section \<open>Events and lists\<close>

definition jnat :: "nat \<Rightarrow> json" where
  "jnat n = JInt (int n)"

definition request_event_to_json :: "RequestEvent \<Rightarrow> json" where
  "request_event_to_json e = JObject
     [(''seq'', JInt (uint (re_seq e))), (''timestamp'', JString (to_iso8601 (re_timestamp e))),
      (''client_ip'', JString (re_client_ip e)), (''country'', JString (re_country e)),
      (''isp'', JString (re_isp e)), (''user_agent'', JString (re_user_agent e)),
      (''method'', JString (re_method e)), (''path'', JString (re_path e)),
      (''domain'', JString (re_domain e)), (''listener'', JString (re_listener e)),
      (''blocked'', JBool (re_blocked e)), (''block_reason'', JString (re_block_reason e)),
      (''status_code'', JInt (re_status_code e)),
      (''bytes_transferred'', JInt (uint (re_bytes_transferred e)))]"

definition request_events_to_json :: "RequestEvent list \<Rightarrow> json" where
  "request_events_to_json events = JArray (map request_event_to_json events)"

definition entry_list_to_json :: "BlacklistEntry list \<Rightarrow> json" where
  "entry_list_to_json values = JArray (map (\<lambda>e. JObject
     [(''value'', JString (entry_value e)), (''created_at'', JString (to_iso8601 (entry_created_at e))),
      (''created_by'', JString (entry_created_by e)), (''source'', JString (entry_source e))]) values)"

definition ip_entries_to_json :: "BlacklistEntry list \<Rightarrow> CidrRange list \<Rightarrow> json" where
  "ip_entries_to_json exact cidrs = JArray
     (map (\<lambda>e. JObject
        [(''value'', JString (entry_value e)), (''created_at'', JString (to_iso8601 (entry_created_at e))),
         (''created_by'', JString (entry_created_by e)), (''source'', JString (entry_source e))]) exact
      @ map (\<lambda>r. JObject
        [(''value'', JString (cidr_text r)), (''created_at'', JString (to_iso8601 (cidr_created_at r))),
         (''source'', JString (cidr_source r))]) cidrs)"

definition ip_blacklist_to_json :: "BlacklistConfig \<Rightarrow> json" where
  "ip_blacklist_to_json bl = ip_entries_to_json (bl_ip_exact bl) (bl_ip_cidrs bl)"

definition whitelist_to_json :: "WhitelistConfig \<Rightarrow> json" where
  "whitelist_to_json wl = ip_entries_to_json (wl_ip_exact wl) (wl_ip_cidrs wl)"

definition whitelist_routes_to_json :: "WhitelistConfig \<Rightarrow> json" where
  "whitelist_routes_to_json wl = entry_list_to_json (wl_routes wl)"

definition blacklist_to_json :: "BlacklistConfig \<Rightarrow> json" where
  "blacklist_to_json bl = JObject
     [(''ips'', ip_blacklist_to_json bl), (''routes'', entry_list_to_json (bl_routes bl)),
      (''countries'', entry_list_to_json (bl_countries bl)), (''isps'', entry_list_to_json (bl_isps bl)),
      (''user_agents'', entry_list_to_json (bl_user_agents bl)),
      (''referrers'', entry_list_to_json (bl_referrers bl)),
      (''body_patterns'', entry_list_to_json (bl_body_patterns bl)),
      (''fake_routes'', entry_list_to_json (bl_fake_routes bl)),
      (''max_body_size_bytes'', jnat (bl_max_body_size_bytes bl))]"

fun blacklist_category_to_json :: "BlacklistConfig \<Rightarrow> BlacklistCategory \<Rightarrow> json" where
  "blacklist_category_to_json bl Ips = ip_blacklist_to_json bl"
| "blacklist_category_to_json bl Routes = entry_list_to_json (bl_routes bl)"
| "blacklist_category_to_json bl Countries = entry_list_to_json (bl_countries bl)"
| "blacklist_category_to_json bl Isps = entry_list_to_json (bl_isps bl)"
| "blacklist_category_to_json bl UserAgents = entry_list_to_json (bl_user_agents bl)"
| "blacklist_category_to_json bl Referrers = entry_list_to_json (bl_referrers bl)"
| "blacklist_category_to_json bl BodyPatterns = entry_list_to_json (bl_body_patterns bl)"
| "blacklist_category_to_json bl FakeRoutes = entry_list_to_json (bl_fake_routes bl)"

definition exact_block_to_json :: "BlacklistEntry \<Rightarrow> json" where
  "exact_block_to_json e = JObject
     [(''text'', JString (entry_value e)), (''source'', JString (entry_source e)),
      (''permanent'', JBool True), (''created_at'', JString (to_iso8601 (entry_created_at e))),
      (''expires_at'', JNull)]"

definition range_block_to_json :: "CidrRange \<Rightarrow> json" where
  "range_block_to_json r = JObject
     [(''text'', JString (cidr_text r)), (''source'', JString (cidr_source r)),
      (''permanent'', JBool True), (''created_at'', JString (to_iso8601 (cidr_created_at r))),
      (''expires_at'', JNull)]"

definition temporary_block_to_json :: "TemporaryIpBlock \<Rightarrow> json" where
  "temporary_block_to_json b = JObject
     [(''text'', JString (tb_text b)), (''source'', JString (tb_source b)),
      (''permanent'', JBool False), (''created_at'', JString (to_iso8601 (tb_created_at b))),
      (''expires_at'', JString (to_iso8601 (tb_expires_at b))),
      (''score_at_block'', JInt (tb_score_at_block b))]"

definition ip_blocks_to_json :: "BlacklistConfig \<Rightarrow> TemporaryIpBlock list \<Rightarrow> json" where
  "ip_blocks_to_json bl temporary = JArray
     (map exact_block_to_json (bl_ip_exact bl) @ map range_block_to_json (bl_ip_cidrs bl)
      @ map temporary_block_to_json temporary)"

section \<open>Settings\<close>

definition site_to_json :: "SiteConfig \<Rightarrow> json" where
  "site_to_json site = JObject
     [(''domain'', JString (site_domain site)), (''enabled'', JBool (site_enabled site)),
      (''cert_file'', JString (site_cert_file site)), (''key_file'', JString (site_key_file site)),
      (''upstream_host'', JString (up_host (site_upstream site))),
      (''upstream_port'', JInt (uint (up_port (site_upstream site))))]"

definition sites_to_json :: "RuntimeConfig \<Rightarrow> json" where
  "sites_to_json config = JObject
     [(''default_site'', JObject
         [(''cert_file'', JString (https_cert_file (cfg_https config))),
          (''key_file'', JString (https_key_file (cfg_https config))),
          (''upstream_host'', JString (up_host (cfg_upstream config))),
          (''upstream_port'', JInt (uint (up_port (cfg_upstream config))))]),
      (''sites'', JArray (map site_to_json (cfg_sites config)))]"

definition ban_config_to_json :: "BanConfig \<Rightarrow> json" where
  "ban_config_to_json ban = JObject
     [(''enabled'', JBool (ban_enabled ban)), (''threshold'', JInt (ban_threshold ban)),
      (''ban_duration_hours'', JInt (ban_duration_hours ban)),
      (''scores'', JObject (map (\<lambda>(name, points). (name, JInt points)) (ban_scores ban)))]"

definition security_config_to_json :: "SecurityConfig \<Rightarrow> json" where
  "security_config_to_json security = JObject [(''require_2fa'', JBool (require_2fa security))]"

definition webauthn_credential_to_json :: "WebAuthnCredential \<Rightarrow> json" where
  "webauthn_credential_to_json c = JObject
     [(''id'', JString (wc_id_b64url c)), (''label'', JString (wc_label c)),
      (''created_at'', JString (to_iso8601 (wc_created_at c)))]"

definition webauthn_credentials_to_json :: "WebAuthnCredential list \<Rightarrow> json" where
  "webauthn_credentials_to_json credentials = JArray (map webauthn_credential_to_json credentials)"

fun count_unused :: "BackupCode list \<Rightarrow> nat" where
  "count_unused [] = 0"
| "count_unused (c # codes) = (if \<not> bc_used c then Suc (count_unused codes) else count_unused codes)"

definition two_factor_status_to_json :: "UserRecord \<Rightarrow> json" where
  "two_factor_status_to_json user = JObject
     [(''totp_enabled'', JBool (ur_totp user \<noteq> None)),
      (''backup_codes_remaining'', jnat (count_unused (ur_backup_codes user))),
      (''webauthn_credentials'', webauthn_credentials_to_json (ur_webauthn_credentials user))]"

definition speed_check_to_json :: "SpeedCheckConfig \<Rightarrow> json" where
  "speed_check_to_json s = JObject
     [(''enabled'', JBool (sc_enabled s)), (''max_requests'', JInt (sc_max_requests s)),
      (''window_seconds'', JInt (sc_window_seconds s))]"

definition method_check_to_json :: "MethodCheckConfig \<Rightarrow> json" where
  "method_check_to_json m = JObject
     [(''enabled'', JBool (mc_enabled m)), (''allowed_methods'', JArray (map JString (mc_allowed_methods m)))]"

definition emergency_off_to_json :: "EmergencyOffConfig \<Rightarrow> json" where
  "emergency_off_to_json e = JObject [(''enabled'', JBool (eo_enabled e))]"

definition status_page_to_json :: "StatusPageEntry \<Rightarrow> json" where
  "status_page_to_json e = JObject
     [(''code'', JInt (sp_code e)), (''html'', JString (sp_html e)),
      (''created_at'', JString (to_iso8601 (sp_created_at e)))]"

definition status_pages_to_json :: "StatusPageEntry list \<Rightarrow> json" where
  "status_pages_to_json entries = JArray (map status_page_to_json entries)"

definition pages_to_json :: "ResponsePagesConfig \<Rightarrow> json" where
  "pages_to_json pages = JObject
     [(''blocked_html'', JString (blocked_html pages)), (''banned_html'', JString (banned_html pages)),
      (''status_pages'', status_pages_to_json (status_pages pages))]"

definition request_log_config_to_json :: "RequestLogConfig \<Rightarrow> json" where
  "request_log_config_to_json r = JObject
     [(''enabled'', JBool (rl_enabled r)), (''csv_path'', JString (rl_csv_path r))]"

definition robots_txt_config_to_json :: "RobotsTxtConfig \<Rightarrow> json" where
  "robots_txt_config_to_json r = JObject [(''custom_content'', JString (custom_content r))]"

definition geoip_config_to_json :: "GeoIpConfig \<Rightarrow> bool \<Rightarrow> bool \<Rightarrow> json" where
  "geoip_config_to_json g loaded asn_loaded = JObject
     [(''mmdb_path'', JString (mmdb_path g)), (''loaded'', JBool loaded),
      (''asn_mmdb_path'', JString (asn_mmdb_path g)), (''asn_loaded'', JBool asn_loaded)]"

fun optional_double :: "double option \<Rightarrow> json" where
  "optional_double None = JNull"
| "optional_double (Some d) = JDouble d"

definition globe_config_to_json :: "GlobeConfig \<Rightarrow> json" where
  "globe_config_to_json g = JObject
     [(''public_enabled'', JBool (globe_public_enabled g)),
      (''public_bind'', JString (globe_public_bind_host g)),
      (''public_port'', JInt (uint (globe_public_port g))),
      (''public_tls_cert_file'', JString (globe_public_tls_cert_file g)),
      (''public_tls_key_file'', JString (globe_public_tls_key_file g)),
      (''server_lat'', optional_double (globe_server_lat g)),
      (''server_lon'', optional_double (globe_server_lon g)),
      (''auto_detect_server_location'', JBool (globe_auto_detect_server_location g)),
      (''history_size'', jnat (globe_history_size g))]"

definition globe_event_to_json :: "GlobeArcEvent \<Rightarrow> json" where
  "globe_event_to_json e = JObject
     [(''seq'', JInt (uint (arc_seq e))), (''timestamp'', JString (to_iso8601 (arc_timestamp e))),
      (''lat'', JDouble (arc_lat e)), (''lon'', JDouble (arc_lon e)), (''blocked'', JBool (arc_blocked e))]"

definition globe_events_to_json :: "GlobeArcEvent list \<Rightarrow> json" where
  "globe_events_to_json events = JArray (map globe_event_to_json events)"

fun server_location_to_json :: "GeoLocation option \<Rightarrow> json" where
  "server_location_to_json None = JNull"
| "server_location_to_json (Some location) =
     JObject [(''lat'', JDouble (geo_lat location)), (''lon'', JDouble (geo_lon location))]"

definition user_to_json :: "UserRecord \<Rightarrow> json" where
  "user_to_json u = JObject
     [(''username'', JString (ur_username u)), (''created_at'', JString (to_iso8601 (ur_created_at u))),
      (''has_2fa'', JBool (ur_totp u \<noteq> None))]"

definition users_to_json :: "UserRecord list \<Rightarrow> json" where
  "users_to_json users = JArray (map user_to_json users)"

definition login_event_to_json :: "LoginEvent \<Rightarrow> json" where
  "login_event_to_json e = JObject
     [(''timestamp'', JString (to_iso8601 (le_timestamp e))), (''username'', JString (le_username e)),
      (''client_ip'', JString (le_client_ip e))]"

definition login_events_to_json :: "LoginEvent list \<Rightarrow> json" where
  "login_events_to_json events = JArray (map login_event_to_json events)"

definition config_to_json :: "RuntimeConfig \<Rightarrow> json" where
  "config_to_json config = JObject
     [(''http'', JObject
         [(''enabled'', JBool (http_enabled (cfg_http config))),
          (''bind'', JString (http_bind_host (cfg_http config))),
          (''port'', JInt (uint (http_port (cfg_http config))))]),
      (''https'', JObject
         [(''enabled'', JBool (https_enabled (cfg_https config))),
          (''bind'', JString (https_bind_host (cfg_https config))),
          (''port'', JInt (uint (https_port (cfg_https config)))),
          (''cert_file'', JString (https_cert_file (cfg_https config))),
          (''key_file'', JString (https_key_file (cfg_https config)))]),
      (''upstream'', JObject
         [(''host'', JString (up_host (cfg_upstream config))),
          (''port'', JInt (uint (up_port (cfg_upstream config))))]),
      (''admin'', JObject
         [(''enabled'', JBool (admin_enabled (cfg_admin config))),
          (''bind'', JString (admin_bind_host (cfg_admin config))),
          (''port'', JInt (uint (admin_port (cfg_admin config))))]),
      (''limits'', JObject
         [(''max_header_bytes'', jnat (max_header_bytes (cfg_limits config))),
          (''max_body_bytes'', jnat (max_body_bytes (cfg_limits config))),
          (''upstream_connect_timeout_seconds'', JInt (upstream_connect_timeout (cfg_limits config))),
          (''request_timeout_seconds'', JInt (request_timeout (cfg_limits config)))]),
      (''sites'', sites_to_json config),
      (''blacklist'', blacklist_to_json (cfg_blacklist config)),
      (''whitelist'', whitelist_to_json (cfg_whitelist config)),
      (''whitelist_routes'', whitelist_routes_to_json (cfg_whitelist config)),
      (''ban'', ban_config_to_json (cfg_ban config)),
      (''speed_check'', speed_check_to_json (cfg_speed_check config)),
      (''method_check'', method_check_to_json (cfg_method_check config)),
      (''emergency_off'', emergency_off_to_json (cfg_emergency_off config)),
      (''globe'', globe_config_to_json (cfg_globe config)),
      (''security'', security_config_to_json (cfg_security config))]"

section \<open>What the views reveal\<close>

text \<open>The parts of an account that may leave the server: the password hash and its salt, the TOTP
  secret, the hashes of the backup codes, the public keys and counters of the passkeys and the user
  handle are not among them.\<close>

definition public_credential :: "WebAuthnCredential \<Rightarrow> string \<times> string \<times> ticks" where
  "public_credential c = (wc_id_b64url c, wc_label c, wc_created_at c)"

definition public_user :: "UserRecord \<Rightarrow> string \<times> ticks \<times> bool \<times> nat \<times> (string \<times> string \<times> ticks) list" where
  "public_user u = (ur_username u, ur_created_at u, ur_totp u \<noteq> None,
     length (filter (\<lambda>c. \<not> bc_used c) (ur_backup_codes u)),
     map public_credential (ur_webauthn_credentials u))"

lemma count_unused_filter: "count_unused codes = length (filter (\<lambda>c. \<not> bc_used c) codes)"
  by (induction codes) simp_all

lemma map_cong_by:
  assumes "map f xs = map f ys" and "\<And>x y. f x = f y \<Longrightarrow> g x = g y"
  shows "map g xs = map g ys"
proof (rule nth_equalityI)
  from assms(1) have len: "length xs = length ys" by (rule map_eq_imp_length_eq)
  then show "length (map g xs) = length (map g ys)" by simp
  fix i assume "i < length (map g xs)"
  with len assms(1) have "f (xs ! i) = f (ys ! i)" by (metis length_map nth_map)
  with assms(2) len \<open>i < length (map g xs)\<close> show "map g xs ! i = map g ys ! i" by (metis length_map nth_map)
qed

lemma credential_view: "public_credential c = public_credential c' \<Longrightarrow>
    webauthn_credential_to_json c = webauthn_credential_to_json c'"
  by (simp add: public_credential_def webauthn_credential_to_json_def)

lemma user_view: "public_user u = public_user u' \<Longrightarrow> user_to_json u = user_to_json u'"
  by (simp add: public_user_def user_to_json_def)

lemma status_view: "public_user u = public_user u' \<Longrightarrow> two_factor_status_to_json u = two_factor_status_to_json u'"
  using map_cong_by [of public_credential "ur_webauthn_credentials u" "ur_webauthn_credentials u'"
      webauthn_credential_to_json, OF _ credential_view]
  by (simp add: public_user_def two_factor_status_to_json_def webauthn_credentials_to_json_def count_unused_filter)

text \<open>C33: Two sets of accounts that agree on the public parts get the same answers from the account list
  and from the second factor status: no secret of an account influences what is sent.\<close>

theorem account_views_reveal_no_secrets:
  assumes "map public_user us = map public_user us'"
  shows "users_to_json us = users_to_json us' \<and> map two_factor_status_to_json us = map two_factor_status_to_json us'"
  using map_cong_by [of public_user us us' user_to_json, OF assms user_view]
    map_cong_by [of public_user us us' two_factor_status_to_json, OF assms status_view]
  by (simp add: users_to_json_def)

definition bare_user :: UserRecord where
  "bare_user = \<lparr>ur_username = ''ann'', ur_salt_hex = ''00'', ur_hash_hex = ''11'', ur_iterations = 1,
     ur_created_at = 0, ur_totp = Some \<lparr>tc_secret_base32 = ''AAAA''\<rparr>, ur_backup_codes = [],
     ur_webauthn_credentials = [], ur_webauthn_user_handle_b64 = None\<rparr>"

theorem account_views_reveal_no_secrets_witness:
  "users_to_json [bare_user] = users_to_json
     [bare_user\<lparr>ur_totp := Some \<lparr>tc_secret_base32 = ''BBBB''\<rparr>, ur_hash_hex := ''22''\<rparr>]"
  by (rule conjunct1, rule account_views_reveal_no_secrets) (simp add: public_user_def bare_user_def)

text \<open>The list of blocks shows every permanent entry and every temporary block, and tells them apart.\<close>

fun member :: "string \<Rightarrow> json \<Rightarrow> json option" where
  "member key (JObject o') = map_of o' key"
| "member key _ = None"

lemma block_members:
  "member ''text'' (exact_block_to_json e) = Some (JString (entry_value e))"
  "member ''text'' (range_block_to_json r) = Some (JString (cidr_text r))"
  "member ''text'' (temporary_block_to_json b) = Some (JString (tb_text b))"
  "member ''permanent'' (exact_block_to_json e) = Some (JBool True)"
  "member ''permanent'' (range_block_to_json r) = Some (JBool True)"
  "member ''permanent'' (temporary_block_to_json b) = Some (JBool False)"
  by (simp_all add: exact_block_to_json_def range_block_to_json_def temporary_block_to_json_def)

theorem ip_blocks_view_complete:
  "\<exists>permanent temp. ip_blocks_to_json bl temporary = JArray (permanent @ temp)
     \<and> map (member ''text'') permanent =
         map (\<lambda>t. Some (JString t)) (map entry_value (bl_ip_exact bl) @ map cidr_text (bl_ip_cidrs bl))
     \<and> map (member ''text'') temp = map (\<lambda>b. Some (JString (tb_text b))) temporary
     \<and> (\<forall>i \<in> set permanent. member ''permanent'' i = Some (JBool True))
     \<and> (\<forall>i \<in> set temp. member ''permanent'' i = Some (JBool False))"
  by (rule exI [of _ "map exact_block_to_json (bl_ip_exact bl) @ map range_block_to_json (bl_ip_cidrs bl)"],
      rule exI [of _ "map temporary_block_to_json temporary"])
     (auto simp: ip_blocks_to_json_def block_members)

end
