(* ===== verification/Yaml_Codec.thy ===== *)
theory Yaml_Codec
  imports Yaml_Lib Net_Utils Time_Format
begin

text \<open>
  \<^verbatim>\<open>config/yaml_codec.cpp\<close>: reading and writing the configuration file, over the YAML library
  interface of \<open>Yaml_Lib\<close>.  \<open>make_address\<close> (Boost) and the clock are parameters.  Reading
  throws where the library does: a subscript of a scalar, and \<open>as<T>()\<close> without a fallback.
  The main theorem is that what the writer stores is what the next start loads.
\<close>

section \<open>Timestamps\<close>

definition format_timestamp :: "ticks \<Rightarrow> string" where
  "format_timestamp tp =
     (let tm = gmtime (tdiv tp 1000000000)
      in take 31 (format_0d 4 (tm_year tm) @ ''-'' @ format_0d 2 (int (tm_mon tm)) @ ''-'' @
           format_0d 2 (int (tm_mday tm)) @ ''T'' @ format_0d 2 (int (tm_hour tm)) @ '':'' @
           format_0d 2 (int (tm_min tm)) @ '':'' @ format_0d 2 (int (tm_sec tm)) @ ''Z''))"

text \<open>The conversion \<open>%d\<close> of \<open>sscanf\<close>, and a literal character of the format.  (A run of digits beyond
  the range of \<open>int\<close> is undefined in C; here it keeps its value.)\<close>

definition scan_d :: "string \<Rightarrow> (int \<times> string) option" where
  "scan_d s =
     (let s = dropWhile isspace s;
          (negative, s) = (case s of c # cs \<Rightarrow> if c = CHR ''-'' then (True, cs)
                                               else if c = CHR ''+'' then (False, cs) else (False, s)
                                   | [] \<Rightarrow> (False, s));
          ds = takeWhile isdigit s
      in if ds = [] then None
         else Some (if negative then - int (read_nat ds) else int (read_nat ds), dropWhile isdigit s))"

fun scan_literal :: "char \<Rightarrow> string \<Rightarrow> string option" where
  "scan_literal c (x # xs) = (if x = c then Some xs else None)"
| "scan_literal c [] = None"

text \<open>\<open>"%d-%d-%dT%d:%d:%dZ"\<close>: the integers converted before the first mismatch; \<open>separators\<close> are the
  literals between them.\<close>

fun scan_fields :: "string \<Rightarrow> string \<Rightarrow> int list" where
  "scan_fields separators s =
     (case scan_d s of
        None \<Rightarrow> []
      | Some (v, s) \<Rightarrow>
          (case separators of
             [] \<Rightarrow> [v]
           | c # separators \<Rightarrow>
               (case scan_literal c s of
                  None \<Rightarrow> [v]
                | Some s \<Rightarrow> v # scan_fields separators s)))"

declare scan_fields.simps [simp del]

text \<open>\<open>timegm\<close> brings the month into its range and counts days of the Gregorian calendar.\<close>

definition timegm :: "int \<Rightarrow> int \<Rightarrow> int \<Rightarrow> int \<Rightarrow> int \<Rightarrow> int \<Rightarrow> int" where
  "timegm year mon mday hour minute sec =
     (let y = year + (mon - 1) div 12;
          m = nat ((mon - 1) mod 12);
          cycle = (y - 1970) div 400;
          days = 146097 * cycle + int (days_before_year (1970 + (y - 1970) mod 400))
                 + int (sum_list (take m (month_lens y))) + (mday - 1)
      in days * 86400 + hour * 3600 + minute * 60 + sec)"

definition from_time_t :: "int \<Rightarrow> ticks" where
  "from_time_t t = wrap64 (seconds t)"

definition parse_timestamp :: "string \<Rightarrow> ticks option" where
  "parse_timestamp s =
     (case scan_fields ''--T::'' s of
        [y, mo, d, h, mi, sec] \<Rightarrow> Some (from_time_t (timegm y mo d h mi sec))
      | _ \<Rightarrow> None)"

text \<open>Writing a time and reading it back cuts it to the second.\<close>

lemma scan_d_digits:
  assumes "ds \<noteq> []" and "list_all isdigit ds" and "rest = [] \<or> \<not> isdigit (hd rest)"
  shows "scan_d (ds @ rest) = Some (int (read_nat ds), rest)"
proof -
  from assms(1,2) obtain c cs where ds: "ds = c # cs" "isdigit c" "list_all isdigit cs" by (cases ds) auto
  then have c: "\<not> isspace c" "c \<noteq> CHR ''-''" "c \<noteq> CHR ''+''" by (auto simp: isdigit_def isspace_def)
  have "takeWhile isdigit (cs @ rest) = cs" "dropWhile isdigit (cs @ rest) = rest"
    using ds(3) assms(3) by (cases rest; simp add: list_all_iff takeWhile_append dropWhile_append)+
  with c ds show ?thesis by (simp add: scan_d_def)
qed

lemma days_before_year_ge: "365 * nat (y - 1970) \<le> days_before_year y"
proof -
  have "365 * length xs \<le> (\<Sum>z \<leftarrow> xs. year_len z)" for xs
    by (induction xs) (use year_len_pos in \<open>auto intro: add_mono\<close>)
  from this [of "[1970..y - 1]"] show ?thesis by (simp add: days_before_year_def)
qed

lemma timegm_gmtime:
  assumes "0 \<le> tt" and "tt < 2 ^ 63 div 1000000000 + 1"
  shows "timegm (tm_year (gmtime tt)) (int (tm_mon (gmtime tt))) (int (tm_mday (gmtime tt)))
     (int (tm_hour (gmtime tt))) (int (tm_min (gmtime tt))) (int (tm_sec (gmtime tt))) = tt"
proof -
  let ?t = "gmtime tt"
  from assms(2) have "tt < 86400 * 146097" by simp
  note g = gmtime_correct [OF assms(1) this]
  have m: "(int (tm_mon ?t) - 1) div 12 = 0" "nat ((int (tm_mon ?t) - 1) mod 12) = tm_mon ?t - 1"
    using g(3,4) by (auto simp: div_pos_pos_trivial mod_pos_pos_trivial)
  have sec: "int (days_of_date (tm_year ?t) (tm_mon ?t) (tm_mday ?t)) * 86400 + int (tm_hour ?t) * 3600
       + int (tm_min ?t) * 60 + int (tm_sec ?t) = tt" by (rule g(10))
  have year: "tm_year ?t < 2370"
  proof (rule ccontr)
    assume "\<not> tm_year ?t < 2370"
    with g(2) have y: "tm_year ?t = 2370" by simp
    have "146000 \<le> int (days_of_date (tm_year ?t) (tm_mon ?t) (tm_mday ?t))"
      using days_before_year_ge [of 2370] by (simp add: y days_of_date_def)
    with sec assms(2) show False by simp
  qed
  then have c: "(tm_year ?t - 1970) div 400 = 0" "(tm_year ?t - 1970) mod 400 = tm_year ?t - 1970"
    using g(1) by (auto simp: div_pos_pos_trivial mod_pos_pos_trivial)
  have "int (days_of_date (tm_year ?t) (tm_mon ?t) (tm_mday ?t)) =
      int (days_before_year (tm_year ?t)) + int (sum_list (take (tm_mon ?t - 1) (month_lens (tm_year ?t))))
      + (int (tm_mday ?t) - 1)"
    using g(5) by (simp add: days_of_date_def)
  with sec show ?thesis by (simp add: timegm_def m c)
qed

lemma scan_fields_step:
  assumes "ds \<noteq> []" and "list_all isdigit ds" and "\<not> isdigit c"
  shows "scan_fields (c # cs) (ds @ c # rest) = int (read_nat ds) # scan_fields cs rest"
  by (subst scan_fields.simps) (simp add: scan_d_digits [OF assms(1,2)] assms(3))

lemma scan_fields_last:
  assumes "ds \<noteq> []" and "list_all isdigit ds" and "rest = [] \<or> \<not> isdigit (hd rest)"
  shows "scan_fields [] (ds @ rest) = [int (read_nat ds)]"
  by (subst scan_fields.simps) (simp add: scan_d_digits [OF assms])

definition whole_second :: "ticks \<Rightarrow> ticks" where
  "whole_second tp = tp div 1000000000 * 1000000000"

theorem timestamp_roundtrip:
  assumes "0 \<le> tp" and "tp < 2 ^ 63"
  shows "parse_timestamp (format_timestamp tp) = Some (whole_second tp)"
proof -
  define tt where "tt = tp div 1000000000"
  let ?t = "gmtime tt"
  have tt: "0 \<le> tt" "tt < 2 ^ 63 div 1000000000 + 1" "tdiv tp 1000000000 = tt"
    using assms zdiv_mono1 [of tp "2 ^ 63" 1000000000]
    by (simp_all add: tt_def pos_imp_zdiv_nonneg_iff tdiv_def)
  have big: "tt < 86400 * 146097" using tt(2) by simp
  note g = gmtime_correct [OF tt(1) big]
  have y: "int (nat (tm_year ?t)) = tm_year ?t" using g(1) by simp
  have b: "nat (tm_year ?t) < 10 ^ 4" "tm_mon ?t < 10 ^ 2" "tm_mday ?t < 10 ^ 2" "tm_hour ?t < 10 ^ 2"
    "tm_min ?t < 10 ^ 2" "tm_sec ?t < 10 ^ 2" using g by (simp_all add: nat_less_iff)
  note f = format_0d_fits [OF _ b(1)] format_0d_fits [OF _ b(2)] format_0d_fits [OF _ b(3)]
    format_0d_fits [OF _ b(4)] format_0d_fits [OF _ b(5)] format_0d_fits [OF _ b(6)]
  define ys ms ds hs mis ss where "ys = format_0d 4 (tm_year ?t)"
    and "ms = format_0d 2 (int (tm_mon ?t))" and "ds = format_0d 2 (int (tm_mday ?t))"
    and "hs = format_0d 2 (int (tm_hour ?t))" and "mis = format_0d 2 (int (tm_min ?t))"
    and "ss = format_0d 2 (int (tm_sec ?t))"
  note parts = ys_def ms_def ds_def hs_def mis_def ss_def
  have len: "length ys = 4" "length ms = 2" "length ds = 2" "length hs = 2" "length mis = 2" "length ss = 2"
    using f(1) [unfolded y] f(4,7,10,13,16) by (simp_all add: parts)
  have dig: "list_all isdigit ys" "list_all isdigit ms" "list_all isdigit ds" "list_all isdigit hs"
    "list_all isdigit mis" "list_all isdigit ss"
    using f(3) [unfolded y] f(6,9,12,15,18) by (simp_all add: parts)
  have val: "int (read_nat ys) = tm_year ?t" "read_nat ms = tm_mon ?t" "read_nat ds = tm_mday ?t"
    "read_nat hs = tm_hour ?t" "read_nat mis = tm_min ?t" "read_nat ss = tm_sec ?t"
    using f(2) [unfolded y] f(5,8,11,14,17) g(1) by (simp_all add: parts)
  have ne: "ys \<noteq> []" "ms \<noteq> []" "ds \<noteq> []" "hs \<noteq> []" "mis \<noteq> []" "ss \<noteq> []" using len by auto
  have fmt: "format_timestamp tp =
      ys @ CHR ''-'' # ms @ CHR ''-'' # ds @ CHR ''T'' # hs @ CHR '':'' # mis @ CHR '':'' # ss @ ''Z''"
    unfolding format_timestamp_def Let_def tt(3)
    by (subst take_all) (use len in \<open>simp_all add: parts\<close>)
  have "scan_fields ''--T::'' (format_timestamp tp) =
      [tm_year ?t, int (tm_mon ?t), int (tm_mday ?t), int (tm_hour ?t), int (tm_min ?t), int (tm_sec ?t)]"
    unfolding fmt using ne dig
    by (simp add: scan_fields_step scan_fields_last [of ss "''Z''"] isdigit_def val)
  moreover have "from_time_t tt = whole_second tp"
  proof -
    have "tt * 1000000000 \<le> tp" "0 \<le> tt * 1000000000"
      using tt(1) minus_mod_eq_div_mult [of tp 1000000000] pos_mod_sign [of 1000000000 tp]
      by (simp_all add: tt_def)
    with assms(2) show ?thesis
      by (simp add: from_time_t_def seconds_def whole_second_def wrap64_id flip: tt_def)
  qed
  ultimately show ?thesis
    by (simp add: parse_timestamp_def timegm_gmtime [OF tt(1,2)])
qed

section \<open>Lists of entries\<close>

record RawEntry =
  raw_value :: string
  raw_created_at :: ticks
  raw_created_by :: string
  raw_source :: string

definition is_blank :: "string \<Rightarrow> bool" where
  "is_blank s = list_all isspace s"

text \<open>The body of the \<open>try\<close> block; an exception of the library skips the entry.\<close>

definition raw_entry_of :: "'n yaml_lib \<Rightarrow> ticks \<Rightarrow> 'n \<Rightarrow> RawEntry result" where
  "raw_entry_of y now item =
     (if y_is_scalar y item then
        bind_result (required (y_string y) (Some item)) (\<lambda>value.
          Inr \<lparr>raw_value = value, raw_created_at = now, raw_created_by = [], raw_source = ''manual''\<rparr>)
      else
        bind_result (required (y_string y) (y_get y item ''value'')) (\<lambda>value.
        bind_result (case y_get y item ''created_at'' of
                       None \<Rightarrow> Inr now
                     | Some ts \<Rightarrow> bind_result (required (y_string y) (Some ts)) (\<lambda>t.
                         Inr (case parse_timestamp t of None \<Rightarrow> now | Some parsed \<Rightarrow> parsed))) (\<lambda>created_at.
        bind_result (case y_get y item ''created_by'' of
                       None \<Rightarrow> Inr [] | Some n \<Rightarrow> required (y_string y) (Some n)) (\<lambda>created_by.
        bind_result (case y_get y item ''source'' of
                       None \<Rightarrow> Inr ''manual'' | Some n \<Rightarrow> required (y_string y) (Some n)) (\<lambda>source.
          Inr \<lparr>raw_value = value, raw_created_at = created_at, raw_created_by = created_by,
               raw_source = source\<rparr>)))))"

definition read_raw_entry :: "'n yaml_lib \<Rightarrow> ticks \<Rightarrow> 'n \<Rightarrow> RawEntry option" where
  "read_raw_entry y now item =
     (case raw_entry_of y now item of
        Inl _ \<Rightarrow> None
      | Inr entry \<Rightarrow> if is_blank (raw_value entry) then None else Some entry)"

definition to_entry :: "RawEntry \<Rightarrow> BlacklistEntry" where
  "to_entry raw = \<lparr>entry_value = raw_value raw, entry_created_at = raw_created_at raw,
     entry_created_by = raw_created_by raw, entry_source = raw_source raw\<rparr>"

fun read_items :: "'n yaml_lib \<Rightarrow> ticks \<Rightarrow> 'n list \<Rightarrow> BlacklistEntry list" where
  "read_items y now [] = []"
| "read_items y now (item # items) =
     (case read_raw_entry y now item of
        None \<Rightarrow> read_items y now items
      | Some raw \<Rightarrow> to_entry raw # read_items y now items)"

definition read_entry_list :: "'n yaml_lib \<Rightarrow> ticks \<Rightarrow> 'n option \<Rightarrow> BlacklistEntry list" where
  "read_entry_list y now node = (case node of None \<Rightarrow> [] | Some n \<Rightarrow> read_items y now (y_items y n))"

definition entry_node :: "'n yaml_lib \<Rightarrow> BlacklistEntry \<Rightarrow> 'n" where
  "entry_node y e = y_map y
     [(''value'', y_of_string y (entry_value e)),
      (''created_at'', y_of_string y (format_timestamp (entry_created_at e))),
      (''created_by'', y_of_string y (entry_created_by e)), (''source'', y_of_string y (entry_source e))]"

definition write_entry_list :: "'n yaml_lib \<Rightarrow> BlacklistEntry list \<Rightarrow> 'n" where
  "write_entry_list y values = y_seq y (map (entry_node y) values)"

fun read_ip_items ::
  "'n yaml_lib \<Rightarrow> (string \<Rightarrow> ip_address option) \<Rightarrow> ticks \<Rightarrow> 'n list \<Rightarrow> BlacklistEntry list \<times> CidrRange list" where
  "read_ip_items y mk now [] = ([], [])"
| "read_ip_items y mk now (item # items) =
     (let (exact, cidrs) = read_ip_items y mk now items in
      case read_raw_entry y now item of
        None \<Rightarrow> (exact, cidrs)
      | Some raw \<Rightarrow>
          (if CHR ''/'' \<in> set (raw_value raw)
           then (case parse_cidr mk now (raw_value raw) of
                   None \<Rightarrow> (exact, cidrs)
                 | Some r \<Rightarrow> (exact, r\<lparr>cidr_created_at := raw_created_at raw, cidr_source := raw_source raw\<rparr> # cidrs))
           else (if mk (raw_value raw) = None then (exact, cidrs) else (to_entry raw # exact, cidrs))))"

definition read_ip_list ::
  "'n yaml_lib \<Rightarrow> (string \<Rightarrow> ip_address option) \<Rightarrow> ticks \<Rightarrow> 'n option \<Rightarrow> BlacklistEntry list \<times> CidrRange list" where
  "read_ip_list y mk now node =
     (case node of None \<Rightarrow> ([], []) | Some n \<Rightarrow> read_ip_items y mk now (y_items y n))"

definition range_node :: "'n yaml_lib \<Rightarrow> CidrRange \<Rightarrow> 'n" where
  "range_node y r = y_map y
     [(''value'', y_of_string y (cidr_text r)),
      (''created_at'', y_of_string y (format_timestamp (cidr_created_at r))),
      (''source'', y_of_string y (cidr_source r))]"

definition write_ip_list :: "'n yaml_lib \<Rightarrow> BlacklistEntry list \<Rightarrow> CidrRange list \<Rightarrow> 'n" where
  "write_ip_list y exact cidrs = y_seq y (map (entry_node y) exact @ map (range_node y) cidrs)"

section \<open>Reading the settings\<close>

text \<open>The conversions of the library for each integer type.\<close>

definition y_within :: "int \<Rightarrow> int \<Rightarrow> 'n yaml_lib \<Rightarrow> 'n \<Rightarrow> int option" where
  "y_within lo hi y n =
     (case y_int y n of None \<Rightarrow> None | Some i \<Rightarrow> if lo \<le> i \<and> i \<le> hi then Some i else None)"

definition y_port :: "'n yaml_lib \<Rightarrow> 'n \<Rightarrow> u16 option" where
  "y_port y n = map_option word_of_int (y_within 0 65535 y n)"

definition y_size :: "'n yaml_lib \<Rightarrow> 'n \<Rightarrow> nat option" where
  "y_size y n = map_option nat (y_within 0 (2 ^ 64 - 1) y n)"

definition y_int32 :: "'n yaml_lib \<Rightarrow> 'n \<Rightarrow> int option" where
  "y_int32 = y_within int_min int_max"

definition y_int64 :: "'n yaml_lib \<Rightarrow> 'n \<Rightarrow> int option" where
  "y_int64 = y_within (- (2 ^ 63)) (2 ^ 63 - 1)"

definition bad_subscript :: error where
  "bad_subscript = RuntimeError ''operator[] call on a scalar''"

text \<open>\<open>if (auto n = root[name])\<close>; every section but the list of sites then subscripts \<open>n\<close>.\<close>

definition subscript :: "'n yaml_lib \<Rightarrow> 'n \<Rightarrow> string \<Rightarrow> 'n option result" where
  "subscript y n key = (if y_is_scalar y n then throw bad_subscript else Inr (y_get y n key))"

definition read_section :: "'n yaml_lib \<Rightarrow> 'n \<Rightarrow> string \<Rightarrow> 'a \<Rightarrow> ('n \<Rightarrow> 'a result) \<Rightarrow> 'a result" where
  "read_section y root' name d f =
     bind_result (subscript y root' name) (\<lambda>r.
       case r of
         None \<Rightarrow> Inr d
       | Some n \<Rightarrow> if y_is_scalar y n then throw bad_subscript else f n)"

definition read_http :: "'n yaml_lib \<Rightarrow> 'n \<Rightarrow> HttpListenerConfig" where
  "read_http y n =
     \<lparr>http_enabled = with_fallback (y_bool y) (http_enabled default_http) (y_get y n ''enabled''),
      http_bind_host = with_fallback (y_string y) (http_bind_host default_http) (y_get y n ''bind''),
      http_port = with_fallback (y_port y) (http_port default_http) (y_get y n ''port'')\<rparr>"

definition read_https :: "'n yaml_lib \<Rightarrow> 'n \<Rightarrow> HttpsListenerConfig" where
  "read_https y n =
     \<lparr>https_enabled = with_fallback (y_bool y) (https_enabled default_https) (y_get y n ''enabled''),
      https_bind_host = with_fallback (y_string y) (https_bind_host default_https) (y_get y n ''bind''),
      https_port = with_fallback (y_port y) (https_port default_https) (y_get y n ''port''),
      https_cert_file = with_fallback (y_string y) (https_cert_file default_https) (y_get y n ''cert_file''),
      https_key_file = with_fallback (y_string y) (https_key_file default_https) (y_get y n ''key_file'')\<rparr>"

definition read_upstream :: "'n yaml_lib \<Rightarrow> 'n \<Rightarrow> UpstreamConfig" where
  "read_upstream y n =
     \<lparr>up_host = with_fallback (y_string y) (up_host default_upstream) (y_get y n ''host''),
      up_port = with_fallback (y_port y) (up_port default_upstream) (y_get y n ''port'')\<rparr>"

text \<open>One item of the list of sites; \<open>None\<close> skips it.\<close>

definition read_site :: "'n yaml_lib \<Rightarrow> 'n \<Rightarrow> SiteConfig option result" where
  "read_site y item =
     bind_result (subscript y item ''domain'') (\<lambda>d.
       let domain = to_lower (with_fallback (y_string y) [] d) in
       if domain = [] then Inr None
       else
         bind_result (case y_get y item ''upstream'' of
                        None \<Rightarrow> Inr default_upstream
                      | Some up \<Rightarrow> if y_is_scalar y up then throw bad_subscript else Inr (read_upstream y up))
           (\<lambda>upstream. Inr (Some
             \<lparr>site_domain = domain,
              site_enabled = with_fallback (y_bool y) True (y_get y item ''enabled''),
              site_cert_file = with_fallback (y_string y) [] (y_get y item ''cert_file''),
              site_key_file = with_fallback (y_string y) [] (y_get y item ''key_file''),
              site_upstream = upstream\<rparr>)))"

fun read_sites :: "'n yaml_lib \<Rightarrow> 'n list \<Rightarrow> SiteConfig list result" where
  "read_sites y [] = Inr []"
| "read_sites y (item # items) =
     bind_result (read_site y item) (\<lambda>site.
     bind_result (read_sites y items) (\<lambda>sites.
       Inr (case site of None \<Rightarrow> sites | Some s \<Rightarrow> s # sites)))"

definition read_site_list :: "'n yaml_lib \<Rightarrow> 'n \<Rightarrow> SiteConfig list result" where
  "read_site_list y root' =
     bind_result (subscript y root' ''sites'') (\<lambda>n.
       case n of None \<Rightarrow> Inr [] | Some n \<Rightarrow> read_sites y (y_items y n))"

definition read_admin :: "'n yaml_lib \<Rightarrow> 'n \<Rightarrow> AdminConfig" where
  "read_admin y n =
     \<lparr>admin_enabled = with_fallback (y_bool y) (admin_enabled default_admin) (y_get y n ''enabled''),
      admin_bind_host = with_fallback (y_string y) (admin_bind_host default_admin) (y_get y n ''bind''),
      admin_port = with_fallback (y_port y) (admin_port default_admin) (y_get y n ''port''),
      admin_static_dir = with_fallback (y_string y) (admin_static_dir default_admin) (y_get y n ''static_dir''),
      admin_tls_cert_file = with_fallback (y_string y) (admin_tls_cert_file default_admin) (y_get y n ''tls_cert_file''),
      admin_tls_key_file = with_fallback (y_string y) (admin_tls_key_file default_admin) (y_get y n ''tls_key_file'')\<rparr>"

definition read_limits :: "'n yaml_lib \<Rightarrow> 'n \<Rightarrow> LimitsConfig" where
  "read_limits y n =
     \<lparr>max_header_bytes = with_fallback (y_size y) (max_header_bytes default_limits) (y_get y n ''max_header_bytes''),
      max_body_bytes = with_fallback (y_size y) (max_body_bytes default_limits) (y_get y n ''max_body_bytes''),
      upstream_connect_timeout = with_fallback (y_int64 y) (upstream_connect_timeout default_limits)
        (y_get y n ''upstream_connect_timeout_seconds''),
      request_timeout = with_fallback (y_int64 y) (request_timeout default_limits)
        (y_get y n ''request_timeout_seconds'')\<rparr>"

definition read_blacklist :: "'n yaml_lib \<Rightarrow> (string \<Rightarrow> ip_address option) \<Rightarrow> ticks \<Rightarrow> 'n \<Rightarrow> BlacklistConfig" where
  "read_blacklist y mk now n =
     (let (exact, cidrs) = read_ip_list y mk now (y_get y n ''ips'') in
      \<lparr>bl_ip_exact = exact, bl_ip_cidrs = cidrs,
       bl_routes = read_entry_list y now (y_get y n ''routes''),
       bl_countries = read_entry_list y now (y_get y n ''countries''),
       bl_isps = read_entry_list y now (y_get y n ''isps''),
       bl_user_agents = read_entry_list y now (y_get y n ''user_agents''),
       bl_referrers = read_entry_list y now (y_get y n ''referrers''),
       bl_body_patterns = read_entry_list y now (y_get y n ''body_patterns''),
       bl_fake_routes = read_entry_list y now (y_get y n ''fake_routes''),
       bl_max_body_size_bytes = with_fallback (y_size y) (bl_max_body_size_bytes default_blacklist)
         (y_get y n ''max_body_size_bytes'')\<rparr>)"

definition read_whitelist :: "'n yaml_lib \<Rightarrow> (string \<Rightarrow> ip_address option) \<Rightarrow> ticks \<Rightarrow> 'n \<Rightarrow> WhitelistConfig" where
  "read_whitelist y mk now n =
     (let (exact, cidrs) = read_ip_list y mk now (y_get y n ''ips'') in
      \<lparr>wl_ip_exact = exact, wl_ip_cidrs = cidrs, wl_routes = read_entry_list y now (y_get y n ''routes'')\<rparr>)"

fun read_scores :: "'n yaml_lib \<Rightarrow> (string \<times> 'n) list \<Rightarrow> (string, int) umap \<Rightarrow> (string, int) umap result" where
  "read_scores y [] scores = Inr scores"
| "read_scores y ((name, v) # pairs) scores =
     bind_result (required (y_int32 y) (Some v)) (\<lambda>points. read_scores y pairs (um_put name points scores))"

definition read_ban :: "'n yaml_lib \<Rightarrow> 'n \<Rightarrow> BanConfig result" where
  "read_ban y n =
     bind_result (case y_get y n ''scores'' of
                    None \<Rightarrow> Inr (ban_scores default_ban)
                  | Some scores \<Rightarrow> read_scores y (y_pairs y scores) []) (\<lambda>scores.
       Inr \<lparr>ban_enabled = with_fallback (y_bool y) (ban_enabled default_ban) (y_get y n ''enabled''),
            ban_threshold = with_fallback (y_int32 y) (ban_threshold default_ban) (y_get y n ''threshold''),
            ban_duration_hours = with_fallback (y_int32 y) (ban_duration_hours default_ban)
              (y_get y n ''ban_duration_hours''),
            ban_scores = scores\<rparr>)"

definition read_method_check :: "'n yaml_lib \<Rightarrow> 'n \<Rightarrow> MethodCheckConfig result" where
  "read_method_check y n =
     bind_result (case y_get y n ''allowed_methods'' of
                    None \<Rightarrow> Inr (mc_allowed_methods default_method_check)
                  | Some methods \<Rightarrow> map_result (\<lambda>item. required (y_string y) (Some item)) (y_items y methods))
       (\<lambda>methods. Inr
          \<lparr>mc_enabled = with_fallback (y_bool y) (mc_enabled default_method_check) (y_get y n ''enabled''),
           mc_allowed_methods = methods\<rparr>)"

definition read_speed_check :: "'n yaml_lib \<Rightarrow> 'n \<Rightarrow> SpeedCheckConfig" where
  "read_speed_check y n =
     \<lparr>sc_enabled = with_fallback (y_bool y) (sc_enabled default_speed_check) (y_get y n ''enabled''),
      sc_max_requests = with_fallback (y_int32 y) (sc_max_requests default_speed_check) (y_get y n ''max_requests''),
      sc_window_seconds = with_fallback (y_int32 y) (sc_window_seconds default_speed_check)
        (y_get y n ''window_seconds'')\<rparr>"

definition read_status_page :: "'n yaml_lib \<Rightarrow> ticks \<Rightarrow> 'n \<Rightarrow> StatusPageEntry result" where
  "read_status_page y now item =
     bind_result (subscript y item ''code'') (\<lambda>code.
     bind_result (required (y_int32 y) code) (\<lambda>code.
     bind_result (required (y_string y) (y_get y item ''html'')) (\<lambda>html.
     bind_result (case y_get y item ''created_at'' of
                    None \<Rightarrow> Inr now
                  | Some ts \<Rightarrow> bind_result (required (y_string y) (Some ts)) (\<lambda>t.
                      Inr (case parse_timestamp t of None \<Rightarrow> now | Some parsed \<Rightarrow> parsed))) (\<lambda>created_at.
       Inr \<lparr>sp_code = code, sp_html = html, sp_created_at = created_at\<rparr>))))"

definition read_pages :: "'n yaml_lib \<Rightarrow> ticks \<Rightarrow> 'n \<Rightarrow> ResponsePagesConfig result" where
  "read_pages y now n =
     bind_result (case y_get y n ''status_pages'' of
                    None \<Rightarrow> Inr (status_pages default_pages)
                  | Some ps \<Rightarrow> map_result (read_status_page y now) (y_items y ps)) (\<lambda>ps.
       Inr \<lparr>blocked_html = with_fallback (y_string y) (blocked_html default_pages) (y_get y n ''blocked_html''),
            banned_html = with_fallback (y_string y) (banned_html default_pages) (y_get y n ''banned_html''),
            status_pages = ps\<rparr>)"

definition read_coordinate :: "'n yaml_lib \<Rightarrow> 'n option \<Rightarrow> double option result" where
  "read_coordinate y node =
     (case node of
        None \<Rightarrow> Inr None
      | Some n \<Rightarrow> if y_is_null y n then Inr None
                  else bind_result (required (y_double y) (Some n)) (\<lambda>d. Inr (Some d)))"

definition read_globe :: "'n yaml_lib \<Rightarrow> 'n \<Rightarrow> GlobeConfig result" where
  "read_globe y n =
     bind_result (read_coordinate y (y_get y n ''server_lat'')) (\<lambda>lat.
     bind_result (read_coordinate y (y_get y n ''server_lon'')) (\<lambda>lon.
       Inr \<lparr>globe_public_enabled = with_fallback (y_bool y) (globe_public_enabled default_globe)
              (y_get y n ''public_enabled''),
            globe_public_bind_host = with_fallback (y_string y) (globe_public_bind_host default_globe)
              (y_get y n ''public_bind''),
            globe_public_port = with_fallback (y_port y) (globe_public_port default_globe) (y_get y n ''public_port''),
            globe_public_tls_cert_file = with_fallback (y_string y) (globe_public_tls_cert_file default_globe)
              (y_get y n ''public_tls_cert_file''),
            globe_public_tls_key_file = with_fallback (y_string y) (globe_public_tls_key_file default_globe)
              (y_get y n ''public_tls_key_file''),
            globe_server_lat = lat, globe_server_lon = lon,
            globe_auto_detect_server_location = with_fallback (y_bool y)
              (globe_auto_detect_server_location default_globe) (y_get y n ''auto_detect_server_location''),
            globe_history_size = with_fallback (y_size y) (globe_history_size default_globe)
              (y_get y n ''history_size'')\<rparr>))"

definition parse_yaml_config ::
  "'n yaml_lib \<Rightarrow> (string \<Rightarrow> ip_address option) \<Rightarrow> ticks \<Rightarrow> string \<Rightarrow> RuntimeConfig result" where
  "parse_yaml_config y mk now yaml_text =
     bind_result (case y_load y yaml_text of None \<Rightarrow> throw (RuntimeError ''yaml'') | Some n \<Rightarrow> Inr n) (\<lambda>r.
     bind_result (read_section y r ''http'' default_http (\<lambda>n. Inr (read_http y n))) (\<lambda>http.
     bind_result (read_section y r ''https'' default_https (\<lambda>n. Inr (read_https y n))) (\<lambda>https.
     bind_result (read_section y r ''upstream'' default_upstream (\<lambda>n. Inr (read_upstream y n))) (\<lambda>upstream.
     bind_result (read_site_list y r) (\<lambda>sites.
     bind_result (read_section y r ''admin'' default_admin (\<lambda>n. Inr (read_admin y n))) (\<lambda>admin.
     bind_result (read_section y r ''limits'' default_limits (\<lambda>n. Inr (read_limits y n))) (\<lambda>limits.
     bind_result (read_section y r ''blacklist'' default_blacklist (\<lambda>n. Inr (read_blacklist y mk now n))) (\<lambda>blacklist.
     bind_result (read_section y r ''whitelist'' default_whitelist (\<lambda>n. Inr (read_whitelist y mk now n))) (\<lambda>whitelist.
     bind_result (read_section y r ''ban'' default_ban (read_ban y)) (\<lambda>ban.
     bind_result (read_section y r ''security'' \<lparr>require_2fa = False\<rparr> (\<lambda>n. Inr
       \<lparr>require_2fa = with_fallback (y_bool y) False (y_get y n ''require_2fa'')\<rparr>)) (\<lambda>security.
     bind_result (read_section y r ''method_check'' default_method_check (read_method_check y)) (\<lambda>methods.
     bind_result (read_section y r ''emergency_off'' \<lparr>eo_enabled = False\<rparr> (\<lambda>n. Inr
       \<lparr>eo_enabled = with_fallback (y_bool y) False (y_get y n ''enabled'')\<rparr>)) (\<lambda>emergency.
     bind_result (read_section y r ''speed_check'' default_speed_check (\<lambda>n. Inr (read_speed_check y n))) (\<lambda>speed.
     bind_result (read_section y r ''pages'' default_pages (read_pages y now)) (\<lambda>pages.
     bind_result (read_section y r ''robots_txt'' \<lparr>custom_content = []\<rparr> (\<lambda>n. Inr
       \<lparr>custom_content = with_fallback (y_string y) [] (y_get y n ''custom_content'')\<rparr>)) (\<lambda>robots.
     bind_result (read_section y r ''request_log'' default_request_log (\<lambda>n. Inr
       \<lparr>rl_enabled = with_fallback (y_bool y) (rl_enabled default_request_log) (y_get y n ''enabled''),
        rl_csv_path = with_fallback (y_string y) (rl_csv_path default_request_log) (y_get y n ''csv_path'')\<rparr>)) (\<lambda>request_log.
     bind_result (read_section y r ''geoip'' default_geoip (\<lambda>n. Inr
       \<lparr>mmdb_path = with_fallback (y_string y) (mmdb_path default_geoip) (y_get y n ''mmdb_path''),
        asn_mmdb_path = with_fallback (y_string y) (asn_mmdb_path default_geoip) (y_get y n ''asn_mmdb_path'')\<rparr>)) (\<lambda>geoip.
     bind_result (read_section y r ''globe'' default_globe (read_globe y)) (\<lambda>globe.
       Inr \<lparr>cfg_http = http, cfg_https = https, cfg_upstream = upstream, cfg_sites = sites, cfg_admin = admin,
            cfg_limits = limits, cfg_blacklist = blacklist, cfg_whitelist = whitelist, cfg_ban = ban,
            cfg_speed_check = speed, cfg_method_check = methods, cfg_emergency_off = emergency,
            cfg_pages = pages, cfg_request_log = request_log, cfg_robots_txt = robots, cfg_geoip = geoip,
            cfg_globe = globe, cfg_security = security\<rparr>)))))))))))))))))))"

section \<open>Writing the settings\<close>

definition y_port_node :: "'n yaml_lib \<Rightarrow> u16 \<Rightarrow> 'n" where
  "y_port_node y p = y_of_int y (uint p)"

definition y_size_node :: "'n yaml_lib \<Rightarrow> nat \<Rightarrow> 'n" where
  "y_size_node y n = y_of_int y (int n)"

definition upstream_node :: "'n yaml_lib \<Rightarrow> UpstreamConfig \<Rightarrow> 'n" where
  "upstream_node y u = y_map y [(''host'', y_of_string y (up_host u)), (''port'', y_port_node y (up_port u))]"

definition site_node :: "'n yaml_lib \<Rightarrow> SiteConfig \<Rightarrow> 'n" where
  "site_node y site = y_map y
     [(''domain'', y_of_string y (site_domain site)), (''enabled'', y_of_bool y (site_enabled site)),
      (''cert_file'', y_of_string y (site_cert_file site)), (''key_file'', y_of_string y (site_key_file site)),
      (''upstream'', upstream_node y (site_upstream site))]"

definition blacklist_node :: "'n yaml_lib \<Rightarrow> BlacklistConfig \<Rightarrow> 'n" where
  "blacklist_node y bl = y_map y
     [(''ips'', write_ip_list y (bl_ip_exact bl) (bl_ip_cidrs bl)),
      (''routes'', write_entry_list y (bl_routes bl)),
      (''max_body_size_bytes'', y_size_node y (bl_max_body_size_bytes bl)),
      (''countries'', write_entry_list y (bl_countries bl)), (''isps'', write_entry_list y (bl_isps bl)),
      (''user_agents'', write_entry_list y (bl_user_agents bl)),
      (''referrers'', write_entry_list y (bl_referrers bl)),
      (''body_patterns'', write_entry_list y (bl_body_patterns bl)),
      (''fake_routes'', write_entry_list y (bl_fake_routes bl))]"

definition whitelist_node :: "'n yaml_lib \<Rightarrow> WhitelistConfig \<Rightarrow> 'n" where
  "whitelist_node y wl = y_map y
     [(''ips'', write_ip_list y (wl_ip_exact wl) (wl_ip_cidrs wl)),
      (''routes'', write_entry_list y (wl_routes wl))]"

text \<open>A node that got no member stays null.\<close>

definition scores_node :: "'n yaml_lib \<Rightarrow> (string, int) umap \<Rightarrow> 'n" where
  "scores_node y scores =
     (if scores = [] then y_null y else y_map y (map (\<lambda>(name, points). (name, y_of_int y points)) scores))"

definition ban_node :: "'n yaml_lib \<Rightarrow> BanConfig \<Rightarrow> 'n" where
  "ban_node y b = y_map y
     [(''enabled'', y_of_bool y (ban_enabled b)), (''threshold'', y_of_int y (ban_threshold b)),
      (''ban_duration_hours'', y_of_int y (ban_duration_hours b)), (''scores'', scores_node y (ban_scores b))]"

definition status_page_node :: "'n yaml_lib \<Rightarrow> StatusPageEntry \<Rightarrow> 'n" where
  "status_page_node y e = y_map y
     [(''code'', y_of_int y (sp_code e)), (''html'', y_of_string y (sp_html e)),
      (''created_at'', y_of_string y (format_timestamp (sp_created_at e)))]"

definition pages_node :: "'n yaml_lib \<Rightarrow> ResponsePagesConfig \<Rightarrow> 'n" where
  "pages_node y p = y_map y
     [(''blocked_html'', y_of_string y (blocked_html p)), (''banned_html'', y_of_string y (banned_html p)),
      (''status_pages'', y_seq y (map (status_page_node y) (status_pages p)))]"

definition coordinate_node :: "'n yaml_lib \<Rightarrow> double option \<Rightarrow> 'n" where
  "coordinate_node y c = (case c of None \<Rightarrow> y_null y | Some d \<Rightarrow> y_of_double y d)"

definition globe_node :: "'n yaml_lib \<Rightarrow> GlobeConfig \<Rightarrow> 'n" where
  "globe_node y g = y_map y
     [(''public_enabled'', y_of_bool y (globe_public_enabled g)),
      (''public_bind'', y_of_string y (globe_public_bind_host g)),
      (''public_port'', y_port_node y (globe_public_port g)),
      (''public_tls_cert_file'', y_of_string y (globe_public_tls_cert_file g)),
      (''public_tls_key_file'', y_of_string y (globe_public_tls_key_file g)),
      (''server_lat'', coordinate_node y (globe_server_lat g)),
      (''server_lon'', coordinate_node y (globe_server_lon g)),
      (''auto_detect_server_location'', y_of_bool y (globe_auto_detect_server_location g)),
      (''history_size'', y_size_node y (globe_history_size g))]"

definition https_node :: "'n yaml_lib \<Rightarrow> HttpsListenerConfig \<Rightarrow> 'n" where
  "https_node y h = y_map y
     [(''enabled'', y_of_bool y (https_enabled h)), (''bind'', y_of_string y (https_bind_host h)),
      (''port'', y_port_node y (https_port h)), (''cert_file'', y_of_string y (https_cert_file h)),
      (''key_file'', y_of_string y (https_key_file h))]"

definition admin_node :: "'n yaml_lib \<Rightarrow> AdminConfig \<Rightarrow> 'n" where
  "admin_node y a = y_map y
     [(''enabled'', y_of_bool y (admin_enabled a)), (''bind'', y_of_string y (admin_bind_host a)),
      (''port'', y_port_node y (admin_port a)), (''static_dir'', y_of_string y (admin_static_dir a)),
      (''tls_cert_file'', y_of_string y (admin_tls_cert_file a)),
      (''tls_key_file'', y_of_string y (admin_tls_key_file a))]"

definition limits_node :: "'n yaml_lib \<Rightarrow> LimitsConfig \<Rightarrow> 'n" where
  "limits_node y l = y_map y
     [(''max_header_bytes'', y_size_node y (max_header_bytes l)),
      (''max_body_bytes'', y_size_node y (max_body_bytes l)),
      (''upstream_connect_timeout_seconds'', y_of_int y (upstream_connect_timeout l)),
      (''request_timeout_seconds'', y_of_int y (request_timeout l))]"

definition config_node :: "'n yaml_lib \<Rightarrow> RuntimeConfig \<Rightarrow> 'n" where
  "config_node y c = y_map y
     [(''http'', y_map y [(''enabled'', y_of_bool y (http_enabled (cfg_http c))),
        (''bind'', y_of_string y (http_bind_host (cfg_http c))), (''port'', y_port_node y (http_port (cfg_http c)))]),
      (''https'', https_node y (cfg_https c)),
      (''upstream'', upstream_node y (cfg_upstream c)),
      (''sites'', y_seq y (map (site_node y) (cfg_sites c))),
      (''admin'', admin_node y (cfg_admin c)),
      (''limits'', limits_node y (cfg_limits c)),
      (''blacklist'', blacklist_node y (cfg_blacklist c)),
      (''whitelist'', whitelist_node y (cfg_whitelist c)),
      (''ban'', ban_node y (cfg_ban c)),
      (''security'', y_map y [(''require_2fa'', y_of_bool y (require_2fa (cfg_security c)))]),
      (''speed_check'', y_map y [(''enabled'', y_of_bool y (sc_enabled (cfg_speed_check c))),
        (''max_requests'', y_of_int y (sc_max_requests (cfg_speed_check c))),
        (''window_seconds'', y_of_int y (sc_window_seconds (cfg_speed_check c)))]),
      (''method_check'', y_map y [(''enabled'', y_of_bool y (mc_enabled (cfg_method_check c))),
        (''allowed_methods'', y_seq y (map (y_of_string y) (mc_allowed_methods (cfg_method_check c))))]),
      (''emergency_off'', y_map y [(''enabled'', y_of_bool y (eo_enabled (cfg_emergency_off c)))]),
      (''pages'', pages_node y (cfg_pages c)),
      (''request_log'', y_map y [(''enabled'', y_of_bool y (rl_enabled (cfg_request_log c))),
        (''csv_path'', y_of_string y (rl_csv_path (cfg_request_log c)))]),
      (''robots_txt'', y_map y [(''custom_content'', y_of_string y (custom_content (cfg_robots_txt c)))]),
      (''geoip'', y_map y [(''mmdb_path'', y_of_string y (mmdb_path (cfg_geoip c))),
        (''asn_mmdb_path'', y_of_string y (asn_mmdb_path (cfg_geoip c)))]),
      (''globe'', globe_node y (cfg_globe c))]"

definition to_yaml_config :: "'n yaml_lib \<Rightarrow> RuntimeConfig \<Rightarrow> string" where
  "to_yaml_config y c = y_emit y (config_node y c)"

section \<open>What is stored is what is loaded\<close>

text \<open>A configuration the file can hold: numbers within their C++ types, instants the clock can show,
  entries that are not blank, addresses and ranges as the list operations admit them, sites keyed
  by a lower-cased name, scores with distinct names.\<close>

definition storable_entry :: "BlacklistEntry \<Rightarrow> bool" where
  "storable_entry e \<longleftrightarrow> \<not> is_blank (entry_value e) \<and> 0 \<le> entry_created_at e \<and> entry_created_at e < 2 ^ 63"

definition storable_ip :: "(string \<Rightarrow> ip_address option) \<Rightarrow> BlacklistEntry \<Rightarrow> bool" where
  "storable_ip mk e \<longleftrightarrow> storable_entry e \<and> CHR ''/'' \<notin> set (entry_value e) \<and> mk (entry_value e) \<noteq> None"

definition storable_range :: "(string \<Rightarrow> ip_address option) \<Rightarrow> CidrRange \<Rightarrow> bool" where
  "storable_range mk r \<longleftrightarrow> \<not> is_blank (cidr_text r) \<and> 0 \<le> cidr_created_at r \<and> cidr_created_at r < 2 ^ 63
     \<and> (\<forall>now. parse_cidr mk now (cidr_text r) = Some (r\<lparr>cidr_created_at := now, cidr_source := ''manual''\<rparr>))"

definition fits_int :: "int \<Rightarrow> bool" where
  "fits_int i \<longleftrightarrow> int_min \<le> i \<and> i \<le> int_max"

definition storable_page :: "StatusPageEntry \<Rightarrow> bool" where
  "storable_page p \<longleftrightarrow> fits_int (sp_code p) \<and> 0 \<le> sp_created_at p \<and> sp_created_at p < 2 ^ 63"

definition stored_entry :: "BlacklistEntry \<Rightarrow> BlacklistEntry" where
  "stored_entry e = e\<lparr>entry_created_at := whole_second (entry_created_at e)\<rparr>"

definition stored_range :: "CidrRange \<Rightarrow> CidrRange" where
  "stored_range r = r\<lparr>cidr_created_at := whole_second (cidr_created_at r)\<rparr>"

definition stored_page :: "StatusPageEntry \<Rightarrow> StatusPageEntry" where
  "stored_page p = p\<lparr>sp_created_at := whole_second (sp_created_at p)\<rparr>"

definition storable_blacklist :: "(string \<Rightarrow> ip_address option) \<Rightarrow> BlacklistConfig \<Rightarrow> bool" where
  "storable_blacklist mk bl \<longleftrightarrow>
     list_all (storable_ip mk) (bl_ip_exact bl) \<and> list_all (storable_range mk) (bl_ip_cidrs bl)
     \<and> list_all (list_all storable_entry) [bl_routes bl, bl_countries bl, bl_isps bl, bl_user_agents bl,
          bl_referrers bl, bl_body_patterns bl, bl_fake_routes bl]
     \<and> bl_max_body_size_bytes bl < 2 ^ 64"

definition stored_blacklist :: "BlacklistConfig \<Rightarrow> BlacklistConfig" where
  "stored_blacklist bl = \<lparr>bl_ip_exact = map stored_entry (bl_ip_exact bl),
     bl_ip_cidrs = map stored_range (bl_ip_cidrs bl), bl_routes = map stored_entry (bl_routes bl),
     bl_countries = map stored_entry (bl_countries bl), bl_isps = map stored_entry (bl_isps bl),
     bl_user_agents = map stored_entry (bl_user_agents bl), bl_referrers = map stored_entry (bl_referrers bl),
     bl_body_patterns = map stored_entry (bl_body_patterns bl),
     bl_fake_routes = map stored_entry (bl_fake_routes bl),
     bl_max_body_size_bytes = bl_max_body_size_bytes bl\<rparr>"

definition storable_whitelist :: "(string \<Rightarrow> ip_address option) \<Rightarrow> WhitelistConfig \<Rightarrow> bool" where
  "storable_whitelist mk wl \<longleftrightarrow> list_all (storable_ip mk) (wl_ip_exact wl)
     \<and> list_all (storable_range mk) (wl_ip_cidrs wl) \<and> list_all storable_entry (wl_routes wl)"

definition stored_whitelist :: "WhitelistConfig \<Rightarrow> WhitelistConfig" where
  "stored_whitelist wl = \<lparr>wl_ip_exact = map stored_entry (wl_ip_exact wl),
     wl_ip_cidrs = map stored_range (wl_ip_cidrs wl), wl_routes = map stored_entry (wl_routes wl)\<rparr>"

definition storable :: "(string \<Rightarrow> ip_address option) \<Rightarrow> RuntimeConfig \<Rightarrow> bool" where
  "storable mk c \<longleftrightarrow>
     list_all (\<lambda>s. site_domain s \<noteq> [] \<and> to_lower (site_domain s) = site_domain s) (cfg_sites c)
     \<and> max_header_bytes (cfg_limits c) < 2 ^ 64 \<and> max_body_bytes (cfg_limits c) < 2 ^ 64
     \<and> - (2 ^ 63) \<le> upstream_connect_timeout (cfg_limits c) \<and> upstream_connect_timeout (cfg_limits c) < 2 ^ 63
     \<and> - (2 ^ 63) \<le> request_timeout (cfg_limits c) \<and> request_timeout (cfg_limits c) < 2 ^ 63
     \<and> storable_blacklist mk (cfg_blacklist c) \<and> storable_whitelist mk (cfg_whitelist c)
     \<and> fits_int (ban_threshold (cfg_ban c)) \<and> fits_int (ban_duration_hours (cfg_ban c))
     \<and> um_ok (ban_scores (cfg_ban c)) \<and> list_all (fits_int \<circ> snd) (ban_scores (cfg_ban c))
     \<and> fits_int (sc_max_requests (cfg_speed_check c)) \<and> fits_int (sc_window_seconds (cfg_speed_check c))
     \<and> list_all storable_page (status_pages (cfg_pages c)) \<and> globe_history_size (cfg_globe c) < 2 ^ 64"

definition stored_config :: "RuntimeConfig \<Rightarrow> RuntimeConfig" where
  "stored_config c = c\<lparr>cfg_blacklist := stored_blacklist (cfg_blacklist c),
     cfg_whitelist := stored_whitelist (cfg_whitelist c),
     cfg_pages := (cfg_pages c)\<lparr>status_pages := map stored_page (status_pages (cfg_pages c))\<rparr>\<rparr>"

lemma read_entry_node:
  assumes "yaml_ok y" and "storable_entry e"
  shows "read_raw_entry y now (entry_node y e) =
     Some \<lparr>raw_value = entry_value e, raw_created_at = whole_second (entry_created_at e),
           raw_created_by = entry_created_by e, raw_source = entry_source e\<rparr>"
  using assms timestamp_roundtrip [of "entry_created_at e"]
  by (simp add: read_raw_entry_def raw_entry_of_def entry_node_def yaml_okD storable_entry_def)

lemma read_range_node:
  assumes "yaml_ok y" and "storable_range mk r"
  shows "read_raw_entry y now (range_node y r) =
     Some \<lparr>raw_value = cidr_text r, raw_created_at = whole_second (cidr_created_at r),
           raw_created_by = [], raw_source = cidr_source r\<rparr>"
  using assms timestamp_roundtrip [of "cidr_created_at r"]
  by (simp add: read_raw_entry_def raw_entry_of_def range_node_def yaml_okD storable_range_def)

lemma read_entry_list_written:
  assumes y: "yaml_ok y" and e: "list_all storable_entry es"
  shows "read_entry_list y now (Some (write_entry_list y es)) = map stored_entry es"
proof -
  have "read_items y now (map (entry_node y) es) = map stored_entry es"
    using e by (induction es) (simp_all add: read_entry_node [OF y] to_entry_def stored_entry_def)
  then show ?thesis by (simp add: read_entry_list_def write_entry_list_def yaml_okD [OF y])
qed

lemma cidr_text_slash: "parse_cidr mk now t = Some r \<Longrightarrow> CHR ''/'' \<in> set t"
  by (auto simp: parse_cidr_iff)

lemma read_ip_list_written:
  assumes y: "yaml_ok y" and e: "list_all (storable_ip mk) es" and r: "list_all (storable_range mk) rs"
  shows "read_ip_list y mk now (Some (write_ip_list y es rs)) = (map stored_entry es, map stored_range rs)"
proof -
  have ranges: "read_ip_items y mk now (map (range_node y) rs) = ([], map stored_range rs)"
    using r
  proof (induction rs)
    case (Cons x xs)
    then have x: "storable_range mk x" by simp
    then have "parse_cidr mk now (cidr_text x) = Some (x\<lparr>cidr_created_at := now, cidr_source := ''manual''\<rparr>)"
      by (simp add: storable_range_def)
    with Cons x cidr_text_slash [OF this] show ?case
      by (simp add: read_range_node [OF y x] stored_range_def)
  qed simp
  have "read_ip_items y mk now (map (entry_node y) es @ map (range_node y) rs)
      = (map stored_entry es, map stored_range rs)"
    using e by (induction es) (auto simp: ranges storable_ip_def read_entry_node [OF y] to_entry_def stored_entry_def)
  then show ?thesis by (simp add: read_ip_list_def write_ip_list_def yaml_okD [OF y])
qed

lemma y_numbers:
  assumes "yaml_ok y"
  shows "y_port y (y_port_node y p) = Some p"
    "n < 2 ^ 64 \<Longrightarrow> y_size y (y_size_node y n) = Some n"
    "fits_int i \<Longrightarrow> y_int32 y (y_of_int y i) = Some i"
    "- (2 ^ 63) \<le> i \<Longrightarrow> i < 2 ^ 63 \<Longrightarrow> y_int64 y (y_of_int y i) = Some i"
proof -
  have "uint p \<le> 65535" using uint_lt2p [of p] by simp
  then show "y_port y (y_port_node y p) = Some p"
    by (simp add: y_port_def y_port_node_def y_within_def yaml_okD [OF assms])
  assume "n < 2 ^ 64"
  then have "int n \<le> 2 ^ 64 - 1" by simp
  then show "y_size y (y_size_node y n) = Some n"
    by (simp add: y_size_def y_size_node_def y_within_def yaml_okD [OF assms])
qed (simp_all add: y_int32_def y_int64_def y_within_def fits_int_def yaml_okD [OF assms])

lemma read_sites_written:
  assumes y: "yaml_ok y"
    and "list_all (\<lambda>s. site_domain s \<noteq> [] \<and> to_lower (site_domain s) = site_domain s) sites"
  shows "read_sites y (map (site_node y) sites) = Inr sites"
  using assms(2)
proof (induction sites)
  case (Cons s sites)
  then have "read_site y (site_node y s) = Inr (Some s)"
    by (simp add: read_site_def subscript_def site_node_def upstream_node_def read_upstream_def
        yaml_okD [OF y] y_numbers [OF y] Let_def)
  with Cons show ?case by simp
qed simp

lemma um_put_new: "k \<notin> fst ` set m \<Longrightarrow> um_put k v m = m @ [(k, v)]"
  unfolding um_put_def by (induction m) auto

lemma read_scores_written:
  assumes y: "yaml_ok y" and "list_all (fits_int \<circ> snd) scores" and "distinct (map fst acc @ map fst scores)"
  shows "read_scores y (map (\<lambda>(name, points). (name, y_of_int y points)) scores) acc = Inr (acc @ scores)"
  using assms(2,3)
proof (induction scores arbitrary: acc)
  case (Cons e scores)
  obtain name points where e: "e = (name, points)" by fastforce
  have "um_put name points acc = acc @ [e]"
    using Cons.prems(2) by (subst um_put_new) (auto simp: e)
  with Cons e show ?case by (simp add: y_numbers [OF y])
qed simp

lemma read_ban_written:
  assumes y: "yaml_ok y" and "fits_int (ban_threshold b)" "fits_int (ban_duration_hours b)"
    and "um_ok (ban_scores b)" "list_all (fits_int \<circ> snd) (ban_scores b)"
  shows "read_ban y (ban_node y b) = Inr b"
proof -
  have "read_scores y (y_pairs y (scores_node y (ban_scores b))) [] = Inr (ban_scores b)"
    using read_scores_written [OF y assms(5), of "[]"] assms(4)
    by (cases "ban_scores b") (auto simp: scores_node_def yaml_okD [OF y] um_ok_def)
  then show ?thesis
    using assms(2,3) by (simp add: read_ban_def ban_node_def yaml_okD [OF y] y_numbers [OF y])
qed

lemma read_pages_written:
  assumes y: "yaml_ok y" and "list_all storable_page (status_pages p)"
  shows "read_pages y now (pages_node y p) = Inr (p\<lparr>status_pages := map stored_page (status_pages p)\<rparr>)"
proof -
  have "read_status_page y now (status_page_node y e) = Inr (stored_page e)" if "storable_page e" for e
    using that timestamp_roundtrip [of "sp_created_at e"]
    by (simp add: read_status_page_def subscript_def status_page_node_def stored_page_def storable_page_def
        yaml_okD [OF y] y_numbers [OF y])
  then have "map_result (read_status_page y now) (map (status_page_node y) (status_pages p))
      = Inr (map stored_page (status_pages p))"
    using assms(2) by (intro map_result_map) (simp add: list_all_iff)
  then show ?thesis by (simp add: read_pages_def pages_node_def yaml_okD [OF y])
qed

lemma read_globe_written:
  assumes y: "yaml_ok y" and "globe_history_size g < 2 ^ 64"
  shows "read_globe y (globe_node y g) = Inr g"
proof -
  have "read_coordinate y (Some (coordinate_node y c)) = Inr c" for c
    by (cases c) (simp_all add: read_coordinate_def coordinate_node_def yaml_okD [OF y])
  then show ?thesis
    using assms(2) by (simp add: read_globe_def globe_node_def yaml_okD [OF y] y_numbers [OF y])
qed

lemma read_lists_written:
  assumes y: "yaml_ok y"
  shows "storable_blacklist mk bl \<Longrightarrow> read_blacklist y mk now (blacklist_node y bl) = stored_blacklist bl"
    and "storable_whitelist mk wl \<Longrightarrow> read_whitelist y mk now (whitelist_node y wl) = stored_whitelist wl"
  by (simp_all add: read_blacklist_def read_whitelist_def blacklist_node_def whitelist_node_def
      storable_blacklist_def storable_whitelist_def stored_blacklist_def stored_whitelist_def
      yaml_okD [OF y] y_numbers [OF y] read_ip_list_written [OF y] read_entry_list_written [OF y])

lemma config_node_get:
  assumes "yaml_ok y"
  shows "y_get y (config_node y c) ''http'' = Some (y_map y [(''enabled'', y_of_bool y (http_enabled (cfg_http c))),
        (''bind'', y_of_string y (http_bind_host (cfg_http c))), (''port'', y_port_node y (http_port (cfg_http c)))])"
    "y_get y (config_node y c) ''https'' = Some (https_node y (cfg_https c))"
    "y_get y (config_node y c) ''upstream'' = Some (upstream_node y (cfg_upstream c))"
    "y_get y (config_node y c) ''sites'' = Some (y_seq y (map (site_node y) (cfg_sites c)))"
    "y_get y (config_node y c) ''admin'' = Some (admin_node y (cfg_admin c))"
    "y_get y (config_node y c) ''limits'' = Some (limits_node y (cfg_limits c))"
    "y_get y (config_node y c) ''blacklist'' = Some (blacklist_node y (cfg_blacklist c))"
    "y_get y (config_node y c) ''whitelist'' = Some (whitelist_node y (cfg_whitelist c))"
    "y_get y (config_node y c) ''ban'' = Some (ban_node y (cfg_ban c))"
    "y_get y (config_node y c) ''security'' = Some (y_map y [(''require_2fa'', y_of_bool y (require_2fa (cfg_security c)))])"
    "y_get y (config_node y c) ''emergency_off'' = Some (y_map y [(''enabled'', y_of_bool y (eo_enabled (cfg_emergency_off c)))])"
    "y_get y (config_node y c) ''pages'' = Some (pages_node y (cfg_pages c))"
    "y_get y (config_node y c) ''robots_txt'' = Some (y_map y [(''custom_content'', y_of_string y (custom_content (cfg_robots_txt c)))])"
    "y_get y (config_node y c) ''globe'' = Some (globe_node y (cfg_globe c))"
    "y_get y (config_node y c) ''speed_check'' = Some (y_map y
       [(''enabled'', y_of_bool y (sc_enabled (cfg_speed_check c))),
        (''max_requests'', y_of_int y (sc_max_requests (cfg_speed_check c))),
        (''window_seconds'', y_of_int y (sc_window_seconds (cfg_speed_check c)))])"
    "y_get y (config_node y c) ''method_check'' = Some (y_map y
       [(''enabled'', y_of_bool y (mc_enabled (cfg_method_check c))),
        (''allowed_methods'', y_seq y (map (y_of_string y) (mc_allowed_methods (cfg_method_check c))))])"
    "y_get y (config_node y c) ''request_log'' = Some (y_map y
       [(''enabled'', y_of_bool y (rl_enabled (cfg_request_log c))),
        (''csv_path'', y_of_string y (rl_csv_path (cfg_request_log c)))])"
    "y_get y (config_node y c) ''geoip'' = Some (y_map y
       [(''mmdb_path'', y_of_string y (mmdb_path (cfg_geoip c))),
        (''asn_mmdb_path'', y_of_string y (asn_mmdb_path (cfg_geoip c)))])"
  unfolding config_node_def yaml_okD(1) [OF assms] by simp_all

lemma nodes_not_scalar:
  assumes "yaml_ok y"
  shows "\<not> y_is_scalar y (config_node y c)" "\<not> y_is_scalar y (https_node y https)"
    "\<not> y_is_scalar y (upstream_node y up)" "\<not> y_is_scalar y (admin_node y admin)"
    "\<not> y_is_scalar y (limits_node y limits)" "\<not> y_is_scalar y (blacklist_node y bl)"
    "\<not> y_is_scalar y (whitelist_node y wl)" "\<not> y_is_scalar y (ban_node y ban)"
    "\<not> y_is_scalar y (pages_node y pages)" "\<not> y_is_scalar y (globe_node y globe)"
  by (simp_all add: config_node_def https_node_def upstream_node_def admin_node_def limits_node_def
      blacklist_node_def whitelist_node_def ban_node_def pages_node_def globe_node_def yaml_okD [OF assms])

lemma read_listeners_written:
  assumes y: "yaml_ok y"
  shows "read_http y (y_map y [(''enabled'', y_of_bool y (http_enabled h)),
      (''bind'', y_of_string y (http_bind_host h)), (''port'', y_port_node y (http_port h))]) = h"
    "read_https y (https_node y s) = s" "read_upstream y (upstream_node y u) = u" "read_admin y (admin_node y a) = a"
  by (simp_all add: read_http_def read_https_def https_node_def read_upstream_def upstream_node_def
      read_admin_def admin_node_def yaml_okD [OF y] y_numbers [OF y])

lemma config_file_reloads:
  assumes y: "yaml_ok y" and c: "storable mk c"
  shows "parse_yaml_config y mk now (to_yaml_config y c) = Inr (stored_config c)"
proof -
  note c' = c [unfolded storable_def]
  have limits: "read_limits y (limits_node y (cfg_limits c)) = cfg_limits c"
    using c' by (simp add: read_limits_def limits_node_def yaml_okD [OF y] y_numbers [OF y])
  have methods: "map_result (\<lambda>item. required (y_string y) (Some item)) (map (y_of_string y) ms) = Inr ms" for ms
    using map_result_map [of ms "\<lambda>item. required (y_string y) (Some item)" "y_of_string y" "\<lambda>m. m"]
    by (simp add: yaml_okD [OF y])
  show ?thesis
    unfolding parse_yaml_config_def to_yaml_config_def
    using c'
    by (simp add: yaml_okD [OF y] read_section_def subscript_def config_node_get [OF y] nodes_not_scalar [OF y]
        read_listeners_written [OF y] limits read_lists_written [OF y] read_ban_written [OF y]
        read_pages_written [OF y] read_globe_written [OF y] read_site_list_def read_sites_written [OF y]
        read_method_check_def read_speed_check_def methods y_numbers [OF y] stored_config_def)
qed


definition sample_config :: RuntimeConfig where
  "sample_config = default_config
     \<lparr>cfg_sites := [\<lparr>site_domain = ''a.example'', site_enabled = True, site_cert_file = [], site_key_file = [],
        site_upstream = default_upstream\<rparr>],
      cfg_blacklist := default_blacklist\<lparr>bl_routes := [\<lparr>entry_value = ''/admin'', entry_created_at = 1500000000,
        entry_created_by = ''ann'', entry_source = ''manual''\<rparr>]\<rparr>\<rparr>"


section \<open>What any file can bring in\<close>

text \<open>The types of the settings: what every loaded configuration satisfies, however the file was edited.\<close>

definition entry_typed :: "BlacklistEntry \<Rightarrow> bool" where
  "entry_typed e \<longleftrightarrow> \<not> is_blank (entry_value e)"

definition lists_typed :: "(string \<Rightarrow> ip_address option) \<Rightarrow> BlacklistEntry list \<Rightarrow> CidrRange list \<Rightarrow> bool" where
  "lists_typed mk exact cidrs \<longleftrightarrow>
     (\<forall>e \<in> set exact. entry_typed e \<and> mk (entry_value e) \<noteq> None \<and> CHR ''/'' \<notin> set (entry_value e))
     \<and> (\<forall>r \<in> set cidrs. wf_cidr r \<and> CHR ''/'' \<in> set (cidr_text r))"

definition config_typed :: "(string \<Rightarrow> ip_address option) \<Rightarrow> RuntimeConfig \<Rightarrow> bool" where
  "config_typed mk c \<longleftrightarrow>
     (let bl = cfg_blacklist c; wl = cfg_whitelist c in
      (\<forall>s \<in> set (cfg_sites c). site_domain s \<noteq> [] \<and> to_lower (site_domain s) = site_domain s)
      \<and> lists_typed mk (bl_ip_exact bl) (bl_ip_cidrs bl) \<and> lists_typed mk (wl_ip_exact wl) (wl_ip_cidrs wl)
      \<and> (\<forall>es \<in> {bl_routes bl, bl_countries bl, bl_isps bl, bl_user_agents bl, bl_referrers bl,
            bl_body_patterns bl, bl_fake_routes bl, wl_routes wl}. \<forall>e \<in> set es. entry_typed e)
      \<and> bl_max_body_size_bytes bl < 2 ^ 64
      \<and> fits_int (ban_threshold (cfg_ban c)) \<and> fits_int (ban_duration_hours (cfg_ban c))
      \<and> um_ok (ban_scores (cfg_ban c)) \<and> (\<forall>p \<in> set (ban_scores (cfg_ban c)). fits_int (snd p))
      \<and> fits_int (sc_max_requests (cfg_speed_check c)) \<and> fits_int (sc_window_seconds (cfg_speed_check c)))"

lemma raw_entry_typed: "read_raw_entry y now n = Some raw \<Longrightarrow> \<not> is_blank (raw_value raw)"
  by (auto simp: read_raw_entry_def split: sum.splits if_splits)

lemma read_items_typed: "e \<in> set (read_items y now ns) \<Longrightarrow> entry_typed e"
  by (induction ns) (auto simp: entry_typed_def to_entry_def dest: raw_entry_typed split: option.splits)

lemma read_entry_list_typed: "e \<in> set (read_entry_list y now n) \<Longrightarrow> entry_typed e"
  by (auto simp: read_entry_list_def read_items_typed split: option.splits)

text \<open>What \<open>make_address\<close> returns has the bytes of its family.\<close>

definition address_parser :: "(string \<Rightarrow> ip_address option) \<Rightarrow> bool" where
  "address_parser mk \<longleftrightarrow> (\<forall>t a. mk t = Some a \<longrightarrow> wf_address a)"

lemma parse_cidr_wf:
  assumes "address_parser mk" and "parse_cidr mk now t = Some r"
  shows "wf_cidr (r\<lparr>cidr_created_at := ca, cidr_source := src\<rparr>) \<and> cidr_text r = t \<and> CHR ''/'' \<in> set t"
  using assms by (auto simp: parse_cidr_iff wf_cidr_def address_parser_def)

lemma read_ip_items_typed:
  assumes "address_parser mk"
  shows "read_ip_items y mk now ns = (exact, cidrs) \<Longrightarrow> lists_typed mk exact cidrs"
proof (induction ns arbitrary: exact cidrs)
  case (Cons n ns)
  obtain exact' cidrs' where rest: "read_ip_items y mk now ns = (exact', cidrs')" by fastforce
  with Cons.IH have "lists_typed mk exact' cidrs'" by simp
  with Cons.prems rest show ?case
    using parse_cidr_wf [OF assms] raw_entry_typed [of y now n]
    by (auto simp: lists_typed_def entry_typed_def to_entry_def split: option.splits if_splits)
qed (simp add: lists_typed_def)

lemma read_ip_list_typed:
  assumes mk: "address_parser mk" and r: "read_ip_list y mk now n = (exact, cidrs)"
  shows "lists_typed mk exact cidrs"
proof (cases n)
  case None
  with r show ?thesis by (simp add: read_ip_list_def lists_typed_def)
next
  case (Some x)
  with r have "read_ip_items y mk now (y_items y x) = (exact, cidrs)" by (simp add: read_ip_list_def)
  with mk show ?thesis by (rule read_ip_items_typed)
qed

lemma read_section_cases:
  "read_section y doc name d f = Inr v \<Longrightarrow> v = d \<or> (\<exists>n. f n = Inr v)"
  by (auto simp: read_section_def bind_result_Inr_iff split: option.splits if_splits)

lemma read_section_prop:
  "read_section y doc name d (\<lambda>n. Inr (f n)) = Inr v \<Longrightarrow> P d \<Longrightarrow> (\<And>n. P (f n)) \<Longrightarrow> P v"
  using read_section_cases by fastforce

lemma fits_int_default [simp]: "0 \<le> i \<Longrightarrow> i \<le> 1000 \<Longrightarrow> fits_int i"
  by (simp add: fits_int_def int_min_def int_max_def)

lemma with_fallback_fits:
  "fits_int d \<Longrightarrow> fits_int (with_fallback (y_int32 y) d n)"
  by (auto simp: with_fallback_def y_int32_def y_within_def fits_int_def split: option.splits if_splits)

lemma with_fallback_size: "d < 2 ^ 64 \<Longrightarrow> with_fallback (y_size y) d n < 2 ^ 64"
  by (auto simp: with_fallback_def y_size_def y_within_def split: option.splits if_splits)

lemma read_scores_typed:
  "read_scores y ps acc = Inr scores \<Longrightarrow> um_ok acc \<Longrightarrow> \<forall>p \<in> set acc. fits_int (snd p) \<Longrightarrow>
     um_ok scores \<and> (\<forall>p \<in> set scores. fits_int (snd p))"
proof (induction y ps acc rule: read_scores.induct)
  case (2 y name v pairs acc)
  from "2.prems"(1) obtain points where p: "required (y_int32 y) (Some v) = Inr points"
    "read_scores y pairs (um_put name points acc) = Inr scores"
    by (auto simp: bind_result_Inr_iff)
  then have "fits_int points"
    by (auto simp: required_def y_int32_def y_within_def fits_int_def split: option.splits if_splits)
  moreover have "\<forall>e \<in> set (um_put name points acc). e \<in> set acc \<or> e = (name, points)"
    unfolding um_put_def by (induction acc) auto
  ultimately have "\<forall>e \<in> set (um_put name points acc). fits_int (snd e)" using "2.prems"(3) by auto
  with "2.IH" [OF p(2)] "2.prems"(2) show ?case by simp
qed simp

lemma read_ban_typed:
  "b = default_ban \<or> read_ban y n = Inr b \<Longrightarrow>
     fits_int (ban_threshold b) \<and> fits_int (ban_duration_hours b)
       \<and> um_ok (ban_scores b) \<and> (\<forall>p \<in> set (ban_scores b). fits_int (snd p))"
proof -
  have d: "fits_int (ban_threshold default_ban)" "fits_int (ban_duration_hours default_ban)"
    "um_ok (ban_scores default_ban)" "\<forall>p \<in> set (ban_scores default_ban). fits_int (snd p)"
    by (simp_all add: default_ban_def um_ok_def)
  assume "b = default_ban \<or> read_ban y n = Inr b"
  then show ?thesis
  proof
    assume "read_ban y n = Inr b"
    then obtain scores where sc: "(case y_get y n ''scores'' of None \<Rightarrow> Inr (ban_scores default_ban)
        | Some ps \<Rightarrow> read_scores y (y_pairs y ps) []) = Inr scores"
      and b: "ban_scores b = scores" "fits_int (ban_threshold b)" "fits_int (ban_duration_hours b)"
      using d by (auto simp: read_ban_def bind_result_Inr_iff with_fallback_fits)
    have "um_ok scores \<and> (\<forall>p \<in> set scores. fits_int (snd p))"
    proof (cases "y_get y n ''scores''")
      case None
      with sc d show ?thesis by simp
    next
      case (Some ps)
      with sc have "read_scores y (y_pairs y ps) [] = Inr scores" by simp
      from read_scores_typed [OF this] show ?thesis by simp
    qed
    with b show ?thesis by simp
  qed (use d in simp)
qed

lemma read_sites_typed:
  "read_sites y ns = Inr sites \<Longrightarrow> s \<in> set sites \<Longrightarrow> site_domain s \<noteq> [] \<and> to_lower (site_domain s) = site_domain s"
proof (induction ns arbitrary: sites)
  case (Cons n ns)
  from Cons.prems(1) obtain site rest where r: "read_site y n = Inr site" "read_sites y ns = Inr rest"
    "sites = (case site of None \<Rightarrow> rest | Some s \<Rightarrow> s # rest)"
    by (auto simp: bind_result_Inr_iff)
  show ?case
  proof (cases "s \<in> set rest")
    case False
    with r Cons.prems(2) have "read_site y n = Inr (Some s)" by (auto split: option.splits)
    then show ?thesis by (auto simp: read_site_def Let_def bind_result_Inr_iff split: if_splits)
  qed (use Cons.IH r in blast)
qed simp

lemma read_site_list_typed:
  assumes "read_site_list y doc = Inr sites" and "s \<in> set sites"
  shows "site_domain s \<noteq> [] \<and> to_lower (site_domain s) = site_domain s"
proof -
  from assms(1) obtain n where n: "(case n of None \<Rightarrow> Inr [] | Some n \<Rightarrow> read_sites y (y_items y n)) = Inr sites"
    by (auto simp: read_site_list_def bind_result_Inr_iff)
  with assms(2) obtain x where "n = Some x" by (cases n) auto
  with n assms(2) show ?thesis using read_sites_typed by simp
qed

definition blacklist_typed :: "(string \<Rightarrow> ip_address option) \<Rightarrow> BlacklistConfig \<Rightarrow> bool" where
  "blacklist_typed mk bl \<longleftrightarrow> lists_typed mk (bl_ip_exact bl) (bl_ip_cidrs bl)
     \<and> (\<forall>es \<in> {bl_routes bl, bl_countries bl, bl_isps bl, bl_user_agents bl, bl_referrers bl,
           bl_body_patterns bl, bl_fake_routes bl}. \<forall>e \<in> set es. entry_typed e)
     \<and> bl_max_body_size_bytes bl < 2 ^ 64"

definition whitelist_typed :: "(string \<Rightarrow> ip_address option) \<Rightarrow> WhitelistConfig \<Rightarrow> bool" where
  "whitelist_typed mk wl \<longleftrightarrow> lists_typed mk (wl_ip_exact wl) (wl_ip_cidrs wl) \<and> (\<forall>e \<in> set (wl_routes wl). entry_typed e)"

lemma read_lists_typed:
  assumes mk: "address_parser mk"
  shows "blacklist_typed mk (read_blacklist y mk now n)" and "whitelist_typed mk (read_whitelist y mk now n)"
proof -
  obtain exact cidrs where r: "read_ip_list y mk now (y_get y n ''ips'') = (exact, cidrs)" by fastforce
  have "lists_typed mk exact cidrs" by (rule read_ip_list_typed [OF mk r])
  then show "blacklist_typed mk (read_blacklist y mk now n)" "whitelist_typed mk (read_whitelist y mk now n)"
    using with_fallback_size [of 0 y]
    by (auto simp: blacklist_typed_def whitelist_typed_def read_blacklist_def read_whitelist_def r
        default_blacklist_def read_entry_list_typed)
qed

lemma default_lists_typed: "blacklist_typed mk default_blacklist" "whitelist_typed mk default_whitelist"
  by (simp_all add: blacklist_typed_def whitelist_typed_def default_blacklist_def default_whitelist_def lists_typed_def)

lemma read_speed_typed:
  "fits_int (sc_max_requests (read_speed_check y n)) \<and> fits_int (sc_window_seconds (read_speed_check y n))"
  by (simp add: read_speed_check_def default_speed_check_def with_fallback_fits)

lemma parse_yaml_sections:
  assumes "parse_yaml_config y mk now contents = Inr c"
  obtains doc where "read_site_list y doc = Inr (cfg_sites c)"
    "read_section y doc ''blacklist'' default_blacklist (\<lambda>n. Inr (read_blacklist y mk now n)) = Inr (cfg_blacklist c)"
    "read_section y doc ''whitelist'' default_whitelist (\<lambda>n. Inr (read_whitelist y mk now n)) = Inr (cfg_whitelist c)"
    "read_section y doc ''ban'' default_ban (read_ban y) = Inr (cfg_ban c)"
    "read_section y doc ''speed_check'' default_speed_check (\<lambda>n. Inr (read_speed_check y n)) = Inr (cfg_speed_check c)"
  using assms unfolding parse_yaml_config_def bind_result_Inr_iff
  by (elim exE conjE) (simp only: sum.inject, hypsubst, rule that, simp_all only: RuntimeConfig.select_convs)

lemma parse_config_typed:
  assumes mk: "address_parser mk" and p: "parse_yaml_config y mk now contents = Inr c"
  shows "config_typed mk c"
proof -
  from parse_yaml_sections [OF p] obtain doc where
    sites: "read_site_list y doc = Inr (cfg_sites c)"
    and bl: "read_section y doc ''blacklist'' default_blacklist (\<lambda>n. Inr (read_blacklist y mk now n)) = Inr (cfg_blacklist c)"
    and wl: "read_section y doc ''whitelist'' default_whitelist (\<lambda>n. Inr (read_whitelist y mk now n)) = Inr (cfg_whitelist c)"
    and ban: "read_section y doc ''ban'' default_ban (read_ban y) = Inr (cfg_ban c)"
    and speed: "read_section y doc ''speed_check'' default_speed_check (\<lambda>n. Inr (read_speed_check y n)) = Inr (cfg_speed_check c)" .
  have "blacklist_typed mk (cfg_blacklist c)" "whitelist_typed mk (cfg_whitelist c)"
    by (rule read_section_prop [OF bl] read_section_prop [OF wl];
        simp add: read_lists_typed [OF mk] default_lists_typed)+
  moreover have "fits_int (ban_threshold (cfg_ban c)) \<and> fits_int (ban_duration_hours (cfg_ban c))
      \<and> um_ok (ban_scores (cfg_ban c)) \<and> (\<forall>p \<in> set (ban_scores (cfg_ban c)). fits_int (snd p))"
    using read_section_cases [OF ban] read_ban_typed [of "cfg_ban c" y] by blast
  moreover have "fits_int (sc_max_requests (cfg_speed_check c)) \<and> fits_int (sc_window_seconds (cfg_speed_check c))"
    by (rule read_section_prop [OF speed]) (simp_all add: read_speed_typed default_speed_check_def)
  moreover have "\<forall>s \<in> set (cfg_sites c). site_domain s \<noteq> [] \<and> to_lower (site_domain s) = site_domain s"
    using read_site_list_typed [OF sites] by blast
  ultimately show ?thesis by (simp add: config_typed_def blacklist_typed_def whitelist_typed_def Let_def)
qed


text \<open>A file with a blank pattern and a range that is none: both are dropped, the rest is kept.\<close>

definition careless_file :: tree where
  "careless_file = Node [(''blacklist'', Node
     [(''routes'', Items [Str '' '', Str ''/admin'']), (''ips'', Items [Str ''10.0.0.0/99'', Str ''10.0.0.1''])])]"

definition dotted :: "string \<Rightarrow> ip_address option" where
  "dotted t = (if t \<in> {''10.0.0.0'', ''10.0.0.1''} then Some (V4 [10, 0, 0, 1]) else None)"

lemma careless_file_loads:
  "parse_yaml_config tree_yaml dotted 5 (tree_text careless_file) = Inr (default_config
     \<lparr>cfg_blacklist := default_blacklist
       \<lparr>bl_ip_exact := [\<lparr>entry_value = ''10.0.0.1'', entry_created_at = 5, entry_created_by = [], entry_source = ''manual''\<rparr>],
        bl_routes := [\<lparr>entry_value = ''/admin'', entry_created_at = 5, entry_created_by = [], entry_source = ''manual''\<rparr>]\<rparr>\<rparr>)"
proof -
  have load: "y_load tree_yaml (tree_text careless_file) = Some careless_file"
    by (simp add: tree_yaml_def tree_text_def tree_of_text_def)
  have cidr: "parse_cidr dotted 5 ''10.0.0.0/99'' = None"
    by (simp add: parse_cidr_def find_char_def dotted_def from_chars_unsigned_def isdigit_def read_nat_def
        digit_value_def)
  show ?thesis
    unfolding parse_yaml_config_def load
    by (simp add: careless_file_def read_section_def subscript_def tree_yaml_def read_site_list_def read_blacklist_def
        read_ip_list_def read_entry_list_def read_raw_entry_def raw_entry_of_def is_blank_def isspace_def cidr
        dotted_def to_entry_def default_config_simps)
qed


end
