(* ===== verification/Admin_Base.thy ===== *)
theory Admin_Base
  imports Http_Session Http_Util Json_View Token_Stores Webauthn Url_Fetch
begin

text \<open>
  The first part of \<^verbatim>\<open>admin/admin_server.cpp\<close>: its constants, the readers of JSON bodies and
  cookies, the two tables of routes the session gate consults, the cookies it sets, and the state
  and environment its handlers run in.

  A \<open>handler\<close> is a function from the services of the process to its result, or the
  exception that escapes it, and the services it leaves behind.  \<open>ConfigStore::update\<close> applies its
  argument to the current configuration and publishes the result, or publishes nothing when the
  argument throws (\<open>Config_Store\<close> has the interleaving).  What Boost, OpenSSL, libcbor, yaml-cpp and
  the file system do is the \<open>platform\<close>; what one request draws from the clock, the random generator
  and the disk is its \<open>moment\<close>.
\<close>

section \<open>Constants\<close>

definition kAdminMaxBodyBytes :: nat where
  "kAdminMaxBodyBytes = 1 * 1024 * 1024"

definition kGeoipUploadMaxBytes :: nat where
  "kGeoipUploadMaxBytes = 128 * 1024 * 1024"

definition kImportUrlMaxBytes :: nat where
  "kImportUrlMaxBytes = 64 * 1024 * 1024"

definition kImportUrlTimeout :: int where
  "kImportUrlTimeout = 60"

definition kDefaultHistoryLimit :: nat where
  "kDefaultHistoryLimit = 200"

definition kApiBlacklistPrefix :: string where
  "kApiBlacklistPrefix = ''/api/blacklist/''"

definition kSessionCookieName :: string where
  "kSessionCookieName = ''atomwall_session''"

definition kPendingMfaCookieName :: string where
  "kPendingMfaCookieName = ''atomwall_pending_mfa''"

definition kWebAuthnLoginCookieName :: string where
  "kWebAuthnLoginCookieName = ''atomwall_webauthn_login''"

section \<open>Bodies\<close>

type_synonym json_object = "(string \<times> json) list"

fun as_object :: "json \<Rightarrow> json_object option" where
  "as_object (JObject obj) = Some obj"
| "as_object _ = None"

definition parse_json_object :: "json_lib \<Rightarrow> string \<Rightarrow> json_object option" where
  "parse_json_object jl body = (case jl_parse jl body of None \<Rightarrow> None | Some parsed \<Rightarrow> as_object parsed)"

definition json_string_field :: "json_object \<Rightarrow> string \<Rightarrow> string option" where
  "json_string_field obj key = find_string obj key"

definition json_int_field :: "json_object \<Rightarrow> string \<Rightarrow> int option" where
  "json_int_field obj key = (case map_of obj key of None \<Rightarrow> None | Some v \<Rightarrow> json_to_int v)"

text \<open>\<open>it != end && it->value().is_bool()\<close>.\<close>

definition json_bool_field :: "json_object \<Rightarrow> string \<Rightarrow> bool option" where
  "json_bool_field obj key = (case map_of obj key of Some (JBool b) \<Rightarrow> Some b | _ \<Rightarrow> None)"

definition json_object_field :: "json_object \<Rightarrow> string \<Rightarrow> json_object option" where
  "json_object_field obj key = (case map_of obj key of None \<Rightarrow> None | Some v \<Rightarrow> as_object v)"

text \<open>A field of a body that may not have parsed.\<close>

definition body_field :: "json_object option \<Rightarrow> string \<Rightarrow> string option" where
  "body_field json_body key = (case json_body of None \<Rightarrow> None | Some obj \<Rightarrow> json_string_field obj key)"

lemma json_int_field_fits: "json_int_field obj key = Some i \<Longrightarrow> int_min \<le> i \<and> i \<le> int_max"
  by (auto simp: json_int_field_def json_to_int_def saturating_to_int_clamps int_min_def int_max_def
      split: option.splits double.splits bind_splits)

section \<open>Cookies\<close>

function cookie_loop :: "string \<Rightarrow> string \<Rightarrow> string option" where
  "cookie_loop cookies name =
     (if cookies = [] then None
      else
        let semi = find_char (CHR '';'') cookies;
            part = dropWhile (\<lambda>c. c = CHR '' '') (case semi of None \<Rightarrow> cookies | Some i \<Rightarrow> take i cookies);
            eq = find_char (CHR ''='') part
        in if (case eq of None \<Rightarrow> False | Some i \<Rightarrow> take i part = name) then Some (drop (Suc (the eq)) part)
           else case semi of
                  None \<Rightarrow> None
                | Some i \<Rightarrow> cookie_loop (drop (Suc i) cookies) name)"
  by pat_completeness auto
termination
  by (relation "measure (\<lambda>(cookies, _). length cookies)") auto

declare cookie_loop.simps [simp del]

definition extract_cookie :: "(string \<Rightarrow> string option) \<Rightarrow> string \<Rightarrow> string option" where
  "extract_cookie hdr name =
     (case hdr ''Cookie'' of None \<Rightarrow> None | Some cookies \<Rightarrow> cookie_loop cookies name)"

definition extract_session_token :: "('a request_header_scheme) \<Rightarrow> string option" where
  "extract_session_token request = extract_cookie (hd_find request) kSessionCookieName"

definition extract_pending_mfa_token :: "http_request \<Rightarrow> string option" where
  "extract_pending_mfa_token request = extract_cookie (hd_find request) kPendingMfaCookieName"

definition extract_webauthn_login_token :: "http_request \<Rightarrow> string option" where
  "extract_webauthn_login_token request = extract_cookie (hd_find request) kWebAuthnLoginCookieName"

definition cookie_header :: "string \<Rightarrow> string \<Rightarrow> string \<Rightarrow> bool \<Rightarrow> string" where
  "cookie_header name token max_age secure =
     name @ ''='' @ token @ ''; HttpOnly; SameSite=Strict; Path=/; Max-Age='' @ max_age
       @ (if secure then ''; Secure'' else [])"

definition session_set_cookie_header :: "string \<Rightarrow> bool \<Rightarrow> string" where
  "session_set_cookie_header token secure = cookie_header kSessionCookieName token ''43200'' secure"

definition session_clear_cookie_header :: "bool \<Rightarrow> string" where
  "session_clear_cookie_header secure = cookie_header kSessionCookieName [] ''0'' secure"

definition pending_mfa_set_cookie_header :: "string \<Rightarrow> bool \<Rightarrow> string" where
  "pending_mfa_set_cookie_header token secure = cookie_header kPendingMfaCookieName token ''300'' secure"

definition pending_mfa_clear_cookie_header :: "bool \<Rightarrow> string" where
  "pending_mfa_clear_cookie_header secure = cookie_header kPendingMfaCookieName [] ''0'' secure"

definition webauthn_login_set_cookie_header :: "string \<Rightarrow> bool \<Rightarrow> string" where
  "webauthn_login_set_cookie_header token secure = cookie_header kWebAuthnLoginCookieName token ''120'' secure"

definition webauthn_login_clear_cookie_header :: "bool \<Rightarrow> string" where
  "webauthn_login_clear_cookie_header secure = cookie_header kWebAuthnLoginCookieName [] ''0'' secure"

text \<open>The cookie a browser sends back is the one that was set.\<close>

lemma extract_cookie_holds:
  assumes "set name \<inter> {CHR '';'', CHR ''='', CHR '' ''} = {}" and "name \<noteq> []" and "CHR '';'' \<notin> set token"
  shows "extract_cookie [''Cookie'' \<mapsto> name @ ''='' @ token] name = Some token"
proof -
  let ?c = "name @ CHR ''='' # token"
  have semi: "find_char (CHR '';'') ?c = None" using assms(1,3) by (auto simp: find_char_None)
  have part: "dropWhile (\<lambda>c. c = CHR '' '') ?c = ?c" using assms(1,2) by (cases name) auto
  have eq: "find_char (CHR ''='') ?c = Some (length name)"
    by (rule find_char_append) (use assms(1) in auto)
  have "cookie_loop ?c name = Some token"
    by (subst cookie_loop.simps) (simp only: Let_def semi option.case part eq, simp)
  then show ?thesis by (simp add: extract_cookie_def)
qed

section \<open>Routes\<close>

definition is_public_api_route :: "string \<Rightarrow> bool" where
  "is_public_api_route target \<longleftrightarrow>
     target = ''/api/auth/status'' \<or> target = ''/api/auth/setup'' \<or> target = ''/api/auth/login''
     \<or> target = ''/api/auth/2fa/totp/verify'' \<or> target = ''/api/auth/2fa/backup-code/verify''
     \<or> target = ''/api/auth/webauthn/login/options'' \<or> target = ''/api/auth/webauthn/login/verify''
     \<or> target = ''/api/auth/webauthn/2fa/options'' \<or> target = ''/api/auth/webauthn/2fa/verify''"

definition is_mfa_setup_allowed_route :: "string \<Rightarrow> bool" where
  "is_mfa_setup_allowed_route target \<longleftrightarrow>
     target = ''/api/auth/logout'' \<or> target = ''/api/auth/2fa/status'' \<or> target = ''/api/auth/2fa/totp/setup''
     \<or> target = ''/api/auth/2fa/totp/confirm'' \<or> target = ''/api/auth/2fa/webauthn/register/options''
     \<or> target = ''/api/auth/2fa/webauthn/register/verify''"

section \<open>State and environment\<close>

record AdminState = AppState +
  as_users :: UserStore
  as_sessions :: SessionStore
  as_pending_mfa :: PendingMfaStore
  as_pending_totp :: PendingTotpStore
  as_webauthn_challenges :: ChallengeStore
  as_login_history :: LoginHistory
  as_server_location :: ServerLocationCache

record ('n, 'k) platform =
  pf_web :: web
  pf_yaml :: "'n yaml_lib"
  pf_kdf :: pbkdf2
  pf_hmac :: hmac
  pf_crypto :: "'k crypto"
  pf_cbor_load :: cbor_load
  pf_addresses :: address_lib
  pf_files :: file_system
  pf_contents :: "path \<Rightarrow> string"
  pf_config_path :: string
  pf_keep_alive :: "request_header \<Rightarrow> bool"
  pf_geoip_loaded :: bool
  pf_asn_loaded :: bool

abbreviation pf_address :: "('n, 'k) platform \<Rightarrow> string \<Rightarrow> ip_address option" where
  "pf_address pf \<equiv> al_make_address (pf_addresses pf)"

text \<open>Writing an uploaded file: what \<open>create_directories\<close> throws, whether the temporary file opens,
  what \<open>rename\<close> throws.\<close>

record upload_io =
  ui_mkdir :: "string option"
  ui_open :: bool
  ui_rename :: "string option"

text \<open>\<open>mo_rand i n\<close> is the outcome of the \<open>i\<close>-th call of \<open>RAND_bytes\<close> that asks for \<open>n\<close> bytes,
  \<open>mo_rand_byte\<close> and \<open>mo_salts\<close> those of generating and hashing recovery codes; \<open>mo_save\<close> and
  \<open>mo_upload\<close> are the outcome of writing a file, \<open>mo_clock\<close> the time at each line of an import and
  \<open>mo_net\<close> the network a download meets.\<close>

record moment =
  mo_now :: ticks
  mo_steady :: ticks
  mo_clock :: "nat \<Rightarrow> ticks"
  mo_rand :: "nat \<Rightarrow> nat \<Rightarrow> bytes option"
  mo_rand_byte :: "nat \<Rightarrow> u8 option"
  mo_salts :: "nat \<Rightarrow> nat \<Rightarrow> bytes option"
  mo_save :: "error option"
  mo_upload :: upload_io
  mo_net :: download_net

type_synonym 'a handler = "AdminState \<Rightarrow> 'a result \<times> AdminState"

definition ret :: "'a \<Rightarrow> 'a handler" where
  "ret x s = (Inr x, s)"

definition fail :: "error \<Rightarrow> 'a handler" where
  "fail e s = (Inl e, s)"

definition and_do :: "'a handler \<Rightarrow> ('a \<Rightarrow> 'b handler) \<Rightarrow> 'b handler" where
  "and_do a f s = (case a s of (Inl e, s') \<Rightarrow> (Inl e, s') | (Inr x, s') \<Rightarrow> f x s')"

definition lift :: "'a result \<Rightarrow> 'a handler" where
  "lift r s = (r, s)"

definition with_state :: "(AdminState \<Rightarrow> 'a handler) \<Rightarrow> 'a handler" where
  "with_state f s = f s s"

definition modify :: "(AdminState \<Rightarrow> AdminState) \<Rightarrow> unit handler" where
  "modify f s = (Inr (), f s)"

definition on_users :: "'a user_op \<Rightarrow> 'a handler" where
  "on_users op s = (case op (as_users s) of (r, u) \<Rightarrow> (r, s\<lparr>as_users := u\<rparr>))"

text \<open>The \<open>catch\<close> clauses for \<open>std::invalid_argument\<close> and \<open>std::exception\<close>.\<close>

definition catch_invalid :: "'a handler \<Rightarrow> (string \<Rightarrow> 'a) \<Rightarrow> 'a handler" where
  "catch_invalid a h s =
     (case a s of (Inl (InvalidArgument m), s') \<Rightarrow> (Inr (h m), s') | r \<Rightarrow> r)"

definition catch_any :: "'a handler \<Rightarrow> 'a \<Rightarrow> 'a handler" where
  "catch_any a x s = (case a s of (Inl e, s') \<Rightarrow> (Inr x, s') | r \<Rightarrow> r)"

definition update_config_with :: "(RuntimeConfig \<Rightarrow> (RuntimeConfig \<times> 'a) result) \<Rightarrow> 'a handler" where
  "update_config_with mutator s =
     (case mutator (as_config s) of Inl e \<Rightarrow> (Inl e, s) | Inr (c, x) \<Rightarrow> (Inr x, s\<lparr>as_config := c\<rparr>))"

definition update_config :: "(RuntimeConfig \<Rightarrow> RuntimeConfig result) \<Rightarrow> unit handler" where
  "update_config mutator s =
     (case mutator (as_config s) of Inl e \<Rightarrow> (Inl e, s) | Inr c \<Rightarrow> (Inr (), s\<lparr>as_config := c\<rparr>))"

named_theorems actions "the actions as functions of the state"

lemmas [actions] = ret_def fail_def lift_def with_state_def modify_def

definition respond :: "('n, 'k) platform \<Rightarrow> nat \<Rightarrow> json \<Rightarrow> nat \<Rightarrow> server_response handler" where
  "respond pf status body version = ret (json_response (pf_web pf) status body version)"

definition respond_error :: "('n, 'k) platform \<Rightarrow> nat \<Rightarrow> string \<Rightarrow> nat \<Rightarrow> server_response handler" where
  "respond_error pf status message version = ret (error_response (pf_web pf) status message version)"

lemmas [actions] = respond_def respond_error_def

definition admin_uses_tls :: "AdminState \<Rightarrow> bool" where
  "admin_uses_tls s \<longleftrightarrow>
     admin_tls_cert_file (cfg_admin (as_config s)) \<noteq> [] \<and> admin_tls_key_file (cfg_admin (as_config s)) \<noteq> []"

definition request_host :: "http_request \<Rightarrow> string" where
  "request_host request = (case hd_find request ''Host'' of None \<Rightarrow> [] | Some h \<Rightarrow> h)"

definition webauthn_rp_id :: "http_request \<Rightarrow> string" where
  "webauthn_rp_id request =
     (let host = request_host request in
      case find_char (CHR '':'') host of None \<Rightarrow> host | Some colon \<Rightarrow> take colon host)"

definition webauthn_expected_origin :: "http_request \<Rightarrow> bool \<Rightarrow> string" where
  "webauthn_expected_origin request uses_tls =
     (if uses_tls then ''https://'' else ''http://'') @ request_host request"

definition random_webauthn_challenge :: "moment \<Rightarrow> bytes handler" where
  "random_webauthn_challenge mo =
     (case mo_rand mo 0 32 of
        None \<Rightarrow> fail (RuntimeError ''RAND_bytes failed'')
      | Some challenge \<Rightarrow> ret challenge)"

definition parse_body :: "('n, 'k) platform \<Rightarrow> string \<Rightarrow> json_object option" where
  "parse_body pf body = parse_json_object (wb_json (pf_web pf)) body"

text \<open>The path a string names: its non-empty segments, after the root of an absolute one.\<close>

definition fs_path :: "string \<Rightarrow> path" where
  "fs_path s = (if s \<noteq> [] \<and> hd s = CHR ''/'' then [''/''] else []) @ filter (\<lambda>seg. seg \<noteq> []) (getline_segments [] s)"

definition serve_static_file :: "('n, 'k) platform \<Rightarrow> path \<Rightarrow> string \<Rightarrow> nat \<Rightarrow> server_response" where
  "serve_static_file pf static_dir target version =
     (case resolve_static_path (pf_files pf) static_dir target of
        None \<Rightarrow> error_response (pf_web pf) 404 ''not found'' version
      | Some resolved \<Rightarrow>
          (let res = \<lparr>rp_version = version, rp_status = 200, rp_find = (\<lambda>_. None), rp_keep_alive = True,
                      rp_body = []\<rparr>;
               res = set_response_field ''Server'' ''atomwall-admin'' res;
               res = set_response_field ''Content-Type'' (mime_type_for resolved) res;
               res = set_response_field ''X-Content-Type-Options'' ''nosniff'' res;
               res = set_response_field ''X-Frame-Options'' ''DENY'' res;
               res = set_response_field ''Referrer-Policy'' ''no-referrer'' res;
               res = res\<lparr>rp_body := pf_contents pf resolved\<rparr>
           in prepare_payload (wb_beast (pf_web pf)) \<lparr>sr_message = res, sr_set_cookie = []\<rparr>))"

section \<open>Samples\<close>

text \<open>A platform on which every body parses to the same object.\<close>

definition sample_platform :: "json_object \<Rightarrow> (tree, bytes) platform" where
  "sample_platform obj =
     \<lparr>pf_web = \<lparr>wb_beast = announcing_beast,
                wb_json = \<lparr>jl_parse = (\<lambda>_. Some (JObject obj)), jl_serialize = (\<lambda>_. [])\<rparr>\<rparr>,
      pf_yaml = tree_yaml, pf_kdf = sample_kdf, pf_hmac = (\<lambda>_ _. Some (replicate 20 0)),
      pf_crypto = sample_crypto, pf_cbor_load = (\<lambda>_. None), pf_addresses = boost_addresses,
      pf_files = sample_fs, pf_contents = (\<lambda>_. ''text''), pf_config_path = ''config/atomwall.yaml'',
      pf_keep_alive = (\<lambda>_. True), pf_geoip_loaded = False, pf_asn_loaded = False\<rparr>"

definition sample_moment :: moment where
  "sample_moment =
     \<lparr>mo_now = 1000, mo_steady = 1000, mo_clock = (\<lambda>i. 1000), mo_rand = (\<lambda>i n. Some (replicate n 7)),
      mo_rand_byte = (\<lambda>_. Some 7), mo_salts = (\<lambda>i n. Some (replicate n 7)), mo_save = None,
      mo_upload = \<lparr>ui_mkdir = None, ui_open = True, ui_rename = None\<rparr>, mo_net = sample_net\<rparr>"

definition sample_admin :: "RuntimeConfig \<Rightarrow> UserStore \<Rightarrow> SessionStore \<Rightarrow> AdminState" where
  "sample_admin config users sessions = AppState.extend (sample_state config)
     \<lparr>as_users = users, as_sessions = sessions, as_pending_mfa = [], as_pending_totp = [],
      as_webauthn_challenges = new_challenge_store,
      as_login_history = \<lparr>lh_buffer = [], lh_capacity = 5, lh_next_seq = 0\<rparr>, as_server_location = None\<rparr>"

definition api_request :: "string \<Rightarrow> string \<Rightarrow> (string \<rightharpoonup> string) \<Rightarrow> request_header" where
  "api_request verb target fs = \<lparr>hd_version = 11, hd_method_string = verb, hd_target = target, hd_find = fs\<rparr>"

lemma sample_admin_simps [simp]:
  "as_config (sample_admin c u ss) = c" "as_users (sample_admin c u ss) = u" "as_sessions (sample_admin c u ss) = ss"
  "as_pending_mfa (sample_admin c u ss) = []"
  by (simp_all add: sample_admin_def sample_state_def AppState.extend_def)

lemma sample_platform_beast [simp]: "beast_ok (wb_beast (pf_web (sample_platform obj)))"
  by (simp add: sample_platform_def announcing_beast_ok)

end
