(* ===== verification/Admin_Auth.thy ===== *)
theory Admin_Auth
  imports Admin_Base
begin

text \<open>
  The authentication handlers of \<^verbatim>\<open>admin/admin_server.cpp\<close>: first account, password login, the
  second factors at login and their enrolment, passkeys, and the accounts.  Each is the sequence of
  effects of its body, in the order of its statements.
\<close>

section \<open>Sessions and challenges\<close>

definition session_of :: "moment \<Rightarrow> string option \<Rightarrow> AdminState \<Rightarrow> SessionInfo option" where
  "session_of mo token s = (case token of None \<Rightarrow> None | Some t \<Rightarrow> validate_session (as_sessions s) t (mo_steady mo))"

definition pending_user :: "moment \<Rightarrow> http_request \<Rightarrow> AdminState \<Rightarrow> string option" where
  "pending_user mo request s =
     (case extract_pending_mfa_token request of
        None \<Rightarrow> None
      | Some t \<Rightarrow> validate_pending_mfa (as_pending_mfa s) t (mo_steady mo))"

definition handle_auth_status :: "('n, 'k) platform \<Rightarrow> moment \<Rightarrow> http_request \<Rightarrow> nat \<Rightarrow> server_response handler" where
  "handle_auth_status pf mo request version = with_state (\<lambda>s.
     let session = session_of mo (extract_session_token request) s in
     respond pf 200 (JObject
       [(''setup_required'', JBool (store_empty (as_users s))),
        (''authenticated'', JBool (session \<noteq> None)),
        (''needs_mfa_setup'', JBool (session \<noteq> None \<and> si_needs_mfa_setup (the session)))]) version)"

definition issue_session_response ::
  "('n, 'k) platform \<Rightarrow> moment \<Rightarrow> string \<Rightarrow> bool \<Rightarrow> nat \<Rightarrow> string \<Rightarrow> server_response handler" where
  "issue_session_response pf mo username needs_mfa_setup version client_ip =
     and_do (with_state (\<lambda>s. lift (create_session (mo_rand mo 2) username needs_mfa_setup (mo_steady mo)
                               session_ttl (as_sessions s)))) (\<lambda>(token, sessions).
     and_do (modify (\<lambda>s. s\<lparr>as_sessions := sessions\<rparr>)) (\<lambda>_.
     and_do (modify (\<lambda>s. s\<lparr>as_login_history := login_record
               \<lparr>le_seq = 0, le_timestamp = mo_now mo, le_username = username, le_client_ip = client_ip\<rparr>
               (as_login_history s)\<rparr>)) (\<lambda>_.
     with_state (\<lambda>s.
       let res = json_response (pf_web pf) 200 (JObject
             [(''username'', JString username), (''needs_mfa_setup'', JBool needs_mfa_setup)]) version;
           res = insert_cookie (session_set_cookie_header token (admin_uses_tls s)) res
       in ret (insert_cookie (pending_mfa_clear_cookie_header (admin_uses_tls s)) res)))))"

definition issue_mfa_challenge_response ::
  "('n, 'k) platform \<Rightarrow> moment \<Rightarrow> string \<Rightarrow> bool \<Rightarrow> bool \<Rightarrow> bool \<Rightarrow> nat \<Rightarrow> server_response handler" where
  "issue_mfa_challenge_response pf mo username has_totp has_backup_codes has_webauthn version =
     and_do (with_state (\<lambda>s. lift (create_pending_mfa (mo_rand mo 2) username (mo_steady mo) pending_mfa_ttl
                               (as_pending_mfa s)))) (\<lambda>(token, pending).
     and_do (modify (\<lambda>s. s\<lparr>as_pending_mfa := pending\<rparr>)) (\<lambda>_.
     with_state (\<lambda>s.
       let methods = (if has_totp then [JString ''totp''] else []) @ (if has_webauthn then [JString ''webauthn''] else []);
           res = json_response (pf_web pf) 200 (JObject
             [(''mfa_required'', JBool True), (''methods'', JArray methods),
              (''has_backup_codes'', JBool has_backup_codes)]) version
       in ret (set_cookie (pending_mfa_set_cookie_header token (admin_uses_tls s)) res))))"

definition handle_auth_setup ::
  "('n, 'k) platform \<Rightarrow> moment \<Rightarrow> string \<Rightarrow> nat \<Rightarrow> string \<Rightarrow> server_response handler" where
  "handle_auth_setup pf mo body version client_ip = with_state (\<lambda>s.
     if \<not> store_empty (as_users s) then respond_error pf 409 ''setup already completed'' version
     else case parse_body pf body of
       None \<Rightarrow> respond_error pf 400 ''expected JSON body'' version
     | Some json_body \<Rightarrow>
         (case (json_string_field json_body ''username'', json_string_field json_body ''password'') of
            (Some username, Some password) \<Rightarrow>
              and_do (catch_invalid
                 (and_do (on_users (create_if_empty (pf_yaml pf) (pf_kdf pf) (mo_rand mo 5) (mo_now mo) (mo_save mo)
                            username password)) (\<lambda>created.
                    ret (if created then None
                         else Some (error_response (pf_web pf) 409 ''setup already completed'' version))))
                 (\<lambda>m. Some (error_response (pf_web pf) 400 m version))) (\<lambda>early.
              case early of
                Some response \<Rightarrow> ret response
              | None \<Rightarrow> with_state (\<lambda>s.
                  issue_session_response pf mo username (require_2fa (cfg_security (as_config s))) version client_ip))
          | _ \<Rightarrow> respond_error pf 400 ''username and password are required'' version))"

definition stored_password :: "UserRecord \<Rightarrow> PasswordHash" where
  "stored_password u =
     \<lparr>ph_salt_hex = ur_salt_hex u, ph_hash_hex = ur_hash_hex u, ph_iterations = ur_iterations u\<rparr>"

definition handle_auth_login ::
  "('n, 'k) platform \<Rightarrow> moment \<Rightarrow> string \<Rightarrow> nat \<Rightarrow> string \<Rightarrow> server_response handler" where
  "handle_auth_login pf mo body version client_ip =
     (case parse_body pf body of
        None \<Rightarrow> respond_error pf 400 ''expected JSON body'' version
      | Some json_body \<Rightarrow>
          (case (json_string_field json_body ''username'', json_string_field json_body ''password'') of
             (Some username, Some password) \<Rightarrow> with_state (\<lambda>s.
               case find_user (as_users s) username of
                 None \<Rightarrow> respond_error pf 401 ''invalid username or password'' version
               | Some user \<Rightarrow>
                   and_do (lift (verify_password (pf_kdf pf) password (stored_password user))) (\<lambda>ok.
                   if \<not> ok then respond_error pf 401 ''invalid username or password'' version
                   else if ur_totp user \<noteq> None \<or> ur_webauthn_credentials user \<noteq> []
                   then issue_mfa_challenge_response pf mo username (ur_totp user \<noteq> None)
                          (count_unused (ur_backup_codes user) > 0) (ur_webauthn_credentials user \<noteq> []) version
                   else with_state (\<lambda>s. issue_session_response pf mo username
                          (require_2fa (cfg_security (as_config s))) version client_ip)))
           | _ \<Rightarrow> respond_error pf 400 ''username and password are required'' version))"

definition handle_auth_logout :: "('n, 'k) platform \<Rightarrow> http_request \<Rightarrow> nat \<Rightarrow> server_response handler" where
  "handle_auth_logout pf request version =
     and_do (case extract_session_token request of
               None \<Rightarrow> ret ()
             | Some token \<Rightarrow> modify (\<lambda>s. s\<lparr>as_sessions := invalidate_session token (as_sessions s)\<rparr>)) (\<lambda>_.
     with_state (\<lambda>s. ret (set_cookie (session_clear_cookie_header (admin_uses_tls s))
       (json_response (pf_web pf) 200 (JObject []) version))))"

section \<open>The second factor at login\<close>

definition no_pending_login :: string where
  "no_pending_login = ''no pending login '' @ em_dash @ '' sign in again''"

definition expected_code :: string where
  \<open>expected_code = ''expected {"code": "..."}''\<close>

definition expected_password :: string where
  \<open>expected_password = ''expected {"password": "..."}''\<close>

definition unix_seconds :: "moment \<Rightarrow> int" where
  "unix_seconds mo = tdiv (mo_now mo) 1000000000"

definition invalidate_pending :: "http_request \<Rightarrow> unit handler" where
  "invalidate_pending request =
     modify (\<lambda>s. s\<lparr>as_pending_mfa := invalidate_pending_mfa (the (extract_pending_mfa_token request)) (as_pending_mfa s)\<rparr>)"

definition handle_auth_2fa_totp_verify ::
  "('n, 'k) platform \<Rightarrow> moment \<Rightarrow> http_request \<Rightarrow> nat \<Rightarrow> string \<Rightarrow> server_response handler" where
  "handle_auth_2fa_totp_verify pf mo request version client_ip = with_state (\<lambda>s.
     case pending_user mo request s of
       None \<Rightarrow> respond_error pf 401 no_pending_login version
     | Some username \<Rightarrow>
         (case body_field (parse_body pf (hr_body request)) ''code'' of
            None \<Rightarrow> respond_error pf 400 expected_code version
          | Some given \<Rightarrow>
              (case Option.bind (find_user (as_users s) username) ur_totp of
                 None \<Rightarrow> respond_error pf 401 ''invalid code'' version
               | Some totp \<Rightarrow>
                   and_do (lift (verify_totp (pf_hmac pf) (tc_secret_base32 totp) given (unix_seconds mo))) (\<lambda>matched.
                   case matched of
                     None \<Rightarrow> respond_error pf 401 ''invalid code'' version
                   | Some matched_step \<Rightarrow>
                       and_do (on_users (\<lambda>u. map_prod Inr id (consume_totp_step username matched_step u))) (\<lambda>fresh.
                       if \<not> fresh then respond_error pf 401 ''invalid code'' version
                       else and_do (invalidate_pending request) (\<lambda>_.
                              issue_session_response pf mo username False version client_ip))))))"

definition handle_auth_2fa_backup_code_verify ::
  "('n, 'k) platform \<Rightarrow> moment \<Rightarrow> http_request \<Rightarrow> nat \<Rightarrow> string \<Rightarrow> server_response handler" where
  "handle_auth_2fa_backup_code_verify pf mo request version client_ip = with_state (\<lambda>s.
     case pending_user mo request s of
       None \<Rightarrow> respond_error pf 401 no_pending_login version
     | Some username \<Rightarrow>
         (case body_field (parse_body pf (hr_body request)) ''code'' of
            None \<Rightarrow> respond_error pf 400 expected_code version
          | Some given \<Rightarrow>
              and_do (on_users (consume_user_backup_code (pf_yaml pf) (pf_kdf pf) (mo_save mo) username given)) (\<lambda>ok.
              if \<not> ok then respond_error pf 401 ''invalid or already-used backup code'' version
              else and_do (invalidate_pending request) (\<lambda>_.
                     issue_session_response pf mo username False version client_ip))))"

section \<open>Enrolment of an authenticator\<close>

definition handle_auth_2fa_status ::
  "('n, 'k) platform \<Rightarrow> string \<Rightarrow> nat \<Rightarrow> server_response handler" where
  "handle_auth_2fa_status pf acting_user version = with_state (\<lambda>s.
     case find_user (as_users s) acting_user of
       None \<Rightarrow> respond_error pf 404 ''user not found'' version
     | Some user \<Rightarrow> respond pf 200 (two_factor_status_to_json user) version)"

definition handle_auth_2fa_totp_setup ::
  "('n, 'k) platform \<Rightarrow> moment \<Rightarrow> string \<Rightarrow> nat \<Rightarrow> server_response handler" where
  "handle_auth_2fa_totp_setup pf mo acting_user version =
     and_do (lift (generate_totp_secret_base32 (mo_rand mo 4))) (\<lambda>secret.
     and_do (modify (\<lambda>s. s\<lparr>as_pending_totp := start_pending_totp acting_user secret (mo_steady mo) pending_totp_ttl
               (as_pending_totp s)\<rparr>)) (\<lambda>_.
     respond pf 200 (JObject
       [(''secret_base32'', JString secret),
        (''otpauth_url'', JString (totp_provisioning_uri secret acting_user ''atomwall''))]) version))"

definition mark_satisfied :: "http_request \<Rightarrow> unit handler" where
  "mark_satisfied request =
     (case extract_session_token request of
        None \<Rightarrow> ret ()
      | Some token \<Rightarrow> modify (\<lambda>s. s\<lparr>as_sessions := mark_mfa_satisfied token (as_sessions s)\<rparr>))"

definition codes_json :: "string list \<Rightarrow> json" where
  "codes_json codes = JObject [(''backup_codes'', JArray (map JString codes))]"

definition handle_auth_2fa_totp_confirm ::
  "('n, 'k) platform \<Rightarrow> moment \<Rightarrow> http_request \<Rightarrow> string \<Rightarrow> nat \<Rightarrow> server_response handler" where
  "handle_auth_2fa_totp_confirm pf mo request acting_user version = with_state (\<lambda>s.
     case pending_secret_for (as_pending_totp s) acting_user (mo_steady mo) of
       None \<Rightarrow> respond_error pf 400
         (''no pending TOTP setup '' @ em_dash @ '' call /api/auth/2fa/totp/setup first'') version
     | Some secret \<Rightarrow>
         (case body_field (parse_body pf (hr_body request)) ''code'' of
            None \<Rightarrow> respond_error pf 400 expected_code version
          | Some given \<Rightarrow>
              and_do (lift (verify_totp (pf_hmac pf) secret given (unix_seconds mo))) (\<lambda>matched.
              case matched of
                None \<Rightarrow> respond_error pf 401 ''invalid code'' version
              | Some matched_step \<Rightarrow>
                  and_do (lift (generate_backup_codes (mo_rand_byte mo) 0 10)) (\<lambda>backup_codes.
                  and_do (catch_invalid
                     (and_do (on_users (set_totp (pf_yaml pf) (pf_kdf pf) (mo_salts mo) (mo_save mo) acting_user
                                secret backup_codes)) (\<lambda>_. ret None))
                     (\<lambda>m. Some (error_response (pf_web pf) 400 m version))) (\<lambda>early.
                  case early of
                    Some response \<Rightarrow> ret response
                  | None \<Rightarrow>
                      and_do (on_users (\<lambda>u. map_prod Inr id (consume_totp_step acting_user matched_step u))) (\<lambda>_.
                      and_do (modify (\<lambda>s. s\<lparr>as_pending_totp := clear_pending_totp acting_user (as_pending_totp s)\<rparr>)) (\<lambda>_.
                      and_do (mark_satisfied request) (\<lambda>_.
                      respond pf 200 (codes_json backup_codes) version))))))))"

definition verify_current_password ::
  "('n, 'k) platform \<Rightarrow> string \<Rightarrow> string \<Rightarrow> bool handler" where
  "verify_current_password pf username password = with_state (\<lambda>s.
     case find_user (as_users s) username of
       None \<Rightarrow> ret False
     | Some user \<Rightarrow> lift (verify_password (pf_kdf pf) password (stored_password user)))"

definition handle_auth_2fa_totp_disable ::
  "('n, 'k) platform \<Rightarrow> moment \<Rightarrow> string \<Rightarrow> string \<Rightarrow> nat \<Rightarrow> server_response handler" where
  "handle_auth_2fa_totp_disable pf mo acting_user body version =
     (case body_field (parse_body pf body) ''password'' of
        None \<Rightarrow> respond_error pf 400 expected_password version
      | Some password \<Rightarrow>
          and_do (verify_current_password pf acting_user password) (\<lambda>ok.
          if \<not> ok then respond_error pf 401 ''incorrect password'' version
          else with_state (\<lambda>s.
            if require_2fa (cfg_security (as_config s))
            then respond_error pf 400
              ''cannot disable your only second factor while security.require_2fa is enabled'' version
            else catch_invalid
              (and_do (on_users (clear_totp (pf_yaml pf) (mo_save mo) acting_user)) (\<lambda>_.
                 respond pf 200 (JObject []) version))
              (\<lambda>m. error_response (pf_web pf) 400 m version))))"

definition handle_auth_2fa_backup_codes_regenerate ::
  "('n, 'k) platform \<Rightarrow> moment \<Rightarrow> string \<Rightarrow> string \<Rightarrow> nat \<Rightarrow> server_response handler" where
  "handle_auth_2fa_backup_codes_regenerate pf mo acting_user body version =
     (case body_field (parse_body pf body) ''password'' of
        None \<Rightarrow> respond_error pf 400 expected_password version
      | Some password \<Rightarrow>
          and_do (verify_current_password pf acting_user password) (\<lambda>ok.
          if \<not> ok then respond_error pf 401 ''incorrect password'' version
          else catch_invalid
            (and_do (on_users (regenerate_backup_codes (pf_yaml pf) (pf_kdf pf) (mo_rand_byte mo) (mo_salts mo)
                       (mo_save mo) acting_user)) (\<lambda>codes.
               respond pf 200 (codes_json codes) version))
            (\<lambda>m. error_response (pf_web pf) 400 m version)))"

section \<open>Passkeys\<close>

record WebAuthnCredentialFields =
  wf_id_b64url :: string
  wf_client_data_json :: bytes
  wf_second_field :: bytes
  wf_signature :: bytes

definition decode_field :: "json_object \<Rightarrow> string \<Rightarrow> bytes option" where
  "decode_field obj key =
     (case json_string_field obj key of
        None \<Rightarrow> None
      | Some b64 \<Rightarrow> (case base64url_decode b64 of Inl _ \<Rightarrow> None | Inr b \<Rightarrow> Some b))"

definition parse_credential_fields :: "json_object \<Rightarrow> bool \<Rightarrow> WebAuthnCredentialFields option" where
  "parse_credential_fields body is_registration =
     (case json_object_field body ''credential'' of
        None \<Rightarrow> None
      | Some credential \<Rightarrow>
          (case (json_string_field credential ''id'', json_object_field credential ''response'') of
             (Some cred_id, Some response) \<Rightarrow>
               (case (decode_field response ''clientDataJSON'',
                      decode_field response (if is_registration then ''attestationObject'' else ''authenticatorData'')) of
                  (Some client_data, Some second) \<Rightarrow>
                    (if is_registration
                     then Some \<lparr>wf_id_b64url = cred_id, wf_client_data_json = client_data,
                            wf_second_field = second, wf_signature = []\<rparr>
                     else case decode_field response ''signature'' of
                            None \<Rightarrow> None
                          | Some signature \<Rightarrow>
                              Some \<lparr>wf_id_b64url = cred_id, wf_client_data_json = client_data,
                                    wf_second_field = second, wf_signature = signature\<rparr>)
                | _ \<Rightarrow> None)
           | _ \<Rightarrow> None))"

definition bytes_string :: "bytes \<Rightarrow> string" where
  "bytes_string bs = map (\<lambda>b. char_of (unat b)) bs"

definition start_webauthn_challenge :: "moment \<Rightarrow> string \<Rightarrow> bytes \<Rightarrow> unit handler" where
  "start_webauthn_challenge mo key challenge =
     modify (\<lambda>s. s\<lparr>as_webauthn_challenges := start_challenge key challenge (mo_steady mo) (minutes 2)
       (as_webauthn_challenges s)\<rparr>)"

definition consume_webauthn_challenge :: "moment \<Rightarrow> string \<Rightarrow> bytes option handler" where
  "consume_webauthn_challenge mo key s =
     (case consume_challenge key (mo_steady mo) (as_webauthn_challenges s) of
        (store, challenge) \<Rightarrow> (Inr challenge, s\<lparr>as_webauthn_challenges := store\<rparr>))"

definition credential_refs :: "WebAuthnCredential list \<Rightarrow> json" where
  "credential_refs creds =
     JArray (map (\<lambda>c. JObject [(''type'', JString ''public-key''), (''id'', JString (wc_id_b64url c))]) creds)"

definition handle_webauthn_register_options ::
  "('n, 'k) platform \<Rightarrow> moment \<Rightarrow> http_request \<Rightarrow> string \<Rightarrow> nat \<Rightarrow> server_response handler" where
  "handle_webauthn_register_options pf mo request acting_user version = with_state (\<lambda>s.
     case find_user (as_users s) acting_user of
       None \<Rightarrow> respond_error pf 404 ''user not found'' version
     | Some user \<Rightarrow>
         and_do (random_webauthn_challenge mo) (\<lambda>challenge.
         and_do (start_webauthn_challenge mo (''register:'' @ acting_user) challenge) (\<lambda>_.
         and_do (on_users (webauthn_user_handle (pf_yaml pf) (mo_rand mo 3) (mo_save mo) acting_user)) (\<lambda>user_handle.
         respond pf 200 (JObject
           [(''challenge'', JString (base64url_encode challenge)),
            (''rp'', JObject [(''id'', JString (webauthn_rp_id request)), (''name'', JString ''atomwall'')]),
            (''user'', JObject [(''id'', JString user_handle), (''name'', JString acting_user),
               (''displayName'', JString acting_user)]),
            (''pubKeyCredParams'', JArray
               [JObject [(''type'', JString ''public-key''), (''alg'', JInt (- 7))],
                JObject [(''type'', JString ''public-key''), (''alg'', JInt (- 257))]]),
            (''authenticatorSelection'', JObject
               [(''residentKey'', JString ''preferred''), (''userVerification'', JString ''preferred'')]),
            (''attestation'', JString ''none''), (''timeout'', JInt 60000),
            (''excludeCredentials'', credential_refs (ur_webauthn_credentials user))]) version))))"

definition handle_webauthn_register_verify ::
  "('n, 'k) platform \<Rightarrow> moment \<Rightarrow> http_request \<Rightarrow> string \<Rightarrow> nat \<Rightarrow> server_response handler" where
  "handle_webauthn_register_verify pf mo request acting_user version =
     (case parse_body pf (hr_body request) of
        None \<Rightarrow> respond_error pf 400 ''expected JSON body'' version
      | Some json_body \<Rightarrow>
          (case parse_credential_fields json_body True of
             None \<Rightarrow> respond_error pf 400 ''malformed credential response'' version
           | Some cf \<Rightarrow>
               (let label = (case json_string_field json_body ''label'' of None \<Rightarrow> ''Passkey'' | Some l \<Rightarrow> l) in
                and_do (consume_webauthn_challenge mo (''register:'' @ acting_user)) (\<lambda>challenge.
                case challenge of
                  None \<Rightarrow> respond_error pf 400
                    (''no pending passkey registration '' @ em_dash @ '' call the options endpoint first'') version
                | Some challenge \<Rightarrow> with_state (\<lambda>s.
                    catch_invalid
                      (and_do (lift (verify_webauthn_registration (pf_crypto pf) (pf_cbor_load pf)
                                 (jl_parse (wb_json (pf_web pf))) challenge (bytes_string (wf_client_data_json cf))
                                 (wf_second_field cf) (webauthn_rp_id request)
                                 (webauthn_expected_origin request (admin_uses_tls s)))) (\<lambda>result.
                       and_do (on_users (add_webauthn_credential (pf_yaml pf) (mo_save mo) acting_user
                         \<lparr>wc_id_b64url = wr_credential_id_b64url result, wc_label = label,
                          wc_cose_public_key = wr_cose_public_key result, wc_sign_count = wr_sign_count result,
                          wc_created_at = mo_now mo\<rparr>)) (\<lambda>_.
                       and_do (mark_satisfied request) (\<lambda>_.
                       respond pf 200 (JObject
                         [(''id'', JString (wr_credential_id_b64url result)), (''label'', JString label)]) version))))
                      (\<lambda>m. error_response (pf_web pf) 400 m version))))))"

definition handle_webauthn_delete ::
  "('n, 'k) platform \<Rightarrow> moment \<Rightarrow> string \<Rightarrow> string \<Rightarrow> nat \<Rightarrow> server_response handler" where
  "handle_webauthn_delete pf mo acting_user credential_id version = with_state (\<lambda>s.
     case find_user (as_users s) acting_user of
       None \<Rightarrow> respond_error pf 404 ''user not found'' version
     | Some user \<Rightarrow>
         (let only_factor = (ur_totp user = None \<and> length (ur_webauthn_credentials user) \<le> 1) in
          if only_factor \<and> require_2fa (cfg_security (as_config s))
          then respond_error pf 400
            ''cannot remove your only second factor while security.require_2fa is enabled'' version
          else and_do (on_users (remove_webauthn_credential (pf_yaml pf) (mo_save mo) acting_user credential_id)) (\<lambda>ok.
            if \<not> ok then respond_error pf 404 ''passkey not found'' version
            else respond pf 200 (JObject []) version)))"

definition handle_webauthn_login_options ::
  "('n, 'k) platform \<Rightarrow> moment \<Rightarrow> http_request \<Rightarrow> nat \<Rightarrow> server_response handler" where
  "handle_webauthn_login_options pf mo request version =
     and_do (random_webauthn_challenge mo) (\<lambda>challenge.
     case mo_rand mo 1 32 of
       None \<Rightarrow> respond_error pf 500 ''failed to generate token'' version
     | Some token_bytes \<Rightarrow>
         (let token = base64url_encode token_bytes in
          and_do (start_webauthn_challenge mo (''login:'' @ token) challenge) (\<lambda>_.
          with_state (\<lambda>s. ret (set_cookie (webauthn_login_set_cookie_header token (admin_uses_tls s))
            (json_response (pf_web pf) 200 (JObject
              [(''challenge'', JString (base64url_encode challenge)), (''rpId'', JString (webauthn_rp_id request)),
               (''timeout'', JInt 60000), (''userVerification'', JString ''preferred''),
               (''allowCredentials'', JArray [])]) version))))))"

text \<open>The credential the assertion names; the iterator of \<open>find_if\<close> is its index.\<close>

definition credential_named :: "string \<Rightarrow> UserRecord \<Rightarrow> WebAuthnCredential option" where
  "credential_named cred_id user =
     map_option (\<lambda>j. ur_webauthn_credentials user ! j) (find_credential cred_id (ur_webauthn_credentials user))"

definition verify_assertion ::
  "('n, 'k) platform \<Rightarrow> http_request \<Rightarrow> bool \<Rightarrow> bytes \<Rightarrow> WebAuthnCredentialFields \<Rightarrow> WebAuthnCredential
     \<Rightarrow> WebAuthnAssertionResult result" where
  "verify_assertion pf request uses_tls challenge cf cred =
     verify_webauthn_authentication (pf_crypto pf) (pf_cbor_load pf) (jl_parse (wb_json (pf_web pf))) challenge
       (bytes_string (wf_client_data_json cf)) (wf_second_field cf) (wf_signature cf)
       (wc_cose_public_key cred) (wc_sign_count cred) (webauthn_rp_id request)
       (webauthn_expected_origin request uses_tls)"

definition handle_webauthn_login_verify ::
  "('n, 'k) platform \<Rightarrow> moment \<Rightarrow> http_request \<Rightarrow> nat \<Rightarrow> string \<Rightarrow> server_response handler" where
  "handle_webauthn_login_verify pf mo request version client_ip =
     and_do (case extract_webauthn_login_token request of
               None \<Rightarrow> ret None
             | Some login_token \<Rightarrow> consume_webauthn_challenge mo (''login:'' @ login_token)) (\<lambda>challenge.
     case challenge of
       None \<Rightarrow> respond_error pf 401
         (''no pending passkey login '' @ em_dash @ '' reload and try again'') version
     | Some challenge \<Rightarrow>
         (case parse_body pf (hr_body request) of
            None \<Rightarrow> respond_error pf 400 ''expected JSON body'' version
          | Some json_body \<Rightarrow>
              (case parse_credential_fields json_body False of
                 None \<Rightarrow> respond_error pf 400 ''malformed credential response'' version
               | Some cf \<Rightarrow> with_state (\<lambda>s.
                   case find_by_credential_id (wf_id_b64url cf) (us_users (as_users s)) of
                     None \<Rightarrow> respond_error pf 401 ''unrecognized passkey'' version
                   | Some user \<Rightarrow>
                       catch_invalid
                         (and_do (lift (verify_assertion pf request (admin_uses_tls s) challenge cf
                                    (the (credential_named (wf_id_b64url cf) user)))) (\<lambda>result.
                          and_do (on_users (update_webauthn_sign_count (pf_yaml pf) (mo_save mo) (ur_username user)
                                    (wf_id_b64url cf) (wa_new_sign_count result))) (\<lambda>_.
                          and_do (issue_session_response pf mo (ur_username user) False version client_ip) (\<lambda>res.
                          with_state (\<lambda>s. ret (insert_cookie (webauthn_login_clear_cookie_header (admin_uses_tls s))
                            res))))))
                         (\<lambda>m. error_response (pf_web pf) 401 m version)))))"

definition handle_webauthn_2fa_options ::
  "('n, 'k) platform \<Rightarrow> moment \<Rightarrow> http_request \<Rightarrow> nat \<Rightarrow> server_response handler" where
  "handle_webauthn_2fa_options pf mo request version = with_state (\<lambda>s.
     case pending_user mo request s of
       None \<Rightarrow> respond_error pf 401 no_pending_login version
     | Some username \<Rightarrow>
         (case find_user (as_users s) username of
            None \<Rightarrow> respond_error pf 401 no_pending_login version
          | Some user \<Rightarrow>
              and_do (random_webauthn_challenge mo) (\<lambda>challenge.
              and_do (start_webauthn_challenge mo (''login2fa:'' @ username) challenge) (\<lambda>_.
              respond pf 200 (JObject
                [(''challenge'', JString (base64url_encode challenge)), (''rpId'', JString (webauthn_rp_id request)),
                 (''timeout'', JInt 60000), (''userVerification'', JString ''preferred''),
                 (''allowCredentials'', credential_refs (ur_webauthn_credentials user))]) version))))"

definition handle_webauthn_2fa_verify ::
  "('n, 'k) platform \<Rightarrow> moment \<Rightarrow> http_request \<Rightarrow> nat \<Rightarrow> string \<Rightarrow> server_response handler" where
  "handle_webauthn_2fa_verify pf mo request version client_ip = with_state (\<lambda>s.
     case pending_user mo request s of
       None \<Rightarrow> respond_error pf 401 no_pending_login version
     | Some username \<Rightarrow>
         and_do (consume_webauthn_challenge mo (''login2fa:'' @ username)) (\<lambda>challenge.
         case challenge of
           None \<Rightarrow> respond_error pf 400
             (''no pending passkey challenge '' @ em_dash @ '' call the options endpoint first'') version
         | Some challenge \<Rightarrow>
             (case parse_body pf (hr_body request) of
                None \<Rightarrow> respond_error pf 400 ''expected JSON body'' version
              | Some json_body \<Rightarrow>
                  (case parse_credential_fields json_body False of
                     None \<Rightarrow> respond_error pf 400 ''malformed credential response'' version
                   | Some cf \<Rightarrow> with_state (\<lambda>s.
                       case find_user (as_users s) username of
                         None \<Rightarrow> respond_error pf 401 no_pending_login version
                       | Some user \<Rightarrow>
                           (case credential_named (wf_id_b64url cf) user of
                              None \<Rightarrow> respond_error pf 401 ''unrecognized passkey for this account'' version
                            | Some cred \<Rightarrow>
                                catch_invalid
                                  (and_do (lift (verify_assertion pf request (admin_uses_tls s) challenge cf cred)) (\<lambda>result.
                                   and_do (on_users (update_webauthn_sign_count (pf_yaml pf) (mo_save mo) username
                                             (wf_id_b64url cf) (wa_new_sign_count result))) (\<lambda>_.
                                   and_do (invalidate_pending request) (\<lambda>_.
                                   issue_session_response pf mo username False version client_ip))))
                                  (\<lambda>m. error_response (pf_web pf) 401 m version)))))))"

section \<open>Accounts\<close>

definition handle_security_config_update ::
  "('n, 'k) platform \<Rightarrow> string \<Rightarrow> nat \<Rightarrow> server_response handler" where
  "handle_security_config_update pf body version =
     (case parse_body pf body of
        None \<Rightarrow> respond_error pf 400 ''expected JSON body'' version
      | Some json_body \<Rightarrow>
          and_do (update_config (\<lambda>config. Inr (case json_bool_field json_body ''require_2fa'' of
                    None \<Rightarrow> config
                  | Some b \<Rightarrow> config\<lparr>cfg_security := (cfg_security config)\<lparr>require_2fa := b\<rparr>\<rparr>))) (\<lambda>_.
          with_state (\<lambda>s. respond pf 200 (security_config_to_json (cfg_security (as_config s))) version)))"

definition handle_users_create ::
  "('n, 'k) platform \<Rightarrow> moment \<Rightarrow> string \<Rightarrow> nat \<Rightarrow> server_response handler" where
  "handle_users_create pf mo body version =
     (case parse_body pf body of
        None \<Rightarrow> respond_error pf 400 ''expected JSON body'' version
      | Some json_body \<Rightarrow>
          (case (json_string_field json_body ''username'', json_string_field json_body ''password'') of
             (Some username, Some password) \<Rightarrow>
               catch_invalid
                 (and_do (on_users (create_user (pf_yaml pf) (pf_kdf pf) (mo_rand mo 5) (mo_now mo) (mo_save mo)
                            username password)) (\<lambda>_.
                  with_state (\<lambda>s. respond pf 200 (users_to_json (us_users (as_users s))) version)))
                 (\<lambda>m. error_response (pf_web pf) 400 m version)
           | _ \<Rightarrow> respond_error pf 400 ''username and password are required'' version))"

definition handle_users_delete ::
  "('n, 'k) platform \<Rightarrow> moment \<Rightarrow> string \<Rightarrow> nat \<Rightarrow> server_response handler" where
  "handle_users_delete pf mo username version =
     catch_invalid
       (and_do (on_users (remove_user (pf_yaml pf) (mo_save mo) username)) (\<lambda>ok.
        if \<not> ok then respond_error pf 404 ''user not found'' version
        else with_state (\<lambda>s. respond pf 200 (users_to_json (us_users (as_users s))) version)))
       (\<lambda>m. error_response (pf_web pf) 400 m version)"

end
