(* ===== verification/Admin_Config.thy ===== *)
theory Admin_Config
  imports Admin_Base Site_Ops Blacklist_Ops
begin

text \<open>
  The handlers of \<^verbatim>\<open>admin/admin_server.cpp\<close> behind the session gate that edit the configuration:
  address blocks, the blacklist and the whitelists with their imports, sites, bans and checks,
  pages, uploads, the globe.  A handler that fetches a list suspends until the download is over;
  it reads the state only afterwards, so it is the handler run at that moment.
\<close>

section \<open>Editing and answering\<close>

abbreviation post_request :: "http_request \<Rightarrow> bool" where
  "post_request request \<equiv> hd_method_string request = ''POST''"

definition expected_value :: string where
  \<open>expected_value = ''expected JSON body {"value": "..."}''\<close>

definition expected_url :: string where
  \<open>expected_url = ''expected JSON body {"url": "..."}''\<close>

definition kPersistFailed :: string where
  "kPersistFailed = ''failed to persist config''"

text \<open>The two \<open>catch\<close> clauses around an edit: \<open>Some\<close> is the answer they return.\<close>

definition guarded_edit ::
  "('n, 'k) platform \<Rightarrow> nat \<Rightarrow> nat \<Rightarrow> (RuntimeConfig \<Rightarrow> RuntimeConfig result) \<Rightarrow> server_response option handler" where
  "guarded_edit pf status version mutator =
     catch_invalid (and_do (update_config mutator) (\<lambda>_. ret None))
       (\<lambda>m. Some (error_response (pf_web pf) status m version))"

definition persisted_edit ::
  "('n, 'k) platform \<Rightarrow> nat \<Rightarrow> (RuntimeConfig \<Rightarrow> RuntimeConfig result) \<Rightarrow> server_response option handler" where
  "persisted_edit pf version mutator =
     catch_any (guarded_edit pf 400 version mutator) (Some (error_response (pf_web pf) 500 kPersistFailed version))"

text \<open>After the edit, the answer is a view of the configuration it left.\<close>

definition then_show ::
  "('n, 'k) platform \<Rightarrow> nat \<Rightarrow> server_response option handler \<Rightarrow> (RuntimeConfig \<Rightarrow> json) \<Rightarrow> server_response handler" where
  "then_show pf version edit view =
     and_do edit (\<lambda>early.
       case early of
         Some response \<Rightarrow> ret response
       | None \<Rightarrow> with_state (\<lambda>s. respond pf 200 (view (as_config s)) version))"

section \<open>Address blocks\<close>

definition build_temporary_block ::
  "(string \<Rightarrow> ip_address option) \<Rightarrow> ticks \<Rightarrow> string \<Rightarrow> string \<Rightarrow> ticks \<Rightarrow> TemporaryIpBlock result" where
  "build_temporary_block make_address now txt source duration =
     (let block = \<lparr>tb_text = txt, tb_is_cidr = False, tb_address = V4 [0, 0, 0, 0], tb_prefix_len = 0,
                   tb_source = source, tb_score_at_block = 0, tb_created_at = now,
                   tb_expires_at = tick_add now duration\<rparr>
      in if find_char (CHR ''/'') txt \<noteq> None
         then (case parse_cidr make_address now txt of
                 None \<Rightarrow> throw (InvalidArgument (''not a valid CIDR range: '' @ txt))
               | Some r \<Rightarrow> Inr (block\<lparr>tb_is_cidr := True, tb_address := cidr_prefix r,
                              tb_prefix_len := cidr_prefix_len r\<rparr>))
         else (case make_address txt of
                 None \<Rightarrow> throw (InvalidArgument (''not a valid IP address: '' @ txt))
               | Some addr \<Rightarrow> Inr (block\<lparr>tb_is_cidr := False, tb_address := addr\<rparr>)))"

definition remove_temporary :: "('n, 'k) platform \<Rightarrow> string \<Rightarrow> bool handler" where
  "remove_temporary pf value s =
     (case remove_block (pf_address pf) value (as_ip_blocks s) of (t, found) \<Rightarrow> (Inr found, s\<lparr>as_ip_blocks := t\<rparr>))"

definition list_temporary :: "moment \<Rightarrow> TemporaryIpBlock list handler" where
  "list_temporary mo s =
     (case list_active (mo_now mo) (as_ip_blocks s) of (t, blocks) \<Rightarrow> (Inr blocks, s\<lparr>as_ip_blocks := t\<rparr>))"

definition duration_too_long :: string where
  "duration_too_long = ''duration_hours must be at most '' @ show_int kMaxBanDurationHours @ '' '' @ em_dash
     @ '' use a permanent block (omit duration_hours) instead''"

definition unblock :: "('n, 'k) platform \<Rightarrow> string \<Rightarrow> server_response option handler" where
  "unblock pf value =
     and_do (remove_temporary pf value) (\<lambda>found.
       if found then ret None
       else catch_any (and_do (update_config (remove_blacklist_entry Ips value)) (\<lambda>_. ret None)) None)"

definition block ::
  "('n, 'k) platform \<Rightarrow> moment \<Rightarrow> string \<Rightarrow> int \<Rightarrow> nat \<Rightarrow> server_response option handler" where
  "block pf mo value duration_hours version =
     catch_any (catch_invalid
       (if duration_hours > 0
        then and_do (lift (build_temporary_block (pf_address pf) (mo_now mo) value ''manual'' (hours duration_hours))) (\<lambda>b.
             and_do (modify (\<lambda>s. s\<lparr>as_ip_blocks := add_block b (mo_now mo) (as_ip_blocks s)\<rparr>)) (\<lambda>_. ret None))
        else and_do (update_config (add_blacklist_entry (pf_address pf) Ips value (mo_now mo) [] ''manual'')) (\<lambda>_.
             ret None))
       (\<lambda>m. Some (error_response (pf_web pf) 400 m version)))
     (Some (error_response (pf_web pf) 500 kPersistFailed version))"

definition handle_ip_block_mutation ::
  "('n, 'k) platform \<Rightarrow> moment \<Rightarrow> http_request \<Rightarrow> nat \<Rightarrow> server_response handler" where
  "handle_ip_block_mutation pf mo request version =
     (case parse_body pf (hr_body request) of
        None \<Rightarrow> respond_error pf 400 expected_value version
      | Some json_body \<Rightarrow>
          (case json_string_field json_body ''value'' of
             None \<Rightarrow> respond_error pf 400 expected_value version
           | Some value \<Rightarrow>
               (let duration_hours = (case json_int_field json_body ''duration_hours'' of None \<Rightarrow> 0 | Some h \<Rightarrow> h) in
                and_do (if hd_method_string request = ''DELETE'' then unblock pf value
                        else if duration_hours > kMaxBanDurationHours
                        then ret (Some (error_response (pf_web pf) 400 duration_too_long version))
                        else block pf mo value duration_hours version) (\<lambda>early.
                case early of
                  Some response \<Rightarrow> ret response
                | None \<Rightarrow>
                    and_do (list_temporary mo) (\<lambda>blocks.
                    with_state (\<lambda>s. respond pf 200 (ip_blocks_to_json (cfg_blacklist (as_config s)) blocks) version))))))"

section \<open>Blacklist\<close>

definition handle_blacklist_mutation ::
  "('n, 'k) platform \<Rightarrow> moment \<Rightarrow> http_request \<Rightarrow> string \<Rightarrow> nat \<Rightarrow> string \<Rightarrow> server_response handler" where
  "handle_blacklist_mutation pf mo request category_name version acting_user =
     (case parse_blacklist_category category_name of
        None \<Rightarrow> respond_error pf 404 ''unknown blacklist category'' version
      | Some category \<Rightarrow>
          if category = Ips then handle_ip_block_mutation pf mo request version
          else case body_field (parse_body pf (hr_body request)) ''value'' of
            None \<Rightarrow> respond_error pf 400 expected_value version
          | Some value \<Rightarrow>
              then_show pf version
                (persisted_edit pf version (\<lambda>config.
                   if post_request request
                   then add_blacklist_entry (pf_address pf) category value (mo_now mo) acting_user ''manual'' config
                   else remove_blacklist_entry category value config))
                (\<lambda>config. blacklist_category_to_json (cfg_blacklist config) category))"

definition blacklist_view :: "BlacklistCategory \<Rightarrow> RuntimeConfig \<Rightarrow> json" where
  "blacklist_view category config =
     (if category = Ips then ip_blacklist_to_json (cfg_blacklist config)
      else blacklist_category_to_json (cfg_blacklist config) category)"

definition handle_blacklist_clear ::
  "('n, 'k) platform \<Rightarrow> string \<Rightarrow> nat \<Rightarrow> server_response handler" where
  "handle_blacklist_clear pf category_name version =
     (case parse_blacklist_category category_name of
        None \<Rightarrow> respond_error pf 404 ''unknown blacklist category'' version
      | Some category \<Rightarrow>
          then_show pf version
            (catch_any (and_do (update_config (clear_blacklist_category category)) (\<lambda>_. ret None))
               (Some (error_response (pf_web pf) 500 kPersistFailed version)))
            (blacklist_view category))"

text \<open>The end of the three imports: the edit, its counts and the list it left.\<close>

definition apply_import ::
  "('n, 'k) platform \<Rightarrow> nat \<Rightarrow> (RuntimeConfig \<Rightarrow> (RuntimeConfig \<times> ImportResult) result) \<Rightarrow> (RuntimeConfig \<Rightarrow> json)
     \<Rightarrow> server_response handler" where
  "apply_import pf version import_entries view =
     and_do (catch_any (and_do (update_config_with import_entries) (\<lambda>res. ret (Some res))) None) (\<lambda>outcome.
     case outcome of
       None \<Rightarrow> respond_error pf 500 kPersistFailed version
     | Some res \<Rightarrow> with_state (\<lambda>s. respond pf 200 (JObject
         [(''added'', jnat (ir_added res)), (''skipped'', jnat (ir_skipped res)),
          (''entries'', view (as_config s))]) version))"

definition apply_blacklist_import ::
  "('n, 'k) platform \<Rightarrow> moment \<Rightarrow> BlacklistCategory \<Rightarrow> string \<Rightarrow> nat \<Rightarrow> string \<Rightarrow> server_response handler" where
  "apply_blacklist_import pf mo category body version acting_user =
     apply_import pf version (import_blacklist_entries (pf_address pf) (mo_clock mo) category body acting_user)
       (blacklist_view category)"

definition handle_blacklist_import ::
  "('n, 'k) platform \<Rightarrow> moment \<Rightarrow> string \<Rightarrow> string \<Rightarrow> nat \<Rightarrow> string \<Rightarrow> server_response handler" where
  "handle_blacklist_import pf mo category_name body version acting_user =
     (case parse_blacklist_category category_name of
        None \<Rightarrow> respond_error pf 404 ''unknown blacklist category'' version
      | Some category \<Rightarrow> apply_blacklist_import pf mo category body version acting_user)"

definition download :: "('n, 'k) platform \<Rightarrow> moment \<Rightarrow> string \<Rightarrow> UrlFetchResult" where
  "download pf mo url =
     fst (fetch_url (pf_addresses pf) (mo_now mo) (mo_net mo) url kImportUrlMaxBytes kImportUrlTimeout)"

text \<open>What the three imports from a URL do before they differ.\<close>

definition with_download ::
  "('n, 'k) platform \<Rightarrow> moment \<Rightarrow> string \<Rightarrow> nat \<Rightarrow> (string \<Rightarrow> server_response handler) \<Rightarrow> server_response handler" where
  "with_download pf mo body version import_text =
     (case body_field (parse_body pf body) ''url'' of
        None \<Rightarrow> respond_error pf 400 expected_url version
      | Some url \<Rightarrow>
          (let fetched = download pf mo url in
           if \<not> uf_ok fetched then respond_error pf 502 (uf_error fetched) version
           else import_text (uf_body fetched)))"

definition handle_blacklist_import_url ::
  "('n, 'k) platform \<Rightarrow> moment \<Rightarrow> string \<Rightarrow> string \<Rightarrow> nat \<Rightarrow> string \<Rightarrow> server_response handler" where
  "handle_blacklist_import_url pf mo category_name body version acting_user =
     (case parse_blacklist_category category_name of
        None \<Rightarrow> respond_error pf 404 ''unknown blacklist category'' version
      | Some category \<Rightarrow>
          with_download pf mo body version (\<lambda>t. apply_blacklist_import pf mo category t version acting_user))"

section \<open>Whitelists\<close>

definition handle_whitelist_mutation ::
  "('n, 'k) platform \<Rightarrow> moment \<Rightarrow> http_request \<Rightarrow> nat \<Rightarrow> string \<Rightarrow> server_response handler" where
  "handle_whitelist_mutation pf mo request version acting_user =
     (case body_field (parse_body pf (hr_body request)) ''value'' of
        None \<Rightarrow> respond_error pf 400 expected_value version
      | Some value \<Rightarrow>
          then_show pf version
            (persisted_edit pf version (\<lambda>config.
               if post_request request
               then add_whitelist_entry (pf_address pf) value (mo_now mo) acting_user ''manual'' config
               else Inr (remove_whitelist_entry value config)))
            (\<lambda>config. whitelist_to_json (cfg_whitelist config)))"

definition handle_whitelist_clear :: "('n, 'k) platform \<Rightarrow> nat \<Rightarrow> server_response handler" where
  "handle_whitelist_clear pf version =
     then_show pf version
       (catch_any (and_do (update_config (\<lambda>config. Inr (clear_whitelist config))) (\<lambda>_. ret None))
          (Some (error_response (pf_web pf) 500 kPersistFailed version)))
       (\<lambda>config. whitelist_to_json (cfg_whitelist config))"

definition handle_whitelist_import ::
  "('n, 'k) platform \<Rightarrow> moment \<Rightarrow> string \<Rightarrow> nat \<Rightarrow> string \<Rightarrow> server_response handler" where
  "handle_whitelist_import pf mo body version acting_user =
     apply_import pf version (import_whitelist_entries (pf_address pf) (mo_clock mo) body acting_user)
       (\<lambda>config. whitelist_to_json (cfg_whitelist config))"

definition handle_whitelist_import_url ::
  "('n, 'k) platform \<Rightarrow> moment \<Rightarrow> string \<Rightarrow> nat \<Rightarrow> string \<Rightarrow> server_response handler" where
  "handle_whitelist_import_url pf mo body version acting_user =
     with_download pf mo body version (\<lambda>t. handle_whitelist_import pf mo t version acting_user)"

definition handle_whitelist_routes_mutation ::
  "('n, 'k) platform \<Rightarrow> moment \<Rightarrow> http_request \<Rightarrow> nat \<Rightarrow> string \<Rightarrow> server_response handler" where
  "handle_whitelist_routes_mutation pf mo request version acting_user =
     (case body_field (parse_body pf (hr_body request)) ''value'' of
        None \<Rightarrow> respond_error pf 400 expected_value version
      | Some value \<Rightarrow>
          then_show pf version
            (persisted_edit pf version (\<lambda>config.
               if post_request request
               then add_whitelist_route_entry value (mo_now mo) acting_user ''manual'' config
               else Inr (remove_whitelist_route_entry value config)))
            (\<lambda>config. whitelist_routes_to_json (cfg_whitelist config)))"

definition handle_whitelist_routes_clear :: "('n, 'k) platform \<Rightarrow> nat \<Rightarrow> server_response handler" where
  "handle_whitelist_routes_clear pf version =
     then_show pf version
       (catch_any (and_do (update_config (\<lambda>config. Inr (clear_whitelist_routes config))) (\<lambda>_. ret None))
          (Some (error_response (pf_web pf) 500 kPersistFailed version)))
       (\<lambda>config. whitelist_routes_to_json (cfg_whitelist config))"

definition handle_whitelist_routes_import ::
  "('n, 'k) platform \<Rightarrow> moment \<Rightarrow> string \<Rightarrow> nat \<Rightarrow> string \<Rightarrow> server_response handler" where
  "handle_whitelist_routes_import pf mo body version acting_user =
     apply_import pf version (import_whitelist_route_entries (mo_clock mo) body acting_user)
       (\<lambda>config. whitelist_routes_to_json (cfg_whitelist config))"

definition handle_whitelist_routes_import_url ::
  "('n, 'k) platform \<Rightarrow> moment \<Rightarrow> string \<Rightarrow> nat \<Rightarrow> string \<Rightarrow> server_response handler" where
  "handle_whitelist_routes_import_url pf mo body version acting_user =
     with_download pf mo body version (\<lambda>t. handle_whitelist_routes_import pf mo t version acting_user)"

end
