(* ===== verification/Admin_Settings.thy ===== *)
theory Admin_Settings
  imports Admin_Config
begin

text \<open>
  The remaining handlers of \<^verbatim>\<open>admin/admin_server.cpp\<close> behind the session gate: sites, bans, the
  speed and method checks, pages, logs, uploads of address databases and the globe.  Every edit of
  the configuration is one function of it, applied by \<open>ConfigStore::update\<close> as a whole.
\<close>

section \<open>Sites\<close>

definition expected_site :: string where
  \<open>expected_site = ''expected JSON body {"domain", "upstream_host", "upstream_port", ...}''\<close>

definition bad_upstream_port :: string where
  "bad_upstream_port = ''upstream_port must be between 1 and 65535''"

definition opt_field :: "'a option \<Rightarrow> 'a \<Rightarrow> 'a" where
  "opt_field x d = (case x of None \<Rightarrow> d | Some v \<Rightarrow> v)"

definition handle_sites_create ::
  "('n, 'k) platform \<Rightarrow> string \<Rightarrow> nat \<Rightarrow> server_response handler" where
  "handle_sites_create pf body version =
     (let obj = opt_field (parse_body pf body) [] in
      case (json_string_field obj ''domain'', json_string_field obj ''upstream_host'', json_int_field obj ''upstream_port'') of
        (Some domain, Some upstream_host, Some upstream_port) \<Rightarrow>
          if upstream_port \<le> 0 \<or> upstream_port > 65535 then respond_error pf 400 bad_upstream_port version
          else
            (let site = \<lparr>site_domain = domain,
                         site_enabled = opt_field (json_bool_field obj ''enabled'') (site_enabled default_site),
                         site_cert_file = opt_field (json_string_field obj ''cert_file'') [],
                         site_key_file = opt_field (json_string_field obj ''key_file'') [],
                         site_upstream = (site_upstream default_site)
                           \<lparr>up_host := upstream_host, up_port := word_of_int upstream_port\<rparr>\<rparr>
             in then_show pf version (guarded_edit pf 400 version (add_site site)) sites_to_json)
      | _ \<Rightarrow> respond_error pf 400 expected_site version)"

definition handle_sites_update ::
  "('n, 'k) platform \<Rightarrow> string \<Rightarrow> string \<Rightarrow> nat \<Rightarrow> server_response handler" where
  "handle_sites_update pf domain body version =
     (case parse_body pf body of
        None \<Rightarrow> respond_error pf 400 ''expected JSON body'' version
      | Some obj \<Rightarrow>
          (let port = json_int_field obj ''upstream_port'' in
           if (case port of None \<Rightarrow> False | Some p \<Rightarrow> p \<le> 0 \<or> p > 65535)
           then respond_error pf 400 bad_upstream_port version
           else then_show pf version
             (guarded_edit pf 404 version (update_site domain
                \<lparr>su_enabled = json_bool_field obj ''enabled'',
                 su_cert_file = json_string_field obj ''cert_file'',
                 su_key_file = json_string_field obj ''key_file'',
                 su_upstream_host = json_string_field obj ''upstream_host'',
                 su_upstream_port = map_option word_of_int port\<rparr>))
             sites_to_json))"

definition handle_sites_delete :: "('n, 'k) platform \<Rightarrow> string \<Rightarrow> nat \<Rightarrow> server_response handler" where
  "handle_sites_delete pf domain version =
     then_show pf version (guarded_edit pf 404 version (remove_site domain)) sites_to_json"

section \<open>Bans and checks\<close>

text \<open>\<open>if (auto v = json_..._field(...))\<close>: a field that is absent, or of another type, changes nothing.\<close>

definition set_if :: "'a option \<Rightarrow> ('a \<Rightarrow> 'b \<Rightarrow> 'b) \<Rightarrow> 'b \<Rightarrow> 'b" where
  "set_if fd f x = (case fd of None \<Rightarrow> x | Some v \<Rightarrow> f v x)"

text \<open>The same with a guard that throws.\<close>

definition set_checked :: "'a option \<Rightarrow> ('a \<Rightarrow> bool) \<Rightarrow> string \<Rightarrow> ('a \<Rightarrow> 'b \<Rightarrow> 'b) \<Rightarrow> 'b \<Rightarrow> 'b result" where
  "set_checked fd bad msg f x =
     (case fd of None \<Rightarrow> Inr x | Some v \<Rightarrow> if bad v then throw (InvalidArgument msg) else Inr (f v x))"

fun set_scores :: "json_object \<Rightarrow> (string, int) umap \<Rightarrow> (string, int) umap" where
  "set_scores [] scores = scores"
| "set_scores ((name, points) # obj) scores =
     set_scores obj (case json_to_int points of None \<Rightarrow> scores | Some p \<Rightarrow> um_put name p scores)"

definition ban_edit :: "json_object \<Rightarrow> BanConfig \<Rightarrow> BanConfig result" where
  "ban_edit obj ban =
     (let ban = set_if (json_bool_field obj ''enabled'') (\<lambda>b. ban_enabled_update (\<lambda>_. b)) ban in
      bind_result (set_checked (json_int_field obj ''threshold'') (\<lambda>t. t \<le> 0) ''threshold must be positive''
                     (\<lambda>t. ban_threshold_update (\<lambda>_. t)) ban) (\<lambda>ban.
      bind_result (set_checked (json_int_field obj ''ban_duration_hours'') (\<lambda>h. h \<le> 0 \<or> h > kMaxBanDurationHours)
                     (''ban_duration_hours must be between 1 and '' @ show_int kMaxBanDurationHours)
                     (\<lambda>h. ban_duration_hours_update (\<lambda>_. h)) ban) (\<lambda>ban.
      Inr (set_if (json_object_field obj ''scores'') (\<lambda>points. ban_scores_update (set_scores points)) ban))))"

definition handle_ban_config_update :: "('n, 'k) platform \<Rightarrow> string \<Rightarrow> nat \<Rightarrow> server_response handler" where
  "handle_ban_config_update pf body version =
     (case parse_body pf body of
        None \<Rightarrow> respond_error pf 400 ''expected JSON body'' version
      | Some obj \<Rightarrow>
          then_show pf version
            (guarded_edit pf 400 version (\<lambda>config.
               bind_result (ban_edit obj (cfg_ban config)) (\<lambda>ban. Inr (config\<lparr>cfg_ban := ban\<rparr>))))
            (\<lambda>config. ban_config_to_json (cfg_ban config)))"

definition speed_edit :: "json_object \<Rightarrow> SpeedCheckConfig \<Rightarrow> SpeedCheckConfig result" where
  "speed_edit obj sc =
     (let sc = set_if (json_bool_field obj ''enabled'') (\<lambda>b. sc_enabled_update (\<lambda>_. b)) sc in
      bind_result (set_checked (json_int_field obj ''max_requests'') (\<lambda>n. n \<le> 0) ''max_requests must be positive''
                     (\<lambda>n. sc_max_requests_update (\<lambda>_. n)) sc) (\<lambda>sc.
      set_checked (json_int_field obj ''window_seconds'') (\<lambda>n. n \<le> 0) ''window_seconds must be positive''
        (\<lambda>n. sc_window_seconds_update (\<lambda>_. n)) sc))"

definition handle_speed_check_update :: "('n, 'k) platform \<Rightarrow> string \<Rightarrow> nat \<Rightarrow> server_response handler" where
  "handle_speed_check_update pf body version =
     (case parse_body pf body of
        None \<Rightarrow> respond_error pf 400 ''expected JSON body'' version
      | Some obj \<Rightarrow>
          then_show pf version
            (guarded_edit pf 400 version (\<lambda>config.
               bind_result (speed_edit obj (cfg_speed_check config)) (\<lambda>sc. Inr (config\<lparr>cfg_speed_check := sc\<rparr>))))
            (\<lambda>config. speed_check_to_json (cfg_speed_check config)))"

fun array_items :: "json \<Rightarrow> json list option" where
  "array_items (JArray items) = Some items"
| "array_items _ = None"

fun item_string :: "json \<Rightarrow> string option" where
  "item_string (JString s) = Some s"
| "item_string _ = None"

definition json_array_field :: "json_object \<Rightarrow> string \<Rightarrow> json list option" where
  "json_array_field obj key = (case map_of obj key of None \<Rightarrow> None | Some v \<Rightarrow> array_items v)"

definition no_methods :: string where
  "no_methods = ''allowed_methods can'' @ [CHR 0x27] @ ''t be empty while method_check is enabled '' @ em_dash
     @ '' that would block every request''"

definition method_edit :: "json_object \<Rightarrow> MethodCheckConfig \<Rightarrow> MethodCheckConfig result" where
  "method_edit obj mc =
     (let mc = set_if (json_bool_field obj ''enabled'') (\<lambda>b. mc_enabled_update (\<lambda>_. b)) mc in
      set_checked (map_option (List.map_filter item_string) (json_array_field obj ''allowed_methods''))
        (\<lambda>methods. mc_enabled mc \<and> methods = []) no_methods
        (\<lambda>methods. mc_allowed_methods_update (\<lambda>_. methods)) mc)"

definition handle_method_check_update :: "('n, 'k) platform \<Rightarrow> string \<Rightarrow> nat \<Rightarrow> server_response handler" where
  "handle_method_check_update pf body version =
     (case parse_body pf body of
        None \<Rightarrow> respond_error pf 400 ''expected JSON body'' version
      | Some obj \<Rightarrow>
          then_show pf version
            (guarded_edit pf 400 version (\<lambda>config.
               bind_result (method_edit obj (cfg_method_check config)) (\<lambda>mc. Inr (config\<lparr>cfg_method_check := mc\<rparr>))))
            (\<lambda>config. method_check_to_json (cfg_method_check config)))"

text \<open>The updates below throw nothing, and nothing around them catches.\<close>

definition plain_edit :: "(RuntimeConfig \<Rightarrow> RuntimeConfig) \<Rightarrow> server_response option handler" where
  "plain_edit f = and_do (update_config (\<lambda>config. Inr (f config))) (\<lambda>_. ret None)"

definition expected_enabled :: string where
  \<open>expected_enabled = ''expected JSON body {"enabled": bool}''\<close>

definition handle_emergency_off_update :: "('n, 'k) platform \<Rightarrow> string \<Rightarrow> nat \<Rightarrow> server_response handler" where
  "handle_emergency_off_update pf body version =
     (case parse_body pf body of
        None \<Rightarrow> respond_error pf 400 expected_enabled version
      | Some obj \<Rightarrow>
          (case json_bool_field obj ''enabled'' of
             None \<Rightarrow> respond_error pf 400 expected_enabled version
           | Some enabled \<Rightarrow>
               then_show pf version
                 (plain_edit (\<lambda>config. config\<lparr>cfg_emergency_off := (cfg_emergency_off config)\<lparr>eo_enabled := enabled\<rparr>\<rparr>))
                 (\<lambda>config. emergency_off_to_json (cfg_emergency_off config))))"

section \<open>Pages\<close>

definition handle_pages_update :: "('n, 'k) platform \<Rightarrow> string \<Rightarrow> nat \<Rightarrow> server_response handler" where
  "handle_pages_update pf body version =
     (case parse_body pf body of
        None \<Rightarrow> respond_error pf 400 ''expected JSON body'' version
      | Some obj \<Rightarrow>
          then_show pf version
            (plain_edit (\<lambda>config. config\<lparr>cfg_pages :=
               set_if (json_string_field obj ''banned_html'') (\<lambda>h. banned_html_update (\<lambda>_. h))
                 (set_if (json_string_field obj ''blocked_html'') (\<lambda>h. blocked_html_update (\<lambda>_. h)) (cfg_pages config))\<rparr>))
            (\<lambda>config. pages_to_json (cfg_pages config)))"

definition expected_page :: string where
  \<open>expected_page = ''expected JSON body {"code": <int>, "html": "..."}''\<close>

definition expected_html :: string where
  \<open>expected_html = ''expected JSON body {"html": "..."}''\<close>

definition handle_status_page_add ::
  "('n, 'k) platform \<Rightarrow> moment \<Rightarrow> string \<Rightarrow> nat \<Rightarrow> server_response handler" where
  "handle_status_page_add pf mo body version =
     (let obj = opt_field (parse_body pf body) [] in
      case (json_int_field obj ''code'', json_string_field obj ''html'') of
        (Some status, Some html) \<Rightarrow>
          then_show pf version (guarded_edit pf 400 version (add_status_page status html (mo_now mo)))
            (\<lambda>config. pages_to_json (cfg_pages config))
      | _ \<Rightarrow> respond_error pf 400 expected_page version)"

text \<open>\<open>std::from_chars\<close> for \<open>int\<close>: an optional minus sign and the longest run of digits; what follows
  them is not looked at.\<close>

definition from_chars_int :: "string \<Rightarrow> int option" where
  "from_chars_int s =
     (let negative = (s \<noteq> [] \<and> hd s = CHR ''-'');
          ds = takeWhile isdigit (if negative then tl s else s);
          v = (if negative then - int (read_nat ds) else int (read_nat ds))
      in if ds = [] \<or> v < int_min \<or> v > int_max then None else Some v)"

definition handle_status_page_update ::
  "('n, 'k) platform \<Rightarrow> string \<Rightarrow> string \<Rightarrow> nat \<Rightarrow> server_response handler" where
  "handle_status_page_update pf code_text body version =
     (case from_chars_int code_text of
        None \<Rightarrow> respond_error pf 400 ''status code must be numeric'' version
      | Some status \<Rightarrow>
          (case body_field (parse_body pf body) ''html'' of
             None \<Rightarrow> respond_error pf 400 expected_html version
           | Some html \<Rightarrow>
               then_show pf version (guarded_edit pf 404 version (update_status_page status html))
                 (\<lambda>config. pages_to_json (cfg_pages config))))"

definition handle_status_page_delete ::
  "('n, 'k) platform \<Rightarrow> string \<Rightarrow> nat \<Rightarrow> server_response handler" where
  "handle_status_page_delete pf code_text version =
     (case from_chars_int code_text of
        None \<Rightarrow> respond_error pf 400 ''status code must be numeric'' version
      | Some status \<Rightarrow>
          then_show pf version (guarded_edit pf 404 version (remove_status_page status))
            (\<lambda>config. pages_to_json (cfg_pages config)))"

section \<open>Logs and limits\<close>

definition handle_request_log_config_update :: "('n, 'k) platform \<Rightarrow> string \<Rightarrow> nat \<Rightarrow> server_response handler" where
  "handle_request_log_config_update pf body version =
     (case parse_body pf body of
        None \<Rightarrow> respond_error pf 400 ''expected JSON body'' version
      | Some obj \<Rightarrow>
          then_show pf version
            (plain_edit (\<lambda>config. config\<lparr>cfg_request_log :=
               set_if (json_string_field obj ''csv_path'') (\<lambda>p. rl_csv_path_update (\<lambda>_. p))
                 (set_if (json_bool_field obj ''enabled'') (\<lambda>b. rl_enabled_update (\<lambda>_. b)) (cfg_request_log config))\<rparr>))
            (\<lambda>config. request_log_config_to_json (cfg_request_log config)))"

definition handle_robots_txt_config_update :: "('n, 'k) platform \<Rightarrow> string \<Rightarrow> nat \<Rightarrow> server_response handler" where
  "handle_robots_txt_config_update pf body version =
     (case parse_body pf body of
        None \<Rightarrow> respond_error pf 400 ''expected JSON body'' version
      | Some obj \<Rightarrow>
          then_show pf version
            (case json_string_field obj ''custom_content'' of
               None \<Rightarrow> ret None
             | Some content \<Rightarrow>
                 plain_edit (\<lambda>config. config\<lparr>cfg_robots_txt := (cfg_robots_txt config)\<lparr>custom_content := content\<rparr>\<rparr>))
            (\<lambda>config. robots_txt_config_to_json (cfg_robots_txt config)))"

definition expected_max_bytes :: string where
  \<open>expected_max_bytes = ''expected JSON body {"max_bytes": N}''\<close>

definition handle_body_size_limit_update :: "('n, 'k) platform \<Rightarrow> string \<Rightarrow> nat \<Rightarrow> server_response handler" where
  "handle_body_size_limit_update pf body version =
     (case json_int_field (opt_field (parse_body pf body) []) ''max_bytes'' of
        None \<Rightarrow> respond_error pf 400 expected_max_bytes version
      | Some max_bytes \<Rightarrow>
          if max_bytes < 0 then respond_error pf 400 expected_max_bytes version
          else then_show pf version
            (plain_edit (\<lambda>config. config\<lparr>cfg_blacklist :=
               (cfg_blacklist config)\<lparr>bl_max_body_size_bytes := nat max_bytes\<rparr>\<rparr>))
            (\<lambda>config. JObject [(''max_bytes'', jnat (bl_max_body_size_bytes (cfg_blacklist config)))]))"

section \<open>Address databases and the globe\<close>

text \<open>\<open>std::filesystem::path::parent_path\<close> and \<open>operator/\<close> on the text of a path.\<close>

definition parent_path :: "string \<Rightarrow> string" where
  "parent_path p =
     (case rfind_char (CHR ''/'') p of
        None \<Rightarrow> []
      | Some i \<Rightarrow>
          (let stripped = rev (dropWhile (\<lambda>c. c = CHR ''/'') (rev (take i p))) in
           if stripped = [] then ''/'' else stripped))"

definition path_append :: "string \<Rightarrow> string \<Rightarrow> string" where
  "path_append dir name =
     (if dir = [] \<or> last dir = CHR ''/'' then dir @ name else dir @ ''/'' @ name)"

definition save_upload :: "('n, 'k) platform \<Rightarrow> moment \<Rightarrow> nat \<Rightarrow> server_response option" where
  "save_upload pf mo version =
     (let failed = (\<lambda>e. Some (error_response (pf_web pf) 500 (''failed to save upload: '' @ e) version)) in
      case ui_mkdir (mo_upload mo) of
        Some e \<Rightarrow> failed e
      | None \<Rightarrow>
          if \<not> ui_open (mo_upload mo)
          then Some (error_response (pf_web pf) 500 ''failed to open destination file for writing'' version)
          else case ui_rename (mo_upload mo) of Some e \<Rightarrow> failed e | None \<Rightarrow> None)"

definition handle_mmdb_upload ::
  "('n, 'k) platform \<Rightarrow> moment \<Rightarrow> string \<Rightarrow> nat \<Rightarrow> string \<Rightarrow> (string \<Rightarrow> RuntimeConfig \<Rightarrow> RuntimeConfig)
     \<Rightarrow> server_response handler" where
  "handle_mmdb_upload pf mo body version filename apply_path =
     (if body = [] then respond_error pf 400 ''empty upload'' version
      else
        (let dest_path = path_append (path_append (parent_path (pf_config_path pf)) ''geoip'') filename in
         case save_upload pf mo version of
           Some response \<Rightarrow> ret response
         | None \<Rightarrow>
             then_show pf version (plain_edit (apply_path dest_path))
               (\<lambda>_. JObject [(''mmdb_path'', JString dest_path), (''bytes'', jnat (length body))])))"

definition handle_geoip_upload :: "('n, 'k) platform \<Rightarrow> moment \<Rightarrow> string \<Rightarrow> nat \<Rightarrow> server_response handler" where
  "handle_geoip_upload pf mo body version =
     handle_mmdb_upload pf mo body version ''GeoLite2-City.mmdb''
       (\<lambda>p config. config\<lparr>cfg_geoip := (cfg_geoip config)\<lparr>mmdb_path := p\<rparr>\<rparr>)"

definition handle_asn_upload :: "('n, 'k) platform \<Rightarrow> moment \<Rightarrow> string \<Rightarrow> nat \<Rightarrow> server_response handler" where
  "handle_asn_upload pf mo body version =
     handle_mmdb_upload pf mo body version ''GeoLite2-ASN.mmdb''
       (\<lambda>p config. config\<lparr>cfg_geoip := (cfg_geoip config)\<lparr>asn_mmdb_path := p\<rparr>\<rparr>)"

definition expected_mmdb :: string where
  \<open>expected_mmdb = ''expected JSON body with "mmdb_path" and/or "asn_mmdb_path"''\<close>

definition handle_geoip_config_update :: "('n, 'k) platform \<Rightarrow> string \<Rightarrow> nat \<Rightarrow> server_response handler" where
  "handle_geoip_config_update pf body version =
     (case parse_body pf body of
        None \<Rightarrow> respond_error pf 400 ''expected JSON body'' version
      | Some obj \<Rightarrow>
          (let path = json_string_field obj ''mmdb_path''; asn_path = json_string_field obj ''asn_mmdb_path'' in
           if path = None \<and> asn_path = None then respond_error pf 400 expected_mmdb version
           else then_show pf version
             (plain_edit (\<lambda>config. config\<lparr>cfg_geoip :=
                set_if asn_path (\<lambda>p. asn_mmdb_path_update (\<lambda>_. p))
                  (set_if path (\<lambda>p. mmdb_path_update (\<lambda>_. p)) (cfg_geoip config))\<rparr>))
             (\<lambda>config. geoip_config_to_json (cfg_geoip config) (pf_geoip_loaded pf) (pf_asn_loaded pf))))"

text \<open>\<open>v < -bound || v > bound\<close> on a \<open>double\<close>.\<close>

fun beyond :: "rat \<Rightarrow> double \<Rightarrow> bool" where
  "beyond bound NaN = False"
| "beyond bound NegInf = True"
| "beyond bound PosInf = True"
| "beyond bound (Finite q) = (q < - bound \<or> q > bound)"

text \<open>A coordinate: \<open>null\<close> clears it, a number sets it, anything else changes nothing.\<close>

definition json_coordinate :: "json_object \<Rightarrow> string \<Rightarrow> double option option" where
  "json_coordinate obj key =
     (case map_of obj key of
        None \<Rightarrow> None
      | Some v \<Rightarrow> if v = JNull then Some None else map_option Some (to_double v))"

definition beyond_coordinate :: "rat \<Rightarrow> double option \<Rightarrow> bool" where
  "beyond_coordinate bound v = (case v of None \<Rightarrow> False | Some d \<Rightarrow> beyond bound d)"

definition globe_edit :: "json_object \<Rightarrow> GlobeConfig \<Rightarrow> GlobeConfig result" where
  "globe_edit obj g =
     (let g = set_if (json_bool_field obj ''public_enabled'') (\<lambda>b. globe_public_enabled_update (\<lambda>_. b)) g;
          g = set_if (json_string_field obj ''public_bind'') (\<lambda>h. globe_public_bind_host_update (\<lambda>_. h)) g in
      bind_result (set_checked (json_int_field obj ''public_port'') (\<lambda>p. p \<le> 0 \<or> p > 65535)
                     ''public_port must be between 1 and 65535''
                     (\<lambda>p. globe_public_port_update (\<lambda>_. word_of_int p)) g) (\<lambda>g.
      let g = set_if (json_string_field obj ''public_tls_cert_file'') (\<lambda>f. globe_public_tls_cert_file_update (\<lambda>_. f)) g;
          g = set_if (json_string_field obj ''public_tls_key_file'') (\<lambda>f. globe_public_tls_key_file_update (\<lambda>_. f)) g in
      bind_result (set_checked (json_coordinate obj ''server_lat'') (beyond_coordinate 90)
                     ''server_lat must be between -90 and 90''
                     (\<lambda>v. globe_server_lat_update (\<lambda>_. v)) g) (\<lambda>g.
      bind_result (set_checked (json_coordinate obj ''server_lon'') (beyond_coordinate 180)
                     ''server_lon must be between -180 and 180''
                     (\<lambda>v. globe_server_lon_update (\<lambda>_. v)) g) (\<lambda>g.
      let g = set_if (json_bool_field obj ''auto_detect_server_location'')
                (\<lambda>b. globe_auto_detect_server_location_update (\<lambda>_. b)) g in
      set_checked (json_int_field obj ''history_size'') (\<lambda>n. n \<le> 0) ''history_size must be positive''
        (\<lambda>n. globe_history_size_update (\<lambda>_. nat n)) g))))"

definition handle_globe_config_update :: "('n, 'k) platform \<Rightarrow> string \<Rightarrow> nat \<Rightarrow> server_response handler" where
  "handle_globe_config_update pf body version =
     (case parse_body pf body of
        None \<Rightarrow> respond_error pf 400 ''expected JSON body'' version
      | Some obj \<Rightarrow>
          then_show pf version
            (guarded_edit pf 400 version (\<lambda>config.
               bind_result (globe_edit obj (cfg_globe config)) (\<lambda>g. Inr (config\<lparr>cfg_globe := g\<rparr>))))
            (\<lambda>config. globe_config_to_json (cfg_globe config)))"

definition handle_globe_snapshot :: "('n, 'k) platform \<Rightarrow> string \<Rightarrow> nat \<Rightarrow> server_response handler" where
  "handle_globe_snapshot pf target version = with_state (\<lambda>s.
     let limit = query_param_size_t target ''limit'' kDefaultHistoryLimit in
     respond pf 200 (JObject
       [(''events'', globe_events_to_json (globe_recent limit (as_globe_events s))),
        (''server_location'', server_location_to_json (location_get (as_server_location s))),
        (''geoip_ready'', JBool (pf_geoip_loaded pf))]) version)"

definition live_visitors :: "ticks \<Rightarrow> RequestLog \<Rightarrow> nat" where
  "live_visitors now requests =
     (let cutoff = wrap64 (now - minutes 5) in
      length (remdups (map re_client_ip (filter (\<lambda>event. re_timestamp event \<ge> cutoff) (rq_recent 2000 requests)))))"

definition handle_live_visitors :: "('n, 'k) platform \<Rightarrow> moment \<Rightarrow> nat \<Rightarrow> server_response handler" where
  "handle_live_visitors pf mo version = with_state (\<lambda>s.
     respond pf 200 (JObject [(''count'', jnat (live_visitors (mo_now mo) (as_request_log s)))]) version)"

end
