(* ===== verification/Admin_Routes.thy ===== *)
theory Admin_Routes
  imports Admin_Auth Admin_Settings
begin

text \<open>
  The dispatch of \<^verbatim>\<open>admin/admin_server.cpp\<close>: \<open>route\<close>, the session gate and the loop of
  \<open>handle_connection\<close>, and the check \<open>run_admin_server\<close> makes before it listens.  The gate decides
  on the header, before the body is read; between the two, and while a list is downloaded, other
  connections change the shared state, so a connection is a step relation.
\<close>

section \<open>Targets\<close>

abbreviation get_request_p :: "http_request \<Rightarrow> bool" where
  "get_request_p request \<equiv> hd_method_string request = ''GET''"

abbreviation put_request :: "http_request \<Rightarrow> bool" where
  "put_request request \<equiv> hd_method_string request = ''PUT''"

abbreviation delete_request :: "http_request \<Rightarrow> bool" where
  "delete_request request \<equiv> hd_method_string request = ''DELETE''"

definition kImportSuffix :: string where
  "kImportSuffix = ''/import''"

definition kImportUrlSuffix :: string where
  "kImportUrlSuffix = ''/import-url''"

definition kClearSuffix :: string where
  "kClearSuffix = ''/clear''"

definition kApiRequests :: string where
  "kApiRequests = ''/api/requests''"

definition kApiUsersPrefix :: string where
  "kApiUsersPrefix = ''/api/users/''"

definition kApiWebauthnPrefix :: string where
  "kApiWebauthnPrefix = ''/api/auth/2fa/webauthn/''"

definition kApiSitesPrefix :: string where
  "kApiSitesPrefix = ''/api/sites/''"

definition kApiPagesStatusPrefix :: string where
  "kApiPagesStatusPrefix = ''/api/pages/status/''"

text \<open>\<open>substr(prefix.size(), target.size() - prefix.size() - suffix.size())\<close>: where the prefix and the
  suffix overlap the count wraps around, and \<open>substr\<close> stops at the end.\<close>

definition between :: "string \<Rightarrow> string \<Rightarrow> string \<Rightarrow> string" where
  "between pre suf target =
     (let rest = drop (length pre) target in
      if length target < length pre + length suf then rest
      else take (length target - length pre - length suf) rest)"

definition names_requests :: "string \<Rightarrow> bool" where
  "names_requests target \<longleftrightarrow>
     take (length kApiRequests) target = kApiRequests
     \<and> (length target = length kApiRequests \<or> target ! length kApiRequests = CHR ''?'')"

section \<open>\<open>route\<close>\<close>

text \<open>The tests of \<open>route\<close> in their order, in four groups; \<open>otherwise\<close> is the rest of the function.\<close>

definition route_auth ::
  "('n, 'k) platform \<Rightarrow> moment \<Rightarrow> http_request \<Rightarrow> string \<Rightarrow> string \<Rightarrow> server_response handler
     \<Rightarrow> server_response handler" where
  "route_auth pf mo request acting_user client_ip otherwise =
     (let target = hd_target request; version = hd_version request; body = hr_body request in
      if get_request_p request \<and> target = ''/api/auth/status'' then handle_auth_status pf mo request version
      else if post_request request \<and> target = ''/api/auth/setup'' then handle_auth_setup pf mo body version client_ip
      else if post_request request \<and> target = ''/api/auth/login'' then handle_auth_login pf mo body version client_ip
      else if post_request request \<and> target = ''/api/auth/logout'' then handle_auth_logout pf request version
      else if post_request request \<and> target = ''/api/auth/2fa/totp/verify''
      then handle_auth_2fa_totp_verify pf mo request version client_ip
      else if post_request request \<and> target = ''/api/auth/2fa/backup-code/verify''
      then handle_auth_2fa_backup_code_verify pf mo request version client_ip
      else if get_request_p request \<and> target = ''/api/auth/2fa/status''
      then handle_auth_2fa_status pf acting_user version
      else if post_request request \<and> target = ''/api/auth/2fa/totp/setup''
      then handle_auth_2fa_totp_setup pf mo acting_user version
      else if post_request request \<and> target = ''/api/auth/2fa/totp/confirm''
      then handle_auth_2fa_totp_confirm pf mo request acting_user version
      else if post_request request \<and> target = ''/api/auth/2fa/totp/disable''
      then handle_auth_2fa_totp_disable pf mo acting_user body version
      else if post_request request \<and> target = ''/api/auth/2fa/backup-codes/regenerate''
      then handle_auth_2fa_backup_codes_regenerate pf mo acting_user body version
      else if get_request_p request \<and> target = ''/api/auth/webauthn/login/options''
      then handle_webauthn_login_options pf mo request version
      else if post_request request \<and> target = ''/api/auth/webauthn/login/verify''
      then handle_webauthn_login_verify pf mo request version client_ip
      else if get_request_p request \<and> target = ''/api/auth/webauthn/2fa/options''
      then handle_webauthn_2fa_options pf mo request version
      else if post_request request \<and> target = ''/api/auth/webauthn/2fa/verify''
      then handle_webauthn_2fa_verify pf mo request version client_ip
      else if post_request request \<and> target = ''/api/auth/2fa/webauthn/register/options''
      then handle_webauthn_register_options pf mo request acting_user version
      else if post_request request \<and> target = ''/api/auth/2fa/webauthn/register/verify''
      then handle_webauthn_register_verify pf mo request acting_user version
      else if delete_request request \<and> prefix kApiWebauthnPrefix target
      then handle_webauthn_delete pf mo acting_user (drop (length kApiWebauthnPrefix) target) version
      else otherwise)"

definition route_accounts ::
  "('n, 'k) platform \<Rightarrow> moment \<Rightarrow> http_request \<Rightarrow> server_response handler \<Rightarrow> server_response handler" where
  "route_accounts pf mo request otherwise =
     (let target = hd_target request; version = hd_version request; body = hr_body request in
      if get_request_p request \<and> target = ''/api/security-config''
      then with_state (\<lambda>s. respond pf 200 (security_config_to_json (cfg_security (as_config s))) version)
      else if put_request request \<and> target = ''/api/security-config'' then handle_security_config_update pf body version
      else if get_request_p request \<and> target = ''/api/users''
      then with_state (\<lambda>s. respond pf 200 (users_to_json (us_users (as_users s))) version)
      else if post_request request \<and> target = ''/api/users'' then handle_users_create pf mo body version
      else if delete_request request \<and> prefix kApiUsersPrefix target
      then handle_users_delete pf mo (drop (length kApiUsersPrefix) target) version
      else if get_request_p request \<and> target = ''/api/login-history''
      then with_state (\<lambda>s. respond pf 200 (login_events_to_json
             (login_recent (query_param_size_t target ''limit'' kDefaultHistoryLimit) (as_login_history s))) version)
      else if get_request_p request \<and> target = ''/api/config''
      then with_state (\<lambda>s. respond pf 200 (config_to_json (as_config s)) version)
      else if get_request_p request \<and> target = ''/api/blacklist''
      then with_state (\<lambda>s. respond pf 200 (blacklist_to_json (cfg_blacklist (as_config s))) version)
      else if get_request_p request \<and> target = ''/api/sites''
      then with_state (\<lambda>s. respond pf 200 (sites_to_json (as_config s)) version)
      else if post_request request \<and> target = ''/api/sites'' then handle_sites_create pf body version
      else if put_request request \<and> prefix kApiSitesPrefix target
      then handle_sites_update pf (drop (length kApiSitesPrefix) target) body version
      else if delete_request request \<and> prefix kApiSitesPrefix target
      then handle_sites_delete pf (drop (length kApiSitesPrefix) target) version
      else if get_request_p request \<and> target = ''/api/ip-blocks''
      then with_state (\<lambda>s. and_do (list_temporary mo) (\<lambda>blocks.
             respond pf 200 (ip_blocks_to_json (cfg_blacklist (as_config s)) blocks) version))
      else if get_request_p request \<and> names_requests target
      then with_state (\<lambda>s. respond pf 200 (request_events_to_json
             (rq_recent (query_param_size_t target ''limit'' kDefaultHistoryLimit) (as_request_log s))) version)
      else if get_request_p request \<and> target = ''/api/live-visitors'' then handle_live_visitors pf mo version
      else otherwise)"

definition route_settings ::
  "('n, 'k) platform \<Rightarrow> moment \<Rightarrow> http_request \<Rightarrow> server_response handler \<Rightarrow> server_response handler" where
  "route_settings pf mo request otherwise =
     (let target = hd_target request; version = hd_version request; body = hr_body request;
          show_config = (\<lambda>view. with_state (\<lambda>s. respond pf 200 (view (as_config s)) version)) in
      if get_request_p request \<and> target = ''/api/ban-config'' then show_config (\<lambda>c. ban_config_to_json (cfg_ban c))
      else if put_request request \<and> target = ''/api/ban-config'' then handle_ban_config_update pf body version
      else if get_request_p request \<and> target = ''/api/speed-check''
      then show_config (\<lambda>c. speed_check_to_json (cfg_speed_check c))
      else if put_request request \<and> target = ''/api/speed-check'' then handle_speed_check_update pf body version
      else if get_request_p request \<and> target = ''/api/method-check''
      then show_config (\<lambda>c. method_check_to_json (cfg_method_check c))
      else if put_request request \<and> target = ''/api/method-check'' then handle_method_check_update pf body version
      else if get_request_p request \<and> target = ''/api/emergency-off''
      then show_config (\<lambda>c. emergency_off_to_json (cfg_emergency_off c))
      else if put_request request \<and> target = ''/api/emergency-off'' then handle_emergency_off_update pf body version
      else if get_request_p request \<and> target = ''/api/pages'' then show_config (\<lambda>c. pages_to_json (cfg_pages c))
      else if put_request request \<and> target = ''/api/pages'' then handle_pages_update pf body version
      else if post_request request \<and> target = ''/api/pages/status'' then handle_status_page_add pf mo body version
      else if put_request request \<and> prefix kApiPagesStatusPrefix target
      then handle_status_page_update pf (drop (length kApiPagesStatusPrefix) target) body version
      else if delete_request request \<and> prefix kApiPagesStatusPrefix target
      then handle_status_page_delete pf (drop (length kApiPagesStatusPrefix) target) version
      else if get_request_p request \<and> target = ''/api/request-log-config''
      then show_config (\<lambda>c. request_log_config_to_json (cfg_request_log c))
      else if put_request request \<and> target = ''/api/request-log-config''
      then handle_request_log_config_update pf body version
      else if get_request_p request \<and> target = ''/api/robots-txt''
      then show_config (\<lambda>c. robots_txt_config_to_json (cfg_robots_txt c))
      else if put_request request \<and> target = ''/api/robots-txt'' then handle_robots_txt_config_update pf body version
      else if put_request request \<and> target = ''/api/body-size-limit'' then handle_body_size_limit_update pf body version
      else if post_request request \<and> target = ''/api/geoip-upload'' then handle_geoip_upload pf mo body version
      else if post_request request \<and> target = ''/api/asn-upload'' then handle_asn_upload pf mo body version
      else if get_request_p request \<and> target = ''/api/geoip-config''
      then show_config (\<lambda>c. geoip_config_to_json (cfg_geoip c) (pf_geoip_loaded pf) (pf_asn_loaded pf))
      else if put_request request \<and> target = ''/api/geoip-config'' then handle_geoip_config_update pf body version
      else if get_request_p request \<and> target = ''/api/globe-config''
      then show_config (\<lambda>c. globe_config_to_json (cfg_globe c))
      else if put_request request \<and> target = ''/api/globe-config'' then handle_globe_config_update pf body version
      else if get_request_p request \<and> prefix ''/api/globe/snapshot'' target then handle_globe_snapshot pf target version
      else otherwise)"

definition route_lists ::
  "('n, 'k) platform \<Rightarrow> moment \<Rightarrow> http_request \<Rightarrow> string \<Rightarrow> server_response handler \<Rightarrow> server_response handler" where
  "route_lists pf mo request acting_user otherwise =
     (let target = hd_target request; version = hd_version request; body = hr_body request in
      if post_request request \<and> prefix kApiBlacklistPrefix target \<and> suffix kImportSuffix target
      then handle_blacklist_import pf mo (between kApiBlacklistPrefix kImportSuffix target) body version acting_user
      else if delete_request request \<and> prefix kApiBlacklistPrefix target \<and> suffix kClearSuffix target
      then handle_blacklist_clear pf (between kApiBlacklistPrefix kClearSuffix target) version
      else if (post_request request \<or> delete_request request) \<and> prefix kApiBlacklistPrefix target
      then handle_blacklist_mutation pf mo request (drop (length kApiBlacklistPrefix) target) version acting_user
      else if post_request request \<and> target = ''/api/whitelist/import''
      then handle_whitelist_import pf mo body version acting_user
      else if delete_request request \<and> target = ''/api/whitelist/clear'' then handle_whitelist_clear pf version
      else if (post_request request \<or> delete_request request) \<and> target = ''/api/whitelist''
      then handle_whitelist_mutation pf mo request version acting_user
      else if post_request request \<and> target = ''/api/whitelist/routes/import''
      then handle_whitelist_routes_import pf mo body version acting_user
      else if delete_request request \<and> target = ''/api/whitelist/routes/clear''
      then handle_whitelist_routes_clear pf version
      else if (post_request request \<or> delete_request request) \<and> target = ''/api/whitelist/routes''
      then handle_whitelist_routes_mutation pf mo request version acting_user
      else otherwise)"

definition route ::
  "('n, 'k) platform \<Rightarrow> moment \<Rightarrow> http_request \<Rightarrow> string \<Rightarrow> string \<Rightarrow> server_response handler" where
  "route pf mo request acting_user client_ip =
     route_auth pf mo request acting_user client_ip (route_accounts pf mo request (route_settings pf mo request
       (route_lists pf mo request acting_user
          (if get_request_p request
           then with_state (\<lambda>s. ret (serve_static_file pf (fs_path (admin_static_dir (cfg_admin (as_config s))))
             (hd_target request) (hd_version request)))
           else respond_error pf 405 ''method not allowed'' (hd_version request)))))"

end
