(* ===== verification/Admin_Connection.thy ===== *)
theory Admin_Connection
  imports Admin_Routes
begin

text \<open>
  The connection loop of \<^verbatim>\<open>admin/admin_server.cpp\<close>.  A connection waits for a header, judges it,
  waits for the body, runs the handler and answers.  While it waits anything may happen to the
  shared state (\<open>others\<close>), and whatever the peer does may end it (\<open>abort\<close>: a timeout, a malformed
  message, a body beyond the limit, an exception).  The trace keeps what the connection did.
\<close>

section \<open>What a header decides\<close>

definition is_list_import :: "'a request_header_scheme \<Rightarrow> bool" where
  "is_list_import header \<longleftrightarrow>
     hd_method_string header = ''POST'' \<and> prefix kApiBlacklistPrefix (hd_target header)
     \<and> suffix kImportSuffix (hd_target header)"

definition admin_body_limit :: "'a request_header_scheme \<Rightarrow> nat" where
  "admin_body_limit header =
     (if hd_method_string header = ''POST''
         \<and> (hd_target header = ''/api/geoip-upload'' \<or> hd_target header = ''/api/asn-upload'')
      then kGeoipUploadMaxBytes
      else if is_list_import header then kImportUrlMaxBytes
      else kAdminMaxBodyBytes)"

definition needs_auth :: "string \<Rightarrow> bool" where
  "needs_auth target \<longleftrightarrow> prefix ''/api/'' target \<and> \<not> is_public_api_route target"

definition finish_response :: "('n, 'k) platform \<Rightarrow> bool \<Rightarrow> server_response \<Rightarrow> server_response" where
  "finish_response pf keep res = prepare_payload (wb_beast (pf_web pf)) (keep_alive keep res)"

text \<open>\<open>Inl\<close> is the answer that rejects and closes, \<open>Inr\<close> the acting user.\<close>

definition session_gate ::
  "('n, 'k) platform \<Rightarrow> moment \<Rightarrow> request_header \<Rightarrow> AdminState \<Rightarrow> server_response + string" where
  "session_gate pf mo header s =
     (if \<not> needs_auth (hd_target header) then Inr []
      else
        let session = session_of mo (extract_session_token header) s in
        if session = None
           \<or> si_needs_mfa_setup (the session) \<and> \<not> is_mfa_setup_allowed_route (hd_target header)
        then Inl (finish_response pf False
               (if session = None then error_response (pf_web pf) 401 ''unauthorized'' (hd_version header)
                else error_response (pf_web pf) 403 ''mfa_setup_required'' (hd_version header)))
        else Inr (si_username (the session)))"

definition expects_continue :: "request_header \<Rightarrow> bool" where
  "expects_continue header \<longleftrightarrow> hd_find header ''Expect'' = Some ''100-continue''"

definition admin_request :: "('n, 'k) platform \<Rightarrow> request_header \<Rightarrow> string \<Rightarrow> http_request" where
  "admin_request pf header body =
     \<lparr>hd_version = hd_version header, hd_method_string = hd_method_string header,
      hd_target = hd_target header, hd_find = hd_find header, hr_body = body,
      hr_keep_alive = pf_keep_alive pf header\<rparr>"

datatype dispatched =
    Stream_Requests
  | Stream_Globe
  | Answer "server_response handler"

definition dispatch ::
  "('n, 'k) platform \<Rightarrow> moment \<Rightarrow> http_request \<Rightarrow> string \<Rightarrow> string \<Rightarrow> dispatched" where
  "dispatch pf mo request acting_user client_ip =
     (let target = hd_target request; version = hd_version request; body = hr_body request in
      if get_request_p request \<and> target = ''/api/requests/stream'' then Stream_Requests
      else if get_request_p request \<and> target = ''/api/globe/stream'' then Stream_Globe
      else if post_request request \<and> prefix kApiBlacklistPrefix target \<and> suffix kImportUrlSuffix target
      then Answer (handle_blacklist_import_url pf mo (between kApiBlacklistPrefix kImportUrlSuffix target)
             body version acting_user)
      else if post_request request \<and> target = ''/api/whitelist/import-url''
      then Answer (handle_whitelist_import_url pf mo body version acting_user)
      else if post_request request \<and> target = ''/api/whitelist/routes/import-url''
      then Answer (handle_whitelist_routes_import_url pf mo body version acting_user)
      else Answer (route pf mo request acting_user client_ip))"

section \<open>The loop\<close>

datatype served =
    Opened AdminState moment request_header string
  | Sent_Continue
  | Executed http_request string
  | Sent server_response bool
  | Streamed string

datatype admin_pc =
    WaitHeader
  | WaitBody request_header string
  | Answering server_response bool
  | Ended

record admin_session =
  ad_state :: AdminState
  ad_pc :: admin_pc
  ad_trace :: "served list"

definition new_admin_session :: "AdminState \<Rightarrow> admin_session" where
  "new_admin_session st = \<lparr>ad_state = st, ad_pc = WaitHeader, ad_trace = []\<rparr>"

definition continue_trace :: "request_header \<Rightarrow> served list" where
  "continue_trace header = (if expects_continue header then [Sent_Continue] else [])"

inductive admin_step :: "('n, 'k) platform \<Rightarrow> string \<Rightarrow> admin_session \<Rightarrow> admin_session \<Rightarrow> bool" for pf client_ip where
  reject: "ad_pc a = WaitHeader \<Longrightarrow> session_gate pf mo header (ad_state a) = Inl res \<Longrightarrow>
    admin_step pf client_ip a (a\<lparr>ad_pc := Answering res False\<rparr>)"
| admit: "ad_pc a = WaitHeader \<Longrightarrow> session_gate pf mo header (ad_state a) = Inr user \<Longrightarrow>
    admin_step pf client_ip a (a\<lparr>ad_pc := WaitBody header user,
      ad_trace := ad_trace a @ Opened (ad_state a) mo header user # continue_trace header\<rparr>)"
| stream: "ad_pc a = WaitBody header user \<Longrightarrow> length body \<le> admin_body_limit header \<Longrightarrow>
    request = admin_request pf header body \<Longrightarrow>
    dispatch pf mo request user client_ip \<in> {Stream_Requests, Stream_Globe} \<Longrightarrow>
    admin_step pf client_ip a (a\<lparr>ad_pc := Ended,
      ad_trace := ad_trace a @ [Executed request user, Streamed (hd_target request)]\<rparr>)"
| handle: "ad_pc a = WaitBody header user \<Longrightarrow> length body \<le> admin_body_limit header \<Longrightarrow>
    request = admin_request pf header body \<Longrightarrow>
    dispatch pf mo request user client_ip = Answer h \<Longrightarrow> h (ad_state a) = (Inr res, st) \<Longrightarrow>
    admin_step pf client_ip a (a\<lparr>ad_state := st,
      ad_pc := Answering (finish_response pf (hr_keep_alive request) res) (hr_keep_alive request),
      ad_trace := ad_trace a @ [Executed request user]\<rparr>)"
| escape: "ad_pc a = WaitBody header user \<Longrightarrow> length body \<le> admin_body_limit header \<Longrightarrow>
    request = admin_request pf header body \<Longrightarrow>
    dispatch pf mo request user client_ip = Answer h \<Longrightarrow> h (ad_state a) = (Inl e, st) \<Longrightarrow>
    admin_step pf client_ip a (a\<lparr>ad_state := st, ad_pc := Ended, ad_trace := ad_trace a @ [Executed request user]\<rparr>)"
| answer: "ad_pc a = Answering res keep \<Longrightarrow>
    admin_step pf client_ip a (a\<lparr>ad_pc := (if keep then WaitHeader else Ended),
      ad_trace := ad_trace a @ [Sent res keep]\<rparr>)"
| abort: "admin_step pf client_ip a (a\<lparr>ad_pc := Ended\<rparr>)"
| others: "admin_step pf client_ip a (a\<lparr>ad_state := st\<rparr>)"

inductive_cases admin_stepE: "admin_step pf client_ip a b"

section \<open>Listening\<close>

definition bind_text :: "RuntimeConfig \<Rightarrow> string" where
  "bind_text config = admin_bind_host (cfg_admin config)"

text \<open>The scheme the server listens with, or the exception that keeps it from starting.\<close>

definition run_admin_server :: "('n, 'k) platform \<Rightarrow> AdminState \<Rightarrow> (ip_address \<times> u16 \<times> bool) result" where
  "run_admin_server pf s =
     (let config = as_config s; use_tls = admin_uses_tls s in
      case pf_address pf (bind_text config) of
        None \<Rightarrow> throw (RuntimeError (''admin.bind is not a valid address: '' @ [CHR 0x27] @ bind_text config @ [CHR 0x27]))
      | Some bind_address \<Rightarrow>
          if \<not> al_is_loopback (pf_addresses pf) bind_address \<and> \<not> use_tls
          then throw (RuntimeError (''admin.bind ('' @ [CHR 0x27] @ bind_text config @ [CHR 0x27] @
            '') is non-loopback but no admin.tls_cert_file/tls_key_file are configured '' @ em_dash @
            '' refusing to start. Exposing the admin API beyond loopback requires TLS (so the session cookie '' @
            ''can be marked Secure and the login can'' @ [CHR 0x27] @ ''t be sniffed in plaintext).''))
          else Inr (bind_address, admin_port (cfg_admin config), use_tls))"

section \<open>The gate\<close>

lemma session_gate_Inr:
  "session_gate pf mo header s = Inr user \<longleftrightarrow>
     (if needs_auth (hd_target header)
      then \<exists>token info. extract_session_token header = Some token
             \<and> validate_session (as_sessions s) token (mo_steady mo) = Some info
             \<and> (si_needs_mfa_setup info \<longrightarrow> is_mfa_setup_allowed_route (hd_target header))
             \<and> si_username info = user
      else user = [])"
  by (auto simp: session_gate_def Let_def session_of_def split: option.splits if_splits)

text \<open>The gate is complete and closed: a request for a protected route passes exactly when its cookie
  names a live session that has a second factor or needs one only for this route, and it then acts
  as that session's user.  Every other one is answered 401 or 403, on a connection that closes,
  and neither the body nor any handler has been reached.\<close>

theorem session_gate_complete:
  assumes "beast_ok (wb_beast (pf_web pf))"
  shows "(case session_gate pf mo header s of
            Inr user \<Rightarrow> needs_auth (hd_target header) \<longrightarrow>
              (\<exists>token info. extract_session_token header = Some token
                 \<and> validate_session (as_sessions s) token (mo_steady mo) = Some info
                 \<and> (si_needs_mfa_setup info \<longrightarrow> is_mfa_setup_allowed_route (hd_target header))
                 \<and> si_username info = user)
          | Inl res \<Rightarrow> needs_auth (hd_target header) \<and> \<not> rp_keep_alive (sr_message res)
              \<and> server_status res = (if session_of mo (extract_session_token header) s = None then 401 else 403))"
proof (cases "session_gate pf mo header s")
  case (Inr user)
  from session_gate_Inr [THEN iffD1, OF this] show ?thesis by (auto simp: Inr)
next
  case (Inl res)
  then have n: "needs_auth (hd_target header)"
    and res: "res = finish_response pf False
        (if session_of mo (extract_session_token header) s = None
         then error_response (pf_web pf) 401 ''unauthorized'' (hd_version header)
         else error_response (pf_web pf) 403 ''mfa_setup_required'' (hd_version header))"
    by (auto simp: session_gate_def Let_def split: if_splits)
  have "server_status (finish_response pf False r) = server_status r
     \<and> \<not> rp_keep_alive (sr_message (finish_response pf False r))" for r
    using prepare_response_keeps [OF assms]
    by (simp add: finish_response_def prepare_payload_def keep_alive_def server_status_def)
  then show ?thesis using n Inl by (simp add: res error_response_simps [OF assms])
qed

theorem session_gate_complete_witness:
  "case session_gate (sample_platform []) sample_moment (api_request ''GET'' ''/api/users'' (\<lambda>_. None))
          (sample_admin default_config empty_store []) of
     Inr user \<Rightarrow> False
   | Inl res \<Rightarrow> server_status res = 401 \<and> \<not> rp_keep_alive (sr_message res)"
proof -
  let ?h = "api_request ''GET'' ''/api/users'' (\<lambda>_. None)"
  have none: "extract_session_token ?h = None" and target: "needs_auth (hd_target ?h)"
    by (simp_all add: api_request_def extract_session_token_def extract_cookie_def needs_auth_def is_public_api_route_def)
  show ?thesis
    using session_gate_complete [OF sample_platform_beast [of "[]"], where mo = sample_moment and header = ?h
        and s = "sample_admin default_config empty_store []"]
      target none by (auto simp: session_of_def split: sum.splits)
qed

section \<open>The protocol of a connection\<close>

datatype phase = Fresh | Open_For request_header string | Ran | Over

fun serve :: "('n, 'k) platform \<Rightarrow> served \<Rightarrow> phase option \<Rightarrow> phase option" where
  "serve pf (Opened s mo header user) (Some Fresh) =
     (if session_gate pf mo header s = Inr user then Some (Open_For header user) else None)"
| "serve pf Sent_Continue (Some (Open_For header user)) = Some (Open_For header user)"
| "serve pf (Executed request user) (Some (Open_For header user')) =
     (if header_of request = header \<and> user = user' \<and> length (hr_body request) \<le> admin_body_limit header
      then Some Ran else None)"
| "serve pf (Sent res keep) (Some Fresh) = (if keep then None else Some Over)"
| "serve pf (Sent res keep) (Some Ran) = Some (if keep then Fresh else Over)"
| "serve pf (Streamed target) (Some Ran) = Some Over"
| "serve pf _ _ = None"

definition phase_after :: "('n, 'k) platform \<Rightarrow> served list \<Rightarrow> phase option" where
  "phase_after pf tr = fold (serve pf) tr (Some Fresh)"

fun pc_phase :: "admin_pc \<Rightarrow> phase \<Rightarrow> bool" where
  "pc_phase WaitHeader ph = (ph = Fresh)"
| "pc_phase (WaitBody header user) ph = (ph = Open_For header user)"
| "pc_phase (Answering res keep) ph = (ph = Ran \<or> ph = Fresh \<and> \<not> keep)"
| "pc_phase Ended ph = True"

lemma phase_after_snoc [simp]:
  "phase_after pf (tr @ es) = fold (serve pf) es (phase_after pf tr)"
  by (simp add: phase_after_def)

lemma phase_after_Nil [simp]: "phase_after pf [] = Some Fresh"
  by (simp add: phase_after_def)

lemma header_of_admin_request [simp]: "header_of (admin_request pf header body) = header"
  by (simp add: header_of_def admin_request_def)

lemma hr_body_admin_request [simp]: "hr_body (admin_request pf header body) = body"
  by (simp add: admin_request_def)

definition serves_lawfully :: "('n, 'k) platform \<Rightarrow> admin_session \<Rightarrow> bool" where
  "serves_lawfully pf a \<longleftrightarrow> (\<exists>ph. phase_after pf (ad_trace a) = Some ph \<and> pc_phase (ad_pc a) ph)"

lemma serves_lawfully_step:
  assumes "admin_step pf client_ip a b" and "serves_lawfully pf a"
  shows "serves_lawfully pf b"
  using assms
  by (induction rule: admin_step.induct) (auto simp: serves_lawfully_def continue_trace_def)

lemma serves_lawfully_run:
  assumes "(admin_step pf client_ip)\<^sup>*\<^sup>* (new_admin_session st) a"
  shows "serves_lawfully pf a"
  using assms
proof (induction rule: rtranclp_induct)
  case base
  then show ?case by (simp add: serves_lawfully_def new_admin_session_def)
next
  case (step a b)
  then show ?case using serves_lawfully_step by blast
qed

lemma fold_serve_None [simp]: "fold (serve pf) tr None = None"
  by (induction tr) simp_all

lemma open_phase_opened:
  assumes "phase_after pf tr = Some (Open_For header user)"
  shows "\<exists>s mo. Opened s mo header user \<in> set tr \<and> session_gate pf mo header s = Inr user"
  using assms
proof (induction tr rule: rev_induct)
  case (snoc e tr)
  then obtain ph where ph: "phase_after pf tr = Some ph" by (cases "phase_after pf tr") auto
  with snoc show ?case by (cases e; cases ph) (auto split: if_splits)
qed simp

lemma executed_phase:
  assumes "phase_after pf (tr @ Executed request user # tr') \<noteq> None"
  shows "phase_after pf tr = Some (Open_For (header_of request) user)"
    and "length (hr_body request) \<le> admin_body_limit (header_of request)"
proof -
  have "serve pf (Executed request user) (phase_after pf tr) \<noteq> None"
    using assms by (auto intro: ccontr)
  then show "phase_after pf tr = Some (Open_For (header_of request) user)"
    "length (hr_body request) \<le> admin_body_limit (header_of request)"
    by (cases "phase_after pf tr"; cases "the (phase_after pf tr)"; auto split: if_splits)+
qed


text \<open>An administrator with a session reads the users.\<close>

definition ann_session :: SessionStore where
  "ann_session = [(''t0'', \<lparr>ss_username = ''ann'', ss_needs_mfa_setup = False, ss_expires_at = 2000\<rparr>)]"

definition ann_header :: request_header where
  "ann_header = api_request ''GET'' ''/api/users'' [''Cookie'' \<mapsto> ''atomwall_session=t0'']"

lemma ann_token: "extract_session_token ann_header = Some ''t0''"
proof -
  have "extract_session_token ann_header
      = extract_cookie [''Cookie'' \<mapsto> kSessionCookieName @ ''='' @ ''t0''] kSessionCookieName"
    by (simp add: extract_session_token_def ann_header_def api_request_def kSessionCookieName_def)
  also have "\<dots> = Some ''t0''" by (rule extract_cookie_holds) (simp_all add: kSessionCookieName_def)
  finally show ?thesis .
qed

lemma ann_gate:
  "session_gate (sample_platform []) sample_moment ann_header (sample_admin default_config empty_store ann_session) = Inr ''ann''"
proof -
  have "hd_target ann_header = ''/api/users''" by (simp add: ann_header_def api_request_def)
  then show ?thesis
    unfolding session_gate_Inr
    by (simp add: ann_token validate_session_def ann_session_def sample_moment_def needs_auth_def is_public_api_route_def)
qed


end
