(* ===== verification/Admin_Frame.thy ===== *)
theory Admin_Frame
  imports Admin_Connection Yaml_Codec
begin

text \<open>
  What the handlers leave alone.  \<open>preserves R a\<close> says that the handler \<open>a\<close> takes every state to one
  the relation \<open>R\<close> allows.  The locale \<open>frame\<close> has one rule per way handlers are put together; three
  extensions name what \<open>R\<close> must allow for the handlers of a login, of an account and of the settings.
  The contract of the operations that edit the configuration is the locale \<open>config_edits\<close>.
\<close>

definition preserves :: "(AdminState \<Rightarrow> AdminState \<Rightarrow> bool) \<Rightarrow> 'a handler \<Rightarrow> bool" where
  "preserves R a \<longleftrightarrow> (\<forall>s. R s (snd (a s)))"

lemma snd_catch [simp]: "snd (catch_invalid a h s) = snd (a s)" "snd (catch_any a x s) = snd (a s)"
  by (simp_all add: catch_invalid_def catch_any_def split: prod.split sum.split error.split)

locale frame =
  fixes R :: "AdminState \<Rightarrow> AdminState \<Rightarrow> bool"
  assumes R_refl: "R s s"
    and R_trans: "R s t \<Longrightarrow> R t u \<Longrightarrow> R s u"
begin

lemma frame_ret: "preserves R (ret x)"
  by (simp add: preserves_def ret_def R_refl)

lemma frame_fail: "preserves R (fail e)"
  by (simp add: preserves_def fail_def R_refl)

lemma frame_lift: "preserves R (lift r)"
  by (simp add: preserves_def lift_def R_refl)

lemma frame_respond: "preserves R (respond pf status body version)"
  by (simp add: respond_def frame_ret)

lemma frame_respond_error: "preserves R (respond_error pf status message version)"
  by (simp add: respond_error_def frame_ret)

lemma frame_and_do:
  assumes a: "preserves R a" and f: "\<And>x. preserves R (f x)"
  shows "preserves R (and_do a f)"
  unfolding preserves_def
proof
  fix s
  show "R s (snd (and_do a f s))"
  proof (cases "a s")
    case (Pair r t)
    then have "R s t" using a by (metis preserves_def snd_conv)
    moreover have "R t (snd (f x t))" for x using f by (simp add: preserves_def)
    ultimately show ?thesis using R_trans Pair by (cases r) (auto simp: and_do_def)
  qed
qed

lemma frame_with_state: "(\<And>s. preserves R (f s)) \<Longrightarrow> preserves R (with_state f)"
  by (simp add: preserves_def with_state_def)

lemma frame_catch_invalid: "preserves R a \<Longrightarrow> preserves R (catch_invalid a h)"
  by (simp add: preserves_def)

lemma frame_catch_any: "preserves R a \<Longrightarrow> preserves R (catch_any a x)"
  by (simp add: preserves_def)

lemma frame_modify: "(\<And>s. R s (f s)) \<Longrightarrow> preserves R (modify f)"
  by (simp add: preserves_def modify_def)

lemma frame_if: "(b \<Longrightarrow> preserves R a) \<Longrightarrow> (\<not> b \<Longrightarrow> preserves R a') \<Longrightarrow> preserves R (if b then a else a')"
  by simp

lemma frame_option:
  "(x = None \<Longrightarrow> preserves R a) \<Longrightarrow> (\<And>y. x = Some y \<Longrightarrow> preserves R (f y)) \<Longrightarrow>
     preserves R (case x of None \<Rightarrow> a | Some y \<Rightarrow> f y)"
  by (cases x) simp_all

lemma frame_pair: "(\<And>y z. x = (y, z) \<Longrightarrow> preserves R (f y z)) \<Longrightarrow> preserves R (case x of (y, z) \<Rightarrow> f y z)"
  by (cases x) simp

lemma frame_let: "preserves R (f x) \<Longrightarrow> preserves R (Let x f)"
  by (simp add: Let_def)

lemma frame_random: "preserves R (random_webauthn_challenge mo)"
  by (simp add: random_webauthn_challenge_def frame_option frame_ret frame_fail)

lemmas frame_rules = frame_ret frame_fail frame_lift frame_respond frame_respond_error frame_and_do
  frame_with_state frame_catch_invalid frame_catch_any frame_modify frame_if frame_option frame_pair
  frame_let frame_random

end

section \<open>Logging in\<close>

locale login_frame = frame R
  for R :: "AdminState \<Rightarrow> AdminState \<Rightarrow> bool" +
  fixes pf :: "('n, 'k) platform"
  assumes R_setup: "R s (s\<lparr>as_users := snd (create_if_empty (pf_yaml pf) (pf_kdf pf) rand now io u p (as_users s))\<rparr>)"
    and R_code: "R s (s\<lparr>as_users := snd (consume_user_backup_code (pf_yaml pf) (pf_kdf pf) io u given (as_users s))\<rparr>)"
    and R_time_step: "R s (s\<lparr>as_users := snd (consume_totp_step u k (as_users s))\<rparr>)"
    and R_sign_count: "R s (s\<lparr>as_users := snd (update_webauthn_sign_count (pf_yaml pf) io u cred n (as_users s))\<rparr>)"
    and R_started: "R s (s\<lparr>as_webauthn_challenges := start_challenge key ch now ttl (as_webauthn_challenges s)\<rparr>)"
    and R_consumed: "R s (s\<lparr>as_webauthn_challenges := fst (consume_challenge key now (as_webauthn_challenges s))\<rparr>)"
    and R_sessions: "R s (s\<lparr>as_sessions := put_session token info now ttl (as_sessions s)\<rparr>)"
    and R_pending: "R s (s\<lparr>as_pending_mfa := put_pending_mfa token u now ttl (as_pending_mfa s)\<rparr>)"
    and R_invalidated: "R s (s\<lparr>as_pending_mfa := invalidate_pending_mfa token (as_pending_mfa s)\<rparr>)"
    and R_history: "R s (s\<lparr>as_login_history := h\<rparr>)"
begin

lemma frame_users:
  "preserves R (on_users (create_if_empty (pf_yaml pf) (pf_kdf pf) rand now io u p))"
  "preserves R (on_users (consume_user_backup_code (pf_yaml pf) (pf_kdf pf) io u given))"
  "preserves R (on_users (\<lambda>store. map_prod Inr id (consume_totp_step u k store)))"
  "preserves R (on_users (update_webauthn_sign_count (pf_yaml pf) io u cred n))"
  using R_setup R_code R_time_step R_sign_count by (simp_all add: preserves_def on_users_def split_def)

lemma frame_consume: "preserves R (consume_webauthn_challenge mo key)"
  using R_consumed by (simp add: preserves_def consume_webauthn_challenge_def split_def)

lemma frame_start: "preserves R (start_webauthn_challenge mo key c)"
  by (simp add: preserves_def start_webauthn_challenge_def modify_def R_started)

lemma frame_invalidate: "preserves R (invalidate_pending request)"
  by (simp add: preserves_def invalidate_pending_def modify_def R_invalidated)

lemma frame_issue: "preserves R (issue_session_response pf mo username needs version ip)"
  unfolding preserves_def
proof
  fix s :: AdminState
  let ?logged_in = "\<lambda>token. s\<lparr>as_sessions := put_session token
      \<lparr>si_username = username, si_needs_mfa_setup = needs\<rparr> (mo_steady mo) session_ttl (as_sessions s)\<rparr>"
  have "R s (?logged_in token\<lparr>as_login_history := h\<rparr>)" for token h
    using R_trans [OF R_sessions R_history] .
  then show "R s (snd (issue_session_response pf mo username needs version ip s))"
    by (auto simp: issue_session_response_def create_session_def and_do_def lift_def with_state_def modify_def
        ret_def bind_result_def Let_def R_refl split: sum.split)
qed

lemma frame_issue_mfa: "preserves R (issue_mfa_challenge_response pf mo username a b c version)"
  by (auto simp: preserves_def issue_mfa_challenge_response_def create_pending_mfa_def and_do_def lift_def
      with_state_def modify_def ret_def bind_result_def Let_def R_refl R_pending split: sum.split)

lemmas login_rules = frame_rules frame_users frame_consume frame_start frame_invalidate frame_issue frame_issue_mfa

lemma frame_login_handlers:
  "preserves R (handle_auth_status pf mo request version)"
  "preserves R (handle_auth_setup pf mo body version ip)"
  "preserves R (handle_auth_login pf mo body version ip)"
  "preserves R (handle_auth_2fa_totp_verify pf mo request version ip)"
  "preserves R (handle_auth_2fa_backup_code_verify pf mo request version ip)"
  "preserves R (handle_webauthn_login_options pf mo request version)"
  "preserves R (handle_webauthn_login_verify pf mo request version ip)"
  "preserves R (handle_webauthn_2fa_options pf mo request version)"
  "preserves R (handle_webauthn_2fa_verify pf mo request version ip)"
  unfolding handle_auth_status_def handle_auth_setup_def handle_auth_login_def
    handle_auth_2fa_totp_verify_def handle_auth_2fa_backup_code_verify_def handle_webauthn_login_options_def
    handle_webauthn_login_verify_def handle_webauthn_2fa_options_def handle_webauthn_2fa_verify_def
  by (intro login_rules)+

end

section \<open>Accounts\<close>

locale account_frame = frame R
  for R :: "AdminState \<Rightarrow> AdminState \<Rightarrow> bool" +
  fixes pf :: "('n, 'k) platform"
  assumes R_users: "user_step (pf_yaml pf) (as_users s) u \<Longrightarrow> R s (s\<lparr>as_users := u\<rparr>)"
    and R_started: "R s (s\<lparr>as_webauthn_challenges := start_challenge key ch now ttl (as_webauthn_challenges s)\<rparr>)"
    and R_consumed: "R s (s\<lparr>as_webauthn_challenges := fst (consume_challenge key now (as_webauthn_challenges s))\<rparr>)"
    and R_pending_totp: "R s (s\<lparr>as_pending_totp := p\<rparr>)"
    and R_logout: "R s (s\<lparr>as_sessions := invalidate_session token (as_sessions s)\<rparr>)"
    and R_satisfied: "R s (s\<lparr>as_sessions := mark_mfa_satisfied token (as_sessions s)\<rparr>)"
begin

lemma frame_on_users:
  "(\<And>u. user_step (pf_yaml pf) u (snd (op u))) \<Longrightarrow> preserves R (on_users op)"
  by (auto simp: preserves_def on_users_def split_def intro!: R_users)

lemma frame_users:
  "preserves R (on_users (create_user (pf_yaml pf) kdf rand now io u p))"
  "preserves R (on_users (create_if_empty (pf_yaml pf) kdf rand now io u p))"
  "preserves R (on_users (remove_user (pf_yaml pf) io u))"
  "preserves R (on_users (set_totp (pf_yaml pf) kdf rands io u secret plain))"
  "preserves R (on_users (clear_totp (pf_yaml pf) io u))"
  "preserves R (on_users (regenerate_backup_codes (pf_yaml pf) kdf rand_byte rands io u))"
  "preserves R (on_users (consume_user_backup_code (pf_yaml pf) kdf io u given))"
  "preserves R (on_users (\<lambda>store. map_prod Inr id (consume_totp_step u k store)))"
  "preserves R (on_users (webauthn_user_handle (pf_yaml pf) rand io u))"
  "preserves R (on_users (add_webauthn_credential (pf_yaml pf) io u cred))"
  "preserves R (on_users (remove_webauthn_credential (pf_yaml pf) io u cid))"
  "preserves R (on_users (update_webauthn_sign_count (pf_yaml pf) io u cid n))"
  by (rule frame_on_users; simp add: user_step.intros)+

lemma frame_consume: "preserves R (consume_webauthn_challenge mo key)"
  using R_consumed by (simp add: preserves_def consume_webauthn_challenge_def split_def)

lemma frame_start: "preserves R (start_webauthn_challenge mo key c)"
  by (simp add: preserves_def start_webauthn_challenge_def modify_def R_started)

lemma frame_mark: "preserves R (mark_satisfied request)"
  by (simp add: preserves_def mark_satisfied_def ret_def modify_def R_refl R_satisfied split: option.split)

lemma frame_verify: "preserves R (verify_current_password pf username password)"
  unfolding verify_current_password_def by (intro frame_rules)

lemmas account_rules = frame_rules frame_users frame_consume frame_start frame_mark frame_verify

lemma frame_account_handlers:
  "preserves R (handle_auth_logout pf request version)"
  "preserves R (handle_auth_2fa_status pf user version)"
  "preserves R (handle_auth_2fa_totp_setup pf mo user version)"
  "preserves R (handle_auth_2fa_totp_confirm pf mo request user version)"
  "preserves R (handle_auth_2fa_totp_disable pf mo user body version)"
  "preserves R (handle_auth_2fa_backup_codes_regenerate pf mo user body version)"
  "preserves R (handle_webauthn_register_options pf mo request user version)"
  "preserves R (handle_webauthn_register_verify pf mo request user version)"
  "preserves R (handle_webauthn_delete pf mo user cred version)"
  "preserves R (handle_users_create pf mo body version)"
  "preserves R (handle_users_delete pf mo name version)"
  unfolding handle_auth_logout_def handle_auth_2fa_status_def handle_auth_2fa_totp_setup_def
    handle_auth_2fa_totp_confirm_def handle_auth_2fa_totp_disable_def handle_auth_2fa_backup_codes_regenerate_def
    handle_webauthn_register_options_def handle_webauthn_register_verify_def handle_webauthn_delete_def
    handle_users_create_def handle_users_delete_def
  by ((intro account_rules)+; simp add: R_pending_totp R_logout)+

text \<open>The handlers of a login that hand out nothing.\<close>

lemma frame_quiet_handlers:
  "preserves R (handle_auth_status pf mo request version)"
  "preserves R (handle_webauthn_login_options pf mo request version)"
  "preserves R (handle_webauthn_2fa_options pf mo request version)"
  unfolding handle_auth_status_def handle_webauthn_login_options_def handle_webauthn_2fa_options_def
  by (intro account_rules)+

end

section \<open>Settings\<close>

text \<open>What every edit of the configuration keeps: \<open>timely\<close> are the times it may stamp entries with.\<close>

locale config_edits =
  fixes mk :: "string \<Rightarrow> ip_address option"
    and good :: "RuntimeConfig \<Rightarrow> bool"
    and timely :: "ticks \<Rightarrow> bool"
  assumes add_blacklist: "good c \<Longrightarrow> timely t \<Longrightarrow> add_blacklist_entry mk cat v t by src c = Inr c' \<Longrightarrow> good c'"
    and remove_blacklist: "good c \<Longrightarrow> remove_blacklist_entry cat v c = Inr c' \<Longrightarrow> good c'"
    and clear_blacklist: "good c \<Longrightarrow> clear_blacklist_category cat c = Inr c' \<Longrightarrow> good c'"
    and add_whitelist: "good c \<Longrightarrow> timely t \<Longrightarrow> add_whitelist_entry mk v t by src c = Inr c' \<Longrightarrow> good c'"
    and remove_whitelist: "good c \<Longrightarrow> good (remove_whitelist_entry v c)"
    and clear_whitelist: "good c \<Longrightarrow> good (clear_whitelist c)"
    and add_route: "good c \<Longrightarrow> timely t \<Longrightarrow> add_whitelist_route_entry v t by src c = Inr c' \<Longrightarrow> good c'"
    and remove_route: "good c \<Longrightarrow> good (remove_whitelist_route_entry v c)"
    and clear_routes: "good c \<Longrightarrow> good (clear_whitelist_routes c)"
    and add_site: "good c \<Longrightarrow> add_site site c = Inr c' \<Longrightarrow> good c'"
    and update_site: "good c \<Longrightarrow> update_site d u c = Inr c' \<Longrightarrow> good c'"
    and remove_site: "good c \<Longrightarrow> remove_site d c = Inr c' \<Longrightarrow> good c'"
    and ban: "good c \<Longrightarrow> ban_edit obj (cfg_ban c) = Inr b \<Longrightarrow> good (c\<lparr>cfg_ban := b\<rparr>)"
    and speed: "good c \<Longrightarrow> speed_edit obj (cfg_speed_check c) = Inr sc \<Longrightarrow> good (c\<lparr>cfg_speed_check := sc\<rparr>)"
    and methods: "good c \<Longrightarrow> method_edit obj (cfg_method_check c) = Inr mc \<Longrightarrow> good (c\<lparr>cfg_method_check := mc\<rparr>)"
    and emergency: "good c \<Longrightarrow> good (c\<lparr>cfg_emergency_off := eo\<rparr>)"
    and pages: "good c \<Longrightarrow> status_pages ps = status_pages (cfg_pages c) \<Longrightarrow> good (c\<lparr>cfg_pages := ps\<rparr>)"
    and add_page: "good c \<Longrightarrow> timely t \<Longrightarrow> fits_int n \<Longrightarrow> add_status_page n h t c = Inr c' \<Longrightarrow> good c'"
    and update_page: "good c \<Longrightarrow> update_status_page n h c = Inr c' \<Longrightarrow> good c'"
    and remove_page: "good c \<Longrightarrow> remove_status_page n c = Inr c' \<Longrightarrow> good c'"
    and request_log: "good c \<Longrightarrow> good (c\<lparr>cfg_request_log := rl\<rparr>)"
    and robots: "good c \<Longrightarrow> good (c\<lparr>cfg_robots_txt := rt\<rparr>)"
    and body_size: "good c \<Longrightarrow> fits_int (int k) \<Longrightarrow>
          good (c\<lparr>cfg_blacklist := (cfg_blacklist c)\<lparr>bl_max_body_size_bytes := k\<rparr>\<rparr>)"
    and geoip: "good c \<Longrightarrow> good (c\<lparr>cfg_geoip := g\<rparr>)"
    and globe: "good c \<Longrightarrow> globe_edit obj (cfg_globe c) = Inr gl \<Longrightarrow> good (c\<lparr>cfg_globe := gl\<rparr>)"
    and security: "good c \<Longrightarrow> good (c\<lparr>cfg_security := sec\<rparr>)"
begin

lemma import_lines_good:
  assumes "\<And>line t c c'. good c \<Longrightarrow> timely t \<Longrightarrow> add line t c = Inr c' \<Longrightarrow> good c'" and "\<And>i. timely (clock i)"
    and "import_lines add clock i lines c res = Inr (c', res')" and "good c"
  shows "good c'"
  using assms(3,4)
proof (induction lines arbitrary: i c res)
  case (Cons line ls)
  show ?case
  proof (cases "add line (clock i) c")
    case (Inr c1)
    moreover have "good c1" using assms(1) [OF Cons.prems(2) assms(2) Inr] .
    ultimately show ?thesis using Cons by simp
  next
    case (Inl e)
    then show ?thesis using Cons by (cases e) auto
  qed
qed simp

end

locale settings_frame = frame R + config_edits mk good timely
  for R :: "AdminState \<Rightarrow> AdminState \<Rightarrow> bool" and mk good timely +
  assumes R_config: "(good (as_config s) \<Longrightarrow> good c) \<Longrightarrow> R s (s\<lparr>as_config := c\<rparr>)"
    and R_block: "R s (s\<lparr>as_ip_blocks := add_block b now (as_ip_blocks s)\<rparr>)"
    and R_unblock: "R s (s\<lparr>as_ip_blocks := fst (remove_block mk' txt (as_ip_blocks s))\<rparr>)"
    and R_list: "R s (s\<lparr>as_ip_blocks := fst (list_active now (as_ip_blocks s))\<rparr>)"
begin

lemma frame_update:
  assumes "\<And>c c'. good c \<Longrightarrow> m c = Inr c' \<Longrightarrow> good c'"
  shows "preserves R (update_config m)"
  using assms by (auto simp: preserves_def update_config_def R_refl intro: R_config split: sum.split)

lemma frame_update_with:
  assumes "\<And>c c' x. good c \<Longrightarrow> m c = Inr (c', x) \<Longrightarrow> good c'"
  shows "preserves R (update_config_with m)"
  using assms by (auto simp: preserves_def update_config_with_def R_refl intro: R_config split: sum.split)

lemma frame_guarded:
  "(\<And>c c'. good c \<Longrightarrow> m c = Inr c' \<Longrightarrow> good c') \<Longrightarrow> preserves R (guarded_edit pf status version m)"
  unfolding guarded_edit_def by (intro frame_rules frame_update)

lemma frame_persisted:
  "(\<And>c c'. good c \<Longrightarrow> m c = Inr c' \<Longrightarrow> good c') \<Longrightarrow> preserves R (persisted_edit pf version m)"
  unfolding persisted_edit_def by (intro frame_catch_any frame_guarded)

lemma frame_plain: "(\<And>c. good c \<Longrightarrow> good (f c)) \<Longrightarrow> preserves R (plain_edit f)"
  unfolding plain_edit_def by (intro frame_rules frame_update) (simp, blast)

lemma frame_then_show: "preserves R edit \<Longrightarrow> preserves R (then_show pf version edit view)"
  unfolding then_show_def by (intro frame_rules)

lemma frame_import:
  assumes "\<And>c c' x. good c \<Longrightarrow> m c = Inr (c', x) \<Longrightarrow> good c'"
  shows "preserves R (apply_import pf version m view)"
  unfolding apply_import_def by (intro frame_rules frame_update_with) (rule assms)

lemma frame_list_temporary: "preserves R (list_temporary mo)"
  using R_list by (simp add: preserves_def list_temporary_def split_def)

lemma frame_remove_temporary: "preserves R (remove_temporary pf v)"
  using R_unblock by (simp add: preserves_def remove_temporary_def split_def)

lemma frame_with_download:
  "(\<And>t. preserves R (f t)) \<Longrightarrow> preserves R (with_download pf mo body version f)"
  unfolding with_download_def by (intro frame_rules)

lemmas settings_rules = frame_rules frame_then_show frame_list_temporary frame_remove_temporary frame_with_download

lemma frame_blacklist_handlers:
  assumes mk: "pf_address pf = mk" and now: "timely (mo_now mo)"
  shows "preserves R (handle_ip_block_mutation pf mo request version)"
    and "preserves R (handle_blacklist_mutation pf mo request name version user)"
    and "preserves R (handle_blacklist_clear pf name version)"
proof -
  have "preserves R (unblock pf v)" for v
    unfolding unblock_def by (intro settings_rules frame_update) (rule remove_blacklist)
  moreover have "preserves R (block pf mo v h version)" for v h
    unfolding block_def mk by (intro settings_rules frame_update) (rule R_block, rule add_blacklist [OF _ now])
  ultimately show ip: "preserves R (handle_ip_block_mutation pf mo request version)"
    unfolding handle_ip_block_mutation_def by (intro settings_rules)
  show "preserves R (handle_blacklist_mutation pf mo request name version user)"
    unfolding handle_blacklist_mutation_def mk
    by (intro settings_rules frame_persisted ip)
       (auto split: if_splits intro: add_blacklist [OF _ now] remove_blacklist)
  show "preserves R (handle_blacklist_clear pf name version)"
    unfolding handle_blacklist_clear_def by (intro settings_rules frame_update) (rule clear_blacklist)
qed

lemma frame_blacklist_imports:
  assumes mk: "pf_address pf = mk" and clock: "\<And>i. timely (mo_clock mo i)"
  shows "preserves R (handle_blacklist_import pf mo name body version user)"
    and "preserves R (handle_blacklist_import_url pf mo name body version user)"
proof -
  have "preserves R (apply_blacklist_import pf mo cat body version user)" for cat body
    unfolding apply_blacklist_import_def mk import_blacklist_entries_def
    by (rule frame_import, erule import_lines_good [OF add_blacklist clock, rotated -1])
  then show "preserves R (handle_blacklist_import pf mo name body version user)"
    and "preserves R (handle_blacklist_import_url pf mo name body version user)"
    unfolding handle_blacklist_import_def handle_blacklist_import_url_def
    by (intro settings_rules; assumption | rule)+
qed

lemma frame_whitelist_handlers:
  assumes mk: "pf_address pf = mk" and now: "timely (mo_now mo)"
  shows "preserves R (handle_whitelist_mutation pf mo request version user)"
    and "preserves R (handle_whitelist_clear pf version)"
    and "preserves R (handle_whitelist_routes_mutation pf mo request version user)"
    and "preserves R (handle_whitelist_routes_clear pf version)"
  unfolding handle_whitelist_mutation_def handle_whitelist_clear_def handle_whitelist_routes_mutation_def
    handle_whitelist_routes_clear_def mk
  by ((intro settings_rules frame_persisted frame_update)+;
      auto split: if_splits intro: add_whitelist [OF _ now] remove_whitelist clear_whitelist
        add_route [OF _ now] remove_route clear_routes)+

lemma frame_whitelist_imports:
  assumes mk: "pf_address pf = mk" and clock: "\<And>i. timely (mo_clock mo i)"
  shows "preserves R (handle_whitelist_import pf mo body version user)"
    and "preserves R (handle_whitelist_import_url pf mo body version user)"
    and "preserves R (handle_whitelist_routes_import pf mo body version user)"
    and "preserves R (handle_whitelist_routes_import_url pf mo body version user)"
proof -
  have a: "preserves R (handle_whitelist_import pf mo body version user)" for body
    unfolding handle_whitelist_import_def mk import_whitelist_entries_def
    by (rule frame_import, erule import_lines_good [OF add_whitelist clock, rotated -1])
  have b: "preserves R (handle_whitelist_routes_import pf mo body version user)" for body
    unfolding handle_whitelist_routes_import_def import_whitelist_route_entries_def
    by (rule frame_import, erule import_lines_good [OF add_route clock, rotated -1])
  from a b show "preserves R (handle_whitelist_import pf mo body version user)"
    and "preserves R (handle_whitelist_import_url pf mo body version user)"
    and "preserves R (handle_whitelist_routes_import pf mo body version user)"
    and "preserves R (handle_whitelist_routes_import_url pf mo body version user)"
    unfolding handle_whitelist_import_url_def handle_whitelist_routes_import_url_def
    by (simp_all add: frame_with_download)
qed

lemma frame_site_handlers:
  "preserves R (handle_sites_create pf body version)"
  "preserves R (handle_sites_update pf domain body version)"
  "preserves R (handle_sites_delete pf domain version)"
  unfolding handle_sites_create_def handle_sites_update_def handle_sites_delete_def
  by ((intro settings_rules frame_guarded)+; erule add_site update_site remove_site; assumption)+

lemma frame_check_handlers:
  "preserves R (handle_ban_config_update pf body version)"
  "preserves R (handle_speed_check_update pf body version)"
  "preserves R (handle_method_check_update pf body version)"
  "preserves R (handle_globe_config_update pf body version)"
  unfolding handle_ban_config_update_def handle_speed_check_update_def handle_method_check_update_def
    handle_globe_config_update_def
  by ((intro settings_rules frame_guarded)+;
      auto simp: bind_result_Inr_iff intro: ban speed methods globe)+

lemma frame_page_handlers:
  assumes now: "timely (mo_now mo)"
  shows "preserves R (handle_pages_update pf body version)"
    and "preserves R (handle_status_page_add pf mo body version)"
    and "preserves R (handle_status_page_update pf txt body version)"
    and "preserves R (handle_status_page_delete pf txt version)"
proof -
  have same: "status_pages (set_if h (\<lambda>h. banned_html_update (\<lambda>_. h)) (set_if h' (\<lambda>h. blocked_html_update (\<lambda>_. h)) ps))
      = status_pages ps" for h h' and ps :: ResponsePagesConfig
    by (simp add: set_if_def split: option.split)
  show "preserves R (handle_pages_update pf body version)"
    unfolding handle_pages_update_def by (intro settings_rules frame_plain) (rule pages [OF _ same])
  have "preserves R (guarded_edit pf 400 version (add_status_page n html (mo_now mo)))"
    if "json_int_field obj ''code'' = Some n" for obj n html
    by (rule frame_guarded, erule add_page [OF _ now]) (use json_int_field_fits [OF that] in \<open>simp_all add: fits_int_def\<close>)
  then show "preserves R (handle_status_page_add pf mo body version)"
    unfolding handle_status_page_add_def Let_def by (auto intro!: settings_rules split: option.split)
  show "preserves R (handle_status_page_update pf txt body version)"
    "preserves R (handle_status_page_delete pf txt version)"
    unfolding handle_status_page_update_def handle_status_page_delete_def
    by ((intro settings_rules frame_guarded)+; erule update_page remove_page; assumption)+
qed

lemma frame_plain_handlers:
  "preserves R (handle_emergency_off_update pf body version)"
  "preserves R (handle_request_log_config_update pf body version)"
  "preserves R (handle_robots_txt_config_update pf body version)"
  "preserves R (handle_geoip_upload pf mo body version)"
  "preserves R (handle_asn_upload pf mo body version)"
  "preserves R (handle_geoip_config_update pf body version)"
  "preserves R (handle_security_config_update pf body version)"
  "preserves R (handle_globe_snapshot pf target version)"
  "preserves R (handle_live_visitors pf mo version)"
  unfolding handle_emergency_off_update_def handle_request_log_config_update_def handle_robots_txt_config_update_def
    handle_geoip_upload_def handle_asn_upload_def handle_mmdb_upload_def handle_geoip_config_update_def
    handle_security_config_update_def handle_globe_snapshot_def handle_live_visitors_def
  by ((intro settings_rules frame_plain frame_update)+;
      auto intro: emergency request_log robots geoip security split: option.splits)+

lemma frame_body_size: "preserves R (handle_body_size_limit_update pf body version)"
proof -
  have "preserves R (plain_edit (\<lambda>config. config\<lparr>cfg_blacklist :=
          (cfg_blacklist config)\<lparr>bl_max_body_size_bytes := nat n\<rparr>\<rparr>))"
    if "json_int_field obj ''max_bytes'' = Some n" and "\<not> n < 0" for obj n
    by (rule frame_plain, erule body_size) (use json_int_field_fits [OF that(1)] that(2) in \<open>simp add: fits_int_def\<close>)
  then show ?thesis
    unfolding handle_body_size_limit_update_def by (auto intro!: settings_rules split: option.split)
qed

end

end
