(* ===== verification/Admin_Safety.thy ===== *)
theory Admin_Safety
  imports Admin_Frame
begin

text \<open>
  What a request to the admin server can change: without a session, with one, and when a session
  comes into being.
\<close>

section \<open>Protected targets\<close>

lemma names_requests_prefix: "names_requests target \<Longrightarrow> prefix kApiRequests target"
  by (metis names_requests_def take_is_prefix)

lemma protected_prefixes:
  "prefix kApiWebauthnPrefix t \<Longrightarrow> needs_auth t" "prefix kApiUsersPrefix t \<Longrightarrow> needs_auth t"
  "prefix kApiSitesPrefix t \<Longrightarrow> needs_auth t" "prefix kApiPagesStatusPrefix t \<Longrightarrow> needs_auth t"
  "prefix kApiBlacklistPrefix t \<Longrightarrow> needs_auth t" "prefix ''/api/globe/snapshot'' t \<Longrightarrow> needs_auth t"
  "names_requests t \<Longrightarrow> needs_auth t"
  by (auto simp: prefix_def needs_auth_def is_public_api_route_def kApiWebauthnPrefix_def kApiUsersPrefix_def
      kApiSitesPrefix_def kApiPagesStatusPrefix_def kApiBlacklistPrefix_def kApiRequests_def
      dest!: names_requests_prefix)

lemma protected_targets:
  "needs_auth ''/api/auth/logout''" "needs_auth ''/api/auth/2fa/status''" "needs_auth ''/api/auth/2fa/totp/setup''"
  "needs_auth ''/api/auth/2fa/totp/confirm''" "needs_auth ''/api/auth/2fa/totp/disable''"
  "needs_auth ''/api/auth/2fa/backup-codes/regenerate''" "needs_auth ''/api/auth/2fa/webauthn/register/options''"
  "needs_auth ''/api/auth/2fa/webauthn/register/verify''" "needs_auth ''/api/security-config''"
  "needs_auth ''/api/users''" "needs_auth ''/api/login-history''" "needs_auth ''/api/config''"
  "needs_auth ''/api/blacklist''" "needs_auth ''/api/sites''" "needs_auth ''/api/ip-blocks''"
  "needs_auth ''/api/live-visitors''" "needs_auth ''/api/ban-config''" "needs_auth ''/api/speed-check''"
  "needs_auth ''/api/method-check''" "needs_auth ''/api/emergency-off''" "needs_auth ''/api/pages''"
  "needs_auth ''/api/pages/status''" "needs_auth ''/api/request-log-config''" "needs_auth ''/api/robots-txt''"
  "needs_auth ''/api/body-size-limit''" "needs_auth ''/api/geoip-upload''" "needs_auth ''/api/asn-upload''"
  "needs_auth ''/api/geoip-config''" "needs_auth ''/api/globe-config''" "needs_auth ''/api/whitelist/import''"
  "needs_auth ''/api/whitelist/clear''" "needs_auth ''/api/whitelist''" "needs_auth ''/api/whitelist/routes/import''"
  "needs_auth ''/api/whitelist/routes/clear''" "needs_auth ''/api/whitelist/routes''"
  "needs_auth ''/api/whitelist/import-url''" "needs_auth ''/api/whitelist/routes/import-url''"
  "needs_auth ''/api/requests/stream''" "needs_auth ''/api/globe/stream''"
  by (simp_all add: needs_auth_def is_public_api_route_def)

section \<open>Without a session\<close>

context login_frame begin

lemma frame_public_route:
  assumes "\<not> needs_auth (hd_target request)"
  shows "preserves R (route pf mo request user ip)"
proof -
  note contra = assms protected_prefixes [of "hd_target request"]
  have last: "preserves R (if get_request_p request
      then with_state (\<lambda>s. ret (serve_static_file pf (fs_path (admin_static_dir (cfg_admin (as_config s))))
        (hd_target request) (hd_version request)))
      else respond_error pf 405 ''method not allowed'' (hd_version request))"
    by (intro frame_rules)
  have lists: "preserves R other \<Longrightarrow> preserves R (route_lists pf mo request user other)" for other
    unfolding route_lists_def Let_def
    by (intro frame_if) (use contra in \<open>auto simp: protected_targets\<close>)
  have settings: "preserves R other \<Longrightarrow> preserves R (route_settings pf mo request other)" for other
    unfolding route_settings_def Let_def
    by (intro frame_if) (use contra in \<open>auto simp: protected_targets\<close>)
  have accounts: "preserves R other \<Longrightarrow> preserves R (route_accounts pf mo request other)" for other
    unfolding route_accounts_def Let_def
    by (intro frame_if) (use contra in \<open>auto simp: protected_targets\<close>)
  have auth: "preserves R other \<Longrightarrow> preserves R (route_auth pf mo request user ip other)" for other
    unfolding route_auth_def Let_def
    by (intro frame_if frame_login_handlers) (use contra in \<open>auto simp: protected_targets\<close>)
  show ?thesis
    unfolding route_def by (intro auth accounts settings lists last)
qed

lemma frame_public_dispatch:
  assumes "\<not> needs_auth (hd_target request)"
  shows "\<exists>h. dispatch pf mo request user ip = Answer h \<and> preserves R h"
proof -
  have "dispatch pf mo request user ip = Answer (route pf mo request user ip)"
    using assms protected_prefixes(5) [of "hd_target request"] unfolding dispatch_def Let_def
    by (auto simp: protected_targets)
  with frame_public_route [OF assms] show ?thesis by blast
qed

end

section \<open>What stays of an account\<close>

definition spent :: "BackupCode \<Rightarrow> BackupCode" where
  "spent c = c\<lparr>bc_used := True\<rparr>"

text \<open>All of an account but which recovery codes are used and what the passkeys count.\<close>

definition account_core :: "UserRecord \<Rightarrow> UserRecord" where
  "account_core u = u\<lparr>ur_backup_codes := map spent (ur_backup_codes u),
     ur_webauthn_credentials := map (\<lambda>c. c\<lparr>wc_sign_count := 0\<rparr>) (ur_webauthn_credentials u)\<rparr>"

definition accounts_kept :: "UserStore \<Rightarrow> UserStore \<Rightarrow> bool" where
  "accounts_kept u u' \<longleftrightarrow> us_users u = [] \<or> map account_core (us_users u') = map account_core (us_users u)"

lemma map_update_same: "i < length xs \<Longrightarrow> f x = f (xs ! i) \<Longrightarrow> map f (xs[i := x]) = map f xs"
  by (metis list_update_id map_update)

lemma kept_set_user:
  assumes "find_index username u = Some i" and "account_core x = account_core (us_users u ! i)"
  shows "map account_core (us_users (set_user i x u)) = map account_core (us_users u)"
  using assms find_first_Some [of _ "us_users u" i]
  by (auto simp: set_user_def find_index_def intro!: map_update_same)

lemma kept_setup: "accounts_kept u (snd (create_if_empty y kdf rand now io name p u))"
  by (simp add: accounts_kept_def create_if_empty_def split: sum.split prod.split)

lemma kept_code: "accounts_kept u (snd (consume_user_backup_code y kdf io name given u))"
proof -
  have "map spent codes' = map spent codes" if "consume_backup_code kdf codes given = Inr (codes', ok)" for codes codes' ok
  proof -
    have "spent (c\<lparr>bc_used := True\<rparr>) = spent c" for c by (simp add: spent_def)
    then show ?thesis using that
      by (auto simp: consume_backup_code_def bind_result_Inr_iff map_update list_update_same_conv
          split: if_splits option.splits) (metis list_update_beyond list_update_id map_update not_le_imp_less)
  qed
  then have "account_core (x\<lparr>ur_backup_codes := codes'\<rparr>) = account_core x"
    if "consume_backup_code kdf (ur_backup_codes x) given = Inr (codes', ok)" for x codes' ok
    using that by (simp add: account_core_def)
  then show ?thesis
    by (auto simp: accounts_kept_def consume_user_backup_code_def kept_set_user split: option.split sum.split)
qed

lemma kept_time_step: "accounts_kept u (snd (consume_totp_step name k u))"
  by (simp add: accounts_kept_def consume_totp_step_def split: option.split)

lemma kept_sign_count: "accounts_kept u (snd (update_webauthn_sign_count y io name cred n u))"
proof -
  have "account_core (x\<lparr>ur_webauthn_credentials := (ur_webauthn_credentials x)
          [j := (ur_webauthn_credentials x ! j)\<lparr>wc_sign_count := n\<rparr>]\<rparr>) = account_core x"
    if "find_credential cred (ur_webauthn_credentials x) = Some j" for x j
    using that find_first_Some [of _ "ur_webauthn_credentials x" j]
    by (auto simp: account_core_def find_credential_def map_update_same)
  then show ?thesis
    by (auto simp: accounts_kept_def update_webauthn_sign_count_def kept_set_user Let_def split: option.split)
qed

text \<open>What a request without a session leaves as it is.\<close>

definition untouched :: "AdminState \<Rightarrow> AdminState \<Rightarrow> bool" where
  "untouched s s' \<longleftrightarrow> as_config s' = as_config s \<and> as_request_log s' = as_request_log s
     \<and> as_ip_blocks s' = as_ip_blocks s \<and> as_scores s' = as_scores s \<and> as_rate_tracker s' = as_rate_tracker s
     \<and> as_globe_events s' = as_globe_events s \<and> as_pending_totp s' = as_pending_totp s
     \<and> as_server_location s' = as_server_location s \<and> accounts_kept (as_users s) (as_users s')"

lemma accounts_kept_trans: "accounts_kept u v \<Longrightarrow> accounts_kept v w \<Longrightarrow> accounts_kept u w"
  by (auto simp: accounts_kept_def)

interpretation anonymous: login_frame untouched pf for pf :: "('n, 'k) platform"
proof unfold_locales
  fix s t u
  show "untouched s s" by (simp add: untouched_def accounts_kept_def)
  show "untouched s t \<Longrightarrow> untouched t u \<Longrightarrow> untouched s u"
    using accounts_kept_trans by (auto simp: untouched_def)
qed (simp_all add: untouched_def kept_setup kept_code kept_time_step kept_sign_count accounts_kept_def [of u u for u])

text \<open>C10: Without a session nothing but a login can happen.  Whatever a request says, if its route is not
  behind the session gate, it is answered by a handler that leaves the configuration, the blocks,
  the logs, the scores and every pending enrolment alone, and of existing accounts changes at most
  which recovery codes are used and the counters of passkeys.\<close>

theorem anonymous_requests_change_nothing:
  assumes "\<not> needs_auth (hd_target request)"
  shows "\<exists>h. dispatch pf mo request user client_ip = Answer h \<and> (\<forall>s. untouched s (snd (h s)))"
  using anonymous.frame_public_dispatch [OF assms, of pf mo user client_ip] by (simp add: preserves_def)

theorem anonymous_requests_change_nothing_witness:
  "\<exists>h. dispatch (sample_platform []) sample_moment
         (admin_request (sample_platform []) (api_request ''POST'' ''/api/auth/login'' (\<lambda>_. None)) []) [] ''::1'' = Answer h
     \<and> (\<forall>s. untouched s (snd (h s)))"
  by (rule anonymous_requests_change_nothing) (simp add: admin_request_def api_request_def needs_auth_def
      is_public_api_route_def)

section \<open>Every route\<close>

locale route_frame = account: account_frame R pf + settings: settings_frame R "pf_address pf" good timely
  for R and pf :: "('n, 'k) platform" and good timely
begin

lemma frame_groups:
  assumes "timely (mo_now mo)" and "\<And>i. timely (mo_clock mo i)" and "preserves R other"
  shows "preserves R (route_accounts pf mo request other)"
    and "preserves R (route_settings pf mo request other)" and "preserves R (route_lists pf mo request user other)"
  unfolding route_accounts_def route_settings_def route_lists_def Let_def
  by (intro account.frame_if account.frame_account_handlers
      settings.frame_site_handlers settings.frame_check_handlers settings.frame_page_handlers [OF assms(1)]
      settings.frame_plain_handlers settings.frame_body_size
      settings.frame_blacklist_handlers [OF refl assms(1)] settings.frame_blacklist_imports [OF refl assms(2)]
      settings.frame_whitelist_handlers [OF refl assms(1)] settings.frame_whitelist_imports [OF refl assms(2)]
      account.frame_with_state account.frame_respond account.frame_and_do settings.frame_list_temporary assms(3))+

lemma frame_route_dispatch:
  assumes "timely (mo_now mo)" and "\<And>i. timely (mo_clock mo i)"
    and auth: "\<And>other. preserves R other \<Longrightarrow> preserves R (route_auth pf mo request user ip other)"
    and "dispatch pf mo request user ip = Answer h"
  shows "preserves R h"
proof -
  have "preserves R (route pf mo request user ip)"
    unfolding route_def by (intro auth frame_groups assms(1,2) account.frame_rules)
  then show ?thesis
    using assms(4) settings.frame_blacklist_imports(2) [OF refl assms(2)]
      settings.frame_whitelist_imports(2,4) [OF refl assms(2)]
    unfolding dispatch_def Let_def by (auto split: if_splits)
qed

end

locale admin_frame = login: login_frame R pf + route_frame R pf good timely
  for R and pf :: "('n, 'k) platform" and good timely
begin

lemma frame_dispatch:
  assumes "timely (mo_now mo)" and "\<And>i. timely (mo_clock mo i)"
    and "dispatch pf mo request user ip = Answer h"
  shows "preserves R h"
  using assms(1,2) _ assms(3)
proof (rule frame_route_dispatch)
  show "preserves R (route_auth pf mo request user ip other)" if "preserves R other" for other
    unfolding route_auth_def Let_def
    by (intro login.frame_if login.frame_login_handlers account.frame_account_handlers that)
qed

end

end
