(* ===== verification/Admin_Soundness.thy ===== *)
theory Admin_Soundness
  imports Admin_Safety
begin

text \<open>
  The configuration an administrator can reach.  \<open>config_sound\<close> is what the edits of the admin server
  keep whatever they are sent; together with entries that are not blank it is what the file of the
  configuration needs to come back unchanged at the next start (theory \<open>Yaml_Codec\<close>).
\<close>

section \<open>The invariant\<close>

definition timely :: "ticks \<Rightarrow> bool" where
  "timely t \<longleftrightarrow> 0 \<le> t \<and> t < 2 ^ 63"

definition entry_sound :: "BlacklistEntry \<Rightarrow> bool" where
  "entry_sound e \<longleftrightarrow> entry_value e \<noteq> [] \<and> timely (entry_created_at e)"

definition ip_sound :: "(string \<Rightarrow> ip_address option) \<Rightarrow> BlacklistEntry \<Rightarrow> bool" where
  "ip_sound mk e \<longleftrightarrow> entry_sound e \<and> CHR ''/'' \<notin> set (entry_value e) \<and> mk (entry_value e) \<noteq> None"

definition blacklist_sound :: "(string \<Rightarrow> ip_address option) \<Rightarrow> BlacklistConfig \<Rightarrow> bool" where
  "blacklist_sound mk bl \<longleftrightarrow>
     list_all (ip_sound mk) (bl_ip_exact bl) \<and> list_all (storable_range mk) (bl_ip_cidrs bl)
     \<and> list_all entry_sound (bl_routes bl) \<and> list_all entry_sound (bl_countries bl)
     \<and> list_all entry_sound (bl_isps bl) \<and> list_all entry_sound (bl_user_agents bl)
     \<and> list_all entry_sound (bl_referrers bl) \<and> list_all entry_sound (bl_body_patterns bl)
     \<and> list_all (\<lambda>e. entry_sound e \<and> hd (entry_value e) = CHR ''/'') (bl_fake_routes bl)
     \<and> fits_int (int (bl_max_body_size_bytes bl))"

definition whitelist_sound :: "(string \<Rightarrow> ip_address option) \<Rightarrow> WhitelistConfig \<Rightarrow> bool" where
  "whitelist_sound mk wl \<longleftrightarrow> list_all (ip_sound mk) (wl_ip_exact wl)
     \<and> list_all (storable_range mk) (wl_ip_cidrs wl) \<and> list_all entry_sound (wl_routes wl)"

definition ban_sound :: "BanConfig \<Rightarrow> bool" where
  "ban_sound b \<longleftrightarrow> 0 < ban_threshold b \<and> ban_threshold b \<le> int_max
     \<and> 0 < ban_duration_hours b \<and> ban_duration_hours b \<le> kMaxBanDurationHours
     \<and> um_ok (ban_scores b) \<and> list_all (fits_int \<circ> snd) (ban_scores b)"

definition speed_sound :: "SpeedCheckConfig \<Rightarrow> bool" where
  "speed_sound sc \<longleftrightarrow> 0 < sc_max_requests sc \<and> sc_max_requests sc \<le> int_max
     \<and> 0 < sc_window_seconds sc \<and> sc_window_seconds sc \<le> int_max"

definition globe_sound :: "GlobeConfig \<Rightarrow> bool" where
  "globe_sound g \<longleftrightarrow> \<not> beyond_coordinate 90 (globe_server_lat g) \<and> \<not> beyond_coordinate 180 (globe_server_lon g)
     \<and> 0 < globe_history_size g \<and> globe_history_size g < 2 ^ 64"

definition pages_timely :: "RuntimeConfig \<Rightarrow> bool" where
  "pages_timely c \<longleftrightarrow> list_all (\<lambda>p. timely (sp_created_at p)) (status_pages (cfg_pages c))"

definition config_sound :: "(string \<Rightarrow> ip_address option) \<Rightarrow> RuntimeConfig \<Rightarrow> bool" where
  "config_sound mk c \<longleftrightarrow> sites_ok c \<and> pages_ok c
     \<and> pages_timely c
     \<and> blacklist_sound mk (cfg_blacklist c) \<and> whitelist_sound mk (cfg_whitelist c)
     \<and> ban_sound (cfg_ban c) \<and> speed_sound (cfg_speed_check c) \<and> globe_sound (cfg_globe c)"

section \<open>Lists\<close>

lemma push_sound:
  "list_all P xs \<Longrightarrow> P \<lparr>entry_value = v, entry_created_at = t, entry_created_by = by, entry_source = src\<rparr> \<Longrightarrow>
     list_all P (push_entry v t by src xs)"
  by (simp add: push_entry_def)

lemma filter_sound: "list_all P xs \<Longrightarrow> list_all P (filter q xs)"
  by (auto simp: list_all_iff)

lemma drop_sound: "list_all P xs \<Longrightarrow> list_all P (drop_entry v xs)"
  by (simp add: drop_entry_def filter_sound)

lemma parse_cidr_storable:
  assumes "parse_cidr mk t v = Some r" and "timely t"
  shows "storable_range mk (r\<lparr>cidr_source := src\<rparr>)"
proof -
  from assms(1) obtain addr pre a where v: "v = addr @ CHR ''/'' # pre"
    and r: "r = \<lparr>cidr_prefix = a, cidr_prefix_len = read_nat pre, cidr_text = v, cidr_created_at = t,
                 cidr_source = ''manual''\<rparr>"
    and p: "\<And>now. parse_cidr mk now v = Some \<lparr>cidr_prefix = a, cidr_prefix_len = read_nat pre, cidr_text = v,
                 cidr_created_at = now, cidr_source = ''manual''\<rparr>"
    unfolding parse_cidr_iff by blast
  have "\<not> is_blank v" by (simp add: v is_blank_def isspace_def)
  then show ?thesis using assms(2) p by (simp add: r storable_range_def timely_def)
qed

lemma add_ip_sound:
  assumes "add_ip_to mk v t by src xs rs = Inr (xs', rs')" and "v \<noteq> []" and "timely t"
    and "list_all (ip_sound mk) xs" and "list_all (storable_range mk) rs"
  shows "list_all (ip_sound mk) xs' \<and> list_all (storable_range mk) rs'"
proof (cases "find_char (CHR ''/'') v")
  case None
  then have "CHR ''/'' \<notin> set v" by (simp add: find_char_None)
  then show ?thesis using assms None
    by (auto simp: add_ip_to_def ip_sound_def entry_sound_def intro!: push_sound split: option.splits)
next
  case (Some i)
  then obtain r where r: "parse_cidr mk t v = Some r" and "xs' = xs"
    and "rs' = rs \<or> rs' = rs @ [r\<lparr>cidr_source := src\<rparr>]"
    using assms(1) by (auto simp: add_ip_to_def Let_def split: option.splits)
  then show ?thesis using assms(4,5) parse_cidr_storable [OF r assms(3), of src] by auto
qed

lemma add_blacklist_sound:
  assumes "add_blacklist_entry mk cat v t by src c = Inr c'" and "timely t" and "blacklist_sound mk (cfg_blacklist c)"
  shows "c' = c\<lparr>cfg_blacklist := cfg_blacklist c'\<rparr> \<and> blacklist_sound mk (cfg_blacklist c')"
proof (cases "cat = Ips")
  case True
  then obtain xs rs where a: "add_ip_to mk v t by src (bl_ip_exact (cfg_blacklist c)) (bl_ip_cidrs (cfg_blacklist c))
      = Inr (xs, rs)" and v: "v \<noteq> []"
    and c': "c' = c\<lparr>cfg_blacklist := (cfg_blacklist c)\<lparr>bl_ip_exact := xs, bl_ip_cidrs := rs\<rparr>\<rparr>"
    using assms(1) by (auto simp: add_blacklist_entry_def Let_def bind_result_Inr_iff split: if_splits)
  from add_ip_sound [OF a v assms(2)] assms(3) show ?thesis by (auto simp: c' blacklist_sound_def)
next
  case False
  then show ?thesis using assms
    by (cases cat)
       (auto simp: add_blacklist_entry_def Let_def blacklist_sound_def entry_sound_def intro!: push_sound split: if_splits)
qed

lemma shrink_blacklist_sound:
  assumes "blacklist_sound mk (cfg_blacklist c)"
  shows "remove_blacklist_entry cat v c = Inr c' \<Longrightarrow> c' = c\<lparr>cfg_blacklist := cfg_blacklist c'\<rparr> \<and> blacklist_sound mk (cfg_blacklist c')"
    and "clear_blacklist_category cat c = Inr c' \<Longrightarrow> c' = c\<lparr>cfg_blacklist := cfg_blacklist c'\<rparr> \<and> blacklist_sound mk (cfg_blacklist c')"
  using assms
  by (cases cat; auto simp: remove_blacklist_entry_def clear_blacklist_category_def remove_ip_from_def Let_def
      blacklist_sound_def drop_sound filter_sound)+

lemma whitelist_edits_sound:
  assumes "whitelist_sound mk (cfg_whitelist c)"
  shows "timely t \<Longrightarrow> add_whitelist_entry mk v t by src c = Inr c' \<Longrightarrow>
      c' = c\<lparr>cfg_whitelist := cfg_whitelist c'\<rparr> \<and> whitelist_sound mk (cfg_whitelist c')"
    and "timely t \<Longrightarrow> add_whitelist_route_entry v t by src c = Inr c' \<Longrightarrow>
      c' = c\<lparr>cfg_whitelist := cfg_whitelist c'\<rparr> \<and> whitelist_sound mk (cfg_whitelist c')"
proof -
  show "c' = c\<lparr>cfg_whitelist := cfg_whitelist c'\<rparr> \<and> whitelist_sound mk (cfg_whitelist c')"
    if t: "timely t" and add: "add_whitelist_entry mk v t by src c = Inr c'"
  proof -
    obtain xs rs where a: "add_ip_to mk v t by src (wl_ip_exact (cfg_whitelist c)) (wl_ip_cidrs (cfg_whitelist c))
        = Inr (xs, rs)" and v: "v \<noteq> []"
      and c': "c' = c\<lparr>cfg_whitelist := (cfg_whitelist c)\<lparr>wl_ip_exact := xs, wl_ip_cidrs := rs\<rparr>\<rparr>"
      using add by (auto simp: add_whitelist_entry_def Let_def bind_result_Inr_iff split: if_splits)
    from add_ip_sound [OF a v t] assms show ?thesis by (auto simp: c' whitelist_sound_def)
  qed
  show "c' = c\<lparr>cfg_whitelist := cfg_whitelist c'\<rparr> \<and> whitelist_sound mk (cfg_whitelist c')"
    if "timely t" and "add_whitelist_route_entry v t by src c = Inr c'"
    using that assms
    by (auto simp: add_whitelist_route_entry_def Let_def whitelist_sound_def entry_sound_def intro!: push_sound
        split: if_splits)
qed

section \<open>Checks\<close>

lemma json_to_int_fits: "json_to_int v = Some i \<Longrightarrow> fits_int i"
  using json_int_field_fits [of "[([], v)]" "[]" i] by (simp add: json_int_field_def fits_int_def)

lemma um_put_fits: "list_all (fits_int \<circ> snd) m \<Longrightarrow> fits_int p \<Longrightarrow> list_all (fits_int \<circ> snd) (um_put k p m)"
  by (induction m) (auto simp: um_put_def)

lemma set_scores_sound:
  "um_ok m \<and> list_all (fits_int \<circ> snd) m \<Longrightarrow> um_ok (set_scores obj m) \<and> list_all (fits_int \<circ> snd) (set_scores obj m)"
  by (induction obj m rule: set_scores.induct)
     (auto simp: um_put_fits json_to_int_fits split: option.splits)

text \<open>One field after the other: each keeps what it may not break.\<close>

lemma set_if_rule: "P x \<Longrightarrow> (\<And>v. fd = Some v \<Longrightarrow> P (f v x)) \<Longrightarrow> P (set_if fd f x)"
  by (simp add: set_if_def split: option.split)

lemma set_checked_rule:
  "set_checked fd bad msg f x = Inr y \<Longrightarrow> P x \<Longrightarrow> (\<And>v. fd = Some v \<Longrightarrow> \<not> bad v \<Longrightarrow> P (f v x)) \<Longrightarrow> P y"
  by (auto simp: set_checked_def split: option.splits if_splits)

lemma int_field_max: "json_int_field obj key = Some n \<Longrightarrow> n \<le> int_max"
  using json_int_field_fits by simp

lemma ban_edit_sound:
  assumes "ban_edit obj b = Inr b'" and "ban_sound b"
  shows "ban_sound b'"
proof -
  let ?b = "set_if (json_bool_field obj ''enabled'') (\<lambda>v. ban_enabled_update (\<lambda>_. v)) b"
  have b: "ban_sound ?b" by (rule set_if_rule [where P = ban_sound]) (use assms(2) in \<open>simp_all add: ban_sound_def\<close>)
  from assms(1) obtain b1 b2 where
    b1: "set_checked (json_int_field obj ''threshold'') (\<lambda>t. t \<le> 0) ''threshold must be positive''
           (\<lambda>t. ban_threshold_update (\<lambda>_. t)) ?b = Inr b1"
    and b2: "set_checked (json_int_field obj ''ban_duration_hours'') (\<lambda>h. h \<le> 0 \<or> h > kMaxBanDurationHours)
           (''ban_duration_hours must be between 1 and '' @ show_int kMaxBanDurationHours)
           (\<lambda>h. ban_duration_hours_update (\<lambda>_. h)) b1 = Inr b2"
    and b': "b' = set_if (json_object_field obj ''scores'') (\<lambda>points. ban_scores_update (set_scores points)) b2"
    unfolding ban_edit_def Let_def bind_result_Inr_iff sum.inject by (elim exE conjE) (rule that, assumption+, rule sym)
  have "ban_sound b1" by (rule set_checked_rule [where P = ban_sound, OF b1 b]) (use b int_field_max in \<open>simp add: ban_sound_def\<close>)
  then have "ban_sound b2" by (rule set_checked_rule [where P = ban_sound, OF b2]) (use \<open>ban_sound b1\<close> in \<open>simp_all add: ban_sound_def\<close>)
  then show ?thesis unfolding b'
    by (rule set_if_rule [where P = ban_sound]) (use \<open>ban_sound b2\<close> set_scores_sound in \<open>simp add: ban_sound_def\<close>)
qed

lemma speed_edit_sound:
  assumes "speed_edit obj sc = Inr sc'" and "speed_sound sc"
  shows "speed_sound sc'"
proof -
  let ?s = "set_if (json_bool_field obj ''enabled'') (\<lambda>v. sc_enabled_update (\<lambda>_. v)) sc"
  have s: "speed_sound ?s" by (rule set_if_rule [where P = speed_sound]) (use assms(2) in \<open>simp_all add: speed_sound_def\<close>)
  from assms(1) obtain s1 where
    s1: "set_checked (json_int_field obj ''max_requests'') (\<lambda>n. n \<le> 0) ''max_requests must be positive''
           (\<lambda>n. sc_max_requests_update (\<lambda>_. n)) ?s = Inr s1"
    and s2: "set_checked (json_int_field obj ''window_seconds'') (\<lambda>n. n \<le> 0) ''window_seconds must be positive''
           (\<lambda>n. sc_window_seconds_update (\<lambda>_. n)) s1 = Inr sc'"
    unfolding speed_edit_def Let_def bind_result_Inr_iff by blast
  have "speed_sound s1" by (rule set_checked_rule [where P = speed_sound, OF s1 s]) (use s int_field_max in \<open>simp add: speed_sound_def\<close>)
  then show ?thesis
    by (rule set_checked_rule [where P = speed_sound, OF s2]) (use \<open>speed_sound s1\<close> int_field_max in \<open>simp add: speed_sound_def\<close>)
qed

lemma globe_edit_sound:
  assumes "globe_edit obj g = Inr g'" and "globe_sound g"
  shows "globe_sound g'"
proof -
  note keeps = globe_sound_def
  from assms(1) obtain g1 g2 g3 where
    g1: "set_checked (json_int_field obj ''public_port'') (\<lambda>p. p \<le> 0 \<or> p > 65535)
           ''public_port must be between 1 and 65535'' (\<lambda>p. globe_public_port_update (\<lambda>_. word_of_int p))
           (set_if (json_string_field obj ''public_bind'') (\<lambda>h. globe_public_bind_host_update (\<lambda>_. h))
             (set_if (json_bool_field obj ''public_enabled'') (\<lambda>b. globe_public_enabled_update (\<lambda>_. b)) g)) = Inr g1"
    and g2: "set_checked (json_coordinate obj ''server_lat'') (beyond_coordinate 90)
           ''server_lat must be between -90 and 90'' (\<lambda>v. globe_server_lat_update (\<lambda>_. v))
           (set_if (json_string_field obj ''public_tls_key_file'') (\<lambda>f. globe_public_tls_key_file_update (\<lambda>_. f))
             (set_if (json_string_field obj ''public_tls_cert_file'') (\<lambda>f. globe_public_tls_cert_file_update (\<lambda>_. f)) g1))
           = Inr g2"
    and g3: "set_checked (json_coordinate obj ''server_lon'') (beyond_coordinate 180)
           ''server_lon must be between -180 and 180'' (\<lambda>v. globe_server_lon_update (\<lambda>_. v)) g2 = Inr g3"
    and g4: "set_checked (json_int_field obj ''history_size'') (\<lambda>n. n \<le> 0) ''history_size must be positive''
           (\<lambda>n. globe_history_size_update (\<lambda>_. nat n))
           (set_if (json_bool_field obj ''auto_detect_server_location'')
             (\<lambda>b. globe_auto_detect_server_location_update (\<lambda>_. b)) g3) = Inr g'"
    unfolding globe_edit_def Let_def bind_result_Inr_iff by blast
  have size: "0 < nat n \<and> nat n < 2 ^ 64" if "json_int_field obj key = Some n" and "\<not> n \<le> 0" for key n
    using int_field_max [OF that(1)] that(2) by (simp add: int_max_def)
  have s1: "globe_sound g1"
    by (rule set_checked_rule [where P = globe_sound, OF g1]) (use assms(2) in \<open>simp_all add: set_if_def keeps split: option.split\<close>)
  have s2: "globe_sound g2"
    by (rule set_checked_rule [where P = globe_sound, OF g2]) (use s1 in \<open>simp_all add: set_if_def keeps split: option.split\<close>)
  have s3: "globe_sound g3"
    by (rule set_checked_rule [where P = globe_sound, OF g3]) (use s2 in \<open>simp_all add: keeps\<close>)
  show ?thesis
    by (rule set_checked_rule [where P = globe_sound, OF g4]) (use size s3 in \<open>simp_all add: set_if_def keeps split: option.split\<close>)
qed

lemma site_edits_sound:
  assumes "sites_ok c"
  shows "add_site site c = Inr c' \<Longrightarrow> sites_ok c' \<and> c' = c\<lparr>cfg_sites := cfg_sites c'\<rparr>"
    and "update_site d u c = Inr c' \<Longrightarrow> sites_ok c' \<and> c' = c\<lparr>cfg_sites := cfg_sites c'\<rparr>"
    and "remove_site d c = Inr c' \<Longrightarrow> sites_ok c' \<and> c' = c\<lparr>cfg_sites := cfg_sites c'\<rparr>"
  using site_step_effect [OF assms, of "AddSite site"] site_step_effect [OF assms, of "UpdateSite d u"]
    site_step_effect [OF assms, of "RemoveSite d"] by simp_all

lemma cut_sound: "list_all P xs \<Longrightarrow> list_all P (take i xs) \<and> list_all P (drop j xs)"
  by (metis append_take_drop_id list_all_append)

lemma page_edits_sound:
  assumes "pages_ok c" and "pages_timely c"
  shows "timely t \<Longrightarrow> add_status_page n h t c = Inr c' \<Longrightarrow>
      pages_ok c' \<and> pages_timely c' \<and> c' = c\<lparr>cfg_pages := cfg_pages c'\<rparr>"
    and "update_status_page n h c = Inr c' \<Longrightarrow> pages_ok c' \<and> pages_timely c' \<and> c' = c\<lparr>cfg_pages := cfg_pages c'\<rparr>"
    and "remove_status_page n c = Inr c' \<Longrightarrow> pages_ok c' \<and> pages_timely c' \<and> c' = c\<lparr>cfg_pages := cfg_pages c'\<rparr>"
proof -
  show "pages_ok c' \<and> pages_timely c' \<and> c' = c\<lparr>cfg_pages := cfg_pages c'\<rparr>"
    if "timely t" and "add_status_page n h t c = Inr c'"
    using that add_status_page_effect [OF assms(1), of n h t] assms(2)
    by (auto simp: add_status_page_def pages_timely_def set_status_pages_def Let_def bind_result_Inr_iff split: if_splits)
  show "pages_ok c' \<and> pages_timely c' \<and> c' = c\<lparr>cfg_pages := cfg_pages c'\<rparr>" if u: "update_status_page n h c = Inr c'"
  proof -
    let ?ps = "status_pages (cfg_pages c)"
    obtain i where i: "i < length ?ps"
      and c': "c' = set_status_pages (?ps[i := (?ps ! i)\<lparr>sp_html := h\<rparr>]) c"
      using u find_first_Some [of _ ?ps]
      by (auto simp: update_status_page_def find_status_page_def Let_def split: option.splits)
    have "timely (sp_created_at (?ps ! i))" using i assms(2) by (simp add: pages_timely_def list_all_length)
    then have "pages_timely c'"
      using assms(2) by (auto simp: c' pages_timely_def list_all_iff dest!: set_update_subset_insert [THEN subsetD])
    then show ?thesis using u update_status_page_effect [OF assms(1), of n h] by (simp add: c' set_status_pages_def)
  qed
  show "pages_ok c' \<and> pages_timely c' \<and> c' = c\<lparr>cfg_pages := cfg_pages c'\<rparr>" if "remove_status_page n c = Inr c'"
    using that remove_status_page_effect [OF assms(1), of n] assms(2)
    by (auto simp: remove_status_page_def pages_timely_def set_status_pages_def Let_def cut_sound split: option.splits)
qed

section \<open>Every edit keeps it\<close>

lemma config_sound_frame:
  assumes "config_sound mk c"
  shows "blacklist_sound mk bl \<Longrightarrow> config_sound mk (c\<lparr>cfg_blacklist := bl\<rparr>)"
    and "whitelist_sound mk wl \<Longrightarrow> config_sound mk (c\<lparr>cfg_whitelist := wl\<rparr>)"
    and "sites_ok (c\<lparr>cfg_sites := ss\<rparr>) \<Longrightarrow> config_sound mk (c\<lparr>cfg_sites := ss\<rparr>)"
    and "pages_ok (c\<lparr>cfg_pages := ps\<rparr>) \<Longrightarrow> pages_timely (c\<lparr>cfg_pages := ps\<rparr>) \<Longrightarrow> config_sound mk (c\<lparr>cfg_pages := ps\<rparr>)"
    and "ban_sound b \<Longrightarrow> config_sound mk (c\<lparr>cfg_ban := b\<rparr>)"
    and "speed_sound sc \<Longrightarrow> config_sound mk (c\<lparr>cfg_speed_check := sc\<rparr>)"
    and "globe_sound g \<Longrightarrow> config_sound mk (c\<lparr>cfg_globe := g\<rparr>)"
    and "config_sound mk (c\<lparr>cfg_method_check := mc\<rparr>)" and "config_sound mk (c\<lparr>cfg_emergency_off := eo\<rparr>)"
    and "config_sound mk (c\<lparr>cfg_request_log := rl\<rparr>)" and "config_sound mk (c\<lparr>cfg_robots_txt := rt\<rparr>)"
    and "config_sound mk (c\<lparr>cfg_geoip := gi\<rparr>)" and "config_sound mk (c\<lparr>cfg_security := sec\<rparr>)"
  using assms by (simp_all add: config_sound_def sites_ok_def pages_ok_def pages_timely_def)

lemma config_soundD:
  assumes "config_sound mk c"
  shows "blacklist_sound mk (cfg_blacklist c)" "whitelist_sound mk (cfg_whitelist c)" "sites_ok c" "pages_ok c"
    "pages_timely c" "ban_sound (cfg_ban c)" "speed_sound (cfg_speed_check c)" "globe_sound (cfg_globe c)"
  using assms by (simp_all add: config_sound_def)

interpretation sound: config_edits mk "config_sound mk" timely for mk :: "string \<Rightarrow> ip_address option"
proof (unfold_locales, goal_cases)
  case (1 c t cat v "by" src c')
  then show ?case using add_blacklist_sound config_soundD(1) config_sound_frame(1) by metis
next
  case (2 c cat v c')
  then show ?case using shrink_blacklist_sound(1) config_soundD(1) config_sound_frame(1) by metis
next
  case (3 c cat c')
  then show ?case using shrink_blacklist_sound(2) config_soundD(1) config_sound_frame(1) by metis
next
  case (4 c t v "by" src c')
  then show ?case using whitelist_edits_sound(1) config_soundD(2) config_sound_frame(2) by metis
next
  case (5 c v)
  then show ?case using config_soundD(2) [of mk c]
    by (auto simp: remove_whitelist_entry_def remove_ip_from_def Let_def whitelist_sound_def drop_sound filter_sound
        intro!: config_sound_frame(2))
next
  case (6 c)
  then show ?case using config_soundD(2) [of mk c]
    by (auto simp: clear_whitelist_def whitelist_sound_def intro!: config_sound_frame(2))
next
  case (7 c t v "by" src c')
  then show ?case using whitelist_edits_sound(2) config_soundD(2) config_sound_frame(2) by metis
next
  case (8 c v)
  then show ?case using config_soundD(2) [of mk c]
    by (auto simp: remove_whitelist_route_entry_def whitelist_sound_def drop_sound intro!: config_sound_frame(2))
next
  case (9 c)
  then show ?case using config_soundD(2) [of mk c]
    by (auto simp: clear_whitelist_routes_def whitelist_sound_def intro!: config_sound_frame(2))
next
  case (10 c site c')
  then show ?case using site_edits_sound(1) config_soundD(3) config_sound_frame(3) by metis
next
  case (11 c d u c')
  then show ?case using site_edits_sound(2) config_soundD(3) config_sound_frame(3) by metis
next
  case (12 c d c')
  then show ?case using site_edits_sound(3) config_soundD(3) config_sound_frame(3) by metis
next
  case (13 c obj b)
  then show ?case using ban_edit_sound config_soundD(6) config_sound_frame(5) by metis
next
  case (14 c obj sc)
  then show ?case using speed_edit_sound config_soundD(7) config_sound_frame(6) by metis
next
  case (17 c ps)
  then show ?case using config_soundD(4,5) [of mk c]
    by (intro config_sound_frame(4)) (simp_all add: pages_ok_def pages_timely_def)
next
  case (18 c t n h c')
  then show ?case using page_edits_sound(1) config_soundD(4,5) config_sound_frame(4) by metis
next
  case (19 c n h c')
  then show ?case using page_edits_sound(2) config_soundD(4,5) config_sound_frame(4) by metis
next
  case (20 c n c')
  then show ?case using page_edits_sound(3) config_soundD(4,5) config_sound_frame(4) by metis
next
  case (23 c k)
  then show ?case using config_soundD(1) [of mk c]
    by (intro config_sound_frame(1)) (simp_all add: blacklist_sound_def)
next
  case (25 c obj gl)
  then show ?case using globe_edit_sound config_soundD(8) config_sound_frame(7) by metis
qed (simp_all add: config_sound_frame)

definition stays_sound :: "(string \<Rightarrow> ip_address option) \<Rightarrow> AdminState \<Rightarrow> AdminState \<Rightarrow> bool" where
  "stays_sound mk s s' \<longleftrightarrow> (config_sound mk (as_config s) \<longrightarrow> config_sound mk (as_config s'))"

interpretation settings: admin_frame "stays_sound (pf_address pf)" pf "config_sound (pf_address pf)" timely
  for pf :: "('n, 'k) platform"
  by unfold_locales (auto simp: stays_sound_def)

lemma dispatch_stays_sound:
  assumes "timely (mo_now mo)" and "\<And>i. timely (mo_clock mo i)"
    and "dispatch pf mo request user client_ip = Answer h"
    and "config_sound (pf_address pf) (as_config s)"
  shows "config_sound (pf_address pf) (as_config (snd (h s)))"
  using settings.frame_dispatch [OF assms(1-3)] assms(4) by (simp add: preserves_def stays_sound_def)

section \<open>Runs of the server\<close>

text \<open>The requests the server handles, in the order of their edits; \<open>visitors\<close> is everything else the
  process does with the configuration it has.  Loading a file edited by hand starts a new run.\<close>

inductive admin_serves :: "('n, 'k) platform \<Rightarrow> AdminState \<Rightarrow> AdminState \<Rightarrow> bool" for pf s where
  start: "admin_serves pf s s"
| handle: "admin_serves pf s t \<Longrightarrow> timely (mo_now mo) \<Longrightarrow> (\<And>i. timely (mo_clock mo i)) \<Longrightarrow>
    dispatch pf mo request user client_ip = Answer h \<Longrightarrow> admin_serves pf s (snd (h t))"
| visitors: "admin_serves pf s t \<Longrightarrow> as_config u = as_config t \<Longrightarrow> admin_serves pf s u"

lemma served_config_sound:
  assumes "admin_serves pf s t" and "config_sound (pf_address pf) (as_config s)"
  shows "config_sound (pf_address pf) (as_config t)"
  using assms
proof (induction rule: admin_serves.induct)
  case (handle t mo request user client_ip h)
  then show ?case using dispatch_stays_sound by blast
qed simp_all

text \<open>C11: No sequence of requests can bring the configuration out of shape.  Whatever their routes,
  methods, bodies and sessions, whatever they download and however their handlers end, a
  configuration in which every list entry is non-empty and of the kind its list needs, the names
  of sites are lower-case, bare and distinct, the codes of status pages valid and distinct, the
  thresholds, durations and sizes positive and within their bounds and the coordinates on the
  globe is left in this shape.\<close>

theorem settings_stay_sound:
  assumes "admin_serves pf s t" and "config_sound (pf_address pf) (as_config s)"
  shows "config_sound (pf_address pf) (as_config t)"
  using assms by (rule served_config_sound)

lemma default_config_sound: "config_sound mk default_config"
  by (simp add: config_sound_def default_config_simps sites_ok_def pages_ok_def pages_timely_def keyed_ok_def
      blacklist_sound_def whitelist_sound_def ban_sound_def speed_sound_def globe_sound_def beyond_coordinate_def
      kMaxBanDurationHours_def int_max_def fits_int_def int_min_def um_ok_def)

text \<open>An upstream is configured for a domain.\<close>

definition site_body :: json_object where
  "site_body = [(''domain'', JString ''A.example''), (''upstream_host'', JString ''10.0.0.7''), (''upstream_port'', JInt 8080)]"

definition site_request :: http_request where
  "site_request = admin_request (sample_platform site_body) (api_request ''POST'' ''/api/sites'' (\<lambda>_. None)) []"

lemma site_served:
  "admin_serves (sample_platform site_body) (sample_admin default_config empty_store [])
     (snd (route (sample_platform site_body) sample_moment site_request ''ann'' ''::1''
        (sample_admin default_config empty_store [])))"
proof (rule admin_serves.handle [OF admin_serves.start])
  show "dispatch (sample_platform site_body) sample_moment site_request ''ann'' ''::1'' =
      Answer (route (sample_platform site_body) sample_moment site_request ''ann'' ''::1'')"
    by (simp add: dispatch_def Let_def site_request_def admin_request_def api_request_def kApiBlacklistPrefix_def)
qed (simp_all add: sample_moment_def timely_def)

theorem settings_stay_sound_witness:
  "config_sound (pf_address (sample_platform site_body)) (as_config (snd (route (sample_platform site_body) sample_moment
     site_request ''ann'' ''::1'' (sample_admin default_config empty_store []))))"
  by (rule settings_stay_sound [OF site_served]) (simp add: default_config_sound)

section \<open>Restarts\<close>

definition unblank :: "BlacklistEntry list \<Rightarrow> bool" where
  "unblank es \<longleftrightarrow> list_all (\<lambda>e. \<not> is_blank (entry_value e)) es"

definition unblank_lists :: "RuntimeConfig \<Rightarrow> bool" where
  "unblank_lists c \<longleftrightarrow> (let bl = cfg_blacklist c; wl = cfg_whitelist c in
     list_all unblank [bl_ip_exact bl, bl_routes bl, bl_countries bl, bl_isps bl, bl_user_agents bl, bl_referrers bl,
       bl_body_patterns bl, bl_fake_routes bl, wl_ip_exact wl, wl_routes wl])"

definition limits_fit :: "LimitsConfig \<Rightarrow> bool" where
  "limits_fit l \<longleftrightarrow> max_header_bytes l < 2 ^ 64 \<and> max_body_bytes l < 2 ^ 64
     \<and> - (2 ^ 63) \<le> upstream_connect_timeout l \<and> upstream_connect_timeout l < 2 ^ 63
     \<and> - (2 ^ 63) \<le> request_timeout l \<and> request_timeout l < 2 ^ 63"

lemma storable_entries:
  "list_all entry_sound es \<Longrightarrow> unblank es \<Longrightarrow> list_all storable_entry es"
  "list_all (ip_sound mk) es \<Longrightarrow> unblank es \<Longrightarrow> list_all (storable_ip mk) es"
  "list_all (\<lambda>e. entry_sound e \<and> P e) es \<Longrightarrow> unblank es \<Longrightarrow> list_all storable_entry es"
  by (auto simp: list_all_iff unblank_def entry_sound_def ip_sound_def storable_entry_def storable_ip_def timely_def)

lemma sound_storable:
  assumes s: "config_sound mk c" and u: "unblank_lists c" and l: "limits_fit (cfg_limits c)"
  shows "storable mk c"
proof -
  have bl: "storable_blacklist mk (cfg_blacklist c)"
    using config_soundD(1) [OF s] u
    by (simp add: blacklist_sound_def storable_blacklist_def unblank_lists_def Let_def storable_entries(1,2)
        storable_entries(3) [where P = "\<lambda>e. hd (entry_value e) = CHR ''/''"] fits_int_def int_max_def)
  have wl: "storable_whitelist mk (cfg_whitelist c)"
    using config_soundD(2) [OF s] u
    by (simp add: whitelist_sound_def storable_whitelist_def unblank_lists_def Let_def storable_entries(1,2))
  have pages: "list_all storable_page (status_pages (cfg_pages c))"
    using config_soundD(4,5) [OF s]
    by (auto simp: pages_ok_def pages_timely_def storable_page_def timely_def fits_int_def int_min_def int_max_def list_all_iff)
  have sites: "list_all (\<lambda>x. site_domain x \<noteq> [] \<and> to_lower (site_domain x) = site_domain x) (cfg_sites c)"
    using config_soundD(3) [OF s] by (auto simp: sites_ok_def bare_hostname_def list_all_iff)
  show ?thesis
    using l bl wl pages sites config_soundD(6-8) [OF s]
    by (simp add: storable_def limits_fit_def ban_sound_def speed_sound_def globe_sound_def fits_int_def int_min_def
        int_max_def kMaxBanDurationHours_def)
qed


definition started :: AdminState where
  "started = sample_admin default_config empty_store []"


end
