(* ===== verification/Admin_Login.thy ===== *)
theory Admin_Login
  imports Admin_Safety
begin

text \<open>
  Where sessions come from.  A session, or a login that still owes its second factor, appears only
  in answer to one of six requests, and only on the evidence that request has to bring.
\<close>

section \<open>Evidence\<close>

definition stores_ok :: "AdminState \<Rightarrow> bool" where
  "stores_ok s \<longleftrightarrow> um_ok (as_sessions s) \<and> um_ok (as_pending_mfa s)"

definition session_owner :: "AdminState \<Rightarrow> string \<Rightarrow> string option" where
  "session_owner s t = map_option ss_username (um_find (as_sessions s) t)"

definition pending_owner :: "AdminState \<Rightarrow> string \<Rightarrow> string option" where
  "pending_owner s t = map_option pm_username (um_find (as_pending_mfa s) t)"

definition given_credentials :: "('n, 'k) platform \<Rightarrow> http_request \<Rightarrow> string \<Rightarrow> string \<Rightarrow> bool" where
  "given_credentials pf request username password \<longleftrightarrow>
     body_field (parse_body pf (hr_body request)) ''username'' = Some username
     \<and> body_field (parse_body pf (hr_body request)) ''password'' = Some password"

text \<open>The password of an account was in the body.\<close>

definition password_shown :: "('n, 'k) platform \<Rightarrow> http_request \<Rightarrow> AdminState \<Rightarrow> UserRecord \<Rightarrow> string \<Rightarrow> bool" where
  "password_shown pf request s user username \<longleftrightarrow>
     (\<exists>password. given_credentials pf request username password \<and> find_user (as_users s) username = Some user
        \<and> verify_password (pf_kdf pf) password (stored_password user) = Inr True)"

definition lacks_factor :: "UserRecord \<Rightarrow> bool" where
  "lacks_factor user \<longleftrightarrow> ur_totp user = None \<and> ur_webauthn_credentials user = []"

text \<open>A code of the authenticator, of a time step not used before.\<close>

definition totp_shown :: "('n, 'k) platform \<Rightarrow> moment \<Rightarrow> http_request \<Rightarrow> AdminState \<Rightarrow> string \<Rightarrow> bool" where
  "totp_shown pf mo request s username \<longleftrightarrow>
     (\<exists>given user totp step.
        body_field (parse_body pf (hr_body request)) ''code'' = Some given
        \<and> find_user (as_users s) username = Some user \<and> ur_totp user = Some totp
        \<and> verify_totp (pf_hmac pf) (tc_secret_base32 totp) given (unix_seconds mo) = Inr (Some step)
        \<and> fst (consume_totp_step username step (as_users s)))"

definition recovery_code_shown :: "('n, 'k) platform \<Rightarrow> moment \<Rightarrow> http_request \<Rightarrow> AdminState \<Rightarrow> string \<Rightarrow> bool" where
  "recovery_code_shown pf mo request s username \<longleftrightarrow>
     (\<exists>given. body_field (parse_body pf (hr_body request)) ''code'' = Some given
        \<and> fst (consume_user_backup_code (pf_yaml pf) (pf_kdf pf) (mo_save mo) username given (as_users s)) = Inr True)"

text \<open>A passkey of the account signed the challenge that was outstanding under a key.\<close>

definition passkey_shown ::
  "('n, 'k) platform \<Rightarrow> moment \<Rightarrow> http_request \<Rightarrow> AdminState \<Rightarrow> string \<Rightarrow> UserRecord \<Rightarrow> bool" where
  "passkey_shown pf mo request s key user \<longleftrightarrow>
     (\<exists>challenge obj cf cred res.
        snd (consume_challenge key (mo_steady mo) (as_webauthn_challenges s)) = Some challenge
        \<and> parse_body pf (hr_body request) = Some obj \<and> parse_credential_fields obj False = Some cf
        \<and> cred \<in> set (ur_webauthn_credentials user) \<and> wc_id_b64url cred = wf_id_b64url cf
        \<and> verify_assertion pf request (admin_uses_tls s) challenge cf cred = Inr res)"

text \<open>What a new session of \<open>username\<close> rests on; \<open>setup\<close> says that it must enrol a second factor first.\<close>

definition session_evidence ::
  "('n, 'k) platform \<Rightarrow> moment \<Rightarrow> http_request \<Rightarrow> AdminState \<Rightarrow> string \<Rightarrow> bool \<Rightarrow> bool" where
  "session_evidence pf mo request s username setup \<longleftrightarrow>
     (if hd_target request = ''/api/auth/setup''
      then store_empty (as_users s) \<and> (\<exists>password. given_credentials pf request username password)
        \<and> setup = require_2fa (cfg_security (as_config s))
      else if hd_target request = ''/api/auth/login''
      then (\<exists>user. password_shown pf request s user username \<and> lacks_factor user)
        \<and> setup = require_2fa (cfg_security (as_config s))
      else if hd_target request = ''/api/auth/webauthn/login/verify''
      then (\<exists>token user. extract_webauthn_login_token request = Some token \<and> user \<in> set (us_users (as_users s))
              \<and> ur_username user = username \<and> passkey_shown pf mo request s (''login:'' @ token) user) \<and> \<not> setup
      else pending_user mo request s = Some username \<and> \<not> setup
        \<and> (hd_target request = ''/api/auth/2fa/totp/verify'' \<and> totp_shown pf mo request s username
           \<or> hd_target request = ''/api/auth/2fa/backup-code/verify'' \<and> recovery_code_shown pf mo request s username
           \<or> hd_target request = ''/api/auth/webauthn/2fa/verify''
             \<and> (\<exists>user. find_user (as_users s) username = Some user
                   \<and> passkey_shown pf mo request s (''login2fa:'' @ username) user)))"

definition pending_evidence :: "('n, 'k) platform \<Rightarrow> http_request \<Rightarrow> AdminState \<Rightarrow> string \<Rightarrow> bool" where
  "pending_evidence pf request s username \<longleftrightarrow>
     hd_target request = ''/api/auth/login''
     \<and> (\<exists>user. password_shown pf request s user username \<and> \<not> lacks_factor user)"

text \<open>From \<open>s\<close> to \<open>s'\<close>, every new session and every new pending login is one of those described.\<close>

definition grants_only ::
  "(string \<Rightarrow> bool \<Rightarrow> bool) \<Rightarrow> (string \<Rightarrow> bool) \<Rightarrow> AdminState \<Rightarrow> AdminState \<Rightarrow> bool" where
  "grants_only P Q s s' \<longleftrightarrow>
     (stores_ok s \<longrightarrow> stores_ok s'
      \<and> (\<forall>t e. um_find (as_sessions s') t = Some e \<and> session_owner s t \<noteq> Some (ss_username e) \<longrightarrow>
             P (ss_username e) (ss_needs_mfa_setup e))
      \<and> (\<forall>t u. pending_owner s' t = Some u \<and> pending_owner s t \<noteq> Some u \<longrightarrow> Q u))"

abbreviation grants_nothing :: "AdminState \<Rightarrow> AdminState \<Rightarrow> bool" where
  "grants_nothing \<equiv> grants_only (\<lambda>_ _. False) (\<lambda>_. False)"

lemma um_find_filter: "um_ok m \<Longrightarrow> um_find (um_erase_if p m) k = Some v \<Longrightarrow> um_find m k = Some v"
  by (auto simp: um_find_erase_if split: option.splits if_splits)

lemma grants_refl: "grants_only P Q s s"
  by (auto simp: grants_only_def session_owner_def pending_owner_def)

lemma grants_nothing_iff:
  "grants_nothing s s' \<longleftrightarrow> (stores_ok s \<longrightarrow> stores_ok s'
     \<and> (\<forall>t u. session_owner s' t = Some u \<longrightarrow> session_owner s t = Some u)
     \<and> (\<forall>t u. pending_owner s' t = Some u \<longrightarrow> pending_owner s t = Some u))"
  by (auto simp: grants_only_def session_owner_def)

lemma grants_nothing_trans: "grants_nothing s t \<Longrightarrow> grants_nothing t u \<Longrightarrow> grants_nothing s u"
  unfolding grants_nothing_iff by blast

lemma grants_same:
  assumes "as_sessions s' = as_sessions s" and "as_pending_mfa s' = as_pending_mfa s"
  shows "grants_only P Q s s'"
  using assms by (auto simp: grants_only_def session_owner_def pending_owner_def stores_ok_def)

lemma grants_logout: "grants_nothing s (s\<lparr>as_sessions := invalidate_session t (as_sessions s)\<rparr>)"
  by (auto simp: grants_only_def session_owner_def pending_owner_def stores_ok_def invalidate_session_def umap
      split: if_splits)

lemma grants_satisfied: "grants_nothing s (s\<lparr>as_sessions := mark_mfa_satisfied t (as_sessions s)\<rparr>)"
  by (auto simp: grants_only_def session_owner_def pending_owner_def stores_ok_def mark_mfa_satisfied_def umap
      split: option.splits if_splits)

section \<open>All other requests\<close>

interpretation quiet: route_frame grants_nothing pf "\<lambda>_. True" "\<lambda>_. True" for pf :: "('n, 'k) platform"
proof unfold_locales
  fix s t u
  show "grants_nothing s s" by (rule grants_refl)
  show "grants_nothing s t \<Longrightarrow> grants_nothing t u \<Longrightarrow> grants_nothing s u" by (rule grants_nothing_trans)
qed (simp_all add: grants_same grants_logout grants_satisfied)

definition login_request :: "http_request \<Rightarrow> bool" where
  "login_request request \<longleftrightarrow> post_request request
     \<and> hd_target request \<in> {''/api/auth/setup'', ''/api/auth/login'', ''/api/auth/2fa/totp/verify'',
          ''/api/auth/2fa/backup-code/verify'', ''/api/auth/webauthn/login/verify'', ''/api/auth/webauthn/2fa/verify''}"

lemma other_requests_grant_nothing:
  assumes "\<not> login_request request" and "dispatch pf mo request user ip = Answer h"
  shows "grants_nothing s (snd (h s))"
proof -
  have "preserves grants_nothing (route_auth pf mo request user ip other)" if "preserves grants_nothing other" for other
    unfolding route_auth_def Let_def
    by (intro quiet.account.frame_if quiet.account.frame_quiet_handlers quiet.account.frame_account_handlers that)
       (use assms(1) in \<open>auto simp: login_request_def\<close>)
  from quiet.frame_route_dispatch [OF TrueI TrueI this assms(2)] show ?thesis by (simp add: preserves_def)
qed

section \<open>The six logins\<close>

lemma issue_grants:
  assumes "issue_session_response pf mo username setup version ip s = (r, s')"
  shows "grants_only (\<lambda>u needs. u = username \<and> needs = setup) (\<lambda>_. False) s s'"
proof -
  have sess: "as_sessions s' = as_sessions s \<or>
      (\<exists>token. as_sessions s' = put_session token \<lparr>si_username = username, si_needs_mfa_setup = setup\<rparr>
         (mo_steady mo) session_ttl (as_sessions s))"
    and pm: "as_pending_mfa s' = as_pending_mfa s"
    using assms
    by (auto simp: issue_session_response_def and_do_def actions create_session_def bind_result_def Let_def
        split: sum.splits prod.splits)
  from sess show ?thesis
  proof
    assume "as_sessions s' = as_sessions s"
    then show ?thesis using pm by (rule grants_same)
  next
    assume "\<exists>token. as_sessions s' = put_session token \<lparr>si_username = username, si_needs_mfa_setup = setup\<rparr>
         (mo_steady mo) session_ttl (as_sessions s)"
    then obtain token where t: "as_sessions s' = put_session token
        \<lparr>si_username = username, si_needs_mfa_setup = setup\<rparr> (mo_steady mo) session_ttl (as_sessions s)" ..
    show ?thesis
      using um_find_filter [of "as_sessions s"]
      by (auto simp: grants_only_def stores_ok_def session_owner_def pending_owner_def pm t put_session_def umap
          split: if_splits) fastforce+
  qed
qed

lemma issue_mfa_grants:
  assumes "issue_mfa_challenge_response pf mo username a b c version s = (r, s')"
  shows "grants_only (\<lambda>_ _. False) (\<lambda>u. u = username) s s'"
proof -
  have sess: "as_pending_mfa s' = as_pending_mfa s \<or>
      (\<exists>token. as_pending_mfa s' = put_pending_mfa token username (mo_steady mo) pending_mfa_ttl (as_pending_mfa s))"
    and pm: "as_sessions s' = as_sessions s"
    using assms
    by (auto simp: issue_mfa_challenge_response_def and_do_def actions create_pending_mfa_def bind_result_def Let_def
        split: sum.splits prod.splits)
  from sess show ?thesis
  proof
    assume "as_pending_mfa s' = as_pending_mfa s"
    with pm show ?thesis by (rule grants_same)
  next
    assume "\<exists>token. as_pending_mfa s' = put_pending_mfa token username (mo_steady mo) pending_mfa_ttl (as_pending_mfa s)"
    then obtain token where t: "as_pending_mfa s' =
        put_pending_mfa token username (mo_steady mo) pending_mfa_ttl (as_pending_mfa s)" ..
    show ?thesis
      using um_find_filter [of "as_pending_mfa s"]
      by (auto simp: grants_only_def stores_ok_def session_owner_def pending_owner_def pm t put_pending_mfa_def umap
          split: if_splits) fastforce+
  qed
qed

lemma grants_after:
  assumes "grants_nothing s s1" and "grants_only P Q s1 s2"
    and "\<And>u n. P u n \<Longrightarrow> P' u n" and "\<And>u. Q u \<Longrightarrow> Q' u"
  shows "grants_only P' Q' s s2"
  using assms(1,2) assms(3,4) unfolding grants_nothing_iff grants_only_def by (intro impI conjI allI) blast+

lemma grants_mono: "grants_nothing s s1 \<Longrightarrow> grants_only P Q s s1"
  by (auto simp: grants_only_def)

lemma quiet_invalidate: "preserves grants_nothing (invalidate_pending request)"
proof -
  have "grants_nothing s (s\<lparr>as_pending_mfa := invalidate_pending_mfa t (as_pending_mfa s)\<rparr>)" for s t
    by (auto simp: grants_only_def session_owner_def pending_owner_def stores_ok_def invalidate_pending_mfa_def umap
        split: if_splits)
  then show ?thesis by (simp add: preserves_def invalidate_pending_def modify_def)
qed

text \<open>Rules that follow a handler from a state: until a session is issued nothing has been granted.\<close>

definition granting :: "(string \<Rightarrow> bool \<Rightarrow> bool) \<Rightarrow> (string \<Rightarrow> bool) \<Rightarrow> AdminState \<Rightarrow> 'a handler \<Rightarrow> AdminState \<Rightarrow> bool" where
  "granting P Q s0 a s \<longleftrightarrow> grants_only P Q s0 (snd (a s))"

lemma granting_quiet:
  assumes "preserves grants_nothing a" and "grants_nothing s0 s"
  shows "granting P Q s0 a s"
  unfolding granting_def
  by (rule grants_mono, rule grants_nothing_trans [OF assms(2)]) (use assms(1) in \<open>simp add: preserves_def\<close>)

lemma granting_with_state: "granting P Q s0 (f s) s \<Longrightarrow> granting P Q s0 (with_state f) s"
  by (simp add: granting_def with_state_def)

lemma granting_catch: "granting P Q s0 a s \<Longrightarrow> granting P Q s0 (catch_invalid a h) s"
  by (simp add: granting_def)

lemma granting_and_do:
  assumes "preserves grants_nothing a" and "grants_nothing s0 s"
    and "\<And>x t. a s = (Inr x, t) \<Longrightarrow> grants_nothing s0 t \<Longrightarrow> granting P Q s0 (f x) t"
  shows "granting P Q s0 (and_do a f) s"
proof (cases "a s")
  case (Pair r t)
  then have t: "grants_nothing s0 t" using assms(1,2) grants_nothing_trans by (metis preserves_def snd_conv)
  show ?thesis
  proof (cases r)
    case (Inl e)
    then show ?thesis using Pair t by (simp add: granting_def and_do_def grants_mono)
  next
    case (Inr x)
    then show ?thesis using assms(3) [OF _ t] Pair by (simp add: granting_def and_do_def)
  qed
qed

lemma granting_if: "(b \<Longrightarrow> granting P Q s0 a s) \<Longrightarrow> (\<not> b \<Longrightarrow> granting P Q s0 a' s) \<Longrightarrow> granting P Q s0 (if b then a else a') s"
  by simp

lemma granting_option:
  "(x = None \<Longrightarrow> granting P Q s0 a s) \<Longrightarrow> (\<And>y. x = Some y \<Longrightarrow> granting P Q s0 (f y) s) \<Longrightarrow>
     granting P Q s0 (case x of None \<Rightarrow> a | Some y \<Rightarrow> f y) s"
  by (cases x) simp_all

lemma granting_pair: "(\<And>y z. x = (y, z) \<Longrightarrow> granting P Q s0 (f y z) s) \<Longrightarrow> granting P Q s0 (case x of (y, z) \<Rightarrow> f y z) s"
  by (cases x) simp

lemma granting_issue:
  assumes "grants_nothing s0 s" and "P username setup"
  shows "granting P Q s0 (issue_session_response pf mo username setup version ip) s"
  unfolding granting_def
  by (rule grants_after [OF assms(1) issue_grants [OF surjective_pairing]]) (use assms(2) in auto)

lemma granting_issue_mfa:
  assumes "grants_nothing s0 s" and "Q username"
  shows "granting P Q s0 (issue_mfa_challenge_response pf mo username a b c version) s"
  unfolding granting_def
  by (rule grants_after [OF assms(1) issue_mfa_grants [OF surjective_pairing]]) (use assms(2) in auto)

lemma granting_error: "grants_nothing s0 s \<Longrightarrow> granting P Q s0 (respond_error pf status m version) s"
  by (rule granting_quiet [OF quiet.account.frame_respond_error])

lemmas granting_rules = granting_with_state granting_catch granting_if granting_option granting_pair granting_error

lemmas quiet_rules = quiet.account.frame_lift quiet.account.frame_users quiet.account.frame_consume quiet_invalidate

lemma lift_Inr: "lift r s = (Inr x, t) \<longleftrightarrow> r = Inr x \<and> t = s"
  by (auto simp: lift_def)

lemma on_users_result: "on_users op s = (r, t) \<Longrightarrow> fst (op (as_users s)) = r"
  by (auto simp: on_users_def split: prod.splits)

lemma totp_verify_grants:
  assumes "hd_target request = ''/api/auth/2fa/totp/verify''"
  shows "granting (session_evidence pf mo request s) (pending_evidence pf request s) s
     (handle_auth_2fa_totp_verify pf mo request version ip) s"
  unfolding handle_auth_2fa_totp_verify_def
proof (intro granting_rules granting_and_do quiet_rules granting_issue grants_refl; assumption?)
  fix username given totp x step t t1 t2 fresh
  assume "lift (verify_totp (pf_hmac pf) (tc_secret_base32 totp) given (unix_seconds mo)) s = (Inr x, t)"
    and "x = Some step" and "on_users (\<lambda>u. map_prod Inr id (consume_totp_step username step u)) t = (Inr fresh, t1)"
    and "\<not> \<not> fresh" and "pending_user mo request s = Some username"
    and "body_field (parse_body pf (hr_body request)) ''code'' = Some given"
    and "Option.bind (find_user (as_users s) username) ur_totp = Some totp"
  then show "session_evidence pf mo request s username False"
    using assms by (auto simp: session_evidence_def totp_shown_def lift_Inr dest!: on_users_result split: bind_splits)
qed

lemma backup_code_grants:
  assumes "hd_target request = ''/api/auth/2fa/backup-code/verify''"
  shows "granting (session_evidence pf mo request s) (pending_evidence pf request s) s
     (handle_auth_2fa_backup_code_verify pf mo request version ip) s"
  unfolding handle_auth_2fa_backup_code_verify_def
proof (intro granting_rules granting_and_do quiet_rules granting_issue grants_refl; assumption?)
  fix username given ok t
  assume "on_users (consume_user_backup_code (pf_yaml pf) (pf_kdf pf) (mo_save mo) username given) s = (Inr ok, t)"
    and "\<not> \<not> ok" and "pending_user mo request s = Some username"
    and "body_field (parse_body pf (hr_body request)) ''code'' = Some given"
  then show "session_evidence pf mo request s username False"
    using assms by (auto simp: session_evidence_def recovery_code_shown_def dest!: on_users_result)
qed

lemma credentials_given:
  assumes "parse_body pf (hr_body request) = Some obj"
    and "(json_string_field obj ''username'', json_string_field obj ''password'') = (u, p)"
    and "u = Some username" and "p = Some password"
  shows "given_credentials pf request username password"
  using assms by (simp add: given_credentials_def body_field_def)

lemma login_grants:
  assumes "hd_target request = ''/api/auth/login''"
  shows "granting (session_evidence pf mo request s) (pending_evidence pf request s) s
     (handle_auth_login pf mo (hr_body request) version ip) s"
  unfolding handle_auth_login_def
proof (intro granting_rules granting_and_do quiet_rules granting_issue granting_issue_mfa grants_refl; assumption?)
  fix obj u p username password user ok t
  assume body: "parse_body pf (hr_body request) = Some obj"
      "(json_string_field obj ''username'', json_string_field obj ''password'') = (u, p)"
      "u = Some username" "p = Some password"
    and user: "find_user (as_users s) username = Some user"
    and ok: "lift (verify_password (pf_kdf pf) password (stored_password user)) s = (Inr ok, t)" "\<not> \<not> ok"
  have shown: "password_shown pf request s user username"
    using credentials_given [OF body] user ok by (auto simp: password_shown_def lift_Inr)
  show "pending_evidence pf request s username"
    if "ur_totp user \<noteq> None \<or> ur_webauthn_credentials user \<noteq> []"
    using assms shown that by (auto simp: pending_evidence_def lacks_factor_def)
  show "session_evidence pf mo request s username (require_2fa (cfg_security (as_config t)))"
    if "\<not> (ur_totp user \<noteq> None \<or> ur_webauthn_credentials user \<noteq> [])"
    using assms shown that ok by (auto simp: session_evidence_def lacks_factor_def lift_Inr)
qed

lemma setup_grants:
  assumes "hd_target request = ''/api/auth/setup''"
  shows "granting (session_evidence pf mo request s) (pending_evidence pf request s) s
     (handle_auth_setup pf mo (hr_body request) version ip) s"
  unfolding handle_auth_setup_def
proof (intro granting_rules granting_and_do quiet.account.frame_catch_invalid quiet.account.frame_and_do quiet_rules
    quiet.account.frame_ret granting_issue grants_refl; (assumption | rule granting_quiet [OF quiet.account.frame_ret])?)
  fix obj u p username password early t
  assume empty: "\<not> \<not> store_empty (as_users s)" and body: "parse_body pf (hr_body request) = Some obj"
      "(json_string_field obj ''username'', json_string_field obj ''password'') = (u, p)"
      "u = Some username" "p = Some password"
    and run: "catch_invalid (and_do (on_users (create_if_empty (pf_yaml pf) (pf_kdf pf) (mo_rand mo 5) (mo_now mo)
          (mo_save mo) username password)) (\<lambda>created.
            ret (if created then None else Some (error_response (pf_web pf) 409 ''setup already completed'' version))))
        (\<lambda>m. Some (error_response (pf_web pf) 400 m version)) s = (Inr early, t)"
  have "as_config t = as_config s"
    using arg_cong [OF run, of "\<lambda>x. as_config (snd x)"]
    by (auto simp: and_do_def on_users_def ret_def split: prod.splits sum.splits)
  then show "session_evidence pf mo request s username (require_2fa (cfg_security (as_config t)))"
    using assms empty credentials_given [OF body] by (auto simp: session_evidence_def)
qed

lemma granting_finish:
  assumes "granting P Q s0 a s" and "\<And>x t. snd (f x t) = t"
  shows "granting P Q s0 (and_do a f) s"
  using assms by (auto simp: granting_def and_do_def split: prod.split sum.split)

lemma granting_issue_finish:
  assumes "grants_nothing s0 s" and "P username setup"
  shows "granting P Q s0 (and_do (issue_session_response pf mo username setup version ip)
     (\<lambda>res. with_state (\<lambda>s. ret (g s res)))) s"
  by (intro granting_finish granting_issue assms) (simp add: actions)

lemma credential_named_in:
  assumes "credential_named cred_id user = Some cred"
  shows "cred \<in> set (ur_webauthn_credentials user) \<and> wc_id_b64url cred = cred_id"
  using assms find_first_Some [of "\<lambda>c. wc_id_b64url c = cred_id" "ur_webauthn_credentials user"]
  by (auto simp: credential_named_def find_credential_def)

lemma found_by_credential:
  assumes "find_by_credential_id cred_id users = Some user"
  shows "user \<in> set users \<and> credential_named cred_id user \<noteq> None"
  using assms by (induction users) (auto simp: credential_named_def split: if_splits)

lemma consume_challenge_Inr:
  "consume_webauthn_challenge mo key s = (Inr c, t) \<Longrightarrow>
     snd (consume_challenge key (mo_steady mo) (as_webauthn_challenges s)) = c
     \<and> as_users t = as_users s \<and> as_config t = as_config s"
  by (auto simp: consume_webauthn_challenge_def split: prod.splits)

lemma second_passkey_grants:
  assumes "hd_target request = ''/api/auth/webauthn/2fa/verify''"
  shows "granting (session_evidence pf mo request s) (pending_evidence pf request s) s
     (handle_webauthn_2fa_verify pf mo request version ip) s"
  unfolding handle_webauthn_2fa_verify_def
proof (intro granting_rules granting_and_do quiet_rules granting_issue grants_refl; assumption?)
  fix username x challenge t t1 obj cf user cred res
  assume "pending_user mo request s = Some username"
    and c: "consume_webauthn_challenge mo (''login2fa:'' @ username) s = (Inr x, t)" "x = Some challenge"
    and body: "parse_body pf (hr_body request) = Some obj" "parse_credential_fields obj False = Some cf"
    and user: "find_user (as_users t) username = Some user"
    and cred: "credential_named (wf_id_b64url cf) user = Some cred"
    and t1: "lift (verify_assertion pf request (admin_uses_tls t) challenge cf cred) t = (Inr res, t1)"
  moreover from this have "verify_assertion pf request (admin_uses_tls s) challenge cf cred = Inr res"
    using consume_challenge_Inr [OF c(1)] by (auto simp: lift_Inr admin_uses_tls_def)
  ultimately show "session_evidence pf mo request s username False"
    using assms consume_challenge_Inr [OF c(1)] credential_named_in [OF cred] body
    by (auto simp: session_evidence_def passkey_shown_def)
qed

lemma passkey_login_grants:
  assumes "hd_target request = ''/api/auth/webauthn/login/verify''"
  shows "granting (session_evidence pf mo request s) (pending_evidence pf request s) s
     (handle_webauthn_login_verify pf mo request version ip) s"
  unfolding handle_webauthn_login_verify_def
proof (intro granting_rules granting_issue_finish granting_and_do quiet.account.frame_option quiet.account.frame_ret
    quiet_rules grants_refl; assumption?)
  fix x challenge t obj cf user res t1
  assume c: "(case extract_webauthn_login_token request of None \<Rightarrow> ret None
        | Some login_token \<Rightarrow> consume_webauthn_challenge mo (''login:'' @ login_token)) s = (Inr x, t)" "x = Some challenge"
    and body: "parse_body pf (hr_body request) = Some obj" "parse_credential_fields obj False = Some cf"
    and user: "find_by_credential_id (wf_id_b64url cf) (us_users (as_users t)) = Some user"
    and res: "lift (verify_assertion pf request (admin_uses_tls t) challenge cf
        (the (credential_named (wf_id_b64url cf) user))) t = (Inr res, t1)"
  obtain token where token: "extract_webauthn_login_token request = Some token"
    and c': "consume_webauthn_challenge mo (''login:'' @ token) s = (Inr (Some challenge), t)"
    using c by (auto simp: ret_def split: option.splits)
  obtain cred where cred: "credential_named (wf_id_b64url cf) user = Some cred" and "user \<in> set (us_users (as_users t))"
    using found_by_credential [OF user] by auto
  moreover have "verify_assertion pf request (admin_uses_tls s) challenge cf cred = Inr res"
    using res cred consume_challenge_Inr [OF c'] by (auto simp: lift_Inr admin_uses_tls_def)
  ultimately show "session_evidence pf mo request s (ur_username user) False"
    using assms token body consume_challenge_Inr [OF c'] credential_named_in [OF cred]
    by (auto simp: session_evidence_def passkey_shown_def)
qed

section \<open>Only on evidence\<close>

lemma dispatch_grants:
  assumes "dispatch pf mo request user ip = Answer h"
  shows "grants_only (session_evidence pf mo request s) (pending_evidence pf request s) s (snd (h s))"
proof (cases "login_request request")
  case False
  from grants_mono [OF other_requests_grant_nothing [OF this assms]] show ?thesis .
next
  case True
  then have post: "post_request request" and "hd_target request \<in> {''/api/auth/setup'', ''/api/auth/login'',
      ''/api/auth/2fa/totp/verify'', ''/api/auth/2fa/backup-code/verify'', ''/api/auth/webauthn/login/verify'',
      ''/api/auth/webauthn/2fa/verify''}" by (simp_all add: login_request_def)
  then consider "hd_target request = ''/api/auth/setup''" | "hd_target request = ''/api/auth/login''"
    | "hd_target request = ''/api/auth/2fa/totp/verify''" | "hd_target request = ''/api/auth/2fa/backup-code/verify''"
    | "hd_target request = ''/api/auth/webauthn/login/verify''" | "hd_target request = ''/api/auth/webauthn/2fa/verify''"
    by blast
  then have "granting (session_evidence pf mo request s) (pending_evidence pf request s) s h s"
    using assms post
    by cases (auto simp: dispatch_def route_def route_auth_def kApiBlacklistPrefix_def
        intro: setup_grants login_grants totp_verify_grants backup_code_grants passkey_login_grants second_passkey_grants)
  then show ?thesis by (simp add: granting_def)
qed

text \<open>A session appears only on evidence.  Whatever a request is and whoever sends it, if afterwards a
  token opens a session of an account it did not open before, then the request was the set-up of
  the very first account; or showed the password of an account without a second factor; or came
  with a login of that account that had passed its password and showed a fresh code of the
  authenticator, an unused recovery code or the signature of one of its passkeys on the outstanding
  challenge; or was a passkey login signed by a passkey of that account.  Only in the first two
  cases can the session still owe a second factor, namely when the configuration requires one.\<close>

theorem sessions_need_evidence:
  assumes "um_ok (as_sessions s)" and "um_ok (as_pending_mfa s)"
    and "dispatch pf mo request user ip = Answer h"
    and "um_find (as_sessions (snd (h s))) token = Some e" and "session_owner s token \<noteq> Some (ss_username e)"
  shows "session_evidence pf mo request s (ss_username e) (ss_needs_mfa_setup e)"
  using dispatch_grants [OF assms(3), of s] assms(1,2,4,5) unfolding grants_only_def stores_ok_def by blast

text \<open>A login waits for a second factor only after the password of its account, which has one, was
  shown.\<close>

theorem pending_logins_need_password:
  assumes "um_ok (as_sessions s)" and "um_ok (as_pending_mfa s)"
    and "dispatch pf mo request user ip = Answer h"
    and "pending_owner (snd (h s)) token = Some username" and "pending_owner s token \<noteq> Some username"
  shows "hd_target request = ''/api/auth/login''
    \<and> (\<exists>user. password_shown pf request s user username \<and> \<not> lacks_factor user)"
  using dispatch_grants [OF assms(3), of s] assms(1,2,4,5)
  unfolding grants_only_def stores_ok_def pending_evidence_def by blast

section \<open>Samples\<close>

definition ann_body :: json_object where
  "ann_body = [(''username'', JString ''ann''), (''password'', JString ''correct horse'')]"

definition login_post :: "string \<Rightarrow> http_request" where
  "login_post target = admin_request (sample_platform ann_body) (api_request ''POST'' target (\<lambda>_. None)) []"

text \<open>An account whose password is the one in the body, with or without an authenticator.\<close>

definition ann_user :: "TotpConfig option \<Rightarrow> UserRecord" where
  "ann_user totp = \<lparr>ur_username = ''ann'', ur_salt_hex = ''00'', ur_hash_hex = to_hex (replicate 32 13), ur_iterations = 1,
     ur_created_at = 0, ur_totp = totp, ur_backup_codes = [], ur_webauthn_credentials = [],
     ur_webauthn_user_handle_b64 = None\<rparr>"

definition ann_state :: "UserRecord list \<Rightarrow> AdminState" where
  "ann_state users = sample_admin default_config \<lparr>us_users = users, us_last_totp_step = [], us_file = None\<rparr> []"

lemma login_dispatch:
  assumes "target = ''/api/auth/setup'' \<or> target = ''/api/auth/login''"
  shows "dispatch (sample_platform ann_body) sample_moment (login_post target) [] ''::1'' =
     Answer (if target = ''/api/auth/setup''
       then handle_auth_setup (sample_platform ann_body) sample_moment [] 11 ''::1''
       else handle_auth_login (sample_platform ann_body) sample_moment [] 11 ''::1'')"
  using assms
  by (auto simp: dispatch_def Let_def login_post_def admin_request_def api_request_def kApiBlacklistPrefix_def
      route_def route_auth_def)

lemma ann_password:
  "verify_password (pf_kdf (sample_platform ann_body)) ''correct horse'' (stored_password (ann_user totp)) = Inr True"
proof -
  have "from_hex ''00'' = Inr [0]" by code_simp
  moreover have "from_hex (to_hex (replicate 32 13)) = Inr (replicate 32 13)" by (rule hex_roundtrip)
  ultimately show ?thesis
    by (simp add: verify_password_def stored_password_def ann_user_def sample_platform_def sample_kdf_def derive_def
        kKeyBytes_def del: from_hex.simps)
qed

lemma ann_body_parsed: "parse_body (sample_platform ann_body) body = Some ann_body"
  by (simp add: parse_body_def parse_json_object_def sample_platform_def)

lemma ann_fields: "json_string_field ann_body ''username'' = Some ''ann''"
    "json_string_field ann_body ''password'' = Some ''correct horse''"
  by (simp_all add: json_string_field_def find_string_def ann_body_def)

lemma ann_found: "find_user (as_users (ann_state [ann_user totp])) ''ann'' = Some (ann_user totp)"
  by (simp add: ann_state_def find_user_def find_index_def ann_user_def)

lemma ann_signs_in:
  "handle_auth_login (sample_platform ann_body) sample_moment [] 11 ''::1'' (ann_state [ann_user totp]) =
     (if totp = None
      then issue_session_response (sample_platform ann_body) sample_moment ''ann'' False 11 ''::1'' (ann_state [ann_user None])
      else issue_mfa_challenge_response (sample_platform ann_body) sample_moment ''ann'' True False False 11
             (ann_state [ann_user totp]))"
  by (simp add: handle_auth_login_def ann_body_parsed ann_fields actions ann_found ann_password and_do_def)
     (simp add: ann_user_def ann_state_def default_config_simps)

lemma ann_token_stored:
  "um_find (as_sessions (snd (issue_session_response (sample_platform ann_body) sample_moment ''ann'' False 11 ''::1''
     (ann_state us)))) (to_hex (replicate 32 7))
   = Some \<lparr>ss_username = ''ann'', ss_needs_mfa_setup = False, ss_expires_at = tick_add 1000 session_ttl\<rparr>"
  "pending_owner (snd (issue_mfa_challenge_response (sample_platform ann_body) sample_moment ''ann'' True False False 11
     (ann_state us))) (to_hex (replicate 32 7)) = Some ''ann''"
  by (simp_all add: issue_session_response_def issue_mfa_challenge_response_def and_do_def actions create_session_def
      create_pending_mfa_def random_token_hex_def sample_moment_def ann_state_def put_session_def put_pending_mfa_def
      pending_owner_def umap um_erase_if_def Let_def del: to_hex.simps)

theorem sessions_need_evidence_witness:
  "session_evidence (sample_platform ann_body) sample_moment (login_post ''/api/auth/login'') (ann_state [ann_user None])
     ''ann'' False"
proof -
  let ?h = "handle_auth_login (sample_platform ann_body) sample_moment [] 11 ''::1''"
  let ?e = "\<lparr>ss_username = ''ann'', ss_needs_mfa_setup = False, ss_expires_at = tick_add 1000 session_ttl\<rparr>"
  have d: "dispatch (sample_platform ann_body) sample_moment (login_post ''/api/auth/login'') [] ''::1'' = Answer ?h"
    using login_dispatch [of "''/api/auth/login''"] by simp
  have e: "um_find (as_sessions (snd (?h (ann_state [ann_user None])))) (to_hex (replicate 32 7)) = Some ?e"
    using ann_token_stored(1) [of "[ann_user None]"] by (simp only: ann_signs_in refl if_True)
  have "session_evidence (sample_platform ann_body) sample_moment (login_post ''/api/auth/login'')
      (ann_state [ann_user None]) (ss_username ?e) (ss_needs_mfa_setup ?e)"
    by (rule sessions_need_evidence [OF _ _ d e]) (simp_all add: ann_state_def session_owner_def)
  then show ?thesis by simp
qed

theorem pending_logins_need_password_witness:
  "\<exists>user. password_shown (sample_platform ann_body) (login_post ''/api/auth/login'')
      (ann_state [ann_user (Some \<lparr>tc_secret_base32 = ''AE''\<rparr>)]) user ''ann'' \<and> \<not> lacks_factor user"
proof -
  let ?s = "ann_state [ann_user (Some \<lparr>tc_secret_base32 = ''AE''\<rparr>)]"
  let ?h = "handle_auth_login (sample_platform ann_body) sample_moment [] 11 ''::1''"
  have d: "dispatch (sample_platform ann_body) sample_moment (login_post ''/api/auth/login'') [] ''::1'' = Answer ?h"
    using login_dispatch [of "''/api/auth/login''"] by simp
  have e: "pending_owner (snd (?h ?s)) (to_hex (replicate 32 7)) = Some ''ann''"
    using ann_token_stored(2) [of "[ann_user (Some \<lparr>tc_secret_base32 = ''AE''\<rparr>)]"]
    by (simp only: ann_signs_in option.distinct if_False)
  show ?thesis
    by (rule conjunct2, rule pending_logins_need_password [OF _ _ d e]) (simp_all add: ann_state_def pending_owner_def)
qed

end
