(* ===== verification/Admin_Answers.thy ===== *)
theory Admin_Answers
  imports Admin_Soundness
begin

text \<open>
  How the admin server answers: an edit happens as a whole or not at all, and the server is not
  exposed without TLS.
\<close>

section \<open>All or nothing\<close>

definition all_or_nothing :: "server_response handler \<Rightarrow> bool" where
  "all_or_nothing a \<longleftrightarrow> (\<forall>s. \<exists>res. fst (a s) = Inr res
     \<and> (server_status res = 200 \<or> server_status res \<in> {400, 404, 405} \<and> snd (a s) = s))"

definition refuses :: "server_response handler \<Rightarrow> bool" where
  "refuses a \<longleftrightarrow> (\<forall>s. \<exists>res. fst (a s) = Inr res \<and> server_status res \<in> {400, 404, 405} \<and> snd (a s) = s)"

definition throws_invalid :: "(RuntimeConfig \<Rightarrow> RuntimeConfig result) \<Rightarrow> bool" where
  "throws_invalid m \<longleftrightarrow> (\<forall>c e. m c = Inl e \<longrightarrow> (\<exists>msg. e = InvalidArgument msg))"

lemma refuses_all_or_nothing: "refuses a \<Longrightarrow> all_or_nothing a"
  by (fastforce simp: refuses_def all_or_nothing_def)

lemma refuses_error:
  "beast_ok (wb_beast (pf_web pf)) \<Longrightarrow> status \<in> {400, 404, 405} \<Longrightarrow> refuses (respond_error pf status m version)"
  by (simp add: refuses_def actions error_response_simps)

lemma whole_error:
  "beast_ok (wb_beast (pf_web pf)) \<Longrightarrow> status \<in> {400, 404, 405} \<Longrightarrow> all_or_nothing (respond_error pf status m version)"
  by (rule refuses_all_or_nothing [OF refuses_error])

lemma whole_respond: "beast_ok (wb_beast (pf_web pf)) \<Longrightarrow> all_or_nothing (respond pf 200 body version)"
  by (simp add: all_or_nothing_def actions json_response_simps)

lemma whole_option:
  "(x = None \<Longrightarrow> all_or_nothing a) \<Longrightarrow> (\<And>y. x = Some y \<Longrightarrow> all_or_nothing (f y)) \<Longrightarrow>
     all_or_nothing (case x of None \<Rightarrow> a | Some y \<Rightarrow> f y)"
  by (cases x) simp_all

lemma whole_shown:
  "all_or_nothing (then_show pf version a view) \<Longrightarrow> (\<And>y. all_or_nothing (then_show pf version (f y) view)) \<Longrightarrow>
     all_or_nothing (then_show pf version (case x of None \<Rightarrow> a | Some y \<Rightarrow> f y) view)"
  by (cases x) simp_all

lemma whole_if:
  "(b \<Longrightarrow> all_or_nothing a) \<Longrightarrow> (\<not> b \<Longrightarrow> all_or_nothing a') \<Longrightarrow> all_or_nothing (if b then a else a')"
  by simp

lemma whole_let: "all_or_nothing (f x) \<Longrightarrow> all_or_nothing (Let x f)"
  by (simp add: Let_def)

lemma whole_guarded:
  assumes "beast_ok (wb_beast (pf_web pf))" and "status \<in> {400, 404, 405}" and "throws_invalid m"
  shows "all_or_nothing (then_show pf version (guarded_edit pf status version m) view)"
  unfolding all_or_nothing_def
proof
  fix s
  show "\<exists>res. fst (then_show pf version (guarded_edit pf status version m) view s) = Inr res
      \<and> (server_status res = 200 \<or> server_status res \<in> {400, 404, 405}
           \<and> snd (then_show pf version (guarded_edit pf status version m) view s) = s)"
  proof (cases "m (as_config s)")
    case (Inl e)
    then obtain msg where "e = InvalidArgument msg" using assms(3) by (auto simp: throws_invalid_def)
    then show ?thesis using Inl assms(1,2)
      by (simp add: then_show_def guarded_edit_def update_config_def catch_invalid_def and_do_def actions
          error_response_simps)
  next
    case (Inr c)
    then show ?thesis using assms(1)
      by (simp add: then_show_def guarded_edit_def update_config_def catch_invalid_def and_do_def actions
          json_response_simps)
  qed
qed

lemma whole_plain:
  "beast_ok (wb_beast (pf_web pf)) \<Longrightarrow> all_or_nothing (then_show pf version (plain_edit f) view)"
  "beast_ok (wb_beast (pf_web pf)) \<Longrightarrow> all_or_nothing (then_show pf version (ret None) view)"
  by (simp_all add: all_or_nothing_def then_show_def plain_edit_def update_config_def and_do_def actions
      json_response_simps)

lemma throws_invalid_edit:
  assumes "\<And>x e. f x = Inl e \<Longrightarrow> \<exists>msg. e = InvalidArgument msg"
  shows "throws_invalid (\<lambda>config. bind_result (f (g config)) (\<lambda>x. Inr (h config x)))"
  using assms by (auto simp: throws_invalid_def bind_result_def split: sum.splits)

lemma set_checked_invalid: "set_checked fd bad msg f x = Inl e \<Longrightarrow> \<exists>msg. e = InvalidArgument msg"
  by (auto simp: set_checked_def split: option.splits if_splits)

lemma edits_throw_invalid:
  "throws_invalid (update_site d u)" "throws_invalid (update_status_page n h)"
  "throws_invalid (\<lambda>config. bind_result (ban_edit obj (cfg_ban config)) (\<lambda>ban. Inr (config\<lparr>cfg_ban := ban\<rparr>)))"
  "throws_invalid (\<lambda>config. bind_result (speed_edit obj (cfg_speed_check config)) (\<lambda>x. Inr (config\<lparr>cfg_speed_check := x\<rparr>)))"
  "throws_invalid (\<lambda>config. bind_result (method_edit obj (cfg_method_check config)) (\<lambda>x. Inr (config\<lparr>cfg_method_check := x\<rparr>)))"
  "throws_invalid (\<lambda>config. bind_result (globe_edit obj (cfg_globe config)) (\<lambda>x. Inr (config\<lparr>cfg_globe := x\<rparr>)))"
proof -
  show "throws_invalid (update_site d u)" "throws_invalid (update_status_page n h)"
    by (auto simp: throws_invalid_def update_site_def no_site_def update_status_page_def no_page_def Let_def
        split: option.splits)
qed (rule throws_invalid_edit;
     auto simp: ban_edit_def speed_edit_def method_edit_def globe_edit_def Let_def bind_result_def
       split: sum.splits dest!: set_checked_invalid)+

lemma security_whole:
  assumes "beast_ok (wb_beast (pf_web pf))"
  shows "all_or_nothing (handle_security_config_update pf body version)"
  using assms
  by (auto simp: all_or_nothing_def handle_security_config_update_def update_config_def and_do_def actions
      json_response_simps error_response_simps split: option.split)

lemmas whole_rules = whole_error whole_shown whole_option whole_if whole_let whole_guarded whole_plain whole_respond
  edits_throw_invalid security_whole

lemma put_handlers_whole:
  assumes "beast_ok (wb_beast (pf_web pf))"
  shows "all_or_nothing (handle_sites_update pf d body version)" "all_or_nothing (handle_ban_config_update pf body version)"
    "all_or_nothing (handle_speed_check_update pf body version)" "all_or_nothing (handle_method_check_update pf body version)"
    "all_or_nothing (handle_emergency_off_update pf body version)" "all_or_nothing (handle_pages_update pf body version)"
    "all_or_nothing (handle_status_page_update pf t body version)"
    "all_or_nothing (handle_request_log_config_update pf body version)"
    "all_or_nothing (handle_robots_txt_config_update pf body version)"
    "all_or_nothing (handle_body_size_limit_update pf body version)"
    "all_or_nothing (handle_geoip_config_update pf body version)" "all_or_nothing (handle_globe_config_update pf body version)"
  unfolding handle_sites_update_def handle_ban_config_update_def handle_speed_check_update_def
    handle_method_check_update_def handle_emergency_off_update_def handle_pages_update_def handle_status_page_update_def
    handle_request_log_config_update_def handle_robots_txt_config_update_def handle_body_size_limit_update_def
    handle_geoip_config_update_def handle_globe_config_update_def
  by (intro whole_rules assms; simp)+

lemma put_handlers_refuse:
  assumes "beast_ok (wb_beast (pf_web pf))" and "parse_body pf body = None"
  shows "refuses (handle_sites_update pf d body version)" "refuses (handle_ban_config_update pf body version)"
    "refuses (handle_speed_check_update pf body version)" "refuses (handle_method_check_update pf body version)"
    "refuses (handle_emergency_off_update pf body version)" "refuses (handle_pages_update pf body version)"
    "refuses (handle_status_page_update pf t body version)" "refuses (handle_request_log_config_update pf body version)"
    "refuses (handle_robots_txt_config_update pf body version)" "refuses (handle_body_size_limit_update pf body version)"
    "refuses (handle_geoip_config_update pf body version)" "refuses (handle_globe_config_update pf body version)"
    "refuses (handle_security_config_update pf body version)"
  by (simp_all add: handle_sites_update_def handle_ban_config_update_def handle_speed_check_update_def
      handle_method_check_update_def handle_emergency_off_update_def handle_pages_update_def handle_status_page_update_def
      handle_request_log_config_update_def handle_robots_txt_config_update_def handle_body_size_limit_update_def
      handle_geoip_config_update_def handle_globe_config_update_def handle_security_config_update_def
      assms refuses_error body_field_def opt_field_def json_int_field_def split: option.split)

text \<open>The routes of a \<open>PUT\<close>.\<close>

lemma put_route:
  assumes "put_request request" and "P (respond_error pf 405 ''method not allowed'' (hd_version request))"
    and "\<And>d. P (handle_sites_update pf d (hr_body request) (hd_version request))"
    and "P (handle_ban_config_update pf (hr_body request) (hd_version request))"
    and "P (handle_speed_check_update pf (hr_body request) (hd_version request))"
    and "P (handle_method_check_update pf (hr_body request) (hd_version request))"
    and "P (handle_emergency_off_update pf (hr_body request) (hd_version request))"
    and "P (handle_pages_update pf (hr_body request) (hd_version request))"
    and "\<And>t. P (handle_status_page_update pf t (hr_body request) (hd_version request))"
    and "P (handle_request_log_config_update pf (hr_body request) (hd_version request))"
    and "P (handle_robots_txt_config_update pf (hr_body request) (hd_version request))"
    and "P (handle_body_size_limit_update pf (hr_body request) (hd_version request))"
    and "P (handle_geoip_config_update pf (hr_body request) (hd_version request))"
    and "P (handle_globe_config_update pf (hr_body request) (hd_version request))"
    and "P (handle_security_config_update pf (hr_body request) (hd_version request))"
    and "dispatch pf mo request user ip = Answer h"
  shows "P h"
proof -
  have "h = route pf mo request user ip" using assms(1,16) by (simp add: dispatch_def Let_def)
  moreover have "P (route pf mo request user ip)"
    using assms(1) unfolding route_def route_auth_def route_accounts_def route_settings_def route_lists_def Let_def
    by (simp add: assms)
  ultimately show ?thesis by simp
qed

text \<open>C29: An edit happens as a whole or not at all.  Every \<open>PUT\<close> is answered, none escapes with an exception;
  unless the answer is 200 it is 400, 404 or 405 and nothing at all has changed; and a body that is
  not a JSON object is never answered 200.\<close>

theorem put_requests_all_or_nothing:
  assumes "beast_ok (wb_beast (pf_web pf))" and "put_request request"
    and "dispatch pf mo request user client_ip = Answer h"
  shows "\<exists>res. fst (h s) = Inr res
    \<and> (server_status res = 200 \<or> server_status res \<in> {400, 404, 405} \<and> snd (h s) = s)
    \<and> (server_status res = 200 \<longrightarrow> parse_body pf (hr_body request) \<noteq> None)"
proof (cases "parse_body pf (hr_body request)")
  case None
  have "refuses h"
    by (rule put_route [OF assms(2) _ _ _ _ _ _ _ _ _ _ _ _ _ _ assms(3)])
       (simp_all add: put_handlers_refuse [OF assms(1) None] refuses_error [OF assms(1)])
  then show ?thesis by (fastforce simp: refuses_def)
next
  case (Some obj)
  have "all_or_nothing h"
    by (rule put_route [OF assms(2) _ _ _ _ _ _ _ _ _ _ _ _ _ _ assms(3)])
       (simp_all add: put_handlers_whole [OF assms(1)] security_whole [OF assms(1)] whole_error [OF assms(1)])
  then show ?thesis using Some by (simp add: all_or_nothing_def)
qed

theorem put_requests_all_or_nothing_witness:
  "\<exists>res. fst (route (sample_platform [(''threshold'', JInt (- 5))]) sample_moment
       (admin_request (sample_platform []) (api_request ''PUT'' ''/api/ban-config'' (\<lambda>_. None)) []) ''ann'' ''::1'' started) = Inr res
     \<and> (server_status res = 200 \<or> server_status res \<in> {400, 404, 405})"
proof -
  let ?pf = "sample_platform [(''threshold'', JInt (- 5))]"
  let ?r = "admin_request (sample_platform []) (api_request ''PUT'' ''/api/ban-config'' (\<lambda>_. None)) []"
  have put: "put_request ?r" by (simp add: admin_request_def api_request_def)
  then have "dispatch ?pf sample_moment ?r ''ann'' ''::1'' = Answer (route ?pf sample_moment ?r ''ann'' ''::1'')"
    by (simp add: dispatch_def Let_def)
  from put_requests_all_or_nothing [OF sample_platform_beast put this, of started] show ?thesis by blast
qed

section \<open>Exposure\<close>

definition same_listener :: "AdminConfig \<Rightarrow> AdminState \<Rightarrow> AdminState \<Rightarrow> bool" where
  "same_listener a s s' \<longleftrightarrow> (cfg_admin (as_config s) = a \<longrightarrow> cfg_admin (as_config s') = a)"

lemma list_edits_admin:
  "add_blacklist_entry mk cat v t by src c = Inr c' \<Longrightarrow> cfg_admin c' = cfg_admin c"
  "remove_blacklist_entry cat v c = Inr c' \<Longrightarrow> cfg_admin c' = cfg_admin c"
  "clear_blacklist_category cat c = Inr c' \<Longrightarrow> cfg_admin c' = cfg_admin c"
  "add_whitelist_entry mk v t by src c = Inr c' \<Longrightarrow> cfg_admin c' = cfg_admin c"
  "add_whitelist_route_entry v t by src c = Inr c' \<Longrightarrow> cfg_admin c' = cfg_admin c"
  by (auto simp: add_blacklist_entry_def remove_blacklist_entry_def clear_blacklist_category_def add_whitelist_entry_def
      add_whitelist_route_entry_def Let_def bind_result_Inr_iff remove_ip_from_def split: if_splits)

lemma other_edits_admin:
  "cfg_admin (remove_whitelist_entry v c) = cfg_admin c" "cfg_admin (clear_whitelist c) = cfg_admin c"
  "cfg_admin (remove_whitelist_route_entry v c) = cfg_admin c" "cfg_admin (clear_whitelist_routes c) = cfg_admin c"
  "add_site site c = Inr c' \<Longrightarrow> cfg_admin c' = cfg_admin c" "update_site d u c = Inr c' \<Longrightarrow> cfg_admin c' = cfg_admin c"
  "remove_site d c = Inr c' \<Longrightarrow> cfg_admin c' = cfg_admin c"
  "add_status_page n h t c = Inr c' \<Longrightarrow> cfg_admin c' = cfg_admin c"
  "update_status_page n h c = Inr c' \<Longrightarrow> cfg_admin c' = cfg_admin c"
  "remove_status_page n c = Inr c' \<Longrightarrow> cfg_admin c' = cfg_admin c"
  by (auto simp: remove_whitelist_entry_def remove_ip_from_def Let_def clear_whitelist_def remove_whitelist_route_entry_def
      clear_whitelist_routes_def add_site_def update_site_def remove_site_def add_status_page_def update_status_page_def
      remove_status_page_def set_status_pages_def bind_result_Inr_iff split: if_splits option.splits)

interpretation listener: admin_frame "same_listener a" pf "\<lambda>c. cfg_admin c = a" "\<lambda>_. True"
  for a and pf :: "('n, 'k) platform"
  by unfold_locales (auto simp: same_listener_def list_edits_admin other_edits_admin)

lemma served_same_admin:
  assumes "admin_serves pf s t"
  shows "cfg_admin (as_config t) = cfg_admin (as_config s)"
  using assms
proof (induction rule: admin_serves.induct)
  case (handle t mo request user client_ip h)
  then show ?case
    using listener.frame_dispatch [OF TrueI TrueI handle(4), of "cfg_admin (as_config s)"]
    by (simp add: preserves_def same_listener_def)
qed simp_all

lemma admin_server_starts:
  "run_admin_server pf s = Inr (address, port, tls) \<longleftrightarrow>
     pf_address pf (bind_text (as_config s)) = Some address \<and> port = admin_port (cfg_admin (as_config s))
     \<and> tls = admin_uses_tls s \<and> (al_is_loopback (pf_addresses pf) address \<or> tls)"
  by (auto simp: run_admin_server_def Let_def split: option.splits)


definition outside_config :: RuntimeConfig where
  "outside_config = default_config\<lparr>cfg_admin := default_admin
     \<lparr>admin_bind_host := ''10.0.0.0'', admin_tls_cert_file := ''c.pem'', admin_tls_key_file := ''k.pem''\<rparr>\<rparr>"


end
