(* ===== verification/Globe_Server.thy ===== *)
theory Globe_Server
  imports Admin_Connection
begin

text \<open>
  \<^verbatim>\<open>globe/globe_server.cpp\<close>: the public listener that serves the live globe without any login.  Its
  routes only read the state, so they are functions of it; a connection is a step relation like
  that of the administration server.  The theorems say what an anonymous reader can learn: the
  files meant for the globe, the location of the server, and of each visitor the time, the
  coordinates and the verdict.
\<close>

section \<open>Constants and headers\<close>

definition kGlobeMaxBodyBytes :: nat where
  "kGlobeMaxBodyBytes = 8 * 1024"

definition kDefaultSnapshotLimit :: nat where
  "kDefaultSnapshotLimit = 200"

definition kEmbedScriptFile :: string where
  "kEmbedScriptFile = ''/globe-embed.js''"

definition kVendorPrefix :: string where
  "kVendorPrefix = ''/vendor/''"

definition kCorsExtraHeader :: string where
  "kCorsExtraHeader = ''Access-Control-Allow-Origin: *'' @ [CHR 0x0D, CHR 0x0A]"

definition add_cors_header :: "server_response \<Rightarrow> server_response" where
  "add_cors_header r = r\<lparr>sr_message := set_response_field ''Access-Control-Allow-Origin'' ''*'' (sr_message r)\<rparr>"

section \<open>Routes\<close>

text \<open>The response both file handlers build once the path is resolved.\<close>

definition globe_file :: "('n, 'k) platform \<Rightarrow> path \<Rightarrow> string \<Rightarrow> nat \<Rightarrow> server_response" where
  "globe_file pf resolved content_type version =
     (let res = \<lparr>rp_version = version, rp_status = 200, rp_find = (\<lambda>_. None), rp_keep_alive = True, rp_body = []\<rparr>;
          res = set_response_field ''Server'' ''atomwall-globe'' res;
          res = set_response_field ''Content-Type'' content_type res;
          res = set_response_field ''X-Content-Type-Options'' ''nosniff'' res;
          res = add_cors_header \<lparr>sr_message = res, sr_set_cookie = []\<rparr>
      in prepare_payload (wb_beast (pf_web pf))
           (res\<lparr>sr_message := (sr_message res)\<lparr>rp_body := pf_contents pf resolved\<rparr>\<rparr>))"

definition handle_embed_script :: "('n, 'k) platform \<Rightarrow> path \<Rightarrow> nat \<Rightarrow> server_response" where
  "handle_embed_script pf static_dir version =
     (case resolve_static_path (pf_files pf) static_dir kEmbedScriptFile of
        None \<Rightarrow> add_cors_header (error_response (pf_web pf) 404 ''globe embed script not found'' version)
      | Some resolved \<Rightarrow> globe_file pf resolved ''text/javascript; charset=utf-8'' version)"

definition handle_vendor_asset :: "('n, 'k) platform \<Rightarrow> path \<Rightarrow> string \<Rightarrow> nat \<Rightarrow> server_response" where
  "handle_vendor_asset pf static_dir target version =
     (case resolve_static_path (pf_files pf) static_dir target of
        None \<Rightarrow> add_cors_header (error_response (pf_web pf) 404 ''not found'' version)
      | Some resolved \<Rightarrow> globe_file pf resolved (mime_type_for resolved) version)"

definition handle_snapshot :: "('n, 'k) platform \<Rightarrow> AdminState \<Rightarrow> string \<Rightarrow> nat \<Rightarrow> server_response" where
  "handle_snapshot pf s target version =
     (let limit = query_param_size_t target ''limit'' kDefaultSnapshotLimit in
      add_cors_header (json_response (pf_web pf) 200 (JObject
        [(''events'', globe_events_to_json (globe_recent limit (as_globe_events s))),
         (''server_location'', server_location_to_json (location_get (as_server_location s))),
         (''geoip_ready'', JBool (pf_geoip_loaded pf))]) version))"

definition globe_static_dir :: "AdminState \<Rightarrow> path" where
  "globe_static_dir s = fs_path (admin_static_dir (cfg_admin (as_config s)))"

definition globe_route :: "('n, 'k) platform \<Rightarrow> http_request \<Rightarrow> AdminState \<Rightarrow> server_response" where
  "globe_route pf request s =
     (let target = hd_target request; version = hd_version request in
      if hd_method_string request \<noteq> ''GET''
      then add_cors_header (error_response (pf_web pf) 405 ''method not allowed'' version)
      else if target = ''/globe.js'' then handle_embed_script pf (globe_static_dir s) version
      else if prefix kVendorPrefix target then handle_vendor_asset pf (globe_static_dir s) target version
      else if prefix ''/globe/snapshot'' target then handle_snapshot pf s target version
      else add_cors_header (error_response (pf_web pf) 404 ''not found'' version))"

section \<open>The connection\<close>

datatype globe_sent =
    Globe_Answer AdminState http_request server_response bool
  | Globe_Frames AdminState "GlobeArcEvent sse_step list" "GlobeArcEvent sse_frame list"

datatype globe_pc = GlobeWait | GlobeAnswer AdminState http_request server_response | GlobeEnded

record globe_session =
  gs_state :: AdminState
  gs_pc :: globe_pc
  gs_trace :: "globe_sent list"

definition new_globe_session :: "AdminState \<Rightarrow> globe_session" where
  "new_globe_session s = \<lparr>gs_state = s, gs_pc = GlobeWait, gs_trace = []\<rparr>"

definition globe_frames :: "GlobeArcEvent sse_step list \<Rightarrow> AdminState \<Rightarrow> GlobeArcEvent sse_frame list" where
  "globe_frames steps s =
     run_sse_session globe_record globe_events_since globe_latest_seq arc_seq kCorsExtraHeader steps (as_globe_events s)"

text \<open>The stream lasts until the peer goes away; \<open>steps\<close> are the recordings and polls until then.\<close>

inductive globe_step :: "('n, 'k) platform \<Rightarrow> globe_session \<Rightarrow> globe_session \<Rightarrow> bool" for pf where
  stream: "gs_pc g = GlobeWait \<Longrightarrow> hd_method_string (header :: request_header) = ''GET'' \<Longrightarrow> hd_target header = ''/globe/stream'' \<Longrightarrow>
    length (body :: string) \<le> kGlobeMaxBodyBytes \<Longrightarrow>
    globe_step pf g (g\<lparr>gs_pc := GlobeEnded,
      gs_trace := gs_trace g @ [Globe_Frames (gs_state g) steps (globe_frames steps (gs_state g))]\<rparr>)"
| route: "gs_pc g = GlobeWait \<Longrightarrow> length body \<le> kGlobeMaxBodyBytes \<Longrightarrow>
    \<not> (hd_method_string header = ''GET'' \<and> hd_target header = ''/globe/stream'') \<Longrightarrow>
    request = admin_request pf header body \<Longrightarrow>
    globe_step pf g (g\<lparr>gs_pc := GlobeAnswer (gs_state g) request
      (finish_response pf (hr_keep_alive request) (globe_route pf request (gs_state g)))\<rparr>)"
| answer: "gs_pc g = GlobeAnswer s request res \<Longrightarrow> keep = hr_keep_alive request \<Longrightarrow>
    globe_step pf g (g\<lparr>gs_pc := (if keep then GlobeWait else GlobeEnded),
      gs_trace := gs_trace g @ [Globe_Answer s request res keep]\<rparr>)"
| abort: "globe_step pf g (g\<lparr>gs_pc := GlobeEnded\<rparr>)"
| others: "globe_step pf g (g\<lparr>gs_state := s\<rparr>)"

inductive_cases globe_stepE: "globe_step pf g h"

section \<open>Listening\<close>

definition globe_uses_tls :: "AdminState \<Rightarrow> bool" where
  "globe_uses_tls s \<longleftrightarrow>
     globe_public_tls_cert_file (cfg_globe (as_config s)) \<noteq> [] \<and> globe_public_tls_key_file (cfg_globe (as_config s)) \<noteq> []"

definition run_globe_server :: "('n, 'k) platform \<Rightarrow> AdminState \<Rightarrow> (ip_address \<times> u16 \<times> bool) result" where
  "run_globe_server pf s =
     (let globe = cfg_globe (as_config s); use_tls = globe_uses_tls s in
      case pf_address pf (globe_public_bind_host globe) of
        None \<Rightarrow> throw (RuntimeError (''globe.public_bind is not a valid address: '' @ [CHR 0x27]
          @ globe_public_bind_host globe @ [CHR 0x27]))
      | Some bind_address \<Rightarrow> Inr (bind_address, globe_public_port globe, use_tls))"

section \<open>What the public can read\<close>

lemma globe_file_simps:
  assumes "beast_ok (wb_beast (pf_web pf))"
  shows "server_status (globe_file pf p ct version) = 200"
    "rp_body (sr_message (globe_file pf p ct version)) = pf_contents pf p"
    "sr_set_cookie (globe_file pf p ct version) = []"
    "rp_find (sr_message (globe_file pf p ct version)) ''Access-Control-Allow-Origin'' = Some ''*''"
  using prepare_response_keeps [OF assms]
  by (simp_all add: globe_file_def server_status_def prepare_payload_def add_cors_header_def
      set_response_field_def length_fields_def Let_def)

lemma add_cors_header_simps [simp]:
  "server_status (add_cors_header r) = server_status r"
  "sr_set_cookie (add_cors_header r) = sr_set_cookie r"
  "rp_body (sr_message (add_cors_header r)) = rp_body (sr_message r)"
  "rp_find (sr_message (add_cors_header r)) ''Access-Control-Allow-Origin'' = Some ''*''"
  by (simp_all add: add_cors_header_def server_status_def set_response_field_def)

lemma finish_response_simps:
  assumes "beast_ok (wb_beast (pf_web pf))"
  shows "server_status (finish_response pf keep r) = server_status r"
    "sr_set_cookie (finish_response pf keep r) = sr_set_cookie r"
    "rp_body (sr_message (finish_response pf keep r)) = rp_body (sr_message r)"
    "rp_find (sr_message (finish_response pf keep r)) ''Access-Control-Allow-Origin''
       = rp_find (sr_message r) ''Access-Control-Allow-Origin''"
  using prepare_response_keeps [OF assms]
  by (simp_all add: finish_response_def keep_alive_def prepare_payload_def server_status_def length_fields_def)

lemma globe_route_open:
  assumes "beast_ok (wb_beast (pf_web pf))"
  shows "sr_set_cookie (globe_route pf request s) = []
    \<and> rp_find (sr_message (globe_route pf request s)) ''Access-Control-Allow-Origin'' = Some ''*''"
  by (auto simp: globe_route_def Let_def handle_embed_script_def handle_vendor_asset_def handle_snapshot_def
      error_response_simps [OF assms] json_response_simps [OF assms] globe_file_simps [OF assms] split: option.split)

text \<open>\<open>p\<close> is the file that \<open>first\<close> and more plain segments name below the static directory.\<close>

definition below :: "file_system \<Rightarrow> path \<Rightarrow> string \<Rightarrow> path \<Rightarrow> bool" where
  "below fs static_dir first p \<longleftrightarrow>
     (\<exists>r rest. fs_weakly_canonical fs static_dir = Some r \<and> fs_weakly_canonical fs (r @ first # rest) = Some p
        \<and> prefix r p \<and> fs_is_regular_file fs p = Some True \<and> list_all plain_segment (first # rest))"

lemma belowI:
  "fs_weakly_canonical fs static_dir = Some r \<Longrightarrow> fs_weakly_canonical fs (r @ first # rest) = Some p \<Longrightarrow>
     prefix r p \<Longrightarrow> fs_is_regular_file fs p = Some True \<Longrightarrow> \<forall>s \<in> set (first # rest). plain_segment s \<Longrightarrow>
     below fs static_dir first p"
  by (auto simp: below_def list_all_iff)

lemma percent_decode_vendor: "percent_decode (kVendorPrefix @ rest) = kVendorPrefix @ percent_decode rest"
  by (cases rest; cases "tl rest") (simp_all add: kVendorPrefix_def)

lemma getline_segments_vendor: "getline_segments [] (kVendorPrefix @ y) = [] # ''vendor'' # getline_segments [] y"
  by (simp add: kVendorPrefix_def)

lemma vendor_below:
  assumes "prefix kVendorPrefix target" and "resolve_static_path fs static_dir target = Some p"
  shows "below fs static_dir ''vendor'' p"
proof -
  from assms(1) obtain rest where t: "target = kVendorPrefix @ rest" by (rule prefixE)
  have "takeWhile (\<lambda>c. c \<noteq> CHR ''?'') target = kVendorPrefix @ takeWhile (\<lambda>c. c \<noteq> CHR ''?'') rest"
    by (simp add: t kVendorPrefix_def)
  then show ?thesis
    using assms(2) unfolding resolve_static_path_eq
    by (auto simp: percent_decode_vendor getline_segments_vendor Let_def intro!: belowI)
qed

lemma embed_below:
  assumes "resolve_static_path fs static_dir kEmbedScriptFile = Some p"
  shows "below fs static_dir ''globe-embed.js'' p"
  using assms unfolding resolve_static_path_eq
  by (auto simp: Let_def kEmbedScriptFile_def intro: belowI [where rest = "[]"])

definition snapshot_json :: "('n, 'k) platform \<Rightarrow> nat \<Rightarrow> AdminState \<Rightarrow> json" where
  "snapshot_json pf limit s = JObject
     [(''events'', globe_events_to_json (globe_recent limit (as_globe_events s))),
      (''server_location'', server_location_to_json (location_get (as_server_location s))),
      (''geoip_ready'', JBool (pf_geoip_loaded pf))]"

lemma globe_route_serves:
  assumes b: "beast_ok (wb_beast (pf_web pf))" and ok: "server_status (globe_route pf request s) = 200"
  defines "body \<equiv> rp_body (sr_message (globe_route pf request s))"
  shows "hd_method_string request = ''GET'' \<and>
    ((\<exists>p. (below (pf_files pf) (globe_static_dir s) ''globe-embed.js'' p
           \<or> below (pf_files pf) (globe_static_dir s) ''vendor'' p) \<and> body = pf_contents pf p)
     \<or> (\<exists>limit. body = jl_serialize (wb_json (pf_web pf)) (snapshot_json pf limit s)))"
  using ok embed_below vendor_below unfolding body_def
  by (fastforce simp: globe_route_def Let_def handle_embed_script_def handle_vendor_asset_def handle_snapshot_def
      snapshot_json_def error_response_simps [OF b] json_response_simps [OF b] globe_file_simps [OF b]
      split: option.splits if_splits)

lemma globe_run_answers:
  assumes "(globe_step pf)\<^sup>*\<^sup>* (new_globe_session s0) g"
  shows "(\<forall>s request res keep. Globe_Answer s request res keep \<in> set (gs_trace g) \<longrightarrow>
            res = finish_response pf keep (globe_route pf request s))
    \<and> (\<forall>s request res. gs_pc g = GlobeAnswer s request res \<longrightarrow>
            res = finish_response pf (hr_keep_alive request) (globe_route pf request s))"
  using assms
proof (induction rule: rtranclp_induct)
  case base
  then show ?case by (simp add: new_globe_session_def)
next
  case (step g h)
  from step.hyps(2) step.IH show ?case by (induction rule: globe_step.induct) auto
qed

text \<open>The public listener serves the globe and nothing else: in every run of a connection, a
  request answered with 200 was a GET, and what it got is the embed script, a file below \<open>vendor\<close>,
  or the snapshot, which holds the recent arcs and the location of the server.  No answer, whatever
  its status, sets a cookie, and every one is readable from any page.\<close>

theorem globe_serves_public_files_only:
  assumes "(globe_step pf)\<^sup>*\<^sup>* (new_globe_session s0) g"
    and "Globe_Answer s request res keep \<in> set (gs_trace g)"
    and "beast_ok (wb_beast (pf_web pf))"
  shows "sr_set_cookie res = []
    \<and> rp_find (sr_message res) ''Access-Control-Allow-Origin'' = Some ''*''
    \<and> (server_status res = 200 \<longrightarrow> hd_method_string request = ''GET'' \<and>
        ((\<exists>p. (below (pf_files pf) (globe_static_dir s) ''globe-embed.js'' p
               \<or> below (pf_files pf) (globe_static_dir s) ''vendor'' p)
             \<and> rp_body (sr_message res) = pf_contents pf p)
         \<or> (\<exists>limit. rp_body (sr_message res) = jl_serialize (wb_json (pf_web pf)) (snapshot_json pf limit s))))"
proof -
  have res: "res = finish_response pf keep (globe_route pf request s)"
    using globe_run_answers [OF assms(1)] assms(2) by blast
  show ?thesis
    using globe_route_open [OF assms(3)] globe_route_serves [OF assms(3), of request s]
    unfolding res finish_response_simps [OF assms(3)] by blast
qed

text \<open>A visitor of the globe: the embed script is served from a static directory that holds it.\<close>

definition globe_platform :: "(tree, bytes) platform" where
  "globe_platform = (sample_platform [])\<lparr>pf_files :=
     \<lparr>fs_weakly_canonical = Some, fs_is_regular_file = (\<lambda>p. Some (p \<noteq> [] \<and> last p = ''globe-embed.js''))\<rparr>\<rparr>"

definition globe_visit :: http_request where
  "globe_visit = admin_request globe_platform (api_request ''GET'' ''/globe.js'' (\<lambda>_. None)) []"

lemma globe_platform_beast: "beast_ok (wb_beast (pf_web globe_platform))"
  by (simp add: globe_platform_def)

lemma globe_platform_script:
  "\<exists>p. resolve_static_path (pf_files globe_platform) static_dir kEmbedScriptFile = Some p"
  unfolding resolve_static_path_eq
  by (simp add: kEmbedScriptFile_def Let_def globe_platform_def plain_segment_def)

theorem globe_serves_public_files_only_witness:
  "let s = sample_admin default_config empty_store [];
       res = finish_response globe_platform True (globe_route globe_platform globe_visit s)
   in server_status res = 200 \<and> sr_set_cookie res = [] \<and> rp_body (sr_message res) \<noteq> ''secret''"
proof -
  let ?s = "sample_admin default_config empty_store []" and ?g = "new_globe_session (sample_admin default_config empty_store [])"
  let ?res = "finish_response globe_platform True (globe_route globe_platform globe_visit ?s)"
  note b = globe_platform_beast
  have k: "hr_keep_alive globe_visit" "hd_method_string globe_visit = ''GET''" "hd_target globe_visit = ''/globe.js''"
    by (simp_all add: globe_visit_def admin_request_def api_request_def globe_platform_def sample_platform_def)
  have one: "globe_step globe_platform ?g (?g\<lparr>gs_pc := GlobeAnswer ?s globe_visit ?res\<rparr>)"
    using globe_step.route [of ?g "[]" "api_request ''GET'' ''/globe.js'' (\<lambda>_. None)" globe_visit globe_platform] k
    by (simp add: new_globe_session_def globe_visit_def api_request_def)
  have two: "globe_step globe_platform (?g\<lparr>gs_pc := GlobeAnswer ?s globe_visit ?res\<rparr>)
      (?g\<lparr>gs_pc := GlobeWait, gs_trace := [Globe_Answer ?s globe_visit ?res True]\<rparr>)"
    using globe_step.answer [of "?g\<lparr>gs_pc := GlobeAnswer ?s globe_visit ?res\<rparr>" ?s globe_visit ?res True globe_platform] k
    by (simp add: new_globe_session_def)
  have run: "(globe_step globe_platform)\<^sup>*\<^sup>* ?g
      (?g\<lparr>gs_pc := GlobeWait, gs_trace := [Globe_Answer ?s globe_visit ?res True]\<rparr>)"
    using one two by (meson converse_rtranclp_into_rtranclp rtranclp.rtrancl_refl)
  obtain p where p: "resolve_static_path (pf_files globe_platform) (globe_static_dir ?s) kEmbedScriptFile = Some p"
    using globe_platform_script by blast
  have "server_status ?res = 200" "rp_body (sr_message ?res) = ''text''"
    by (simp_all add: finish_response_simps [OF b] globe_route_def k handle_embed_script_def p globe_file_simps [OF b])
       (simp add: globe_platform_def sample_platform_def)
  moreover have "sr_set_cookie ?res = []"
    using globe_serves_public_files_only [OF run _ b, of ?s globe_visit ?res True] by simp
  ultimately show ?thesis by (simp add: Let_def)
qed

section \<open>Anonymity\<close>

text \<open>What one recorded request contributes to the globe.\<close>

type_synonym visit = "GeoLocation option \<times> RequestEvent"

definition public_arc :: "visit \<Rightarrow> (double \<times> double \<times> ticks \<times> bool) option" where
  "public_arc v = map_option (\<lambda>g. (geo_lat g, geo_lon g, re_timestamp (snd v), re_blocked (snd v))) (fst v)"

definition record_visits :: "visit list \<Rightarrow> AppState \<Rightarrow> AppState" where
  "record_visits vs st = fold (\<lambda>(geo, event). record_events geo event) vs st"

fun record_arc :: "double \<times> double \<times> ticks \<times> bool \<Rightarrow> GlobeEventLog \<Rightarrow> GlobeEventLog" where
  "record_arc (lat, lon, t, b) l =
     globe_record \<lparr>arc_seq = 0, arc_timestamp = t, arc_lat = lat, arc_lon = lon, arc_blocked = b\<rparr> l"

lemma record_visits_globe:
  "as_globe_events (record_visits vs st) = fold record_arc (List.map_filter public_arc vs) (as_globe_events st)"
  unfolding record_visits_def
  by (induction vs arbitrary: st)
     (auto simp: List.map_filter_simps record_events_def public_arc_def split: option.split)

lemma globe_reads:
  assumes "as_globe_events s = as_globe_events s'" and "as_server_location s = as_server_location s'"
    and "globe_static_dir s = globe_static_dir s'"
  shows "globe_route pf request s = globe_route pf request s'" "globe_frames steps s = globe_frames steps s'"
  using assms by (simp_all add: globe_route_def handle_snapshot_def globe_frames_def Let_def)

text \<open>C16: The globe is anonymous: take any two histories of requests that agree, request by request, on
  where a located visitor was, when it came, and whether it was blocked.  Whatever else differs,
  addresses, agents, paths, sites, the unlocated visitors, the accounts and the rest of the
  configuration, the public listener answers every request and streams every frame alike.\<close>

theorem globe_is_anonymous:
  assumes "List.map_filter public_arc vs = List.map_filter public_arc vs'"
    and "as_globe_events st = as_globe_events st'"
    and "as_globe_events s = as_globe_events (record_visits vs st)"
    and "as_globe_events s' = as_globe_events (record_visits vs' st')"
    and "as_server_location s = as_server_location s'" and "globe_static_dir s = globe_static_dir s'"
  shows "globe_route pf request s = globe_route pf request s' \<and> globe_frames steps s = globe_frames steps s'"
  using assms globe_reads [of s s'] by (simp add: record_visits_globe)

definition sample_visit :: "string \<Rightarrow> visit" where
  "sample_visit ip = (Some \<lparr>geo_lat = Finite 1, geo_lon = Finite 2, geo_country = ''AT''\<rparr>,
     \<lparr>re_seq = 0, re_timestamp = 5, re_client_ip = ip, re_country = ''AT'', re_isp = [], re_user_agent = [],
      re_method = ''GET'', re_path = ''/'', re_domain = [], re_listener = ''http'', re_blocked = False,
      re_block_reason = [], re_bytes_transferred = 0, re_status_code = 200\<rparr>)"

definition visited_admin :: "string \<Rightarrow> AdminState" where
  "visited_admin ip = (sample_admin default_config empty_store [])
     \<lparr>as_globe_events := as_globe_events (record_visits [sample_visit ip] (sample_state default_config))\<rparr>"

theorem globe_is_anonymous_witness:
  "globe_route globe_platform globe_visit (visited_admin ''10.0.0.1'')
     = globe_route globe_platform globe_visit (visited_admin ''10.0.0.2'')
   \<and> globe_frames [Poll] (visited_admin ''10.0.0.1'') = globe_frames [Poll] (visited_admin ''10.0.0.2'')"
  by (rule globe_is_anonymous [of "[sample_visit ''10.0.0.1'']" "[sample_visit ''10.0.0.2'']"
        "sample_state default_config" "sample_state default_config"])
     (simp_all add: List.map_filter_simps public_arc_def sample_visit_def visited_admin_def sample_admin_def
        globe_static_dir_def AppState.extend_def)

end
