(* ===== verification/Tls_Sites.thy ===== *)
theory Tls_Sites
  imports Net_Utils
begin

text \<open>
  \<^verbatim>\<open>listener/tls_site_contexts.*\<close>: the per-site TLS contexts that handshakes on many threads share.
  \<open>current\<close> is cut at its locks and between the sites it looks at: a thread is at one of the program
  points of \<open>tls_pc\<close>, and between two of its steps other threads run and files change.  A
  configuration snapshot is its pointer \<open>'p\<close>, which is what \<open>checked_config_ == config\<close> compares;
  \<open>snap\<close> is what the pointer leads to.  Loading a certificate is OpenSSL's: the disk gives
  for a pair of paths the context it makes, or nothing when loading throws.  The two files of one
  site are looked at in one step.
\<close>

section \<open>Fingerprints and contexts\<close>

record SiteFingerprint =
  sf_domain :: string
  sf_cert_file :: string
  sf_key_file :: string
  sf_cert_mtime :: int
  sf_key_mtime :: int

type_synonym 'c context_map = "string \<rightharpoonup> 'c"

record 'c disk =
  dk_mtime :: "string \<Rightarrow> int"
  dk_context :: "string \<Rightarrow> string \<Rightarrow> 'c option"

definition has_own_cert :: "SiteConfig \<Rightarrow> bool" where
  "has_own_cert site \<longleftrightarrow> site_cert_file site \<noteq> [] \<and> site_key_file site \<noteq> []"

definition stamp_site :: "'c disk \<Rightarrow> SiteConfig \<Rightarrow> SiteFingerprint list" where
  "stamp_site D site =
     (if \<not> has_own_cert site then []
      else [\<lparr>sf_domain = site_domain site, sf_cert_file = site_cert_file site, sf_key_file = site_key_file site,
             sf_cert_mtime = dk_mtime D (site_cert_file site), sf_key_mtime = dk_mtime D (site_key_file site)\<rparr>])"

definition load_site :: "'c disk \<Rightarrow> SiteConfig \<Rightarrow> 'c context_map \<Rightarrow> 'c context_map" where
  "load_site D site built =
     (if \<not> has_own_cert site then built
      else case dk_context D (site_cert_file site) (site_key_file site) of
             None \<Rightarrow> built
           | Some ctx \<Rightarrow> built(site_domain site \<mapsto> ctx))"

fun fingerprint_of :: "'c disk \<Rightarrow> SiteConfig list \<Rightarrow> SiteFingerprint list" where
  "fingerprint_of D [] = []"
| "fingerprint_of D (site # sites) = stamp_site D site @ fingerprint_of D sites"

fun build_from :: "'c disk \<Rightarrow> SiteConfig list \<Rightarrow> 'c context_map \<Rightarrow> 'c context_map" where
  "build_from D [] built = built"
| "build_from D (site # sites) built = build_from D sites (load_site D site built)"

definition build :: "'c disk \<Rightarrow> SiteConfig list \<Rightarrow> 'c context_map" where
  "build D sites = build_from D sites Map.empty"

section \<open>\<open>current\<close>\<close>

datatype ('p, 'c) tls_pc =
    Idle
  | Entering 'p
  | Stamping 'p "SiteConfig list" "SiteFingerprint list"
  | Comparing 'p "SiteFingerprint list"
  | Loading 'p "SiteFingerprint list" "SiteConfig list" "'c context_map"
  | Leaving "'c context_map"
  | Returned "'c context_map"

record ('p, 'c) tls_system =
  ts_checked :: "'p option"
  ts_fingerprint :: "SiteFingerprint list"
  ts_contexts :: "'c context_map option"
  ts_refreshing :: bool
  ts_disk :: "'c disk"
  ts_thread :: "nat \<Rightarrow> ('p, 'c) tls_pc"

definition new_tls_system :: "'c disk \<Rightarrow> ('p, 'c) tls_system" where
  "new_tls_system D = \<lparr>ts_checked = None, ts_fingerprint = [], ts_contexts = None, ts_refreshing = False,
     ts_disk = D, ts_thread = (\<lambda>_. Idle)\<rparr>"

definition goto :: "nat \<Rightarrow> ('p, 'c) tls_pc \<Rightarrow> ('p, 'c) tls_system \<Rightarrow> ('p, 'c) tls_system" where
  "goto t pc s = s\<lparr>ts_thread := (ts_thread s)(t := pc)\<rparr>"

definition contexts_or_empty :: "('p, 'c) tls_system \<Rightarrow> 'c context_map" where
  "contexts_or_empty s = (case ts_contexts s of None \<Rightarrow> Map.empty | Some m \<Rightarrow> m)"

text \<open>What the file system promises: writing a file moves its time forward, so where both times
  are what they were, the pair still makes the context it made.\<close>

definition disk_advances :: "'c disk \<Rightarrow> 'c disk \<Rightarrow> bool" where
  "disk_advances D D' \<longleftrightarrow>
     (\<forall>f. dk_mtime D f \<le> dk_mtime D' f)
     \<and> (\<forall>c k. dk_mtime D c = dk_mtime D' c \<and> dk_mtime D k = dk_mtime D' k \<longrightarrow> dk_context D c k = dk_context D' c k)"

text \<open>One step of the thread that runs \<open>current\<close>; the last one is the destructor of \<open>RefreshGuard\<close>.\<close>

inductive current_step ::
  "('p \<Rightarrow> SiteConfig list) \<Rightarrow> nat \<Rightarrow> ('p, 'c) tls_system \<Rightarrow> ('p, 'c) tls_system \<Rightarrow> bool" for snap t where
  fast: "ts_thread s t = Entering p \<Longrightarrow> ts_checked s = Some p \<Longrightarrow> ts_contexts s = Some m \<Longrightarrow>
    current_step snap t s (goto t (Returned m) s)"
| busy: "ts_thread s t = Entering p \<Longrightarrow> \<not> (ts_checked s = Some p \<and> ts_contexts s \<noteq> None) \<Longrightarrow> ts_refreshing s \<Longrightarrow>
    current_step snap t s (goto t (Returned (contexts_or_empty s)) s)"
| start: "ts_thread s t = Entering p \<Longrightarrow> \<not> (ts_checked s = Some p \<and> ts_contexts s \<noteq> None) \<Longrightarrow> \<not> ts_refreshing s \<Longrightarrow>
    current_step snap t s (goto t (Stamping p (snap p) []) (s\<lparr>ts_refreshing := True\<rparr>))"
| stamp: "ts_thread s t = Stamping p (site # sites) fp \<Longrightarrow>
    current_step snap t s (goto t (Stamping p sites (fp @ stamp_site (ts_disk s) site)) s)"
| stamped: "ts_thread s t = Stamping p [] fp \<Longrightarrow> current_step snap t s (goto t (Comparing p fp) s)"
| same: "ts_thread s t = Comparing p fp \<Longrightarrow> ts_contexts s = Some m \<Longrightarrow> fp = ts_fingerprint s \<Longrightarrow>
    current_step snap t s (goto t (Leaving m) (s\<lparr>ts_checked := Some p\<rparr>))"
| differ: "ts_thread s t = Comparing p fp \<Longrightarrow> ts_contexts s = None \<or> fp \<noteq> ts_fingerprint s \<Longrightarrow>
    current_step snap t s (goto t (Loading p fp (snap p) Map.empty) s)"
| load: "ts_thread s t = Loading p fp (site # sites) built \<Longrightarrow>
    current_step snap t s (goto t (Loading p fp sites (load_site (ts_disk s) site built)) s)"
| publish: "ts_thread s t = Loading p fp [] built \<Longrightarrow>
    current_step snap t s (goto t (Leaving built)
      (s\<lparr>ts_contexts := Some built, ts_fingerprint := fp, ts_checked := Some p\<rparr>))"
| leave: "ts_thread s t = Leaving m \<Longrightarrow>
    current_step snap t s (goto t (Returned m) (s\<lparr>ts_refreshing := False\<rparr>))"

inductive_cases current_stepE: "current_step snap t s s'"

inductive tls_step :: "('p \<Rightarrow> SiteConfig list) \<Rightarrow> ('p, 'c) tls_system \<Rightarrow> ('p, 'c) tls_system \<Rightarrow> bool" for snap where
  call: "ts_thread s t = Idle \<or> ts_thread s t = Returned m \<Longrightarrow> tls_step snap s (goto t (Entering p) s)"
| run: "current_step snap t s s' \<Longrightarrow> tls_step snap s s'"
| disk_changes: "disk_advances (ts_disk s) D \<Longrightarrow> tls_step snap s (s\<lparr>ts_disk := D\<rparr>)"

text \<open>The certificate a handshake continues with: \<open>None\<close> leaves it on the listener's own.\<close>

definition select_tls_context_for_sni :: "string option \<Rightarrow> 'c context_map \<Rightarrow> 'c option" where
  "select_tls_context_for_sni servername contexts =
     (case servername of None \<Rightarrow> None | Some n \<Rightarrow> contexts (to_lower n))"

section \<open>Single flight\<close>

fun refresher :: "('p, 'c) tls_pc \<Rightarrow> bool" where
  "refresher (Stamping _ _ _) = True"
| "refresher (Comparing _ _) = True"
| "refresher (Loading _ _ _ _) = True"
| "refresher (Leaving _) = True"
| "refresher _ = False"

definition single_flight :: "('p, 'c) tls_system \<Rightarrow> bool" where
  "single_flight s \<longleftrightarrow>
     (\<forall>t u. refresher (ts_thread s t) \<longrightarrow> refresher (ts_thread s u) \<longrightarrow> t = u)
     \<and> (ts_refreshing s \<longleftrightarrow> (\<exists>t. refresher (ts_thread s t)))"

lemma goto_simps [simp]:
  "ts_thread (goto t pc s) = (ts_thread s)(t := pc)" "ts_refreshing (goto t pc s) = ts_refreshing s"
  "ts_checked (goto t pc s) = ts_checked s" "ts_fingerprint (goto t pc s) = ts_fingerprint s"
  "ts_contexts (goto t pc s) = ts_contexts s" "ts_disk (goto t pc s) = ts_disk s"
  by (simp_all add: goto_def)

lemma single_flight_stay:
  assumes "single_flight s" and "refresher pc = refresher (ts_thread s t)"
    and "ts_thread s' = ts_thread s" and "ts_refreshing s' = ts_refreshing s"
  shows "single_flight (goto t pc s')"
proof -
  have "refresher (((ts_thread s)(t := pc)) u) = refresher (ts_thread s u)" for u using assms(2) by simp
  then show ?thesis using assms(1,3,4) by (simp add: single_flight_def del: fun_upd_apply)
qed

lemma single_flight_start:
  assumes "single_flight s" and "\<not> ts_refreshing s" and "refresher pc"
  shows "single_flight (goto t pc (s\<lparr>ts_refreshing := True\<rparr>))"
  using assms by (auto simp: single_flight_def)

lemma single_flight_leave:
  assumes "single_flight s" and "refresher (ts_thread s t)" and "\<not> refresher pc"
  shows "single_flight (goto t pc (s\<lparr>ts_refreshing := False\<rparr>))"
  using assms by (auto simp: single_flight_def)

lemma single_flight_current: "current_step snap t s s' \<Longrightarrow> single_flight s \<Longrightarrow> single_flight s'"
  by (induction rule: current_step.induct)
     ((rule single_flight_start single_flight_leave single_flight_stay, assumption); simp)+

lemma single_flight_step: "tls_step snap s s' \<Longrightarrow> single_flight s \<Longrightarrow> single_flight s'"
proof (induction rule: tls_step.induct)
  case (call s t m p)
  then show ?case by (intro single_flight_stay [where s = s]) auto
next
  case (run t s s')
  then show ?case by (rule single_flight_current)
qed (simp add: single_flight_def)

section \<open>Freshness\<close>

text \<open>The files a configuration names, and what the disk makes of them.\<close>

fun own_files :: "SiteConfig list \<Rightarrow> (string \<times> string \<times> string) list" where
  "own_files [] = []"
| "own_files (site # sites) =
     (if has_own_cert site then [(site_domain site, site_cert_file site, site_key_file site)] else []) @ own_files sites"

definition load_pair :: "'c disk \<Rightarrow> string \<times> string \<times> string \<Rightarrow> 'c context_map \<Rightarrow> 'c context_map" where
  "load_pair D = (\<lambda>(d, c, k) built. case dk_context D c k of None \<Rightarrow> built | Some ctx \<Rightarrow> built(d \<mapsto> ctx))"

definition load_files :: "'c disk \<Rightarrow> (string \<times> string \<times> string) list \<Rightarrow> 'c context_map" where
  "load_files D fs = fold (load_pair D) fs Map.empty"

definition erase :: "SiteFingerprint \<Rightarrow> string \<times> string \<times> string" where
  "erase e = (sf_domain e, sf_cert_file e, sf_key_file e)"

definition past :: "'c disk \<Rightarrow> SiteFingerprint list \<Rightarrow> bool" where
  "past D fp \<longleftrightarrow> (\<forall>e \<in> set fp. sf_cert_mtime e \<le> dk_mtime D (sf_cert_file e)
      \<and> sf_key_mtime e \<le> dk_mtime D (sf_key_file e))"

definition unchanged :: "'c disk \<Rightarrow> SiteFingerprint list \<Rightarrow> bool" where
  "unchanged D fp \<longleftrightarrow> (\<forall>e \<in> set fp. sf_cert_mtime e = dk_mtime D (sf_cert_file e)
      \<and> sf_key_mtime e = dk_mtime D (sf_key_file e))"

text \<open>Contexts loaded after their stamps: while the stamps are current, so are the contexts.\<close>

definition loaded_for :: "'c disk \<Rightarrow> SiteFingerprint list \<Rightarrow> 'c context_map \<Rightarrow> bool" where
  "loaded_for D fp m \<longleftrightarrow> past D fp \<and> (unchanged D fp \<longrightarrow> m = load_files D (map erase fp))"

lemma own_files_append [simp]: "own_files (a @ b) = own_files a @ own_files b"
  by (induction a) auto

lemma build_load_files: "build D sites = load_files D (own_files sites)"
proof -
  have "build_from D sites built = fold (load_pair D) (own_files sites) built" for built
    by (induction sites arbitrary: built) (auto simp: load_site_def load_pair_def split: option.split)
  then show ?thesis by (simp add: build_def load_files_def)
qed

lemma stamp_site_simps:
  "map erase (stamp_site D site) = own_files [site]" "past D (stamp_site D site)"
  by (simp_all add: stamp_site_def erase_def past_def)

lemma fingerprint_of_simps:
  "map erase (fingerprint_of D sites) = own_files sites" "unchanged D (fingerprint_of D sites)"
  by (induction sites) (auto simp: stamp_site_def erase_def unchanged_def)

lemma past_append [simp]: "past D (a @ b) \<longleftrightarrow> past D a \<and> past D b"
  by (auto simp: past_def)

lemma past_advances: "disk_advances D D' \<Longrightarrow> past D fp \<Longrightarrow> past D' fp"
  by (force simp: past_def disk_advances_def intro: order.trans)

lemma unchanged_advances:
  assumes "disk_advances D D'" and "past D fp" and "unchanged D' fp"
  shows "unchanged D fp" and "load_files D' (map erase fp) = load_files D (map erase fp)"
proof -
  have same: "sf_cert_mtime e = dk_mtime D (sf_cert_file e) \<and> sf_key_mtime e = dk_mtime D (sf_key_file e)
      \<and> dk_context D' (sf_cert_file e) (sf_key_file e) = dk_context D (sf_cert_file e) (sf_key_file e)"
    if "e \<in> set fp" for e
    using assms that unfolding disk_advances_def past_def unchanged_def by (metis order.antisym)
  then show "unchanged D fp" by (simp add: unchanged_def)
  show "load_files D' (map erase fp) = load_files D (map erase fp)"
    unfolding load_files_def by (rule fold_cong) (auto simp: same erase_def load_pair_def)
qed

lemma loaded_for_advances: "disk_advances D D' \<Longrightarrow> loaded_for D fp m \<Longrightarrow> loaded_for D' fp m"
  using past_advances unchanged_advances by (metis loaded_for_def)

lemma loaded_for_one:
  assumes "loaded_for D fp built" and "past D [e]" and "erase e = (site_domain site, site_cert_file site, site_key_file site)"
    and "has_own_cert site"
  shows "loaded_for D (fp @ [e]) (load_site D site built)"
  using assms
  by (auto simp: loaded_for_def unchanged_def load_files_def load_site_def load_pair_def split: option.split)

fun thread_ok :: "('p \<Rightarrow> SiteConfig list) \<Rightarrow> 'c disk \<Rightarrow> ('p, 'c) tls_pc \<Rightarrow> bool" where
  "thread_ok snap D (Stamping p sites fp) \<longleftrightarrow>
     past D fp \<and> (\<exists>seen. snap p = seen @ sites \<and> map erase fp = own_files seen)"
| "thread_ok snap D (Comparing p fp) \<longleftrightarrow> past D fp \<and> map erase fp = own_files (snap p)"
| "thread_ok snap D (Loading p fp sites built) \<longleftrightarrow>
     (\<exists>fp1 fp2 seen. fp = fp1 @ fp2 \<and> past D fp2 \<and> snap p = seen @ sites
        \<and> map erase fp1 = own_files seen \<and> map erase fp2 = own_files sites \<and> loaded_for D fp1 built)"
| "thread_ok snap D pc \<longleftrightarrow> True"

definition tls_ok :: "('p \<Rightarrow> SiteConfig list) \<Rightarrow> ('p, 'c) tls_system \<Rightarrow> bool" where
  "tls_ok snap s \<longleftrightarrow>
     single_flight s \<and> (\<forall>t. thread_ok snap (ts_disk s) (ts_thread s t))
     \<and> (\<forall>t m. ts_thread s t = Leaving m \<longrightarrow> ts_contexts s = Some m)
     \<and> (\<forall>m. ts_contexts s = Some m \<longrightarrow> loaded_for (ts_disk s) (ts_fingerprint s) m)
     \<and> (\<forall>p. ts_checked s = Some p \<longrightarrow> ts_contexts s \<noteq> None \<and> map erase (ts_fingerprint s) = own_files (snap p))"

lemma thread_ok_advances: "disk_advances D D' \<Longrightarrow> thread_ok snap D pc \<Longrightarrow> thread_ok snap D' pc"
proof (cases pc)
  case (Loading p fp sites built)
  assume "disk_advances D D'" "thread_ok snap D pc"
  then show ?thesis unfolding Loading thread_ok.simps using past_advances loaded_for_advances by blast
qed (auto intro: past_advances)

lemma thread_ok_load:
  assumes "thread_ok snap D (Loading p fp (site # sites) built)"
  shows "thread_ok snap D (Loading p fp sites (load_site D site built))"
proof -
  from assms obtain fp1 fp2 seen where f: "fp = fp1 @ fp2" "past D fp2" "snap p = seen @ site # sites"
    "map erase fp1 = own_files seen" "map erase fp2 = own_files (site # sites)" "loaded_for D fp1 built" by auto
  show ?thesis
  proof (cases "has_own_cert site")
    case True
    with f(5) obtain e fp3 where e: "fp2 = e # fp3" "erase e = (site_domain site, site_cert_file site, site_key_file site)"
      "map erase fp3 = own_files sites" by (cases fp2) auto
    have p: "past D [e]" "past D fp3" using f(2) by (auto simp: e(1) past_def)
    have "loaded_for D (fp1 @ [e]) (load_site D site built)"
      by (rule loaded_for_one [OF f(6) p(1) e(2) True])
    then have "fp = (fp1 @ [e]) @ fp3 \<and> past D fp3 \<and> snap p = (seen @ [site]) @ sites
        \<and> map erase (fp1 @ [e]) = own_files (seen @ [site]) \<and> map erase fp3 = own_files sites
        \<and> loaded_for D (fp1 @ [e]) (load_site D site built)"
      using f e p True by simp
    then show ?thesis unfolding thread_ok.simps by blast
  next
    case False
    then have "fp = fp1 @ fp2 \<and> past D fp2 \<and> snap p = (seen @ [site]) @ sites
        \<and> map erase fp1 = own_files (seen @ [site]) \<and> map erase fp2 = own_files sites
        \<and> loaded_for D fp1 (load_site D site built)"
      using f by (simp add: load_site_def)
    then show ?thesis unfolding thread_ok.simps by blast
  qed
qed

lemma tls_ok_goto:
  assumes "tls_ok snap s" and "single_flight (goto t pc (s\<lparr>ts_refreshing := b\<rparr>))" and "thread_ok snap (ts_disk s) pc"
    and "\<And>m. pc = Leaving m \<Longrightarrow> ts_contexts s = Some m"
  shows "tls_ok snap (goto t pc (s\<lparr>ts_refreshing := b\<rparr>))"
  using assms unfolding tls_ok_def by simp

lemma tls_ok_goto_same:
  assumes "tls_ok snap s" and "single_flight (goto t pc s)" and "thread_ok snap (ts_disk s) pc"
    and "\<And>m. pc = Leaving m \<Longrightarrow> ts_contexts s = Some m"
  shows "tls_ok snap (goto t pc s)"
  using tls_ok_goto [of snap s t pc "ts_refreshing s"] assms by simp

lemma tls_ok_publish:
  assumes "tls_ok snap s" and "refresher (ts_thread s t)" and "loaded_for (ts_disk s) fp m"
    and "map erase fp = own_files (snap p)"
    and "single_flight (goto t (Leaving m) (s\<lparr>ts_contexts := Some m, ts_fingerprint := fp, ts_checked := Some p\<rparr>))"
  shows "tls_ok snap (goto t (Leaving m) (s\<lparr>ts_contexts := Some m, ts_fingerprint := fp, ts_checked := Some p\<rparr>))"
proof -
  let ?s' = "goto t (Leaving m) (s\<lparr>ts_contexts := Some m, ts_fingerprint := fp, ts_checked := Some p\<rparr>)"
  have only: "u = t" if "ts_thread s u = Leaving m'" for u m'
    using assms(1,2) that unfolding tls_ok_def single_flight_def by (metis refresher.simps(4))
  have "\<forall>u m'. ts_thread ?s' u = Leaving m' \<longrightarrow> ts_contexts ?s' = Some m'" using only by (auto split: if_splits)
  moreover have "\<forall>u. thread_ok snap (ts_disk ?s') (ts_thread ?s' u)" using assms(1) by (simp add: tls_ok_def)
  ultimately show ?thesis using assms(3,4,5) unfolding tls_ok_def by simp
qed

lemma tls_ok_current:
  assumes "current_step snap t s s'" and "tls_ok snap s"
  shows "tls_ok snap s'"
proof -
  have flight: "single_flight s'" using assms single_flight_current by (auto simp: tls_ok_def)
  have t: "thread_ok snap (ts_disk s) (ts_thread s t)" using assms(2) by (simp add: tls_ok_def)
  from assms(1) show ?thesis
  proof cases
    case (stamp p site sites fp)
    then have "past (ts_disk s) fp" "\<exists>seen. snap p = seen @ site # sites \<and> map erase fp = own_files seen"
      using t by simp_all
    then have "thread_ok snap (ts_disk s) (Stamping p sites (fp @ stamp_site (ts_disk s) site))"
      by (auto simp: stamp_site_simps intro: exI [of _ "_ @ [site]"])
    then show ?thesis unfolding stamp(1) by (rule tls_ok_goto_same [OF assms(2) flight [unfolded stamp(1)]]) simp
  next
    case (same p fp m)
    then have s': "s' = goto t (Leaving m) (s\<lparr>ts_contexts := Some m, ts_fingerprint := fp, ts_checked := Some p\<rparr>)"
      by simp
    have "loaded_for (ts_disk s) fp m" using assms(2) same by (simp add: tls_ok_def)
    with same t flight show ?thesis unfolding s' by (intro tls_ok_publish [OF assms(2)]) auto
  next
    case (differ p fp)
    have "loaded_for (ts_disk s) [] Map.empty" by (simp add: loaded_for_def past_def load_files_def)
    then have "thread_ok snap (ts_disk s) (Loading p fp (snap p) Map.empty)"
      using t differ(2) by (auto intro: exI [of _ "[]"])
    then show ?thesis unfolding differ(1) by (rule tls_ok_goto_same [OF assms(2) flight [unfolded differ(1)]]) simp
  next
    case (load p fp site sites built)
    then have "thread_ok snap (ts_disk s) (Loading p fp sites (load_site (ts_disk s) site built))"
      using t thread_ok_load by metis
    then show ?thesis unfolding load(1) by (rule tls_ok_goto_same [OF assms(2) flight [unfolded load(1)]]) simp
  next
    case (publish p fp built)
    then have "loaded_for (ts_disk s) fp built" "map erase fp = own_files (snap p)" using t by auto
    with publish flight show ?thesis by (auto intro: tls_ok_publish [OF assms(2)])
  next
    case (start p)
    have "thread_ok snap (ts_disk s) (Stamping p (snap p) [])" by (simp add: past_def)
    then show ?thesis unfolding start(1) by (rule tls_ok_goto [OF assms(2) flight [unfolded start(1)]]) simp
  next
    case (leave m)
    with flight show ?thesis by (auto intro: tls_ok_goto [OF assms(2)])
  next
    case (stamped p fp)
    then have "thread_ok snap (ts_disk s) (Comparing p fp)" using t by auto
    then show ?thesis unfolding stamped(1) by (rule tls_ok_goto_same [OF assms(2) flight [unfolded stamped(1)]]) simp
  qed (use flight in \<open>auto intro: tls_ok_goto_same [OF assms(2)]\<close>)
qed

lemma tls_ok_new: "tls_ok snap (new_tls_system D)"
  by (simp add: tls_ok_def new_tls_system_def single_flight_def)

lemma tls_ok_step: "tls_step snap s s' \<Longrightarrow> tls_ok snap s \<Longrightarrow> tls_ok snap s'"
proof (induction rule: tls_step.induct)
  case (call s t m p)
  then have "single_flight (goto t (Entering p) s)" by (intro single_flight_stay [where s = s]) (auto simp: tls_ok_def)
  then show ?case by (intro tls_ok_goto_same call) simp_all
next
  case (run t s s')
  then show ?case by (rule tls_ok_current)
next
  case (disk_changes s D)
  from disk_changes(2) have "\<forall>t. thread_ok snap (ts_disk s) (ts_thread s t)"
    and "\<forall>m. ts_contexts s = Some m \<longrightarrow> loaded_for (ts_disk s) (ts_fingerprint s) m" by (simp_all add: tls_ok_def)
  then have "\<forall>t. thread_ok snap D (ts_thread s t)"
    and "\<forall>m. ts_contexts s = Some m \<longrightarrow> loaded_for D (ts_fingerprint s) m"
    using thread_ok_advances [OF disk_changes(1)] loaded_for_advances [OF disk_changes(1)] by blast+
  then show ?case using disk_changes(2) unfolding tls_ok_def single_flight_def by simp
qed

lemma tls_ok_run: "(tls_step snap)\<^sup>*\<^sup>* (new_tls_system D) s \<Longrightarrow> tls_ok snap s"
  by (induction rule: rtranclp_induct) (auto intro: tls_ok_new tls_ok_step)

text \<open>C15: However handshakes on all threads, configuration changes and renewed files interleave: at most
  one thread rebuilds; and as long as the stamps of the files the checked configuration names are
  the recorded ones, the published contexts are those that loading them now would give.\<close>

theorem tls_contexts_fresh:
  assumes "(tls_step snap)\<^sup>*\<^sup>* (new_tls_system D) s"
  shows "(refresher (ts_thread s t) \<and> refresher (ts_thread s u) \<longrightarrow> t = u)
    \<and> (ts_contexts s = Some m \<and> ts_checked s = Some p \<and> fingerprint_of (ts_disk s) (snap p) = ts_fingerprint s
       \<longrightarrow> m = build (ts_disk s) (snap p))"
proof -
  have ok: "tls_ok snap s" by (rule tls_ok_run [OF assms])
  have "m = build (ts_disk s) (snap p)"
    if "ts_contexts s = Some m" "ts_checked s = Some p" "fingerprint_of (ts_disk s) (snap p) = ts_fingerprint s"
  proof -
    have "unchanged (ts_disk s) (ts_fingerprint s)" using that(3) fingerprint_of_simps(2) by metis
    moreover have "loaded_for (ts_disk s) (ts_fingerprint s) m"
      and "map erase (ts_fingerprint s) = own_files (snap p)" using ok that(1,2) by (auto simp: tls_ok_def)
    ultimately show ?thesis by (simp add: loaded_for_def build_load_files)
  qed
  then show ?thesis using ok by (auto simp: tls_ok_def single_flight_def)
qed

section \<open>Handshakes never wait\<close>

fun work :: "('p \<Rightarrow> SiteConfig list) \<Rightarrow> ('p, 'c) tls_pc \<Rightarrow> nat" where
  "work snap (Entering p) = 2 * length (snap p) + 5"
| "work snap (Stamping p sites fp) = length sites + length (snap p) + 4"
| "work snap (Comparing p fp) = length (snap p) + 3"
| "work snap (Loading p fp sites built) = length sites + 2"
| "work snap (Leaving m) = 1"
| "work snap _ = 0"

lemma current_step_exists: "work snap (ts_thread s t) \<noteq> 0 \<Longrightarrow> \<exists>s'. current_step snap t s s'"
proof (cases "ts_thread s t")
  case (Entering p)
  show ?thesis
  proof (cases "ts_checked s = Some p \<and> ts_contexts s \<noteq> None")
    case True
    then show ?thesis using current_step.fast [OF Entering] by blast
  next
    case False
    then show ?thesis using current_step.busy [OF Entering False] current_step.start [OF Entering False] by blast
  qed
next
  case (Stamping p sites fp)
  then show ?thesis by (cases sites; simp) (meson current_step.stamp current_step.stamped)+
next
  case (Comparing p fp)
  then show ?thesis using current_step.same [OF Comparing] current_step.differ [OF Comparing]
    by (cases "ts_contexts s") blast+
next
  case (Loading p fp sites built)
  then show ?thesis by (cases sites; simp) (meson current_step.load current_step.publish)+
next
  case (Leaving m)
  then show ?thesis by (meson current_step.leave)
qed simp_all


text \<open>A configuration that was checked is not looked at again: until another snapshot is published,
  a call returns the contexts as they are, whatever has become of the certificate files.\<close>

lemma checked_snapshot_not_restamped:
  assumes "ts_checked s = Some p" and "ts_contexts s = Some m" and "ts_thread s t = Entering p"
    and "current_step snap t s s'"
  shows "s' = goto t (Returned m) s"
  using assms(4) by cases (use assms(1-3) in auto)

section \<open>An undisturbed call\<close>

lemma goto_goto [simp]: "goto t pc (goto t pc' s) = goto t pc s"
  by (simp add: goto_def)

lemma goto_self: "ts_thread s t = pc \<Longrightarrow> goto t pc s = s"
  by (simp add: goto_def fun_upd_idem)

lemma stamping_run:
  "ts_thread s t = Stamping p sites fp \<Longrightarrow>
     (current_step snap t)\<^sup>*\<^sup>* s (goto t (Stamping p [] (fp @ fingerprint_of (ts_disk s) sites)) s)"
proof (induction sites arbitrary: s fp)
  case Nil
  then show ?case by (simp add: goto_self)
next
  case (Cons site sites)
  let ?s = "goto t (Stamping p sites (fp @ stamp_site (ts_disk s) site)) s"
  have "(current_step snap t)\<^sup>*\<^sup>* ?s
      (goto t (Stamping p [] ((fp @ stamp_site (ts_disk s) site) @ fingerprint_of (ts_disk ?s) sites)) ?s)"
    by (rule Cons.IH) simp
  then show ?case using current_step.stamp [OF Cons.prems, of snap]
    by (simp add: converse_rtranclp_into_rtranclp)
qed

lemma loading_run:
  "ts_thread s t = Loading p fp sites built \<Longrightarrow>
     (current_step snap t)\<^sup>*\<^sup>* s (goto t (Loading p fp [] (build_from (ts_disk s) sites built)) s)"
proof (induction sites arbitrary: s built)
  case Nil
  then show ?case by (simp add: goto_self)
next
  case (Cons site sites)
  let ?s = "goto t (Loading p fp sites (load_site (ts_disk s) site built)) s"
  have "(current_step snap t)\<^sup>*\<^sup>* ?s
      (goto t (Loading p fp [] (build_from (ts_disk ?s) sites (load_site (ts_disk s) site built))) ?s)"
    by (rule Cons.IH) simp
  then show ?case using current_step.load [OF Cons.prems, of snap]
    by (simp add: converse_rtranclp_into_rtranclp)
qed

lemma comparing_run:
  assumes "tls_ok snap s" and "ts_thread s t = Comparing p (fingerprint_of (ts_disk s) (snap p))"
  defines "m \<equiv> build (ts_disk s) (snap p)"
  shows "(current_step snap t)\<^sup>*\<^sup>* s (goto t (Leaving m)
      (s\<lparr>ts_contexts := Some m, ts_fingerprint := fingerprint_of (ts_disk s) (snap p), ts_checked := Some p\<rparr>))"
proof (cases "ts_contexts s \<noteq> None \<and> fingerprint_of (ts_disk s) (snap p) = ts_fingerprint s")
  case True
  then obtain m' where m': "ts_contexts s = Some m'" by blast
  with assms(1) have "loaded_for (ts_disk s) (ts_fingerprint s) m'" by (simp add: tls_ok_def)
  then have "m' = m"
    using fingerprint_of_simps [of "ts_disk s" "snap p"] True by (simp add: loaded_for_def m_def build_load_files)
  moreover have "s\<lparr>ts_contexts := Some m', ts_fingerprint := fingerprint_of (ts_disk s) (snap p), ts_checked := Some p\<rparr>
      = s\<lparr>ts_checked := Some p\<rparr>" using True m' by simp
  ultimately show ?thesis
    using current_step.same [OF assms(2) m', of snap] True by (simp add: r_into_rtranclp)
next
  case False
  let ?fp = "fingerprint_of (ts_disk s) (snap p)"
  let ?l = "goto t (Loading p ?fp (snap p) Map.empty) s" and ?l' = "goto t (Loading p ?fp [] m) s"
  have "current_step snap t s ?l" using current_step.differ [OF assms(2), of snap] False by blast
  moreover have "(current_step snap t)\<^sup>*\<^sup>* ?l ?l'"
    using loading_run [of ?l t p ?fp "snap p" Map.empty snap] by (simp add: m_def build_def)
  moreover have "current_step snap t ?l' (goto t (Leaving m)
      (s\<lparr>ts_contexts := Some m, ts_fingerprint := ?fp, ts_checked := Some p\<rparr>))"
    using current_step.publish [of ?l' t p ?fp m snap] by (simp add: goto_def)
  ultimately show ?thesis by (meson converse_rtranclp_into_rtranclp rtranclp.rtrancl_into_rtrancl)
qed

lemma tls_ok_currents: "(current_step snap t)\<^sup>*\<^sup>* s s' \<Longrightarrow> tls_ok snap s \<Longrightarrow> tls_ok snap s'"
  by (induction rule: rtranclp_induct) (auto intro: tls_ok_current)

text \<open>A call that finds a new snapshot and is not disturbed returns what is on the disk.\<close>

lemma call_returns_fresh:
  assumes "tls_ok snap s" and "ts_thread s t = Entering p" and "\<not> ts_refreshing s" and "ts_checked s \<noteq> Some p"
  shows "\<exists>s'. (current_step snap t)\<^sup>*\<^sup>* s s' \<and> ts_thread s' t = Returned (build (ts_disk s) (snap p))
    \<and> ts_contexts s' = Some (build (ts_disk s) (snap p)) \<and> ts_checked s' = Some p
    \<and> ts_fingerprint s' = fingerprint_of (ts_disk s) (snap p) \<and> ts_disk s' = ts_disk s \<and> \<not> ts_refreshing s'"
proof -
  let ?fp = "fingerprint_of (ts_disk s) (snap p)" and ?m = "build (ts_disk s) (snap p)"
  let ?a = "goto t (Stamping p (snap p) []) (s\<lparr>ts_refreshing := True\<rparr>)"
  let ?c = "goto t (Comparing p ?fp) (s\<lparr>ts_refreshing := True\<rparr>)"
  let ?e = "goto t (Leaving ?m) (?c\<lparr>ts_contexts := Some ?m, ts_fingerprint := ?fp, ts_checked := Some p\<rparr>)"
  have one: "current_step snap t s ?a" by (rule current_step.start) (use assms in auto)
  have two: "(current_step snap t)\<^sup>*\<^sup>* ?a (goto t (Stamping p [] ?fp) ?a)"
    using stamping_run [of ?a t p "snap p" "[]" snap] by simp
  have three: "current_step snap t (goto t (Stamping p [] ?fp) ?a) ?c"
    using current_step.stamped [of "goto t (Stamping p [] ?fp) ?a" t p ?fp snap] by simp
  have "(current_step snap t)\<^sup>*\<^sup>* s ?c" using one two three
    by (meson converse_rtranclp_into_rtranclp rtranclp.rtrancl_into_rtrancl)
  moreover have "tls_ok snap ?c" using calculation assms(1) by (rule tls_ok_currents)
  then have "(current_step snap t)\<^sup>*\<^sup>* ?c ?e" using comparing_run [of snap ?c t p] by simp
  moreover have "current_step snap t ?e (goto t (Returned ?m) (?e\<lparr>ts_refreshing := False\<rparr>))"
    by (rule current_step.leave) simp
  ultimately have "(current_step snap t)\<^sup>*\<^sup>* s (goto t (Returned ?m) (?e\<lparr>ts_refreshing := False\<rparr>))" by simp
  then show ?thesis by (intro exI [where x = "goto t (Returned ?m) (?e\<lparr>ts_refreshing := False\<rparr>)"]) simp
qed

lemma tls_run_current: "(current_step snap t)\<^sup>*\<^sup>* s s' \<Longrightarrow> (tls_step snap)\<^sup>*\<^sup>* s s'"
  by (induction rule: rtranclp_induct) (auto intro: tls_step.run rtranclp.rtrancl_into_rtrancl)

text \<open>One site, whose certificate is context 1 until it is renewed and is context 2.\<close>

definition tls_site :: SiteConfig where
  "tls_site = default_site\<lparr>site_domain := ''a.example'', site_cert_file := ''a.crt'', site_key_file := ''a.key''\<rparr>"

definition tls_disk :: "int \<Rightarrow> int disk" where
  "tls_disk v = \<lparr>dk_mtime = (\<lambda>f. v), dk_context = (\<lambda>c k. Some v)\<rparr>"

lemma tls_disk_advances: "v < w \<Longrightarrow> disk_advances (tls_disk v) (tls_disk w)"
  by (simp add: disk_advances_def tls_disk_def)

lemma tls_build: "build (tls_disk v) [tls_site] = [''a.example'' \<mapsto> v]"
  by (simp add: build_def load_site_def has_own_cert_def tls_site_def tls_disk_def)

lemma tls_first_call:
  "\<exists>s. (tls_step (\<lambda>_ :: unit. [tls_site]))\<^sup>*\<^sup>* (new_tls_system (tls_disk 1)) s
     \<and> ts_contexts s = Some [''a.example'' \<mapsto> 1] \<and> ts_checked s = Some () \<and> ts_disk s = tls_disk 1
     \<and> ts_fingerprint s = fingerprint_of (tls_disk 1) [tls_site] \<and> (\<exists>m. ts_thread s 0 = Returned m) \<and> \<not> ts_refreshing s"
proof -
  let ?snap = "\<lambda>_ :: unit. [tls_site]" and ?n = "new_tls_system (tls_disk 1) :: (unit, int) tls_system"
  let ?s = "goto 0 (Entering ()) ?n"
  have one: "tls_step ?snap ?n ?s" by (rule tls_step.call) (simp add: new_tls_system_def)
  have "tls_ok ?snap ?s" using one tls_ok_new tls_ok_step by blast
  then obtain s' where "(current_step ?snap 0)\<^sup>*\<^sup>* ?s s'" "ts_thread s' 0 = Returned (build (ts_disk ?s) [tls_site])"
    "ts_contexts s' = Some (build (ts_disk ?s) [tls_site])" "ts_checked s' = Some ()"
    "ts_fingerprint s' = fingerprint_of (ts_disk ?s) [tls_site]" "ts_disk s' = ts_disk ?s" "\<not> ts_refreshing s'"
    using call_returns_fresh [of ?snap ?s 0 "()"] by (auto simp: new_tls_system_def)
  moreover have "ts_disk ?s = tls_disk 1" by (simp add: new_tls_system_def)
  ultimately show ?thesis
    using one tls_run_current by (metis converse_rtranclp_into_rtranclp tls_build)
qed

theorem tls_contexts_fresh_witness:
  "\<exists>s. (tls_step (\<lambda>_ :: unit. [tls_site]))\<^sup>*\<^sup>* (new_tls_system (tls_disk 1)) s
     \<and> ts_contexts s = Some (build (ts_disk s) [tls_site])
     \<and> select_tls_context_for_sni (Some ''A.Example'') (build (ts_disk s) [tls_site]) = Some 1"
proof -
  obtain s where s: "(tls_step (\<lambda>_ :: unit. [tls_site]))\<^sup>*\<^sup>* (new_tls_system (tls_disk 1)) s"
    "ts_contexts s = Some [''a.example'' \<mapsto> 1]" "ts_checked s = Some ()" "ts_disk s = tls_disk 1"
    "ts_fingerprint s = fingerprint_of (tls_disk 1) [tls_site]" using tls_first_call by blast
  have "[''a.example'' \<mapsto> 1] = build (ts_disk s) [tls_site]"
    using tls_contexts_fresh [OF s(1), of 0 0 _ "()"] s(2-5) by simp
  moreover have "select_tls_context_for_sni (Some ''A.Example'') [''a.example'' \<mapsto> 1] = Some (1 :: int)"
    unfolding select_tls_context_for_sni_def by code_simp
  ultimately show ?thesis using s(1,2) by metis
qed


text \<open>So a certificate renewed in place is not picked up while the configuration stays as it is: here
  the disk holds context 2, nobody is refreshing, and the next handshake still gets context 1.\<close>

lemma renewed_certificate_missed:
  "\<exists>s. (tls_step (\<lambda>_ :: unit. [tls_site]))\<^sup>*\<^sup>* (new_tls_system (tls_disk 1)) s \<and> ts_thread s 0 = Returned [''a.example'' \<mapsto> 1]
     \<and> \<not> ts_refreshing s \<and> ts_checked s = Some () \<and> build (ts_disk s) [tls_site] = [''a.example'' \<mapsto> 2]"
proof -
  let ?snap = "\<lambda>_ :: unit. [tls_site]"
  obtain s m where s: "(tls_step ?snap)\<^sup>*\<^sup>* (new_tls_system (tls_disk 1)) s" "ts_contexts s = Some [''a.example'' \<mapsto> 1]"
    "ts_checked s = Some ()" "ts_disk s = tls_disk 1" "ts_thread s 0 = Returned m" "\<not> ts_refreshing s"
    using tls_first_call by blast
  let ?a = "s\<lparr>ts_disk := tls_disk 2\<rparr>" and ?b = "goto 0 (Entering ()) (s\<lparr>ts_disk := tls_disk 2\<rparr>)"
  let ?c = "goto 0 (Returned [''a.example'' \<mapsto> 1]) ?b"
  have "tls_step ?snap s ?a" by (rule tls_step.disk_changes) (simp add: s(4) tls_disk_advances)
  moreover have "tls_step ?snap ?a ?b" by (rule tls_step.call) (simp add: s(5))
  moreover have "tls_step ?snap ?b ?c" by (rule tls_step.run [OF current_step.fast]) (simp_all add: s)
  ultimately have "(tls_step ?snap)\<^sup>*\<^sup>* (new_tls_system (tls_disk 1)) ?c"
    using s(1) by (meson rtranclp.rtrancl_into_rtrancl)
  then show ?thesis by (intro exI [where x = ?c]) (simp add: s tls_build)
qed

end
