(* ===== verification/Geoip.thy ===== *)
theory Geoip
  imports Http_Session
begin

text \<open>
  \<^verbatim>\<open>geoip/geoip_service.*\<close> and \<^verbatim>\<open>geoip/asn_service.*\<close>: the two address databases.  What libmaxminddb
  does is the interface \<open>mmdb_lib\<close>; a service is the database it opened, if it could, and \<open>loaded\<close> says
  whether it has one.  The \<open>lookup\<close> of a service that is not loaded answers nothing, so a missing or
  broken file turns location and provider off and never stops a request.
\<close>

section \<open>The library\<close>

datatype mmdb_data =
    Utf8_String string
  | Double_Value double
  | Float_Value double
  | Uint16 nat
  | Uint32 nat
  | Other_Data

text \<open>\<open>mm_lookup_string\<close> answers nothing when either error is set or no entry is found;
  \<open>mm_get_value\<close> when the entry has no data at the path.  A \<open>float\<close> is kept as the double it
  converts to.\<close>

record ('d, 'e) mmdb_lib =
  mm_open :: "string \<Rightarrow> 'd option"
  mm_lookup_string :: "'d \<Rightarrow> string \<Rightarrow> 'e option"
  mm_get_value :: "'e \<Rightarrow> string list \<Rightarrow> mmdb_data option"

type_synonym 'd mmdb_service = "'d option"

definition loaded :: "'d mmdb_service \<Rightarrow> bool" where
  "loaded service \<longleftrightarrow> service \<noteq> None"

section \<open>\<open>GeoIpService\<close>\<close>

definition new_geoip_service :: "('d, 'e) mmdb_lib \<Rightarrow> string \<Rightarrow> 'd mmdb_service" where
  "new_geoip_service L db_path = (if db_path = [] then None else mm_open L db_path)"

fun entry_as_double :: "mmdb_data option \<Rightarrow> double option" where
  "entry_as_double (Some (Double_Value d)) = Some d"
| "entry_as_double (Some (Float_Value d)) = Some d"
| "entry_as_double _ = None"

fun entry_as_string :: "mmdb_data option \<Rightarrow> string option" where
  "entry_as_string (Some (Utf8_String s)) = Some s"
| "entry_as_string _ = None"

definition geoip_lookup ::
  "('d, 'e) mmdb_lib \<Rightarrow> (ip_address \<Rightarrow> string) \<Rightarrow> 'd mmdb_service \<Rightarrow> ip_address \<Rightarrow> GeoLocation option" where
  "geoip_lookup L to_string service address =
     (case service of
        None \<Rightarrow> None
      | Some db \<Rightarrow>
          (case mm_lookup_string L db (to_string address) of
             None \<Rightarrow> None
           | Some entry \<Rightarrow>
               (let lat = entry_as_double (mm_get_value L entry [''location'', ''latitude'']);
                    lon = entry_as_double (mm_get_value L entry [''location'', ''longitude''])
                in case (lat, lon) of
                     (Some la, Some lo) \<Rightarrow>
                       Some \<lparr>geo_lat = la, geo_lon = lo,
                         geo_country = (case entry_as_string (mm_get_value L entry [''country'', ''iso_code'']) of
                                          None \<Rightarrow> [] | Some c \<Rightarrow> c)\<rparr>
                   | _ \<Rightarrow> None)))"

section \<open>\<open>AsnService\<close>\<close>

definition new_asn_service :: "('d, 'e) mmdb_lib \<Rightarrow> string \<Rightarrow> 'd mmdb_service" where
  "new_asn_service L db_path = (if db_path = [] then None else mm_open L db_path)"

fun string_from_first_match :: "('d, 'e) mmdb_lib \<Rightarrow> 'e \<Rightarrow> string list \<Rightarrow> string option" where
  "string_from_first_match L entry [] = None"
| "string_from_first_match L entry (key # keys) =
     (case mm_get_value L entry [key] of
        Some (Utf8_String s) \<Rightarrow> Some s
      | _ \<Rightarrow> string_from_first_match L entry keys)"

fun uint32_from_first_match :: "('d, 'e) mmdb_lib \<Rightarrow> 'e \<Rightarrow> string list \<Rightarrow> nat option" where
  "uint32_from_first_match L entry [] = None"
| "uint32_from_first_match L entry (key # keys) =
     (case mm_get_value L entry [key] of
        Some (Uint32 n) \<Rightarrow> Some n
      | Some (Uint16 n) \<Rightarrow> Some n
      | _ \<Rightarrow> uint32_from_first_match L entry keys)"

definition organization_keys :: "string list" where
  "organization_keys = [''autonomous_system_organization'', ''as_org'', ''org'', ''isp'', ''organization'']"

definition number_keys :: "string list" where
  "number_keys = [''autonomous_system_number'', ''as_number'', ''asn'']"

definition asn_lookup ::
  "('d, 'e) mmdb_lib \<Rightarrow> (ip_address \<Rightarrow> string) \<Rightarrow> 'd mmdb_service \<Rightarrow> ip_address \<Rightarrow> AsnInfo option" where
  "asn_lookup L to_string service address =
     (case service of
        None \<Rightarrow> None
      | Some db \<Rightarrow>
          (case mm_lookup_string L db (to_string address) of
             None \<Rightarrow> None
           | Some entry \<Rightarrow>
               (let organization = string_from_first_match L entry organization_keys;
                    asn = uint32_from_first_match L entry number_keys
                in if organization = None \<and> asn = None then None
                   else Some \<lparr>asn_number = (case asn of None \<Rightarrow> 0 | Some n \<Rightarrow> n),
                              asn_organization = (case organization of None \<Rightarrow> [] | Some v \<Rightarrow> v)\<rparr>)))"

section \<open>What the lookups answer\<close>

text \<open>Both searches answer with the first key, in the order of the list, whose value has their kind.\<close>

fun entry_as_uint :: "mmdb_data option \<Rightarrow> nat option" where
  "entry_as_uint (Some (Uint32 n)) = Some n"
| "entry_as_uint (Some (Uint16 n)) = Some n"
| "entry_as_uint _ = None"

definition first_with :: "('a \<Rightarrow> 'b option) \<Rightarrow> 'a list \<Rightarrow> 'b option" where
  "first_with f keys = Option.bind (List.find (\<lambda>k. f k \<noteq> None) keys) f"

lemma first_with_simps [simp]:
  "first_with f [] = None" "first_with f (k # keys) = (case f k of None \<Rightarrow> first_with f keys | Some v \<Rightarrow> Some v)"
  by (auto simp: first_with_def split: option.split)

lemma string_from_first_match_eq:
  "string_from_first_match L entry keys = first_with (\<lambda>k. entry_as_string (mm_get_value L entry [k])) keys"
  by (induction keys) (auto split: option.split mmdb_data.split)

lemma uint32_from_first_match_eq:
  "uint32_from_first_match L entry keys = first_with (\<lambda>k. entry_as_uint (mm_get_value L entry [k])) keys"
  by (induction keys) (auto split: option.split mmdb_data.split)

lemma lookups_need_database:
  "geoip_lookup L to_string None address = None" "asn_lookup L to_string None address = None"
  by (simp_all add: geoip_lookup_def asn_lookup_def)

text \<open>A location always has both of its coordinates, a provider its number or its name.\<close>

lemma asn_lookup_Some:
  "asn_lookup L to_string service address = Some info \<Longrightarrow>
     \<exists>db entry. service = Some db \<and> mm_lookup_string L db (to_string address) = Some entry
       \<and> (string_from_first_match L entry organization_keys = Some (asn_organization info)
          \<or> uint32_from_first_match L entry number_keys = Some (asn_number info))"
  by (auto simp: asn_lookup_def Let_def split: option.splits if_splits)

end
