(* ===== verification/Listeners.thy ===== *)
theory Listeners
  imports Http_Session Tls_Sites
begin

text \<open>
  \<^verbatim>\<open>listener/accept_util.hpp\<close>, \<^verbatim>\<open>listener/listener.cpp\<close> and \<^verbatim>\<open>listener/tls_listener.cpp\<close>: the accept
  loops and what happens to a connection around its session.  The results of \<open>async_accept\<close> are
  the list of what has happened so far; \<open>None\<close> is a coroutine that still waits.
\<close>

section \<open>Accepting\<close>

datatype 's accepted = Accepted 's | Aborted | Transient string

definition operation_aborted :: error where
  "operation_aborted = RuntimeError ''operation_aborted''"

text \<open>The result, how often the loop paused for \<open>retry_delay\<close>, and the results not yet looked at.\<close>

fun accept_next :: "'s accepted list \<Rightarrow> nat \<Rightarrow> ('s result \<times> nat \<times> 's accepted list) option" where
  "accept_next [] pauses = None"
| "accept_next (Accepted socket # results) pauses = Some (Inr socket, pauses, results)"
| "accept_next (Aborted # results) pauses = Some (throw operation_aborted, pauses, results)"
| "accept_next (Transient message # results) pauses = accept_next results (Suc pauses)"

text \<open>The loop of a listener: the connections it has spawned, and the exception that ended it.\<close>

lemma accept_next_shorter: "accept_next results n = Some (r, m, rest) \<Longrightarrow> length rest < length results"
  by (induction results n rule: accept_next.induct) auto

function accept_loop :: "'s accepted list \<Rightarrow> 's list \<times> error option" where
  "accept_loop results =
     (case accept_next results 0 of
        None \<Rightarrow> ([], None)
      | Some (Inl e, _, _) \<Rightarrow> ([], Some e)
      | Some (Inr socket, _, rest) \<Rightarrow> (case accept_loop rest of (sockets, e) \<Rightarrow> (socket # sockets, e)))"
  by pat_completeness auto
termination
  by (relation "measure length") (auto dest: accept_next_shorter)

declare accept_loop.simps [simp del]

section \<open>Connections\<close>

text \<open>\<open>is_v4_mapped\<close> and \<open>make_address_v4\<close> are Boost's; the remote endpoint may be gone.\<close>

definition client_address_of :: "(bytes \<Rightarrow> bool) \<Rightarrow> (bytes \<Rightarrow> bytes) \<Rightarrow> ip_address option \<Rightarrow> ip_address" where
  "client_address_of is_v4_mapped make_address_v4 endpoint =
     (case endpoint of
        None \<Rightarrow> V4 [0, 0, 0, 0]
      | Some address \<Rightarrow> normalize_client_address is_v4_mapped make_address_v4 address)"

datatype connection_event =
    Deadline int
  | Handshake bool
  | Session ip_address string
  | Service_Session
  | Shutdown

text \<open>Whatever the session throws is logged, so the shutdown always follows.\<close>

definition handle_http_connection :: "ip_address \<Rightarrow> connection_event list" where
  "handle_http_connection client_ip = [Session client_ip ''http'', Shutdown]"

definition handle_tls_connection :: "RuntimeConfig \<Rightarrow> ip_address \<Rightarrow> bool \<Rightarrow> connection_event list" where
  "handle_tls_connection config client_ip handshake =
     [Deadline (request_timeout (cfg_limits config)), Handshake handshake]
     @ (if handshake then [Session client_ip ''https''] else []) @ [Shutdown]"

text \<open>The administration and the globe: their own session, which a failed handshake keeps from starting;
  the socket is then closed without a shutdown.  A peer that is gone is called unknown.\<close>

definition accept_plain :: "connection_event list" where
  "accept_plain = [Service_Session, Shutdown]"

definition accept_tls :: "bool \<Rightarrow> connection_event list" where
  "accept_tls handshake = [Deadline 30, Handshake handshake] @ (if handshake then [Service_Session, Shutdown] else [])"

definition admin_client_ip_text :: "(ip_address \<Rightarrow> string) \<Rightarrow> ip_address option \<Rightarrow> string" where
  "admin_client_ip_text to_string endpoint =
     (case endpoint of None \<Rightarrow> ''unknown'' | Some address \<Rightarrow> to_string address)"

text \<open>Opening a listener: \<open>make_address\<close> throws on a bad \<open>bind\<close>, \<open>make_tls_server_context\<close> on bad files.\<close>

definition bind_listener :: "(string \<Rightarrow> ip_address option) \<Rightarrow> string \<Rightarrow> u16 \<Rightarrow> (ip_address \<times> u16) result" where
  "bind_listener make_address host port =
     (case make_address host of
        None \<Rightarrow> throw (RuntimeError ''Invalid argument'')
      | Some address \<Rightarrow> Inr (address, port))"

definition run_http_listener :: "(string \<Rightarrow> ip_address option) \<Rightarrow> RuntimeConfig \<Rightarrow> (ip_address \<times> u16) result" where
  "run_http_listener make_address config =
     bind_listener make_address (http_bind_host (cfg_http config)) (http_port (cfg_http config))"

text \<open>The contexts of the sites are built before the first connection is accepted.\<close>

definition run_tls_listener ::
  "(string \<Rightarrow> ip_address option) \<Rightarrow> 'c disk \<Rightarrow> RuntimeConfig \<Rightarrow> ('c \<times> 'c context_map \<times> ip_address \<times> u16) result" where
  "run_tls_listener make_address D config =
     (case dk_context D (https_cert_file (cfg_https config)) (https_key_file (cfg_https config)) of
        None \<Rightarrow> throw (RuntimeError ''use_certificate_chain_file'')
      | Some ctx \<Rightarrow>
          bind_result (bind_listener make_address (https_bind_host (cfg_https config)) (https_port (cfg_https config)))
            (\<lambda>endpoint. Inr (ctx, build D (cfg_sites config), endpoint)))"

section \<open>The loop survives\<close>

text \<open>The connections offered before the acceptor is closed; failed accepts offer nothing.\<close>

fun sockets_of :: "'s accepted list \<Rightarrow> 's list" where
  "sockets_of [] = []"
| "sockets_of (Accepted s # rs) = s # sockets_of rs"
| "sockets_of (Aborted # rs) = []"
| "sockets_of (Transient m # rs) = sockets_of rs"

lemma accept_next_offers:
  "case accept_next results n of
     None \<Rightarrow> sockets_of results = [] \<and> Aborted \<notin> set results
   | Some (Inl e, m, rest) \<Rightarrow> sockets_of results = [] \<and> Aborted \<in> set results \<and> e = operation_aborted
   | Some (Inr s, m, rest) \<Rightarrow>
       sockets_of results = s # sockets_of rest \<and> (Aborted \<in> set results \<longleftrightarrow> Aborted \<in> set rest)"
  by (induction results n rule: accept_next.induct) (auto split: option.splits sum.splits)

text \<open>Every failed accept that a result or the next wait follows has paused the loop once.\<close>

lemma accept_next_pauses:
  "accept_next results n = Some (r, m, rest)
   \<Longrightarrow> m = n + length (takeWhile (\<lambda>x. case x of Transient _ \<Rightarrow> True | _ \<Rightarrow> False) results)"
  by (induction results n rule: accept_next.induct) auto

text \<open>C37: An accept loop spawns a connection for every socket that is accepted, in order, whatever
  failures come between: descriptors run out, clients reset.  Only the closing of the acceptor ends
  it, and with \<open>operation_aborted\<close>.\<close>

theorem accept_loop_survives_failures:
  "accept_loop results =
     (sockets_of results, if Aborted \<in> set results then Some operation_aborted else None)"
proof (induction results rule: accept_loop.induct)
  case (1 results)
  show ?case
    using accept_next_offers [of results 0] 1
    by (subst accept_loop.simps) (auto split: option.splits sum.splits prod.splits)
qed

lemma every_accepted_socket_is_served:
  "Aborted \<notin> set before \<Longrightarrow> s \<in> set (sockets_of (before @ Accepted s # later))"
  by (induction before rule: sockets_of.induct) auto

text \<open>A connection is always shut down last, and a client that fails the handshake has no session.\<close>

lemma connections_are_shut_down:
  "last (handle_http_connection client_ip) = Shutdown"
  "last (handle_tls_connection config client_ip handshake) = Shutdown"
  by (simp_all add: handle_http_connection_def handle_tls_connection_def)

lemma no_service_without_handshake: "Service_Session \<in> set (accept_tls handshake) \<longleftrightarrow> handshake"
  by (simp add: accept_tls_def)

lemma no_session_without_handshake:
  "Session address scheme \<in> set (handle_tls_connection config client_ip handshake)
     \<longleftrightarrow> handshake \<and> address = client_ip \<and> scheme = ''https''"
  by (auto simp: handle_tls_connection_def)

section \<open>What is left in the buffer\<close>

text \<open>Every round of a session's loop has a buffer of its own.  \<open>message_end\<close> is Beast's: where the first
  message in the buffer ends, once it is complete.  The chunks are what the socket delivers.\<close>

fun read_message :: "(string \<Rightarrow> nat option) \<Rightarrow> string \<Rightarrow> string list \<Rightarrow> (string \<times> string list) option" where
  "read_message message_end buffer chunks =
     (case message_end buffer of
        Some n \<Rightarrow> Some (take n buffer, chunks)
      | None \<Rightarrow> (case chunks of [] \<Rightarrow> None | c # cs \<Rightarrow> read_message message_end (buffer @ c) cs))"

fun messages_read :: "(string \<Rightarrow> nat option) \<Rightarrow> nat \<Rightarrow> string list \<Rightarrow> string list" where
  "messages_read message_end 0 chunks = []"
| "messages_read message_end (Suc rounds) chunks =
     (case read_message message_end [] chunks of
        None \<Rightarrow> []
      | Some (m, rest) \<Rightarrow> m # messages_read message_end rounds rest)"

declare read_message.simps [simp del]

text \<open>What a round has read beyond its message is lost with its buffer: of two requests that arrive
  together the second is never seen, and of one that was cut the next round takes the remains for a
  message.\<close>

lemma pipelined_request_lost:
  assumes "message_end [] = None" and "message_end (first @ second) = Some (length first)"
  shows "messages_read message_end (Suc rounds) ((first @ second) # later) = first # messages_read message_end rounds later"
    and "message_end first = Some (length first) \<Longrightarrow> message_end second = Some (length second) \<Longrightarrow>
      messages_read message_end 2 [first, second] = [first, second]"
  using assms by (simp_all add: read_message.simps [of message_end "[]"] read_message.simps [of message_end first]
      read_message.simps [of message_end second] read_message.simps [of message_end "first @ second"] eval_nat_numeral)

end
