(* ===== verification/Startup.thy ===== *)
theory Startup
  imports Listeners Geoip Globe_Server Config_Store Admin_Answers
begin

text \<open>
  \<^verbatim>\<open>main.cpp\<close>: how the process comes up, which services it starts and what ends it, the loop that polls
  the configuration file, and where the server's own location comes from.  The files the process
  finds are a function from paths to contents and modification times; whether the operating system
  gives it a listening socket is a parameter.
\<close>

section \<open>The start\<close>

record boot =
  bt_argv :: "string list"
  bt_files :: "string \<Rightarrow> (string \<times> nat) option"
  bt_create :: "error option"
  bt_now :: ticks
  bt_hardware_concurrency :: nat

definition config_path_of :: "string list \<Rightarrow> string" where
  "config_path_of argv = (if length argv > 1 then argv ! 1 else ''config/atomwall.yaml'')"

definition users_path_of :: "string \<Rightarrow> string" where
  "users_path_of config_path = path_append (parent_path config_path) ''users.yaml''"

definition worker_count :: "nat \<Rightarrow> nat" where
  "worker_count hardware_concurrency = max 1 hardware_concurrency"

definition config_codec :: "('n, 'k) platform \<Rightarrow> ticks \<Rightarrow> codec" where
  "config_codec pf now = \<lparr>codec.to_yaml_config = Yaml_Codec.to_yaml_config (pf_yaml pf),
     codec.parse_yaml_config = Yaml_Codec.parse_yaml_config (pf_yaml pf) (pf_address pf) now\<rparr>"

text \<open>The services besides \<open>AppState\<close>'s own: the two databases and the certificates of the sites, whose
  snapshots the model numbers.\<close>

record ('d, 'c) process =
  pr_state :: AdminState
  pr_config_store :: config_system
  pr_geoip :: "'d mmdb_service"
  pr_asn :: "'d mmdb_service"
  pr_tls_sites :: "(nat, 'c) tls_system"
  pr_workers :: nat

datatype 'p outcome = Exited nat | Terminated error | Running 'p

definition kRequestLogCapacity :: nat where
  "kRequestLogCapacity = 5000"

text \<open>The state \<open>main\<close> puts together from a configuration and the accounts.\<close>

definition fresh_state :: "RuntimeConfig \<Rightarrow> UserStore \<Rightarrow> AdminState" where
  "fresh_state config users =
     \<lparr>as_config = config,
      as_request_log = new_request_log kRequestLogCapacity
        (if rl_enabled (cfg_request_log config) then rl_csv_path (cfg_request_log config) else []),
      as_ip_blocks = new_ip_block_tracker (minutes 1), as_scores = new_score_tracker kDefaultMaxTrackedIps,
      as_rate_tracker = new_rate_tracker, as_globe_events = new_globe_event_log (globe_history_size (cfg_globe config)),
      as_users = users, as_sessions = [], as_pending_mfa = [], as_pending_totp = [],
      as_webauthn_challenges = new_challenge_store,
      as_login_history = \<lparr>lh_buffer = [], lh_capacity = 200, lh_next_seq = 1\<rparr>, as_server_location = None\<rparr>"

text \<open>A configuration that does not load ends the process with a message; \<open>users->load()\<close> stands
  outside the \<open>try\<close> block, so an accounts file that does not load terminates it.\<close>

definition start_process ::
  "('n, 'k) platform \<Rightarrow> ('d, 'e) mmdb_lib \<Rightarrow> 'c disk \<Rightarrow> boot \<Rightarrow> ('d, 'c) process outcome" where
  "start_process pf L D b =
     (let config_path = config_path_of (bt_argv b) in
      case load_or_create (config_codec pf (bt_now b)) (bt_create b) (bt_files b config_path) of
        Inl e \<Rightarrow> Exited 1
      | Inr config_store \<Rightarrow>
          (let config = cs_current config_store;
               users_path = users_path_of config_path
           in case load_store (pf_yaml pf)
                    \<lparr>us_users = [], us_last_totp_step = [], us_file = map_option fst (bt_files b users_path)\<rparr> of
                (Inl e, _) \<Rightarrow> Terminated e
              | (Inr _, users) \<Rightarrow>
                  Running \<lparr>pr_state = fresh_state config users, pr_config_store = config_store,
                    pr_geoip = new_geoip_service L (mmdb_path (cfg_geoip config)),
                    pr_asn = new_asn_service L (asn_mmdb_path (cfg_geoip config)),
                    pr_tls_sites = new_tls_system D, pr_workers = worker_count (bt_hardware_concurrency b)\<rparr>))"

section \<open>The services\<close>

datatype service = Http_Service | Https_Service | Admin_Service | Globe_Service | Config_Poll | Locate_Server

definition services_of :: "RuntimeConfig \<Rightarrow> service list" where
  "services_of config =
     (if http_enabled (cfg_http config) then [Http_Service] else [])
     @ (if https_enabled (cfg_https config) then [Https_Service] else [])
     @ (if admin_enabled (cfg_admin config) then [Admin_Service] else [])
     @ (if globe_public_enabled (cfg_globe config) then [Globe_Service] else [])
     @ [Config_Poll, Locate_Server]"

text \<open>\<open>make_tls_server_context\<close> for a server that has both files configured.\<close>

definition tls_context_error :: "'c disk \<Rightarrow> bool \<Rightarrow> string \<Rightarrow> string \<Rightarrow> error option" where
  "tls_context_error D use_tls cert_file key_file =
     (if use_tls \<and> dk_context D cert_file key_file = None then Some (RuntimeError ''use_certificate_chain_file'') else None)"

text \<open>What a service does before it first waits: \<open>listens\<close> is the exception of opening the acceptor.\<close>

fun open_service ::
  "('n, 'k) platform \<Rightarrow> 'c disk \<Rightarrow> (ip_address \<times> u16 \<Rightarrow> error option) \<Rightarrow> AdminState \<Rightarrow> service \<Rightarrow> error option" where
  "open_service pf D listens s Http_Service =
     (case run_http_listener (pf_address pf) (as_config s) of Inl e \<Rightarrow> Some e | Inr endpoint \<Rightarrow> listens endpoint)"
| "open_service pf D listens s Https_Service =
     (case run_tls_listener (pf_address pf) D (as_config s) of
        Inl e \<Rightarrow> Some e
      | Inr (_, _, endpoint) \<Rightarrow> listens endpoint)"
| "open_service pf D listens s Admin_Service =
     (case run_admin_server pf s of
        Inl e \<Rightarrow> Some e
      | Inr (address, port, use_tls) \<Rightarrow>
          (let admin = cfg_admin (as_config s) in
           case listens (address, port) of
             Some e \<Rightarrow> Some e
           | None \<Rightarrow> tls_context_error D use_tls (admin_tls_cert_file admin) (admin_tls_key_file admin)))"
| "open_service pf D listens s Globe_Service =
     (case run_globe_server pf s of
        Inl e \<Rightarrow> Some e
      | Inr (address, port, use_tls) \<Rightarrow>
          (let globe = cfg_globe (as_config s) in
           case listens (address, port) of
             Some e \<Rightarrow> Some e
           | None \<Rightarrow> tls_context_error D use_tls (globe_public_tls_cert_file globe) (globe_public_tls_key_file globe)))"
| "open_service pf D listens s Config_Poll = None"
| "open_service pf D listens s Locate_Server = None"

text \<open>The completion handler of every service: the status the process exits with, if it does.\<close>

definition fatal_on_error :: "error option \<Rightarrow> nat option" where
  "fatal_on_error e = map_option (\<lambda>_. 1) e"

text \<open>\<open>main\<close> up to the point where all services wait.\<close>

definition atomwall_main ::
  "('n, 'k) platform \<Rightarrow> ('d, 'e) mmdb_lib \<Rightarrow> 'c disk \<Rightarrow> (ip_address \<times> u16 \<Rightarrow> error option) \<Rightarrow> boot
     \<Rightarrow> ('d, 'c) process outcome" where
  "atomwall_main pf L D listens b =
     (case start_process pf L D b of
        Running p \<Rightarrow>
          (case List.map_filter (\<lambda>svc. fatal_on_error (open_service pf D listens (pr_state p) svc))
                  (services_of (as_config (pr_state p))) of
             [] \<Rightarrow> Running p
           | status # _ \<Rightarrow> Exited status)
      | ended \<Rightarrow> ended)"

section \<open>The poll of the configuration file\<close>

text \<open>\<open>poll_for_external_changes\<close> when nothing runs in between.\<close>

definition poll_once :: "codec \<Rightarrow> config_system \<Rightarrow> config_system" where
  "poll_once cd s =
     (case cs_file s of
        None \<Rightarrow> s
      | Some (contents, mtime) \<Rightarrow>
          (if mtime = cs_last_mtime s then s
           else case codec.parse_yaml_config cd contents of
                  Inl e \<Rightarrow> s
                | Inr c \<Rightarrow> s\<lparr>cs_current := c, cs_last_mtime := mtime\<rparr>))"

text \<open>The loop: what the rest of the process does to the store in each two seconds of waiting.\<close>

fun run_config_poll_loop :: "codec \<Rightarrow> (config_system \<Rightarrow> config_system) list \<Rightarrow> config_system \<Rightarrow> config_system" where
  "run_config_poll_loop cd [] s = s"
| "run_config_poll_loop cd (waited # rounds) s = run_config_poll_loop cd rounds (poll_once cd (waited s))"

section \<open>The server's location\<close>

definition kPublicIpUrl :: string where
  "kPublicIpUrl = ''https://api.ipify.org''"

definition trim_back :: "string \<Rightarrow> string" where
  "trim_back s = rev (dropWhile isspace (rev s))"

definition resolve_server_location ::
  "address_lib \<Rightarrow> ticks \<Rightarrow> download_net \<Rightarrow> ('d, 'e) mmdb_lib \<Rightarrow> (ip_address \<Rightarrow> string) \<Rightarrow> 'd mmdb_service
     \<Rightarrow> RuntimeConfig \<Rightarrow> ServerLocationCache \<Rightarrow> ServerLocationCache \<times> net_action list" where
  "resolve_server_location A now nw L to_string geoip config cache =
     (let globe = cfg_globe config in
      case (globe_server_lat globe, globe_server_lon globe) of
        (Some lat, Some lon) \<Rightarrow> (location_set \<lparr>geo_lat = lat, geo_lon = lon, geo_country = []\<rparr> cache, [])
      | _ \<Rightarrow>
          (if \<not> globe_auto_detect_server_location globe \<or> \<not> loaded geoip then (cache, [])
           else case fetch_url A now nw kPublicIpUrl 64 5 of
                  (fetched, acts) \<Rightarrow>
                    (if \<not> uf_ok fetched then (cache, acts)
                     else case al_make_address A (trim_back (uf_body fetched)) of
                            None \<Rightarrow> (cache, acts)
                          | Some address \<Rightarrow>
                              (case geoip_lookup L to_string geoip address of
                                 None \<Rightarrow> (cache, acts)
                               | Some location \<Rightarrow> (location_set location cache, acts)))))"

section \<open>What runs\<close>

lemma running_main:
  "atomwall_main pf L D listens b = Running p \<longleftrightarrow>
     start_process pf L D b = Running p
     \<and> (\<forall>svc \<in> set (services_of (as_config (pr_state p))). open_service pf D listens (pr_state p) svc = None)"
  by (auto simp: atomwall_main_def List.map_filter_def fatal_on_error_def filter_empty_conv filter_eq_Cons_iff
      split: outcome.splits list.splits)

lemma running_process:
  assumes "start_process pf L D b = Running p"
  obtains store users where
    "load_or_create (config_codec pf (bt_now b)) (bt_create b) (bt_files b (config_path_of (bt_argv b))) = Inr store"
    "load_store (pf_yaml pf) \<lparr>us_users = [], us_last_totp_step = [],
       us_file = map_option fst (bt_files b (users_path_of (config_path_of (bt_argv b))))\<rparr> = (Inr (), users)"
    "pr_state p = fresh_state (cs_current store) users" "pr_config_store p = store"
    "pr_geoip p = new_geoip_service L (mmdb_path (cfg_geoip (cs_current store)))"
  using assms
  by (auto simp: start_process_def Let_def split: sum.splits prod.splits intro: that)

text \<open>A configuration the process runs with was read from text.\<close>

lemma loaded_from_text:
  assumes "load_or_create (config_codec pf now) io f = Inr store"
  shows "\<exists>contents. Yaml_Codec.parse_yaml_config (pf_yaml pf) (pf_address pf) now contents = Inr (cs_current store)"
  using assms by (auto simp: load_or_create_def Let_def bind_result_Inr_iff config_codec_def split: option.splits)

definition exposed_safely :: "('n, 'k) platform \<Rightarrow> AdminState \<Rightarrow> bool" where
  "exposed_safely pf s \<longleftrightarrow>
     (\<exists>address. pf_address pf (bind_text (as_config s)) = Some address
        \<and> (al_is_loopback (pf_addresses pf) address \<or> admin_uses_tls s))"

lemma admin_service_exposed_safely: "open_service pf D listens s Admin_Service = None \<Longrightarrow> exposed_safely pf s"
  by (auto simp: run_admin_server_def exposed_safely_def Let_def split: option.splits if_splits)

text \<open>An accounts file that does not load ends the process by an exception nobody catches, where a
  configuration that does not load ends it with a message and status 1.\<close>

lemma unreadable_accounts_terminate:
  assumes "load_or_create (config_codec pf (bt_now b)) (bt_create b) (bt_files b (config_path_of (bt_argv b))) = Inr store"
    and "bt_files b (users_path_of (config_path_of (bt_argv b))) = Some (contents, t)"
    and "y_load (pf_yaml pf) contents = None"
  shows "atomwall_main pf L D listens b = Terminated (RuntimeError ''yaml'')"
  using assms by (simp add: atomwall_main_def start_process_def Let_def load_store_def)

lemma main_exits_with_one: "atomwall_main pf L D listens b = Exited n \<Longrightarrow> n = 1"
  by (auto simp: atomwall_main_def start_process_def Let_def List.map_filter_def fatal_on_error_def
      filter_eq_Cons_iff split: outcome.splits list.splits sum.splits prod.splits)


section \<open>Edits by hand\<close>

definition times_past :: "config_system \<Rightarrow> bool" where
  "times_past s \<longleftrightarrow> cs_last_mtime s < cs_clock s \<and> (\<forall>c t. cs_file s = Some (c, t) \<longrightarrow> t < cs_clock s)
     \<and> (case cs_poll s of No_Poll \<Rightarrow> True | Reading t \<Rightarrow> t < cs_clock s | Publishing c t \<Rightarrow> t < cs_clock s)"

lemma times_past_step: "config_step cd s e s' \<Longrightarrow> times_past s \<Longrightarrow> times_past s'"
  by (induction rule: config_step.induct) (auto simp: times_past_def put_file_def split: poll_pc.splits)

lemma times_past_run:
  assumes "load_or_create cd io f = Inr s0" and "config_run cd s0 es s"
  shows "times_past s"
  using assms(2)
proof (induction rule: config_run.induct)
  case start
  show ?case using assms(1)
    by (auto simp: times_past_def load_or_create_def Let_def bind_result_Inr_iff split: option.splits)
next
  case (more es s' e s'')
  then show ?case by (simp add: times_past_step)
qed

text \<open>The poll is a run of its steps.\<close>

lemma poll_once_runs:
  assumes "cs_poll s = No_Poll"
  shows "\<exists>es. set es \<subseteq> {Polled} \<and> config_run cd s es (poll_once cd s)"
proof (cases "poll_once cd s = s")
  case True
  then show ?thesis by (intro exI [of _ "[]"]) simp
next
  case False
  then obtain contents t c where f: "cs_file s = Some (contents, t)" "t \<noteq> cs_last_mtime s"
      "codec.parse_yaml_config cd contents = Inr c"
    and once: "poll_once cd s = s\<lparr>cs_current := c, cs_last_mtime := t\<rparr>"
    by (auto simp: poll_once_def split: option.splits prod.splits if_splits sum.splits)
  let ?read = "s\<lparr>cs_poll := Reading t\<rparr>" and ?publish = "s\<lparr>cs_poll := Publishing c t\<rparr>"
  have "config_run cd s ((([] @ [Polled]) @ [Polled]) @ [Polled])
      (?publish\<lparr>cs_current := c, cs_last_mtime := t, cs_poll := No_Poll\<rparr>)"
  proof (intro config_run.more)
    show "config_run cd s [] s" by simp
    show "config_step cd s Polled ?read" using assms f(1,2) by (rule config_step.poll_stat)
    show "config_step cd ?read Polled ?publish"
      using config_step.poll_parse [of ?read t contents t cd c] f by simp
    show "config_step cd ?publish Polled (?publish\<lparr>cs_current := c, cs_last_mtime := t, cs_poll := No_Poll\<rparr>)"
      by (rule config_step.poll_publish) simp
  qed
  moreover have "?publish\<lparr>cs_current := c, cs_last_mtime := t, cs_poll := No_Poll\<rparr> = poll_once cd s"
    using assms by (simp add: once)
  ultimately show ?thesis by (intro exI [of _ "[Polled, Polled, Polled]"]) simp
qed

lemma poll_once_again: "poll_once cd (poll_once cd s) = poll_once cd s"
  by (auto simp: poll_once_def split: option.splits sum.splits)

lemma poll_rounds: "run_config_poll_loop cd (replicate n id) (poll_once cd s) = poll_once cd s"
  by (induction n) (simp_all add: poll_once_again)


section \<open>Edits by the administration\<close>

text \<open>C24: What a handler does in one step, \<open>update_config\<close>, is a run of the store: a refused edit leaves what is
  published and what waits to be written, an accepted one is published and queued for the file.\<close>

theorem edits_run_the_store:
  assumes "cs_current c = as_config s" and "cs_update c = No_Update" and "\<not> cs_stop c"
    and "update_config m s = (r, s')"
  shows "\<exists>es c'. config_run cd c es c' \<and> cs_current c' = as_config s' \<and> cs_update c' = No_Update
    \<and> (case r of
         Inl e \<Rightarrow> m (as_config s) = Inl e \<and> updates es = [] \<and> cs_pending_write c' = cs_pending_write c
       | Inr _ \<Rightarrow> updates es = [m] \<and> cs_pending_write c' = Some (as_config s'))"
proof (cases "m (as_config s)")
  case (Inl e)
  let ?copied = "c\<lparr>cs_update := Mutating (cs_current c)\<rparr>"
  have "config_run cd c (([] @ [Update_Step]) @ [Refused m]) (?copied\<lparr>cs_update := No_Update\<rparr>)"
  proof (intro config_run.more)
    show "config_run cd c [] c" by simp
    show "config_step cd c Update_Step ?copied" using assms(2,3) by (rule config_step.copy)
    show "config_step cd ?copied (Refused m) (?copied\<lparr>cs_update := No_Update\<rparr>)"
      by (rule config_step.refuse [where c = "cs_current c" and e = e]) (simp_all add: assms(1) Inl)
  qed
  with assms Inl show ?thesis
    by (intro exI [of _ "[Update_Step, Refused m]"] exI [of _ "?copied\<lparr>cs_update := No_Update\<rparr>"])
       (auto simp: update_config_def)
next
  case (Inr config)
  have "config_run cd c ([] @ [Update_Step, Updated m, Update_Step])
      (c\<lparr>cs_current := config, cs_pending_write := Some config, cs_update := No_Update\<rparr>)"
    using assms(1-3) Inr by (intro update_run) simp_all
  with assms(4) Inr show ?thesis
    by (intro exI [of _ "[Update_Step, Updated m, Update_Step]"]
          exI [of _ "c\<lparr>cs_current := config, cs_pending_write := Some config, cs_update := No_Update\<rparr>"])
       (auto simp: update_config_def)
qed

section \<open>Where the server is\<close>

text \<open>The operations on the network that ask the public-address service, and nothing else.\<close>

fun asks_own_address :: "address_lib \<Rightarrow> ticks \<Rightarrow> net_action \<Rightarrow> bool" where
  "asks_own_address A now (Resolve_Host host port) = (host = ''api.ipify.org'' \<and> port = ''443'')"
| "asks_own_address A now (Connect endpoint) = (\<not> is_disallowed_address A now (fst endpoint))"
| "asks_own_address A now (Tls_Handshake host) = (host = ''api.ipify.org'')"
| "asks_own_address A now (Send tls request) = (tls \<and> gr_host request = ''api.ipify.org'' \<and> gr_target request = ''/'')"
| "asks_own_address A now (Receive tls n) = (tls \<and> n = 64)"

lemma parse_own_address_url:
  "parse_url kPublicIpUrl = Some \<lparr>pu_https = True, pu_host = ''api.ipify.org'', pu_port = ''443'', pu_target = ''/''\<rparr>"
  by code_simp

lemma first_allowed_is_allowed: "first_allowed A now endpoints = Some e \<Longrightarrow> \<not> is_disallowed_address A now (fst e)"
  by (induction endpoints) (auto split: if_splits)

lemma fetch_own_address:
  "list_all (asks_own_address A now) (snd (fetch_url A now nw kPublicIpUrl 64 5))"
  using first_allowed_is_allowed [of A now]
  by (auto simp: fetch_url_def parse_own_address_url connect_and_get_def exchange_request_def Let_def
      split: sum.splits option.splits)

lemma resolve_asks_own_address:
  "list_all (asks_own_address A now) (snd (resolve_server_location A now nw L to_string geoip config cache))"
  using fetch_own_address [of A now nw]
  by (auto simp: resolve_server_location_def Let_def split: option.splits prod.splits)

definition manual_location :: "GlobeConfig \<Rightarrow> GeoLocation option" where
  "manual_location globe =
     (case (globe_server_lat globe, globe_server_lon globe) of
        (Some lat, Some lon) \<Rightarrow> Some \<lparr>geo_lat = lat, geo_lon = lon, geo_country = []\<rparr>
      | _ \<Rightarrow> None)"

text \<open>Finding out where the server is never fails and is discreet: coordinates that are configured are
  taken as they are, and the network is touched only when they are missing, automatic detection is
  on and the address database is loaded; then only the public-address service is asked, over TLS
  and never at an internal address, and the location is one the database has for some address.\<close>

theorem server_location_discreet:
  assumes "resolve_server_location A now nw L to_string geoip config cache = (cache', acts)"
  shows "list_all (asks_own_address A now) acts
    \<and> (case manual_location (cfg_globe config) of
         Some l \<Rightarrow> cache' = Some l \<and> acts = []
       | None \<Rightarrow>
           (acts \<noteq> [] \<longrightarrow> globe_auto_detect_server_location (cfg_globe config) \<and> loaded geoip)
           \<and> (cache' = cache \<or> (\<exists>address. cache' = geoip_lookup L to_string geoip address \<and> acts \<noteq> [])))"
proof -
  have "snd (fetch_url A now nw kPublicIpUrl 64 5) \<noteq> []"
    by (auto simp: fetch_url_def parse_own_address_url split: sum.splits option.splits)
  then show ?thesis
    using assms resolve_asks_own_address [of A now nw L to_string geoip config cache]
    by (auto simp: resolve_server_location_def manual_location_def location_set_def Let_def
        split: option.splits prod.splits if_splits)
qed

section \<open>A start\<close>

text \<open>A process that finds an empty configuration file, no accounts, and a certificate where it looks.\<close>

definition start_address :: "string \<Rightarrow> ip_address option" where
  "start_address = [''0.0.0.0'' \<mapsto> V4 [0, 0, 0, 0], ''127.0.0.1'' \<mapsto> V4 [127, 0, 0, 1]]"

definition start_platform :: "json_object \<Rightarrow> (tree, bytes) platform" where
  "start_platform obj = (sample_platform obj)\<lparr>pf_addresses := boost_addresses\<lparr>al_make_address := start_address\<rparr>\<rparr>"

definition start_databases :: "(unit, unit) mmdb_lib" where
  "start_databases = \<lparr>mm_open = (\<lambda>_. Some ()), mm_lookup_string = (\<lambda>_ _. None), mm_get_value = (\<lambda>_ _. None)\<rparr>"

definition start_disk :: "unit disk" where
  "start_disk = \<lparr>dk_mtime = (\<lambda>_. 0), dk_context = (\<lambda>_ _. Some ())\<rparr>"

definition start_boot :: boot where
  "start_boot = \<lparr>bt_argv = [''atomwall''], bt_files = [''config/atomwall.yaml'' \<mapsto> (tree_text (Node []), 7)],
     bt_create = None, bt_now = 0, bt_hardware_concurrency = 4\<rparr>"

lemma empty_file_loads: "Yaml_Codec.parse_yaml_config tree_yaml mk now (tree_text (Node [])) = Inr default_config"
proof -
  have load: "y_load tree_yaml (tree_text (Node [])) = Some (Node [])"
    by (simp add: tree_yaml_def tree_text_def tree_of_text_def)
  show ?thesis
    unfolding parse_yaml_config_def load
    by (simp add: read_section_def subscript_def tree_yaml_def read_site_list_def default_config_simps)
qed

lemma start_runs:
  "\<exists>p. atomwall_main (start_platform obj) start_databases start_disk (\<lambda>_. None) start_boot = Running p
     \<and> as_config (pr_state p) = default_config
     \<and> as_users (pr_state p) = \<lparr>us_users = [], us_last_totp_step = [], us_file = None\<rparr> \<and> as_sessions (pr_state p) = []"
proof -
  have users: "users_path_of ''config/atomwall.yaml'' = ''config/users.yaml''" by code_simp
  have pf: "pf_yaml (start_platform obj) = tree_yaml" "pf_address (start_platform obj) = start_address"
    "al_is_loopback (pf_addresses (start_platform obj)) (V4 [127, 0, 0, 1])"
    by (simp_all add: start_platform_def sample_platform_def boost_addresses_def)
  have "\<exists>p. start_process (start_platform obj) start_databases start_disk start_boot = Running p
      \<and> as_config (pr_state p) = default_config
      \<and> as_users (pr_state p) = \<lparr>us_users = [], us_last_totp_step = [], us_file = None\<rparr> \<and> as_sessions (pr_state p) = []"
    by (simp add: start_process_def start_boot_def config_path_of_def load_or_create_def config_codec_def pf
        empty_file_loads users load_store_def fresh_state_def)
  then obtain p where p: "start_process (start_platform obj) start_databases start_disk start_boot = Running p"
    "as_config (pr_state p) = default_config"
    "as_users (pr_state p) = \<lparr>us_users = [], us_last_totp_step = [], us_file = None\<rparr>" "as_sessions (pr_state p) = []"
    by blast
  have "\<forall>svc \<in> set (services_of default_config). open_service (start_platform obj) start_disk (\<lambda>_. None) (pr_state p) svc = None"
    by (simp add: services_of_def default_config_simps run_http_listener_def run_tls_listener_def run_admin_server_def
        bind_listener_def bind_text_def tls_context_error_def admin_uses_tls_def p(2) pf start_address_def start_disk_def Let_def)
  with p show ?thesis by (auto simp: running_main)
qed

lemma start_addresses: "address_parser (pf_address (start_platform obj))"
  by (simp add: address_parser_def start_platform_def start_address_def)



theorem edits_run_the_store_witness:
  "\<exists>es c. config_run sample_codec start_system es c \<and> updates es = [set_port 81] \<and> ports c = 81"
proof -
  let ?s = "sample_admin (cs_current start_system) empty_store []"
  obtain r s' where u: "update_config (set_port 81) ?s = (r, s')" by fastforce
  then have r: "r = Inr ()" "http_port (cfg_http (as_config s')) = 81"
    by (auto simp: update_config_def set_port_def)
  have c: "cs_current start_system = as_config ?s" "cs_update start_system = No_Update" "\<not> cs_stop start_system"
    by (simp_all add: start_system_def)
  obtain es c where "config_run sample_codec start_system es c" "cs_current c = as_config s'" "updates es = [set_port 81]"
    using edits_run_the_store [OF c u, of sample_codec] by (auto simp: r(1))
  with r(2) show ?thesis unfolding ports_def by metis
qed

theorem server_location_discreet_witness:
  "\<exists>acts. resolve_server_location boost_addresses 0 sample_net start_databases (\<lambda>_. ''1.2.3.4'') (Some ()) default_config None
      = (None, acts) \<and> list_all (asks_own_address boost_addresses 0) acts"
proof -
  obtain c acts where r: "resolve_server_location boost_addresses 0 sample_net start_databases (\<lambda>_. ''1.2.3.4'') (Some ())
      default_config None = (c, acts)" by fastforce
  from server_location_discreet [OF r] r show ?thesis
    by (auto simp: manual_location_def default_config_simps geoip_lookup_def start_databases_def)
qed

end
