(* ===== verification/Process.thy ===== *)
theory Process
  imports Startup Admin_Login
begin

text \<open>
  The whole process: the visitors' requests, the administrators' requests, the reload of the
  configuration and the lookup of the server's location, in any order, from the state \<open>main\<close> puts
  together.  The theorems of the components assume an invariant of the service they are about; here
  all of these invariants are shown of every state the process reaches.
\<close>

section \<open>Steps\<close>

definition app_of :: "AdminState \<Rightarrow> AppState" where
  "app_of s = AppState.truncate s"

definition with_app :: "AppState \<Rightarrow> AdminState \<Rightarrow> AdminState" where
  "with_app st s = AppState.extend st (AppState.more s)"

lemma app_of_simps [simp]:
  "as_scores (app_of s) = as_scores s" "as_ip_blocks (app_of s) = as_ip_blocks s"
  "as_request_log (app_of s) = as_request_log s" "as_globe_events (app_of s) = as_globe_events s"
  "as_config (app_of s) = as_config s"
  by (simp_all add: app_of_def AppState.truncate_def)

lemma with_app_simps [simp]:
  "as_scores (with_app st s) = as_scores st" "as_ip_blocks (with_app st s) = as_ip_blocks st"
  "as_request_log (with_app st s) = as_request_log st" "as_globe_events (with_app st s) = as_globe_events st"
  "as_config (with_app st s) = as_config st"
  "as_sessions (with_app st s) = as_sessions s" "as_pending_mfa (with_app st s) = as_pending_mfa s"
  "as_webauthn_challenges (with_app st s) = as_webauthn_challenges s"
  by (cases s; simp add: with_app_def AppState.extend_def)+

text \<open>Each visitor is judged by the snapshot its request began with, so its configuration is not tied to
  the current one.\<close>

inductive process_step :: "('n, 'k) platform \<Rightarrow> AdminState \<Rightarrow> AdminState \<Rightarrow> bool" for pf where
  visitor_header: "header_phase cn config ck header (app_of s) = Some (st, outcome) \<Longrightarrow>
    process_step pf s (with_app st s)"
| visitor_body: "body_phase cn config ck header w event body (app_of s) = Some (st, answered) \<Longrightarrow>
    process_step pf s (with_app st s)"
| visitor_answer: "upstream_phase cn config header ka n event answer (app_of s) = (st, r, keep) \<Longrightarrow>
    process_step pf s (with_app st s)"
| admin: "dispatch pf mo request user client_ip = Answer h \<Longrightarrow> process_step pf s (snd (h s))"
| reload: "process_step pf s (s\<lparr>as_config := c\<rparr>)"
| locate: "process_step pf s (s\<lparr>as_server_location := l\<rparr>)"

section \<open>What a visitor's request changes\<close>

definition scored :: "AppState \<Rightarrow> AppState \<Rightarrow> bool" where
  "scored st st' \<longleftrightarrow> st' = st \<or> (\<exists>config ck ip t name. award_score config ck ip t name st = Some st')"

definition recorded :: "AppState \<Rightarrow> AppState \<Rightarrow> bool" where
  "recorded st st' \<longleftrightarrow> st' = st \<or> (\<exists>geo event. st' = record_events geo event st)"

definition served :: "AppState \<Rightarrow> AppState \<Rightarrow> bool" where
  "served st st' \<longleftrightarrow> (\<exists>t st1. scored (st\<lparr>as_rate_tracker := t\<rparr>) st1 \<and> recorded st1 st')"

lemma served_finishes: "scored (st\<lparr>as_rate_tracker := t\<rparr>) st1 \<Longrightarrow> served st (finish_event cn n r event st1)"
  unfolding served_def recorded_def finish_event_def by blast

lemma scored_refl [simp]: "scored st st"
  by (simp add: scored_def)

lemma served_same [simp]: "served st (st\<lparr>as_rate_tracker := t\<rparr>)"
  unfolding served_def recorded_def using scored_refl by blast

lemma served_finish [simp]: "served st (finish_event cn n r event (st\<lparr>as_rate_tracker := t\<rparr>))"
  by (rule served_finishes [where t = t]) simp

lemma served_refuse: "served st (fst (refuse cn header why html status event st))"
  using served_finish [where st = st and t = "as_rate_tracker st"] by (simp add: refuse_def Let_def)

lemma served_reject:
  "reject cn config ck header n result event (st\<lparr>as_rate_tracker := t\<rparr>) = Some (st', r) \<Longrightarrow> served st st'"
  by (auto simp: reject_def Let_def scored_def split: option.splits intro!: served_finishes [where t = t])

lemma header_phase_served:
  assumes "header_phase cn config ck header st = Some (st', outcome)"
  shows "served st st'"
proof -
  have rejected: "closing (reject cn config ck header 0 result event (st\<lparr>as_rate_tracker := t\<rparr>)) = Some (st', outcome)
      \<Longrightarrow> served st st'" for result event t
    by (auto simp: closing_def dest: served_reject)
  have refused: "closing (Some (refuse cn header why html status event st)) = Some (st', outcome) \<Longrightarrow> served st st'"
    for why html status event
    using served_refuse [of st cn header why html status event] by (auto simp: closing_def split: prod.splits)
  show ?thesis
    using assms unfolding header_phase_def Let_def split_def
    by (auto split: if_splits simp del: closing_simps dest: rejected refused)
qed

lemma body_phase_served:
  "body_phase cn config ck header w event body st = Some (st', answered) \<Longrightarrow> served st st'"
  using served_same [where st = st and t = "as_rate_tracker st"] served_reject [where st = st and t = "as_rate_tracker st"]
  by (auto simp: body_phase_def Let_def split: if_splits)

lemma upstream_phase_served:
  "upstream_phase cn config header ka n event answer st = (st', r, keep) \<Longrightarrow> served st st'"
  using served_finish [where st = st and t = "as_rate_tracker st"]
  by (auto simp: upstream_phase_def Let_def split: option.splits)

section \<open>The invariants\<close>

text \<open>What holds of the services the visitors use after \<open>n\<close> steps: each step draws at most one number of
  each of the three sequences.\<close>

definition numbers_ok :: "nat \<Rightarrow> AppState \<Rightarrow> bool" where
  "numbers_ok n st \<longleftrightarrow> unat (st_next_seq (as_scores st)) \<le> n
     \<and> unat (rq_latest_seq (as_request_log st)) \<le> n \<and> unat (globe_latest_seq (as_globe_events st)) \<le> n"

definition traffic_ok :: "AppState \<Rightarrow> bool" where
  "traffic_ok st \<longleftrightarrow> score_ok (as_scores st) \<and> blocks_ok (as_ip_blocks st)
     \<and> rq_ok (as_request_log st) \<and> globe_ok (as_globe_events st)"

definition logins_ok :: "AdminState \<Rightarrow> bool" where
  "logins_ok s \<longleftrightarrow> stores_ok s \<and> challenges_ok (as_webauthn_challenges s)"

lemma award_score_blocks_ok:
  "award_score config ck ip t name st = Some st' \<Longrightarrow> blocks_ok (as_ip_blocks st) \<Longrightarrow> blocks_ok (as_ip_blocks st')"
  by (auto simp: award_score_def Let_def add_block_ok split: if_splits option.splits)

lemma scored_ok:
  assumes "scored st st'" and "traffic_ok st" and "st_next_seq (as_scores st) \<noteq> - 1"
  shows "traffic_ok st' \<and> unat (st_next_seq (as_scores st')) \<le> Suc (unat (st_next_seq (as_scores st)))
    \<and> as_request_log st' = as_request_log st \<and> as_globe_events st' = as_globe_events st"
proof (cases "st' = st")
  case False
  then obtain config ck ip t name where a: "award_score config ck ip t name st = Some st'"
    using assms(1) by (auto simp: scored_def)
  with award_score_seq [OF a _ assms(3)] award_score_blocks_ok [OF a] award_score_frame [OF a] assms(2)
  show ?thesis by (auto simp: traffic_ok_def)
qed (use assms(2) in simp)

lemma sequence_step:
  assumes "unat (l :: u64) \<le> n" and "Suc (Suc n) < 2 ^ 64"
  shows "unat l + 2 < 2 ^ 64" and "unat (l + 1) \<le> Suc n"
  using assms by (simp_all add: unat_word_ariths)

lemma recorded_ok:
  assumes "recorded st st'" and "traffic_ok st" and "Suc (Suc n) < 2 ^ 64"
    and "unat (rq_latest_seq (as_request_log st)) \<le> n" and "unat (globe_latest_seq (as_globe_events st)) \<le> n"
  shows "traffic_ok st' \<and> as_scores st' = as_scores st
    \<and> unat (rq_latest_seq (as_request_log st')) \<le> Suc n \<and> unat (globe_latest_seq (as_globe_events st')) \<le> Suc n"
proof (cases "st' = st")
  case False
  then obtain geo event where st': "st' = record_events geo event st" using assms(1) by (auto simp: recorded_def)
  note rq = requests.ok_push requests.latest_push globe.ok_push globe.latest_push
  show ?thesis
    using assms(2) sequence_step [OF assms(4,3)] sequence_step [OF assms(5,3)] assms(5)
    by (auto simp: st' record_events_def Let_def traffic_ok_def rq split: option.split)
qed (use assms in simp)

lemma served_ok:
  assumes "served st st'" and "traffic_ok st" and "numbers_ok n st" and "Suc (Suc n) < 2 ^ 64"
  shows "traffic_ok st' \<and> numbers_ok (Suc n) st'"
proof -
  obtain t st1 where s: "scored (st\<lparr>as_rate_tracker := t\<rparr>) st1" "recorded st1 st'"
    using assms(1) by (auto simp: served_def)
  have t: "traffic_ok (st\<lparr>as_rate_tracker := t\<rparr>)" using assms(2) by (simp add: traffic_ok_def)
  have "st_next_seq (as_scores st) \<noteq> - 1"
  proof
    assume "st_next_seq (as_scores st) = - 1"
    with assms(3,4) show False by (simp add: numbers_ok_def unat_u64_max)
  qed
  then have 1: "traffic_ok st1" "unat (st_next_seq (as_scores st1)) \<le> Suc n"
      "as_request_log st1 = as_request_log st" "as_globe_events st1 = as_globe_events st"
    using scored_ok [OF s(1) t] assms(3) by (auto simp: numbers_ok_def)
  with recorded_ok [OF s(2) 1(1) assms(4)] assms(3) show ?thesis by (auto simp: numbers_ok_def)
qed

text \<open>An administrator's request touches of the visitors' services the configuration and the blocks.\<close>

definition keeps_order :: "AdminState \<Rightarrow> AdminState \<Rightarrow> bool" where
  "keeps_order s s' \<longleftrightarrow> as_scores s' = as_scores s \<and> as_request_log s' = as_request_log s
     \<and> as_globe_events s' = as_globe_events s \<and> (blocks_ok (as_ip_blocks s) \<longrightarrow> blocks_ok (as_ip_blocks s'))
     \<and> (logins_ok s \<longrightarrow> logins_ok s')"

lemma logins_keep:
  "logins_ok s \<Longrightarrow> logins_ok (s\<lparr>as_sessions := put_session token info now ttl (as_sessions s)\<rparr>)"
  "logins_ok s \<Longrightarrow> logins_ok (s\<lparr>as_sessions := invalidate_session token (as_sessions s)\<rparr>)"
  "logins_ok s \<Longrightarrow> logins_ok (s\<lparr>as_sessions := mark_mfa_satisfied token (as_sessions s)\<rparr>)"
  "logins_ok s \<Longrightarrow> logins_ok (s\<lparr>as_pending_mfa := put_pending_mfa token u now ttl (as_pending_mfa s)\<rparr>)"
  "logins_ok s \<Longrightarrow> logins_ok (s\<lparr>as_pending_mfa := invalidate_pending_mfa token (as_pending_mfa s)\<rparr>)"
  "logins_ok s \<Longrightarrow> logins_ok (s\<lparr>as_webauthn_challenges := start_challenge key ch now ttl (as_webauthn_challenges s)\<rparr>)"
  "logins_ok s \<Longrightarrow> logins_ok (s\<lparr>as_webauthn_challenges := fst (consume_challenge key now (as_webauthn_challenges s))\<rparr>)"
  by (simp_all add: logins_ok_def stores_ok_def put_session_def put_pending_mfa_def invalidate_session_def
      invalidate_pending_mfa_def mark_mfa_satisfied_def start_challenge_sound consume_challenge_sound split: option.split)

lemma logins_ok_frame [simp]:
  "logins_ok (s\<lparr>as_users := u\<rparr>) = logins_ok s" "logins_ok (s\<lparr>as_pending_totp := p\<rparr>) = logins_ok s"
  "logins_ok (s\<lparr>as_login_history := h\<rparr>) = logins_ok s" "logins_ok (s\<lparr>as_config := c\<rparr>) = logins_ok s"
  "logins_ok (s\<lparr>as_ip_blocks := t\<rparr>) = logins_ok s" "logins_ok (s\<lparr>as_server_location := l\<rparr>) = logins_ok s"
  "logins_ok (with_app st s) = logins_ok s"
  by (simp_all add: logins_ok_def stores_ok_def)

interpretation order: admin_frame keeps_order pf "\<lambda>_. True" "\<lambda>_. True" for pf :: "('n, 'k) platform"
  by unfold_locales (auto simp: keeps_order_def logins_keep add_block_ok remove_block_ok list_active_ok)

section \<open>Every run\<close>

lemma app_of_with_app [simp]: "app_of (with_app st s) = st"
  by (cases s; cases st) (simp add: app_of_def with_app_def AppState.defs)

definition sound_after :: "nat \<Rightarrow> AdminState \<Rightarrow> bool" where
  "sound_after n s \<longleftrightarrow> traffic_ok (app_of s) \<and> numbers_ok n (app_of s) \<and> logins_ok s"

lemma process_step_sound:
  assumes "process_step pf s s'" and "sound_after n s" and "Suc (Suc n) < 2 ^ 64"
  shows "sound_after (Suc n) s'"
proof -
  have visit: "served (app_of s) st \<Longrightarrow> sound_after (Suc n) (with_app st s)" for st
    using served_ok [of "app_of s" st n] assms(2,3) by (simp add: sound_after_def)
  note visits = header_phase_served body_phase_served upstream_phase_served
  from assms(1) show ?thesis
  proof cases
    case (admin mo request user client_ip h)
    have "keeps_order s (snd (h s))"
      using order.frame_dispatch [OF TrueI TrueI admin(2)] by (simp add: preserves_def)
    then show ?thesis
      using assms(2) admin(1) by (auto simp: sound_after_def traffic_ok_def numbers_ok_def keeps_order_def)
  next
    case (reload c)
    with assms(2) show ?thesis by (auto simp: sound_after_def traffic_ok_def numbers_ok_def)
  next
    case (locate l)
    with assms(2) show ?thesis by (auto simp: sound_after_def traffic_ok_def numbers_ok_def)
  qed (simp_all add: visit visits)
qed

lemma fresh_state_sound: "sound_after 0 (fresh_state config users)"
  by (simp add: sound_after_def traffic_ok_def numbers_ok_def logins_ok_def stores_ok_def fresh_state_def rq_ok_def
      globe_ok_def new_request_log_def new_globe_event_log_def rq_latest_seq_def globe_latest_seq_def
      new_score_tracker_def [THEN arg_cong [where f = st_next_seq]] challenges_ok_def stamped_entries_def new_challenge_store_def)

lemma process_run_sound:
  assumes "start_process pf L D b = Running p" and "(process_step pf ^^ n) (pr_state p) s" and "n + 2 < 2 ^ 64"
  shows "sound_after n s"
  using assms(2,3)
proof (induction n arbitrary: s)
  case 0
  obtain config users where "pr_state p = fresh_state config users" by (rule running_process [OF assms(1)])
  then show ?case using 0 fresh_state_sound [of config users] by simp
next
  case (Suc n)
  then obtain t where t: "(process_step pf ^^ n) (pr_state p) t" "process_step pf t s" by auto
  with Suc show ?case by (intro process_step_sound [OF t(2)]) simp_all
qed

text \<open>C8: The process as a whole keeps the order its parts rely on: in every state reached from the start by
  fewer than \<open>2^64\<close> requests of visitors and administrators and reloads of the configuration, whatever
  they contain and in whatever order they come, the scores, the blocks, the two event logs, the
  sessions, the pending logins and the challenges satisfy their invariants, no visitor's request
  meets undefined behaviour, and a visitor is refused as banned exactly when a block the
  administrator's list shows covers the address.\<close>

theorem process_stays_sound:
  assumes "atomwall_main pf L D listens b = Running p"
    and "(process_step pf ^^ n) (pr_state p) s" and "n + 2 < 2 ^ 64"
  shows "traffic_ok (app_of s) \<and> logins_ok s
    \<and> header_phase cn config ck header (app_of s) \<noteq> None
    \<and> body_phase cn config ck header w event body (app_of s) \<noteq> None
    \<and> (is_blocked ip now (as_ip_blocks s) \<longleftrightarrow> (\<exists>b \<in> set (snd (list_active now (as_ip_blocks s))). covers b ip))"
proof -
  have sound: "sound_after n s"
    using process_run_sound [OF _ assms(2,3)] assms(1) by (auto simp: running_main)
  then have scores: "score_ok (as_scores (app_of s))" and blocks: "blocks_ok (as_ip_blocks s)"
    by (simp_all add: sound_after_def traffic_ok_def)
  have "st_next_seq (as_scores (app_of s)) \<noteq> - 1"
  proof
    assume "st_next_seq (as_scores (app_of s)) = - 1"
    with sound assms(3) show False by (simp add: sound_after_def numbers_ok_def unat_u64_max)
  qed
  then have "advances (header_phase cn config ck header (app_of s)) (app_of s)"
    "advances (body_phase cn config ck header w event body (app_of s)) (app_of s)"
    using header_phase_advance [OF scores] body_phase_advance [OF scores] by blast+
  with sound is_blocked_listed [OF blocks] show ?thesis by (auto simp: advances_def sound_after_def)
qed

theorem process_stays_sound_witness:
  "\<exists>p s. atomwall_main (start_platform []) start_databases start_disk (\<lambda>_. None) start_boot = Running p
     \<and> (process_step (start_platform []) ^^ 1) (pr_state p) s \<and> traffic_ok (app_of s)"
proof -
  obtain p where p: "atomwall_main (start_platform []) start_databases start_disk (\<lambda>_. None) start_boot = Running p"
    using start_runs by blast
  let ?first = "header_phase sample_connection default_config sample_clocks sample_header (app_of (pr_state p))"
  have "(process_step (start_platform []) ^^ 0) (pr_state p) (pr_state p)" by simp
  from process_stays_sound [OF p this] have "?first \<noteq> None" by simp
  then obtain st outcome where "?first = Some (st, outcome)" by auto
  then have "process_step (start_platform []) (pr_state p) (with_app st (pr_state p))"
    by (rule process_step.visitor_header)
  then have one: "(process_step (start_platform []) ^^ 1) (pr_state p) (with_app st (pr_state p))" by (simp add: eq_OO)
  have "traffic_ok (app_of (with_app st (pr_state p)))"
    using process_stays_sound [OF p one] by simp
  with p one show ?thesis by blast
qed

section \<open>Every session was earned\<close>

text \<open>In a system with the steps \<open>step\<close>, in which \<open>runs y mo request y'\<close> is the execution of a request of
  an administrator: some request on the way from \<open>x0\<close> to \<open>x\<close> was executed where \<open>P\<close> holds.\<close>

definition earned ::
  "('x \<Rightarrow> 'x \<Rightarrow> bool) \<Rightarrow> ('x \<Rightarrow> moment \<Rightarrow> http_request \<Rightarrow> 'x \<Rightarrow> bool) \<Rightarrow> 'x \<Rightarrow> (moment \<Rightarrow> http_request \<Rightarrow> 'x \<Rightarrow> bool)
     \<Rightarrow> 'x \<Rightarrow> bool" where
  "earned step runs x0 P x \<longleftrightarrow>
     (\<exists>y mo request y'. step\<^sup>*\<^sup>* x0 y \<and> step y y' \<and> runs y mo request y' \<and> step\<^sup>*\<^sup>* y' x \<and> P mo request y)"

definition password_earned ::
  "('n, 'k) platform \<Rightarrow> ('x \<Rightarrow> 'x \<Rightarrow> bool) \<Rightarrow> ('x \<Rightarrow> moment \<Rightarrow> http_request \<Rightarrow> 'x \<Rightarrow> bool) \<Rightarrow> ('x \<Rightarrow> AdminState) \<Rightarrow> 'x
     \<Rightarrow> string \<Rightarrow> 'x \<Rightarrow> bool" where
  "password_earned pf step runs st x0 username =
     earned step runs x0 (\<lambda>mo request y. pending_evidence pf request (st y) username)"

definition second_factor_target :: "string \<Rightarrow> bool" where
  "second_factor_target target \<longleftrightarrow>
     target \<in> {''/api/auth/2fa/totp/verify'', ''/api/auth/2fa/backup-code/verify'', ''/api/auth/webauthn/2fa/verify''}"

definition session_earned ::
  "('n, 'k) platform \<Rightarrow> ('x \<Rightarrow> 'x \<Rightarrow> bool) \<Rightarrow> ('x \<Rightarrow> moment \<Rightarrow> http_request \<Rightarrow> 'x \<Rightarrow> bool) \<Rightarrow> ('x \<Rightarrow> AdminState) \<Rightarrow> 'x
     \<Rightarrow> string \<Rightarrow> 'x \<Rightarrow> bool" where
  "session_earned pf step runs st x0 username = earned step runs x0 (\<lambda>mo request y.
     (\<exists>setup. session_evidence pf mo request (st y) username setup)
     \<and> (second_factor_target (hd_target request) \<longrightarrow> password_earned pf step runs st x0 username y))"

lemma pending_user_owner: "pending_user mo request s = Some u \<Longrightarrow> \<exists>t. pending_owner s t = Some u"
  by (auto simp: pending_user_def pending_owner_def validate_pending_mfa_def split: option.splits if_splits)

lemma second_factor_pending:
  "session_evidence pf mo request s u setup \<Longrightarrow> second_factor_target (hd_target request) \<Longrightarrow> \<exists>t. pending_owner s t = Some u"
  by (auto simp: session_evidence_def second_factor_target_def intro: pending_user_owner)

text \<open>All that is asked of such a system: its requests are executed by the dispatcher, and no other step
  touches a login.\<close>

locale login_history =
  fixes pf :: "('n, 'k) platform" and step :: "'x \<Rightarrow> 'x \<Rightarrow> bool"
    and runs :: "'x \<Rightarrow> moment \<Rightarrow> http_request \<Rightarrow> 'x \<Rightarrow> bool" and st :: "'x \<Rightarrow> AdminState"
  assumes runs_dispatch: "runs x mo request x' \<Longrightarrow>
      \<exists>user ip h. dispatch pf mo request user ip = Answer h \<and> st x' = snd (h (st x))"
    and step_logins: "step x x' \<Longrightarrow>
      as_sessions (st x') = as_sessions (st x) \<and> as_pending_mfa (st x') = as_pending_mfa (st x)
      \<or> (\<exists>mo request. runs x mo request x')"
begin

abbreviation password_by :: "'x \<Rightarrow> string \<Rightarrow> 'x \<Rightarrow> bool" where
  "password_by \<equiv> password_earned pf step runs st"

abbreviation session_by :: "'x \<Rightarrow> string \<Rightarrow> 'x \<Rightarrow> bool" where
  "session_by \<equiv> session_earned pf step runs st"

definition logins_earned :: "'x \<Rightarrow> 'x \<Rightarrow> bool" where
  "logins_earned x0 x \<longleftrightarrow> stores_ok (st x)
     \<and> (\<forall>t u. pending_owner (st x) t = Some u \<longrightarrow> password_by x0 u x)
     \<and> (\<forall>t u. session_owner (st x) t = Some u \<longrightarrow> session_by x0 u x)"

lemma earned_later: "earned step runs x0 P x \<Longrightarrow> step x x' \<Longrightarrow> earned step runs x0 P x'"
  unfolding earned_def by (meson rtranclp.rtrancl_into_rtrancl)

lemma logins_later:
  "password_by x0 u x \<Longrightarrow> step x x' \<Longrightarrow> password_by x0 u x'" "session_by x0 u x \<Longrightarrow> step x x' \<Longrightarrow> session_by x0 u x'"
  by (simp_all add: password_earned_def session_earned_def earned_later)

lemma earned_now:
  "step\<^sup>*\<^sup>* x0 x \<Longrightarrow> step x x' \<Longrightarrow> runs x mo request x' \<Longrightarrow> P mo request x \<Longrightarrow> earned step runs x0 P x'"
  unfolding earned_def by (meson rtranclp.rtrancl_refl)

lemma pending_logins_earned_step:
  assumes "step\<^sup>*\<^sup>* x0 x" and "logins_earned x0 x" and "step x x'" and "runs x mo request x'"
    and "grants_only (session_evidence pf mo request (st x)) (pending_evidence pf request (st x)) (st x) (st x')"
    and "pending_owner (st x') t = Some u"
  shows "password_by x0 u x'"
proof (cases "pending_owner (st x) t = Some u")
  case True
  with assms(2,3) logins_later show ?thesis unfolding logins_earned_def by blast
next
  case False
  with assms(2,5,6) have "pending_evidence pf request (st x) u" by (auto simp: grants_only_def logins_earned_def)
  then show ?thesis unfolding password_earned_def by (rule earned_now [OF assms(1,3,4)])
qed

lemma session_logins_earned_step:
  assumes "step\<^sup>*\<^sup>* x0 x" and "logins_earned x0 x" and "step x x'" and "runs x mo request x'"
    and "grants_only (session_evidence pf mo request (st x)) (pending_evidence pf request (st x)) (st x) (st x')"
    and "session_owner (st x') t = Some u"
  shows "session_by x0 u x'"
proof (cases "session_owner (st x) t = Some u")
  case True
  with assms(2,3) logins_later show ?thesis unfolding logins_earned_def by blast
next
  case False
  obtain e where "um_find (as_sessions (st x')) t = Some e" "u = ss_username e"
    using assms(6) by (auto simp: session_owner_def)
  then obtain needs where e: "session_evidence pf mo request (st x) u needs"
    using False assms(2,5) unfolding grants_only_def logins_earned_def by blast
  have "password_by x0 u x" if "second_factor_target (hd_target request)"
    using second_factor_pending [OF e that] assms(2) by (auto simp: logins_earned_def)
  with e show ?thesis unfolding session_earned_def by (intro earned_now [OF assms(1,3,4)]) blast
qed

lemma logins_earned_step:
  assumes "step\<^sup>*\<^sup>* x0 x" and "logins_earned x0 x" and "step x x'"
  shows "logins_earned x0 x'"
  using step_logins [OF assms(3)]
proof
  assume "as_sessions (st x') = as_sessions (st x) \<and> as_pending_mfa (st x') = as_pending_mfa (st x)"
  with assms(2) logins_later [OF _ assms(3)] show ?thesis
    by (simp add: logins_earned_def stores_ok_def session_owner_def pending_owner_def)
next
  assume "\<exists>mo request. runs x mo request x'"
  then obtain mo request where r: "runs x mo request x'" by blast
  then obtain user ip h where "dispatch pf mo request user ip = Answer h" "st x' = snd (h (st x))"
    using runs_dispatch by blast
  then have g: "grants_only (session_evidence pf mo request (st x)) (pending_evidence pf request (st x)) (st x) (st x')"
    using dispatch_grants by metis
  note later = pending_logins_earned_step [OF assms r g] session_logins_earned_step [OF assms r g]
  from g assms(2) have "stores_ok (st x')" by (auto simp: logins_earned_def grants_only_def)
  with later show ?thesis by (auto simp: logins_earned_def)
qed

lemma session_earned_run:
  assumes "as_sessions (st x0) = []" and "as_pending_mfa (st x0) = []" and "step\<^sup>*\<^sup>* x0 x"
    and "validate_session (as_sessions (st x)) token now = Some info"
  shows "session_by x0 (si_username info) x"
proof -
  from assms(3) have "logins_earned x0 x"
  proof (induction rule: rtranclp_induct)
    case base
    then show ?case using assms(1,2)
      by (simp add: logins_earned_def stores_ok_def session_owner_def pending_owner_def)
  next
    case (step x x')
    then show ?case by (blast intro: logins_earned_step)
  qed
  moreover have "session_owner (st x) token = Some (si_username info)"
    using assms(4) by (auto simp: validate_session_def session_owner_def split: option.splits if_splits)
  ultimately show ?thesis by (auto simp: logins_earned_def)
qed

end

definition process_runs ::
  "('n, 'k) platform \<Rightarrow> AdminState \<Rightarrow> moment \<Rightarrow> http_request \<Rightarrow> AdminState \<Rightarrow> bool" where
  "process_runs pf s mo request s' \<longleftrightarrow> (\<exists>user ip h. dispatch pf mo request user ip = Answer h \<and> s' = snd (h s))"

text \<open>The steps other than an administrator's request touch no login.\<close>

lemma process_step_logins:
  assumes "process_step pf s s'"
  shows "as_sessions s' = as_sessions s \<and> as_pending_mfa s' = as_pending_mfa s \<or> (\<exists>mo request. process_runs pf s mo request s')"
  using assms
proof cases
  case (admin mo request user client_ip h)
  then show ?thesis unfolding process_runs_def by blast
qed simp_all

interpretation process: login_history pf "process_step pf" "process_runs pf" "\<lambda>s. s" for pf :: "('n, 'k) platform"
proof unfold_locales
  fix s s'
  show "process_step pf s s' \<Longrightarrow> as_sessions s' = as_sessions s \<and> as_pending_mfa s' = as_pending_mfa s
      \<or> (\<exists>mo request. process_runs pf s mo request s')"
    by (rule process_step_logins)
qed (auto simp: process_runs_def)

lemma fresh_logins:
  assumes "atomwall_main pf L D listens b = Running p"
  shows "as_sessions (pr_state p) = []" "as_pending_mfa (pr_state p) = []"
proof -
  obtain config users where "pr_state p = fresh_state config users"
    using assms by (auto simp: running_main elim: running_process)
  then show "as_sessions (pr_state p) = []" "as_pending_mfa (pr_state p) = []" by (simp_all add: fresh_state_def)
qed

text \<open>C6: From the start of the process on, every session was earned: whoever's token opens a session of an
  account, some request of the run brought the evidence for it in the state it was executed in, and
  when that evidence was a second factor, an earlier request had shown the password of an account
  that has one.  This holds whatever requests, reloads and visitors the run consists of.\<close>

theorem sessions_are_earned:
  assumes "atomwall_main pf L D listens b = Running p" and "(process_step pf)\<^sup>*\<^sup>* (pr_state p) s"
    and "validate_session (as_sessions s) token now = Some info"
  shows "session_earned pf (process_step pf) (process_runs pf) (\<lambda>s. s) (pr_state p) (si_username info) s"
  using fresh_logins [OF assms(1)] assms(2,3) by (intro process.session_earned_run)

text \<open>The first request of a fresh process sets up its first account.\<close>

lemma first_setup:
  assumes "as_users s = \<lparr>us_users = [], us_last_totp_step = [], us_file = None\<rparr>" and "as_sessions s = []"
    and "as_config s = default_config"
    and "json_string_field obj ''username'' = Some ''ann''" and "json_string_field obj ''password'' = Some ''correct horse''"
  shows "\<exists>res. fst (handle_auth_setup (start_platform obj) sample_moment [] 11 ''::1'' s) = Inr res"
    and "validate_session (as_sessions (snd (handle_auth_setup (start_platform obj) sample_moment [] 11 ''::1'' s)))
      (to_hex (replicate 32 7)) 1000 = Some \<lparr>si_username = ''ann'', si_needs_mfa_setup = False\<rparr>"
    and "as_config (snd (handle_auth_setup (start_platform obj) sample_moment [] 11 ''::1'' s)) = default_config"
proof -
  have pf: "pf_yaml (start_platform obj) = tree_yaml" "pf_kdf (start_platform obj) = sample_kdf"
    "parse_body (start_platform obj) [] = Some obj"
    by (simp_all add: start_platform_def sample_platform_def parse_body_def parse_json_object_def)
  have "1000 \<le> tick_add 1000 session_ttl" by code_simp
  then show "\<exists>res. fst (handle_auth_setup (start_platform obj) sample_moment [] 11 ''::1'' s) = Inr res"
    "validate_session (as_sessions (snd (handle_auth_setup (start_platform obj) sample_moment [] 11 ''::1'' s)))
      (to_hex (replicate 32 7)) 1000 = Some \<lparr>si_username = ''ann'', si_needs_mfa_setup = False\<rparr>"
    "as_config (snd (handle_auth_setup (start_platform obj) sample_moment [] 11 ''::1'' s)) = default_config"
    using assms
    by (simp_all add: handle_auth_setup_def pf store_empty_def and_do_def actions catch_invalid_def on_users_def
        create_if_empty_def validate_new_credentials_def add_user_locked_def hash_password_def derive_def sample_kdf_def
        sample_moment_def save_locked_def issue_session_response_def create_session_def random_token_hex_def
        put_session_def validate_session_def default_config_simps um_erase_if_def umap Let_def del: to_hex.simps)
qed

theorem sessions_are_earned_witness:
  "\<exists>p s. atomwall_main (start_platform ann_body) start_databases start_disk (\<lambda>_. None) start_boot = Running p
     \<and> (process_step (start_platform ann_body))\<^sup>*\<^sup>* (pr_state p) s \<and> as_sessions s \<noteq> []
     \<and> session_earned (start_platform ann_body) (process_step (start_platform ann_body)) (process_runs (start_platform ann_body))
         (\<lambda>s. s) (pr_state p) ''ann'' s"
proof -
  let ?pf = "start_platform ann_body"
  obtain p where p: "atomwall_main ?pf start_databases start_disk (\<lambda>_. None) start_boot = Running p"
    "as_config (pr_state p) = default_config"
    "as_users (pr_state p) = \<lparr>us_users = [], us_last_totp_step = [], us_file = None\<rparr>" "as_sessions (pr_state p) = []"
    using start_runs by blast
  let ?h = "handle_auth_setup ?pf sample_moment [] 11 ''::1''"
  let ?s = "snd (?h (pr_state p))"
  have "dispatch ?pf sample_moment (login_post ''/api/auth/setup'') [] ''::1'' = Answer ?h"
    by (simp add: dispatch_def Let_def login_post_def admin_request_def api_request_def kApiBlacklistPrefix_def
        route_def route_auth_def)
  then have run: "(process_step ?pf)\<^sup>*\<^sup>* (pr_state p) ?s" by (blast intro: process_step.admin)
  have "validate_session (as_sessions ?s) (to_hex (replicate 32 7)) 1000
      = Some \<lparr>si_username = ''ann'', si_needs_mfa_setup = False\<rparr>"
    by (rule first_setup(2) [OF p(3,4,2) ann_fields])
  with sessions_are_earned [OF p(1) run this] p(1) run show ?thesis by (auto simp: validate_session_def)
qed

end
