(* ===== verification/System.thy ===== *)
theory System
  imports Process
begin

text \<open>
  The server with all its connections.  \<open>Process\<close> follows the shared state alone; here every
  connection that was accepted keeps its own suspended coroutine, and a step of the system is one
  step of one of them, a connection that joins, or one of the two background loops of \<open>main\<close>.  What
  the others do is an \<open>others\<close> step of each connection, so what is proved of one connection holds
  of every connection of the server, and what a connection relied on can be traced back to a state
  the server was really in.
\<close>

section \<open>The connections\<close>

record visitor =
  vi_connection :: connection
  vi_pc :: session_pc
  vi_trace :: "action list"

record administrator =
  am_client_ip :: string
  am_pc :: admin_pc
  am_trace :: "served list"

record reader =
  rd_pc :: globe_pc
  rd_trace :: "globe_sent list"

text \<open>The connections are numbered in the order they were accepted in; one that has ended stays as it ended.\<close>

record system =
  sy_state :: AdminState
  sy_visitors :: "nat \<Rightarrow> visitor option"
  sy_admins :: "nat \<Rightarrow> administrator option"
  sy_readers :: "nat \<Rightarrow> reader option"

definition booted :: "AdminState \<Rightarrow> system" where
  "booted s = \<lparr>sy_state = s, sy_visitors = (\<lambda>_. None), sy_admins = (\<lambda>_. None), sy_readers = (\<lambda>_. None)\<rparr>"

text \<open>A connection together with the shared state it sees.\<close>

definition visitor_view :: "AdminState \<Rightarrow> visitor \<Rightarrow> session" where
  "visitor_view s v = \<lparr>ss_state = app_of s, ss_pc = vi_pc v, ss_trace = vi_trace v\<rparr>"

definition admin_view :: "AdminState \<Rightarrow> administrator \<Rightarrow> admin_session" where
  "admin_view s a = \<lparr>ad_state = s, ad_pc = am_pc a, ad_trace = am_trace a\<rparr>"

definition reader_view :: "AdminState \<Rightarrow> reader \<Rightarrow> globe_session" where
  "reader_view s r = \<lparr>gs_state = s, gs_pc = rd_pc r, gs_trace = rd_trace r\<rparr>"

lemma view_simps [simp]:
  "ss_state (visitor_view s v) = app_of s" "ss_pc (visitor_view s v) = vi_pc v" "ss_trace (visitor_view s v) = vi_trace v"
  "ad_state (admin_view s a) = s" "ad_pc (admin_view s a) = am_pc a" "ad_trace (admin_view s a) = am_trace a"
  "gs_state (reader_view s r) = s" "gs_pc (reader_view s r) = rd_pc r" "gs_trace (reader_view s r) = rd_trace r"
  by (simp_all add: visitor_view_def admin_view_def reader_view_def)

section \<open>The steps\<close>

text \<open>Every step of a connection's own moves its program counter, which \<open>others\<close> never does.  Only the
  services that \<open>main\<close> started accept connections, and what the poll publishes has been parsed.\<close>

definition offers :: "service list \<Rightarrow> string \<Rightarrow> bool" where
  "offers services label \<longleftrightarrow> Http_Service \<in> set services \<and> label = ''http'' \<or> Https_Service \<in> set services \<and> label = ''https''"

inductive system_step :: "('n, 'k) platform \<Rightarrow> service list \<Rightarrow> system \<Rightarrow> system \<Rightarrow> bool" for pf services where
  visitor_joins: "offers services (cn_listener_label cn) \<Longrightarrow> sy_visitors y i = None \<Longrightarrow>
    system_step pf services y
      (y\<lparr>sy_visitors := (sy_visitors y)(i \<mapsto> \<lparr>vi_connection = cn, vi_pc = NextRequest, vi_trace = []\<rparr>)\<rparr>)"
| visitor_moves: "sy_visitors y i = Some v \<Longrightarrow>
    session_step (vi_connection v) (visitor_view (sy_state y) v) s' \<Longrightarrow> ss_pc s' \<noteq> vi_pc v \<Longrightarrow>
    system_step pf services y
      (y\<lparr>sy_state := with_app (ss_state s') (sy_state y),
         sy_visitors := (sy_visitors y)(i \<mapsto> v\<lparr>vi_pc := ss_pc s', vi_trace := ss_trace s'\<rparr>)\<rparr>)"
| admin_joins: "Admin_Service \<in> set services \<Longrightarrow> sy_admins y i = None \<Longrightarrow>
    system_step pf services y
      (y\<lparr>sy_admins := (sy_admins y)(i \<mapsto> \<lparr>am_client_ip = client_ip, am_pc = WaitHeader, am_trace = []\<rparr>)\<rparr>)"
| admin_moves: "sy_admins y i = Some a \<Longrightarrow>
    admin_step pf (am_client_ip a) (admin_view (sy_state y) a) a' \<Longrightarrow> ad_pc a' \<noteq> am_pc a \<Longrightarrow>
    system_step pf services y
      (y\<lparr>sy_state := ad_state a', sy_admins := (sy_admins y)(i \<mapsto> a\<lparr>am_pc := ad_pc a', am_trace := ad_trace a'\<rparr>)\<rparr>)"
| reader_joins: "Globe_Service \<in> set services \<Longrightarrow> sy_readers y i = None \<Longrightarrow>
    system_step pf services y
      (y\<lparr>sy_readers := (sy_readers y)(i \<mapsto> \<lparr>rd_pc = GlobeWait, rd_trace = []\<rparr>)\<rparr>)"
| reader_moves: "sy_readers y i = Some r \<Longrightarrow>
    globe_step pf (reader_view (sy_state y) r) g' \<Longrightarrow> gs_pc g' \<noteq> rd_pc r \<Longrightarrow>
    system_step pf services y
      (y\<lparr>sy_readers := (sy_readers y)(i \<mapsto> r\<lparr>rd_pc := gs_pc g', rd_trace := gs_trace g'\<rparr>)\<rparr>)"
| config_polled: "Config_Poll \<in> set services \<Longrightarrow>
    Yaml_Codec.parse_yaml_config (pf_yaml pf) (pf_address pf) now contents = Inr c \<Longrightarrow>
    system_step pf services y (y\<lparr>sy_state := (sy_state y)\<lparr>as_config := c\<rparr>\<rparr>)"
| server_located: "Locate_Server \<in> set services \<Longrightarrow>
    system_step pf services y (y\<lparr>sy_state := (sy_state y)\<lparr>as_server_location := l\<rparr>\<rparr>)"

section \<open>The shared state\<close>

lemma with_own_app [simp]: "with_app (app_of s) s = s"
  by (cases s) (simp add: with_app_def app_of_def AppState.defs)

lemma reader_keeps_state: "globe_step pf g g' \<Longrightarrow> gs_pc g' \<noteq> gs_pc g \<Longrightarrow> gs_state g' = gs_state g"
  by (induction rule: globe_step.induct) simp_all

text \<open>What a visitor's own step and an administrator's own step do to the shared state.\<close>

lemma visitor_moves_process:
  assumes "session_step cn (visitor_view s v) s'" and "ss_pc s' \<noteq> vi_pc v"
  shows "process_step pf s (with_app (ss_state s') s) \<or> with_app (ss_state s') s = s"
  using assms
proof cases
  case (header_close config ck header st r)
  then show ?thesis by (auto intro: process_step.visitor_header)
next
  case (header_open config ck header st w site event)
  then show ?thesis by (auto intro: process_step.visitor_header)
next
  case (body_close config header w site event ck body st r)
  then show ?thesis by (auto intro: process_step.visitor_body)
next
  case (body_open config header w site event ck body st request)
  then show ?thesis by (auto intro: process_step.visitor_body)
next
  case (upstream config header event request answer st r keep)
  then show ?thesis by (auto intro: process_step.visitor_answer)
qed simp_all

lemma admin_moves_process:
  assumes "admin_step pf client_ip (admin_view s a) a'" and "ad_pc a' \<noteq> am_pc a"
  shows "process_step pf s (ad_state a') \<or> ad_state a' = s"
  using assms
proof cases
  case (handle header user body request mo h res st)
  then show ?thesis using process_step.admin [OF handle(5), of s] by simp
next
  case (escape header user body request mo h e st)
  then show ?thesis using process_step.admin [OF escape(5), of s] by simp
qed simp_all

lemma system_step_process:
  assumes "system_step pf services y y'"
  shows "process_step pf (sy_state y) (sy_state y') \<or> sy_state y' = sy_state y"
  using assms
proof cases
  case (visitor_moves i v s')
  then show ?thesis using visitor_moves_process by fastforce
next
  case (admin_moves i a a')
  then show ?thesis using admin_moves_process by fastforce
qed (auto intro: process_step.intros)

text \<open>Every run of the system is, of the shared state, a run of the process with at most as many steps.\<close>

lemma system_run_process:
  assumes "(system_step pf services ^^ n) y y'"
  shows "\<exists>m \<le> n. (process_step pf ^^ m) (sy_state y) (sy_state y')"
  using assms
proof (induction n arbitrary: y')
  case 0
  then show ?case by auto
next
  case (Suc n)
  then obtain t where t: "(system_step pf services ^^ n) y t" "system_step pf services t y'" by auto
  with Suc.IH obtain m where m: "m \<le> n" "(process_step pf ^^ m) (sy_state y) (sy_state t)" by blast
  from system_step_process [OF t(2)] show ?case
  proof
    assume "process_step pf (sy_state t) (sy_state y')"
    with m show ?thesis by (intro exI [of _ "Suc m"]) auto
  next
    assume "sy_state y' = sy_state t"
    with m show ?thesis by (intro exI [of _ m]) simp
  qed
qed

lemma system_reaches_process:
  "(system_step pf services)\<^sup>*\<^sup>* y y' \<Longrightarrow> (process_step pf)\<^sup>*\<^sup>* (sy_state y) (sy_state y')"
  using system_run_process by (metis rtranclp_power)

section \<open>Each connection runs its own protocol\<close>

lemma recorded_scores: "recorded st st' \<Longrightarrow> as_scores st' = as_scores st"
  by (auto simp: recorded_def)

lemma served_advance:
  assumes "served st st'" and "traffic_ok st" and "st_next_seq (as_scores st) \<noteq> - 1"
  shows "scores_advance st st'"
proof -
  obtain t st1 where s: "scored (st\<lparr>as_rate_tracker := t\<rparr>) st1" "recorded st1 st'"
    using assms(1) by (auto simp: served_def)
  have "traffic_ok (st\<lparr>as_rate_tracker := t\<rparr>)" using assms(2) by (simp add: traffic_ok_def)
  from scored_ok [OF s(1) this] assms(3) recorded_scores [OF s(2)] show ?thesis
    by (simp add: scores_advance_def traffic_ok_def)
qed

lemma sound_after_seq:
  assumes "sound_after n s" and "n + 2 < 2 ^ 64"
  shows "st_next_seq (as_scores s) \<noteq> - 1"
  using assms by (auto simp: sound_after_def numbers_ok_def unat_u64_max)

lemma same_scores_advance: "traffic_ok (app_of s) \<Longrightarrow> as_scores s' = as_scores s \<Longrightarrow> scores_advance (app_of s) (app_of s')"
  by (simp add: scores_advance_def traffic_ok_def)

lemma process_step_advances:
  assumes "process_step pf s s'" and "sound_after n s" and "n + 2 < 2 ^ 64"
  shows "scores_advance (app_of s) (app_of s')"
proof -
  have ok: "traffic_ok (app_of s)" using assms(2) by (simp add: sound_after_def)
  note visit = served_advance [OF _ ok] sound_after_seq [OF assms(2,3)]
  note same = same_scores_advance [OF ok]
  from assms(1) show ?thesis
  proof cases
    case (admin mo request user client_ip h)
    have "keeps_order s (snd (h s))"
      using order.frame_dispatch [OF TrueI TrueI admin(2)] by (simp add: preserves_def)
    then show ?thesis unfolding admin(1) by (intro same) (simp add: keeps_order_def)
  qed (use visit header_phase_served body_phase_served upstream_phase_served in \<open>auto intro: same\<close>)
qed

lemma moved_views [simp]:
  "visitor_view (with_app (ss_state s') s) (v\<lparr>vi_pc := ss_pc s', vi_trace := ss_trace s'\<rparr>) = s'"
  "admin_view (ad_state a') (a\<lparr>am_pc := ad_pc a', am_trace := ad_trace a'\<rparr>) = a'"
  "reader_view (gs_state g') (r\<lparr>rd_pc := gs_pc g', rd_trace := gs_trace g'\<rparr>) = g'"
  by (simp_all add: visitor_view_def admin_view_def reader_view_def)

text \<open>To every connection a step of the system is a step of its own or one of \<open>others\<close>.\<close>

lemma visitor_projects:
  assumes "system_step pf services y y'" and "sy_visitors y i = Some v"
    and "scores_advance (app_of (sy_state y)) (app_of (sy_state y'))"
  shows "\<exists>v'. sy_visitors y' i = Some v' \<and> vi_connection v' = vi_connection v
    \<and> session_step (vi_connection v) (visitor_view (sy_state y) v) (visitor_view (sy_state y') v')"
proof -
  have "session_step (vi_connection v) (visitor_view (sy_state y) v)
      ((visitor_view (sy_state y) v)\<lparr>ss_state := app_of (sy_state y')\<rparr>)"
    using assms(3) by (intro session_step.others) (simp_all add: scores_advance_def)
  then have rest: "session_step (vi_connection v) (visitor_view (sy_state y) v) (visitor_view (sy_state y') v)"
    by (simp add: visitor_view_def)
  from assms(1) show ?thesis
  proof cases
    case (visitor_moves j u s')
    show ?thesis
    proof (cases "j = i")
      case True
      then have "u = v" using visitor_moves(2) assms(2) by simp
      then show ?thesis using visitor_moves(1,3) True \<open>u = v\<close> by simp
    qed (use rest assms(2) visitor_moves(1) in simp)
  qed (use rest assms(2) in auto)
qed

lemma admin_projects:
  assumes "system_step pf services y y'" and "sy_admins y i = Some a"
  shows "\<exists>a'. sy_admins y' i = Some a' \<and> am_client_ip a' = am_client_ip a
    \<and> admin_step pf (am_client_ip a) (admin_view (sy_state y) a) (admin_view (sy_state y') a')"
proof -
  have rest: "admin_step pf (am_client_ip a) (admin_view (sy_state y) a) (admin_view (sy_state y') a)"
    using admin_step.others [of pf "am_client_ip a" "admin_view (sy_state y) a" "sy_state y'"]
    by (simp add: admin_view_def)
  from assms(1) show ?thesis
  proof cases
    case (admin_moves j b a')
    show ?thesis
    proof (cases "j = i")
      case True
      then have "b = a" using admin_moves(2) assms(2) by simp
      then show ?thesis using admin_moves(1,3) True \<open>b = a\<close> by simp
    qed (use rest assms(2) admin_moves(1) in simp)
  qed (use rest assms(2) in auto)
qed

lemma reader_projects:
  assumes "system_step pf services y y'" and "sy_readers y i = Some r"
  shows "\<exists>r'. sy_readers y' i = Some r' \<and> globe_step pf (reader_view (sy_state y) r) (reader_view (sy_state y') r')"
proof -
  have rest: "globe_step pf (reader_view (sy_state y) r) (reader_view (sy_state y') r)"
    using globe_step.others [of pf "reader_view (sy_state y) r" "sy_state y'"] by (simp add: reader_view_def)
  from assms(1) show ?thesis
  proof cases
    case (reader_moves j q g')
    show ?thesis
    proof (cases "j = i")
      case True
      then have "q = r" using reader_moves(2) assms(2) by simp
      have "sy_state y' = gs_state g'"
        using reader_keeps_state [OF reader_moves(3)] reader_moves(1,4) by simp
      then have "reader_view (sy_state y') (r\<lparr>rd_pc := gs_pc g', rd_trace := gs_trace g'\<rparr>) = g'"
        by simp
      with reader_moves(3) have "globe_step pf (reader_view (sy_state y) r)
          (reader_view (sy_state y') (r\<lparr>rd_pc := gs_pc g', rd_trace := gs_trace g'\<rparr>))"
        using \<open>q = r\<close> by simp
      then show ?thesis using reader_moves(1) True \<open>q = r\<close> by (intro exI conjI) simp_all
    qed (use rest assms(2) reader_moves(1) in simp)
  qed (use rest assms(2) in auto)
qed

text \<open>A connection that a step adds has only just begun.\<close>

lemma visitor_is_new:
  assumes "system_step pf services y y'" and "sy_visitors y i = None" and "sy_visitors y' i = Some v"
  shows "visitor_view (sy_state y') v = new_session (app_of (sy_state y'))"
  using assms by cases (auto simp: visitor_view_def new_session_def split: if_splits)

lemma admin_is_new:
  assumes "system_step pf services y y'" and "sy_admins y i = None" and "sy_admins y' i = Some a"
  shows "admin_view (sy_state y') a = new_admin_session (sy_state y')"
  using assms by cases (auto simp: admin_view_def new_admin_session_def split: if_splits)

lemma reader_is_new:
  assumes "system_step pf services y y'" and "sy_readers y i = None" and "sy_readers y' i = Some r"
  shows "reader_view (sy_state y') r = new_globe_session (sy_state y')"
  using assms by cases (auto simp: reader_view_def new_globe_session_def split: if_splits)

definition visitors_run :: "system \<Rightarrow> bool" where
  "visitors_run y \<longleftrightarrow> (\<forall>i v. sy_visitors y i = Some v \<longrightarrow>
     (\<exists>st. (session_step (vi_connection v))\<^sup>*\<^sup>* (new_session st) (visitor_view (sy_state y) v)))"

definition admins_run :: "('n, 'k) platform \<Rightarrow> system \<Rightarrow> bool" where
  "admins_run pf y \<longleftrightarrow> (\<forall>i a. sy_admins y i = Some a \<longrightarrow>
     (\<exists>s. (admin_step pf (am_client_ip a))\<^sup>*\<^sup>* (new_admin_session s) (admin_view (sy_state y) a)))"

definition readers_run :: "('n, 'k) platform \<Rightarrow> system \<Rightarrow> bool" where
  "readers_run pf y \<longleftrightarrow> (\<forall>i r. sy_readers y i = Some r \<longrightarrow>
     (\<exists>s. (globe_step pf)\<^sup>*\<^sup>* (new_globe_session s) (reader_view (sy_state y) r)))"

lemma visitors_run_step:
  assumes "system_step pf services y y'" and "visitors_run y"
    and "scores_advance (app_of (sy_state y)) (app_of (sy_state y'))"
  shows "visitors_run y'"
  unfolding visitors_run_def
proof (intro allI impI)
  fix i v' assume v': "sy_visitors y' i = Some v'"
  show "\<exists>st. (session_step (vi_connection v'))\<^sup>*\<^sup>* (new_session st) (visitor_view (sy_state y') v')"
  proof (cases "sy_visitors y i")
    case None
    with visitor_is_new [OF assms(1) None v'] show ?thesis by auto
  next
    case (Some v)
    from visitor_projects [OF assms(1) Some assms(3)] v' assms(2) Some show ?thesis
      unfolding visitors_run_def by (metis option.inject rtranclp.rtrancl_into_rtrancl)
  qed
qed

lemma admins_run_step:
  assumes "system_step pf services y y'" and "admins_run pf y"
  shows "admins_run pf y'"
  unfolding admins_run_def
proof (intro allI impI)
  fix i a' assume a': "sy_admins y' i = Some a'"
  show "\<exists>s. (admin_step pf (am_client_ip a'))\<^sup>*\<^sup>* (new_admin_session s) (admin_view (sy_state y') a')"
  proof (cases "sy_admins y i")
    case None
    with admin_is_new [OF assms(1) None a'] show ?thesis by auto
  next
    case (Some a)
    from admin_projects [OF assms(1) Some] a' assms(2) Some show ?thesis
      unfolding admins_run_def by (metis option.inject rtranclp.rtrancl_into_rtrancl)
  qed
qed

lemma readers_run_step:
  assumes "system_step pf services y y'" and "readers_run pf y"
  shows "readers_run pf y'"
  unfolding readers_run_def
proof (intro allI impI)
  fix i r' assume r': "sy_readers y' i = Some r'"
  show "\<exists>s. (globe_step pf)\<^sup>*\<^sup>* (new_globe_session s) (reader_view (sy_state y') r')"
  proof (cases "sy_readers y i")
    case None
    with reader_is_new [OF assms(1) None r'] show ?thesis by auto
  next
    case (Some r)
    from reader_projects [OF assms(1) Some] r' assms(2) Some show ?thesis
      unfolding readers_run_def by (metis option.inject rtranclp.rtrancl_into_rtrancl)
  qed
qed

section \<open>What connections rely on was true\<close>

text \<open>The shared state was \<open>s\<close> at some point of the way from \<open>y0\<close> to \<open>y\<close>.\<close>

definition was_state :: "('n, 'k) platform \<Rightarrow> service list \<Rightarrow> system \<Rightarrow> system \<Rightarrow> AdminState \<Rightarrow> bool" where
  "was_state pf services y0 y s \<longleftrightarrow>
     (\<exists>t. (system_step pf services)\<^sup>*\<^sup>* y0 t \<and> (system_step pf services)\<^sup>*\<^sup>* t y \<and> sy_state t = s)"

lemma was_state_later: "was_state pf services y0 y s \<Longrightarrow> system_step pf services y y' \<Longrightarrow> was_state pf services y0 y' s"
  unfolding was_state_def by (blast intro: rtranclp.rtrancl_into_rtrancl)

lemma is_state: "(system_step pf services)\<^sup>*\<^sup>* y0 y \<Longrightarrow> was_state pf services y0 y (sy_state y)"
  unfolding was_state_def by blast

lemma was_state_reached: "was_state pf services y0 y s \<Longrightarrow> (process_step pf)\<^sup>*\<^sup>* (sy_state y0) s"
  unfolding was_state_def using system_reaches_process by blast

fun pc_configs :: "session_pc \<Rightarrow> RuntimeConfig set" where
  "pc_configs (AwaitHeader config) = {config}"
| "pc_configs (AwaitBody config _ _ _ _) = {config}"
| "pc_configs (AwaitUpstream config _ _ _) = {config}"
| "pc_configs _ = {}"

definition configs_used :: "session_pc \<Rightarrow> action list \<Rightarrow> RuntimeConfig set" where
  "configs_used pc tr = pc_configs pc \<union> {config. \<exists>request upstream. Forwarded config request upstream \<in> set tr}"

lemma configs_used_step:
  "session_step cn s s' \<Longrightarrow>
     configs_used (ss_pc s') (ss_trace s') \<subseteq> insert (as_config (ss_state s)) (configs_used (ss_pc s) (ss_trace s))"
  by (induction rule: session_step.induct) (auto simp: configs_used_def split: if_splits)

definition states_judged :: "served list \<Rightarrow> AdminState set" where
  "states_judged tr = {s. \<exists>mo header user. Opened s mo header user \<in> set tr}"

lemma states_judged_step:
  "admin_step pf client_ip a a' \<Longrightarrow> states_judged (ad_trace a') \<subseteq> insert (ad_state a) (states_judged (ad_trace a))"
  by (induction rule: admin_step.induct) (auto simp: states_judged_def continue_trace_def split: if_splits)

definition relied_on :: "system \<Rightarrow> RuntimeConfig set" where
  "relied_on y = {c. \<exists>i v. sy_visitors y i = Some v \<and> c \<in> configs_used (vi_pc v) (vi_trace v)}"

definition judged_in :: "system \<Rightarrow> AdminState set" where
  "judged_in y = {s. \<exists>i a. sy_admins y i = Some a \<and> s \<in> states_judged (am_trace a)}"

lemma relied_on_step:
  assumes "system_step pf services y y'"
  shows "relied_on y' \<subseteq> insert (as_config (sy_state y)) (relied_on y)"
  using assms
proof cases
  case (visitor_moves i v s')
  then show ?thesis using configs_used_step [OF visitor_moves(3)]
    by (fastforce simp: relied_on_def split: if_splits)
qed (auto simp: relied_on_def configs_used_def split: if_splits)

lemma judged_in_step:
  assumes "system_step pf services y y'"
  shows "judged_in y' \<subseteq> insert (sy_state y) (judged_in y)"
  using assms
proof cases
  case (admin_moves i a a')
  then show ?thesis using states_judged_step [OF admin_moves(3)]
    by (fastforce simp: judged_in_def split: if_splits)
next
  case (admin_joins i client_ip)
  then show ?thesis by (fastforce simp: judged_in_def states_judged_def split: if_splits)
qed (auto simp: judged_in_def)

text \<open>A run from the start of the process.\<close>

definition grounded :: "('n, 'k) platform \<Rightarrow> service list \<Rightarrow> system \<Rightarrow> system \<Rightarrow> bool" where
  "grounded pf services y0 y \<longleftrightarrow>
     (\<forall>c \<in> relied_on y. \<exists>s. was_state pf services y0 y s \<and> as_config s = c)
     \<and> (\<forall>s \<in> judged_in y. was_state pf services y0 y s) \<and> admins_run pf y \<and> readers_run pf y"

lemma grounded_booted: "grounded pf services (booted s) (booted s)"
  by (simp add: grounded_def booted_def relied_on_def judged_in_def admins_run_def readers_run_def)

lemma grounded_run:
  assumes "(system_step pf services)\<^sup>*\<^sup>* (booted s) y"
  shows "grounded pf services (booted s) y"
  using assms
proof (induction rule: rtranclp_induct)
  case base
  show ?case by (rule grounded_booted)
next
  case (step y y')
  note later = was_state_later [OF _ step.hyps(2)] is_state [OF step.hyps(1)]
  have "\<exists>s'. was_state pf services (booted s) y' s' \<and> as_config s' = c" if "c \<in> relied_on y'" for c
    using that relied_on_step [OF step.hyps(2)] step.IH later unfolding grounded_def by blast
  moreover have "was_state pf services (booted s) y' s'" if "s' \<in> judged_in y'" for s'
    using that judged_in_step [OF step.hyps(2)] step.IH later unfolding grounded_def by blast
  ultimately show ?case
    using step.IH admins_run_step [OF step.hyps(2)] readers_run_step [OF step.hyps(2)] by (simp add: grounded_def)
qed

section \<open>Every connection keeps its contract\<close>

lemma sound_after_mono: "sound_after m s \<Longrightarrow> m \<le> n \<Longrightarrow> sound_after n s"
  by (auto simp: sound_after_def numbers_ok_def)

lemma system_run_sound:
  assumes "atomwall_main pf L D listens b = Running p"
    and "(system_step pf services ^^ n) (booted (pr_state p)) y" and "n + 2 < 2 ^ 64"
  shows "sound_after n (sy_state y)"
proof -
  obtain m where m: "m \<le> n" "(process_step pf ^^ m) (pr_state p) (sy_state y)"
    using system_run_process [OF assms(2)] by (auto simp: booted_def)
  have "start_process pf L D b = Running p" using assms(1) by (simp add: running_main)
  from process_run_sound [OF this m(2)] m(1) assms(3) have "sound_after m (sy_state y)" by simp
  then show ?thesis using m(1) by (rule sound_after_mono)
qed

lemma system_step_advances:
  assumes "system_step pf services y y'" and "sound_after n (sy_state y)" and "n + 2 < 2 ^ 64"
  shows "scores_advance (app_of (sy_state y)) (app_of (sy_state y'))"
proof -
  have "traffic_ok (app_of (sy_state y))" using assms(2) by (simp add: sound_after_def)
  with system_step_process [OF assms(1)] process_step_advances [OF _ assms(2,3)] same_scores_advance
  show ?thesis by fastforce
qed

definition visitors_defined :: "system \<Rightarrow> bool" where
  "visitors_defined y \<longleftrightarrow> (\<forall>i v. sy_visitors y i = Some v \<longrightarrow> vi_pc v \<noteq> Undefined)"

lemma visitors_defined_step:
  assumes step: "system_step pf services y y'" and "visitors_defined y"
    and sound: "sound_after n (sy_state y)" "n + 2 < 2 ^ 64"
  shows "visitors_defined y'"
  unfolding visitors_defined_def
proof (intro allI impI)
  fix i v' assume v': "sy_visitors y' i = Some v'"
  show "vi_pc v' \<noteq> Undefined"
  proof (cases "sy_visitors y i")
    case None
    from visitor_is_new [OF step None v'] have "ss_pc (visitor_view (sy_state y') v') = NextRequest"
      by (simp add: new_session_def)
    then show ?thesis by simp
  next
    case (Some v)
    have "session_step (vi_connection v) (visitor_view (sy_state y) v) (visitor_view (sy_state y') v')"
      using visitor_projects [OF step Some system_step_advances [OF step sound]] v' by auto
    from session_step_advance [OF this] Some assms(2) sound sound_after_seq [OF sound] show ?thesis
      by (auto simp: visitors_defined_def sound_after_def traffic_ok_def)
  qed
qed

lemma visitors_keep_contract:
  assumes "atomwall_main pf L D listens b = Running p"
    and "(system_step pf services ^^ n) (booted (pr_state p)) y" and "n + 2 < 2 ^ 64"
  shows "visitors_run y \<and> visitors_defined y"
  using assms(2,3)
proof (induction n arbitrary: y)
  case 0
  then show ?case by (auto simp: booted_def visitors_run_def visitors_defined_def)
next
  case (Suc n)
  then obtain t where t: "(system_step pf services ^^ n) (booted (pr_state p)) t" "system_step pf services t y" by auto
  have sound: "sound_after n (sy_state t)" "n + 2 < 2 ^ 64"
    using system_run_sound [OF assms(1) t(1)] Suc.prems(2) by simp_all
  from Suc.IH [OF t(1) sound(2)] show ?case
    using visitors_run_step [OF t(2) _ system_step_advances [OF t(2) sound]] visitors_defined_step [OF t(2) _ sound] by blast
qed

text \<open>C4: The system refines its parts: however the steps of all connections and of the background loops
  interleave, up to \<open>2^64\<close> of them, the shared state goes through a run of the process, and what each
  visitor's, each administrator's and each globe reader's connection sees and does is a run of the
  step relation of its kind from a fresh connection; so everything proved of one connection holds of
  every connection of the server at once, and no visitor's session is ever undefined.\<close>

theorem connections_run_their_protocols:
  assumes "atomwall_main pf L D listens b = Running p"
    and "(system_step pf services ^^ n) (booted (pr_state p)) y" and "n + 2 < 2 ^ 64"
  shows "(process_step pf)\<^sup>*\<^sup>* (pr_state p) (sy_state y)
    \<and> visitors_run y \<and> visitors_defined y \<and> admins_run pf y \<and> readers_run pf y"
proof -
  have run: "(system_step pf services)\<^sup>*\<^sup>* (booted (pr_state p)) y"
    using assms(2) by (rule relpowp_imp_rtranclp)
  from system_reaches_process [OF run] have "(process_step pf)\<^sup>*\<^sup>* (pr_state p) (sy_state y)"
    by (simp add: booted_def)
  with visitors_keep_contract [OF assms] grounded_run [OF run] show ?thesis by (simp add: grounded_def)
qed

text \<open>C2: What reaches an origin: a request any of the visitors' connections forwarded had passed every gate of
  a configuration that was the current one of the server at some moment of the run, was no larger than
  it allows, and went to the origin it names.\<close>

theorem forwarded_by_a_configuration_in_force:
  assumes "atomwall_main pf L D listens b = Running p"
    and "(system_step pf services ^^ n) (booted (pr_state p)) y" and "n + 2 < 2 ^ 64"
    and "sy_visitors y i = Some v" and "Forwarded config request upstream \<in> set (vi_trace v)"
  shows "admitted (vi_connection v) config request upstream
    \<and> (\<exists>s. was_state pf services (booted (pr_state p)) y s \<and> as_config s = config)"
proof -
  obtain st where "(session_step (vi_connection v))\<^sup>*\<^sup>* (new_session st) (visitor_view (sy_state y) v)"
    using visitors_keep_contract [OF assms(1-3)] assms(4) by (auto simp: visitors_run_def)
  then have "session_inv (vi_connection v) (visitor_view (sy_state y) v)"
    by (induction rule: rtranclp_induct) (use session_inv_new session_inv_step in blast)+
  then have "admitted (vi_connection v) config request upstream" using assms(5) by (simp add: session_inv_def)
  moreover have "config \<in> relied_on y" using assms(4,5) by (auto simp: relied_on_def configs_used_def)
  moreover have "grounded pf services (booted (pr_state p)) y"
    using assms(2) by (intro grounded_run relpowp_imp_rtranclp)
  ultimately show ?thesis by (simp add: grounded_def)
qed

section \<open>A visit\<close>

lemma visitor_moves_on:
  assumes "session_step cn (visitor_view s v) t"
    and "sy_visitors y i = Some v" and "sy_state y = s" and "vi_connection v = cn"
    and "ss_pc t \<noteq> vi_pc v" and "ss_state t = app_of s"
  shows "system_step pf services y (y\<lparr>sy_visitors := (sy_visitors y)(i \<mapsto> v\<lparr>vi_pc := ss_pc t, vi_trace := ss_trace t\<rparr>)\<rparr>)"
proof -
  have "y\<lparr>sy_state := s, sy_visitors := vs\<rparr> = y\<lparr>sy_visitors := vs\<rparr>" for vs
    using assms(3) by (cases y) simp
  with system_step.visitor_moves [of y i v t pf services] assms show ?thesis by simp
qed

lemma quiet_phases:
  assumes "as_ip_blocks st = new_ip_block_tracker n"
  shows "header_phase sample_connection default_config sample_clocks sample_header st
      = Some (st, ReadBody False sample_site (start_event sample_connection sample_clocks sample_header))"
    and "body_phase sample_connection default_config sample_clocks sample_header False event [] st
      = Some (st, Inr (received_request sample_connection sample_header []))"
  using assms
  by (simp_all add: header_phase_def body_phase_def received_request_def evaluate_body_checks_def check_body_size_def
      check_body_blacklist_def Let_def sample_connection_def sample_header_def sample_clocks_def
      sample_site_def default_config_simps resolve_site_def
      is_whitelisted_def is_ip_whitelisted_def is_route_whitelisted_def is_blocked_def new_ip_block_tracker_def
      check_request_rate_def check_method_allowlist_def evaluate_header_checks_def check_ip_blacklist_def
      check_fake_routes_def check_defs pattern_check_def geo_isp_of_def path_of_def find_char_def)

lemma visit_run:
  assumes "Http_Service \<in> set services" and "as_config s = default_config" and "as_ip_blocks s = new_ip_block_tracker n"
  shows "\<exists>y v. (system_step pf services ^^ 4) (booted s) y \<and> sy_visitors y 0 = Some v \<and> vi_connection v = sample_connection
    \<and> Forwarded default_config (received_request sample_connection sample_header []) default_upstream \<in> set (vi_trace v)"
proof -
  let ?ev = "start_event sample_connection sample_clocks sample_header"
  let ?req = "received_request sample_connection sample_header []"
  let ?with = "\<lambda>pc tr. (booted s)\<lparr>sy_visitors := (sy_visitors (booted s))(0 \<mapsto>
    \<lparr>vi_connection = sample_connection, vi_pc = pc, vi_trace = tr\<rparr>)\<rparr>"
  let ?v = "\<lambda>pc. visitor_view s \<lparr>vi_connection = sample_connection, vi_pc = pc, vi_trace = []\<rparr>"
  let ?h = "AwaitHeader default_config" and ?b = "AwaitBody default_config sample_header False sample_site ?ev"
  let ?u = "AwaitUpstream default_config sample_header ?ev ?req"
  let ?f = "[Forwarded default_config ?req (rs_upstream sample_site)]"
  note phases = quiet_phases [of "app_of s" n]
  have 1: "system_step pf services (booted s) (?with NextRequest [])"
    using assms(1) by (intro system_step.visitor_joins) (simp_all add: booted_def offers_def sample_connection_def)
  have "session_step sample_connection (?v NextRequest) ((?v NextRequest)\<lparr>ss_pc := AwaitHeader (as_config (ss_state (?v NextRequest)))\<rparr>)"
    by (rule session_step.fetch) simp
  from visitor_moves_on [OF this, of "?with NextRequest []" 0 pf services]
  have 2: "system_step pf services (?with NextRequest []) (?with ?h [])" by (simp add: booted_def assms(2))
  have "session_step sample_connection (?v ?h) ((?v ?h)\<lparr>ss_state := app_of s, ss_pc := ?b\<rparr>)"
    by (rule session_step.header_open [where ck = sample_clocks]) (simp_all add: phases assms(3))
  from visitor_moves_on [OF this, of "?with ?h []" 0 pf services]
  have 3: "system_step pf services (?with ?h []) (?with ?b [])" by (simp add: booted_def)
  have "session_step sample_connection (?v ?b) ((?v ?b)\<lparr>ss_state := app_of s, ss_pc := ?u, ss_trace := ss_trace (?v ?b) @ ?f\<rparr>)"
    by (rule session_step.body_open [where ck = sample_clocks and body = "[]" and w = False]) (simp_all add: phases assms(3))
  from visitor_moves_on [OF this, of "?with ?b []" 0 pf services]
  have 4: "system_step pf services (?with ?b []) (?with ?u ?f)" by (simp add: booted_def)
  have "(system_step pf services ^^ 4) (booted s) (?with ?u ?f)"
    using 1 2 3 4 by (auto simp: eval_nat_numeral)
  then show ?thesis
    by (intro exI [of _ "?with ?u ?f"] exI [of _ "\<lparr>vi_connection = sample_connection, vi_pc = ?u, vi_trace = ?f\<rparr>"])
       (simp add: sample_site_def)
qed

lemma fresh_visit:
  "\<exists>p y v. atomwall_main (start_platform []) start_databases start_disk (\<lambda>_. None) start_boot = Running p
     \<and> (system_step (start_platform []) [Http_Service] ^^ 4) (booted (pr_state p)) y \<and> sy_visitors y 0 = Some v
     \<and> vi_connection v = sample_connection
     \<and> Forwarded default_config (received_request sample_connection sample_header []) default_upstream \<in> set (vi_trace v)"
proof -
  obtain p where p: "atomwall_main (start_platform []) start_databases start_disk (\<lambda>_. None) start_boot = Running p"
    "as_config (pr_state p) = default_config" using start_runs by blast
  obtain config users where "pr_state p = fresh_state config users"
    using p(1) by (auto simp: running_main elim: running_process)
  then have "as_ip_blocks (pr_state p) = new_ip_block_tracker (minutes 1)" by (simp add: fresh_state_def)
  with visit_run [of "[Http_Service]" "pr_state p" "minutes 1" "start_platform []"] p show ?thesis by auto
qed

theorem connections_run_their_protocols_witness:
  "\<exists>p y v. atomwall_main (start_platform []) start_databases start_disk (\<lambda>_. None) start_boot = Running p
     \<and> sy_visitors y 0 = Some v \<and> vi_trace v \<noteq> [] \<and> visitors_run y \<and> visitors_defined y"
proof -
  obtain p y v where run: "atomwall_main (start_platform []) start_databases start_disk (\<lambda>_. None) start_boot = Running p"
    "(system_step (start_platform []) [Http_Service] ^^ 4) (booted (pr_state p)) y" "sy_visitors y 0 = Some v"
    "vi_trace v \<noteq> []" using fresh_visit by fastforce
  from connections_run_their_protocols [OF run(1,2)] run show ?thesis by auto
qed

theorem forwarded_by_a_configuration_in_force_witness:
  "\<exists>p y s. atomwall_main (start_platform []) start_databases start_disk (\<lambda>_. None) start_boot = Running p
     \<and> was_state (start_platform []) [Http_Service] (booted (pr_state p)) y s \<and> as_config s = default_config
     \<and> admitted sample_connection default_config (received_request sample_connection sample_header []) default_upstream"
proof -
  obtain p y v where run: "atomwall_main (start_platform []) start_databases start_disk (\<lambda>_. None) start_boot = Running p"
    "(system_step (start_platform []) [Http_Service] ^^ 4) (booted (pr_state p)) y" "sy_visitors y 0 = Some v"
    "vi_connection v = sample_connection"
    "Forwarded default_config (received_request sample_connection sample_header []) default_upstream \<in> set (vi_trace v)"
    using fresh_visit by blast
  from forwarded_by_a_configuration_in_force [OF run(1,2) _ run(3,5)] run(1,4) show ?thesis by auto
qed

end
