(* ===== verification/System_Safety.thy ===== *)
theory System_Safety
  imports System
begin

text \<open>
  What the server as a whole guarantees about the administration: every protected request that is
  executed rests on a session that was earned over one of the server's own connections in the same
  run, and nobody else changes the settings or the accounts.
\<close>

section \<open>Nothing protected without an earned session\<close>

text \<open>Connection \<open>i\<close> executes a request as \<open>user\<close> between \<open>y\<close> and \<open>y'\<close>.\<close>

definition executes ::
  "('n, 'k) platform \<Rightarrow> nat \<Rightarrow> string \<Rightarrow> system \<Rightarrow> moment \<Rightarrow> http_request \<Rightarrow> system \<Rightarrow> bool" where
  "executes pf i user y mo request y' \<longleftrightarrow>
     (\<exists>a a' h. sy_admins y i = Some a \<and> am_pc a = WaitBody (header_of request) user
        \<and> dispatch pf mo request user (am_client_ip a) = Answer h \<and> sy_state y' = snd (h (sy_state y))
        \<and> sy_admins y' i = Some a' \<and> am_trace a' = am_trace a @ [Executed request user])"

definition system_runs :: "('n, 'k) platform \<Rightarrow> system \<Rightarrow> moment \<Rightarrow> http_request \<Rightarrow> system \<Rightarrow> bool" where
  "system_runs pf y mo request y' \<longleftrightarrow> (\<exists>i user. executes pf i user y mo request y')"

lemma admin_moves_executes:
  assumes "system_step pf services y y'" and "sy_admins y i = Some a"
    and "admin_step pf (am_client_ip a) (admin_view (sy_state y) a) a'" and "ad_pc a' \<noteq> am_pc a"
    and "sy_state y' = ad_state a'" and "sy_admins y' i = Some (a\<lparr>am_pc := ad_pc a', am_trace := ad_trace a'\<rparr>)"
  shows "sy_state y' = sy_state y \<or> (\<exists>user mo request. executes pf i user y mo request y')"
  using assms(3)
proof cases
  case (handle header user body request mo h res st)
  then have "executes pf i user y mo request y'"
    unfolding executes_def using assms(2,5,6)
    by (intro exI [of _ a] exI [of _ "a\<lparr>am_pc := ad_pc a', am_trace := ad_trace a'\<rparr>"] exI [of _ h]) simp
  then show ?thesis by blast
next
  case (escape header user body request mo h e st)
  then have "executes pf i user y mo request y'"
    unfolding executes_def using assms(2,5,6)
    by (intro exI [of _ a] exI [of _ "a\<lparr>am_pc := ad_pc a', am_trace := ad_trace a'\<rparr>"] exI [of _ h]) simp
  then show ?thesis by blast
qed (use assms(4,5) in simp_all)

lemma system_step_executes:
  assumes "system_step pf services y y'"
  obtains (kept) "as_sessions (sy_state y') = as_sessions (sy_state y)"
      "as_pending_mfa (sy_state y') = as_pending_mfa (sy_state y)"
  | (executed) i user mo request where "executes pf i user y mo request y'"
  using assms
proof cases
  case (admin_moves i a a')
  have "sy_state y' = sy_state y \<or> (\<exists>user mo request. executes pf i user y mo request y')"
    using admin_moves by (intro admin_moves_executes [OF assms]) simp_all
  then show thesis using that by auto
qed (use kept in simp_all)

interpretation whole: login_history pf "system_step pf services" "system_runs pf" sy_state
  for pf :: "('n, 'k) platform" and services
proof unfold_locales
  fix y y' :: system and mo request
  show "system_runs pf y mo request y' \<Longrightarrow>
      \<exists>user ip h. dispatch pf mo request user ip = Answer h \<and> sy_state y' = snd (h (sy_state y))"
    unfolding system_runs_def executes_def by blast
  show "system_step pf services y y' \<Longrightarrow>
      as_sessions (sy_state y') = as_sessions (sy_state y) \<and> as_pending_mfa (sy_state y') = as_pending_mfa (sy_state y)
      \<or> (\<exists>mo request. system_runs pf y mo request y')"
    by (erule system_step_executes) (auto simp: system_runs_def)
qed

text \<open>The cookie of the header opened, at some point of the run, a session of \<open>user\<close> that had been earned by
  then.\<close>

definition authorised ::
  "('n, 'k) platform \<Rightarrow> service list \<Rightarrow> system \<Rightarrow> system \<Rightarrow> request_header \<Rightarrow> string \<Rightarrow> bool" where
  "authorised pf services y0 y header user \<longleftrightarrow>
     (\<exists>t now token info. (system_step pf services)\<^sup>*\<^sup>* y0 t \<and> (system_step pf services)\<^sup>*\<^sup>* t y
        \<and> extract_session_token header = Some token
        \<and> validate_session (as_sessions (sy_state t)) token now = Some info \<and> si_username info = user
        \<and> (si_needs_mfa_setup info \<longrightarrow> is_mfa_setup_allowed_route (hd_target header))
        \<and> session_earned pf (system_step pf services) (system_runs pf) sy_state y0 user t)"

lemma judged_authorised:
  assumes "as_sessions s0 = []" and "as_pending_mfa s0 = []" and "(system_step pf services)\<^sup>*\<^sup>* (booted s0) y"
    and "s \<in> judged_in y" and "session_gate pf mo header s = Inr user" and "needs_auth (hd_target header)"
  shows "authorised pf services (booted s0) y header user"
proof -
  obtain t where t: "(system_step pf services)\<^sup>*\<^sup>* (booted s0) t" "(system_step pf services)\<^sup>*\<^sup>* t y" "sy_state t = s"
    using grounded_run [OF assms(3)] assms(4) unfolding grounded_def was_state_def by blast
  obtain token info where g: "extract_session_token header = Some token"
    "validate_session (as_sessions s) token (mo_steady mo) = Some info" "si_username info = user"
    "si_needs_mfa_setup info \<longrightarrow> is_mfa_setup_allowed_route (hd_target header)"
    using assms(5,6) unfolding session_gate_Inr by auto
  have "session_earned pf (system_step pf services) (system_runs pf) sy_state (booted s0) (si_username info) t"
    using assms(1,2) t(1) g(2) unfolding t(3) [symmetric]
    by (intro whole.session_earned_run) (simp_all add: booted_def)
  with t g show ?thesis unfolding authorised_def by blast
qed

lemma connection_opened:
  assumes "admins_run pf y" and "sy_admins y i = Some a"
  shows "am_pc a = WaitBody header user \<Longrightarrow> \<exists>s \<in> judged_in y. \<exists>mo. session_gate pf mo header s = Inr user"
    and "Executed request user \<in> set (am_trace a) \<Longrightarrow>
      \<exists>s \<in> judged_in y. \<exists>mo. session_gate pf mo (header_of request) s = Inr user"
proof -
  obtain s where "(admin_step pf (am_client_ip a))\<^sup>*\<^sup>* (new_admin_session s) (admin_view (sy_state y) a)"
    using assms by (auto simp: admins_run_def)
  from serves_lawfully_run [OF this] obtain ph where
    ph: "phase_after pf (am_trace a) = Some ph" "pc_phase (am_pc a) ph" by (auto simp: serves_lawfully_def)
  have judged: "Opened s mo header user \<in> set (am_trace a) \<Longrightarrow> s \<in> judged_in y" for s mo header user
    using assms(2) unfolding judged_in_def states_judged_def by blast
  show "am_pc a = WaitBody header user \<Longrightarrow> \<exists>s \<in> judged_in y. \<exists>mo. session_gate pf mo header s = Inr user"
    using ph open_phase_opened [of pf "am_trace a" header user] judged by auto
  assume "Executed request user \<in> set (am_trace a)"
  then obtain tr tr' where tr: "am_trace a = tr @ Executed request user # tr'" by (meson split_list)
  then have "phase_after pf (tr @ Executed request user # tr') \<noteq> None" using ph by simp
  then obtain s mo where "Opened s mo (header_of request) user \<in> set tr" "session_gate pf mo (header_of request) s = Inr user"
    using open_phase_opened [OF executed_phase(1)] by blast
  then show "\<exists>s \<in> judged_in y. \<exists>mo. session_gate pf mo (header_of request) s = Inr user"
    using judged [of s mo "header_of request" user] tr by auto
qed

text \<open>C1: Nothing behind the gate is executed for anyone whose session was not earned in this very run: for every
  request that any connection of the server executed on a protected route, the cookie of the request
  had opened a session of the acting user, and before that an administrator's connection had
  executed a request that brought the evidence for it, after the password where that was a second factor.\<close>

theorem protected_requests_earned:
  assumes "atomwall_main pf L D listens b = Running p"
    and "(system_step pf services)\<^sup>*\<^sup>* (booted (pr_state p)) y" and "sy_admins y i = Some a"
    and "Executed request user \<in> set (am_trace a)" and "needs_auth (hd_target request)"
  shows "authorised pf services (booted (pr_state p)) y (header_of request) user"
proof -
  have "admins_run pf y" using grounded_run [OF assms(2)] by (simp add: grounded_def)
  from connection_opened(2) [OF this assms(3,4)] obtain s mo where
    "s \<in> judged_in y" "session_gate pf mo (header_of request) s = Inr user" by blast
  then show ?thesis
    using assms(5) by (intro judged_authorised [OF fresh_logins [OF assms(1)] assms(2)]) (simp_all add: header_of_def)
qed

section \<open>Who changes the settings\<close>

lemma served_config: "served st st' \<Longrightarrow> as_config st' = as_config st"
  by (auto simp: served_def scored_def recorded_def record_events_def Let_def award_score_frame split: option.splits)

lemma as_users_with_app [simp]: "as_users (with_app st s) = as_users s"
  by (cases s) (simp add: with_app_def AppState.extend_def)

lemma visitor_moves_config:
  assumes "session_step cn (visitor_view s v) s'" and "ss_pc s' \<noteq> vi_pc v"
  shows "as_config (ss_state s') = as_config s"
  using assms
proof cases
  case (header_close config ck header st r)
  then show ?thesis using served_config [OF header_phase_served] by fastforce
next
  case (header_open config ck header st w site event)
  then show ?thesis using served_config [OF header_phase_served] by fastforce
next
  case (body_close config header w site event ck body st r)
  then show ?thesis using served_config [OF body_phase_served] by fastforce
next
  case (body_open config header w site event ck body st request)
  then show ?thesis using served_config [OF body_phase_served] by fastforce
next
  case (upstream config header event request answer st r keep)
  then show ?thesis using served_config [OF upstream_phase_served] by fastforce
qed simp_all

definition settings_kept :: "AdminState \<Rightarrow> AdminState \<Rightarrow> bool" where
  "settings_kept s s' \<longleftrightarrow> as_config s' = as_config s \<and> accounts_kept (as_users s) (as_users s')"

lemma same_settings: "as_config s' = as_config s \<Longrightarrow> as_users s' = as_users s \<Longrightarrow> settings_kept s s'"
  by (simp add: settings_kept_def accounts_kept_def)

lemma executed_settings:
  assumes "executes pf i user y mo request y'" and "\<not> settings_kept (sy_state y) (sy_state y')"
  shows "needs_auth (hd_target request)"
proof (rule ccontr)
  assume "\<not> needs_auth (hd_target request)"
  obtain ip h where h: "dispatch pf mo request user ip = Answer h" "sy_state y' = snd (h (sy_state y))"
    using assms(1) by (auto simp: executes_def)
  with anonymous.frame_public_dispatch [OF \<open>\<not> needs_auth (hd_target request)\<close>, of pf mo user ip]
  have "untouched (sy_state y) (sy_state y')" by (auto simp: preserves_def)
  with assms(2) show False by (simp add: settings_kept_def untouched_def)
qed


section \<open>An operator\<close>

text \<open>A connection that serves one request: it is opened, and then executed.\<close>

lemma connection_serves:
  assumes "sy_admins y i = Some a" and "am_pc a = WaitHeader"
    and "session_gate pf mo header (sy_state y) = Inr user" and "\<not> expects_continue header"
    and "dispatch pf mo (admin_request pf header []) user (am_client_ip a) = Answer h"
    and "h (sy_state y) = (Inr res, s)"
  shows "\<exists>y1 y2 a2. system_step pf services y y1 \<and> sy_state y1 = sy_state y \<and> system_step pf services y1 y2
    \<and> sy_state y2 = s \<and> sy_admins y2 = (sy_admins y)(i \<mapsto> a2)
    \<and> am_trace a2 = am_trace a @ [Opened (sy_state y) mo header user, Executed (admin_request pf header []) user]"
proof -
  let ?r = "admin_request pf header []"
  let ?a1 = "(admin_view (sy_state y) a)\<lparr>ad_pc := WaitBody header user,
    ad_trace := am_trace a @ [Opened (sy_state y) mo header user]\<rparr>"
  let ?v1 = "a\<lparr>am_pc := ad_pc ?a1, am_trace := ad_trace ?a1\<rparr>"
  let ?y1 = "y\<lparr>sy_state := ad_state ?a1, sy_admins := (sy_admins y)(i \<mapsto> ?v1)\<rparr>"
  let ?a2 = "(admin_view s ?v1)\<lparr>ad_pc := Answering (finish_response pf (hr_keep_alive ?r) res) (hr_keep_alive ?r),
    ad_trace := am_trace ?v1 @ [Executed ?r user]\<rparr>"
  let ?v2 = "?v1\<lparr>am_pc := ad_pc ?a2, am_trace := ad_trace ?a2\<rparr>"
  have "admin_step pf (am_client_ip a) (admin_view (sy_state y) a) ?a1"
    using admin_step.admit [of "admin_view (sy_state y) a" pf mo header user "am_client_ip a"] assms(2,3,4)
    by (simp add: continue_trace_def)
  then have one: "system_step pf services y ?y1"
    by (intro system_step.admin_moves [OF assms(1)]) (simp_all add: assms(2))
  have "admin_step pf (am_client_ip ?v1) (admin_view (sy_state ?y1) ?v1)
      ((admin_view (sy_state ?y1) ?v1)\<lparr>ad_state := s,
        ad_pc := Answering (finish_response pf (hr_keep_alive ?r) res) (hr_keep_alive ?r),
        ad_trace := ad_trace (admin_view (sy_state ?y1) ?v1) @ [Executed ?r user]\<rparr>)"
    using assms(5,6) by (intro admin_step.handle [where header = header and body = "[]" and h = h]) simp_all
  then have "admin_step pf (am_client_ip ?v1) (admin_view (sy_state ?y1) ?v1) ?a2"
    by (simp add: admin_view_def)
  then have two: "system_step pf services ?y1 (?y1\<lparr>sy_state := ad_state ?a2, sy_admins := (sy_admins ?y1)(i \<mapsto> ?v2)\<rparr>)"
    by (intro system_step.admin_moves) simp_all
  have "am_trace ?v2 = am_trace a @ [Opened (sy_state y) mo header user, Executed ?r user]"
    by simp
  with one two show ?thesis
    by (intro exI [of _ ?y1] exI [of _ ?v2] exI [of _ "?y1\<lparr>sy_state := ad_state ?a2, sy_admins := (sy_admins ?y1)(i \<mapsto> ?v2)\<rparr>"])
       simp
qed

definition operator_body :: json_object where
  "operator_body = ann_body @ [(''enabled'', JBool True)]"

abbreviation operator_platform :: "(tree, bytes) platform" where
  "operator_platform \<equiv> start_platform operator_body"

definition operator_token :: string where
  "operator_token = to_hex (replicate 32 7)"

definition setup_header :: request_header where
  "setup_header = api_request ''POST'' ''/api/auth/setup'' (\<lambda>_. None)"

definition switch_header :: request_header where
  "switch_header = api_request ''PUT'' ''/api/emergency-off'' [''Cookie'' \<mapsto> kSessionCookieName @ ''='' @ operator_token]"

lemma operator_fields:
  "json_string_field operator_body ''username'' = Some ''ann''"
  "json_string_field operator_body ''password'' = Some ''correct horse''"
  "json_bool_field operator_body ''enabled'' = Some True"
  by (simp_all add: json_string_field_def json_bool_field_def find_string_def operator_body_def ann_body_def)

lemma switch_token: "extract_session_token switch_header = Some operator_token"
proof -
  have "CHR '';'' \<notin> set operator_token" unfolding operator_token_def by code_simp
  then show ?thesis
    using extract_cookie_holds [of kSessionCookieName operator_token]
    by (simp add: extract_session_token_def switch_header_def api_request_def kSessionCookieName_def)
qed

lemma setup_served:
  "session_gate pf mo setup_header s = Inr []" "\<not> expects_continue setup_header"
  "dispatch pf mo (admin_request pf setup_header []) [] ip = Answer (handle_auth_setup pf mo [] 11 ip)"
  by (simp_all add: session_gate_def needs_auth_def is_public_api_route_def expects_continue_def dispatch_def Let_def
      setup_header_def admin_request_def api_request_def kApiBlacklistPrefix_def route_def route_auth_def)

lemma switch_admitted:
  assumes "validate_session (as_sessions s) operator_token (mo_steady mo) = Some \<lparr>si_username = ''ann'', si_needs_mfa_setup = False\<rparr>"
  shows "session_gate pf mo switch_header s = Inr ''ann''"
  unfolding session_gate_Inr using assms switch_token
  by (simp add: switch_header_def api_request_def needs_auth_def is_public_api_route_def)

definition switched_off :: "AdminState \<Rightarrow> AdminState" where
  "switched_off s = s\<lparr>as_config := (as_config s)\<lparr>cfg_emergency_off := (cfg_emergency_off (as_config s))\<lparr>eo_enabled := True\<rparr>\<rparr>\<rparr>"

lemma switch_served:
  "\<not> expects_continue switch_header"
  "dispatch operator_platform mo (admin_request operator_platform switch_header []) user ip
     = Answer (handle_emergency_off_update operator_platform [] 11)"
  "\<exists>res. handle_emergency_off_update operator_platform [] 11 s = (Inr res, switched_off s)"
proof -
  have parse: "parse_body operator_platform [] = Some operator_body"
    by (simp add: start_platform_def sample_platform_def parse_body_def parse_json_object_def)
  show "\<exists>res. handle_emergency_off_update operator_platform [] 11 s = (Inr res, switched_off s)"
    by (simp add: handle_emergency_off_update_def parse operator_fields then_show_def plain_edit_def and_do_def actions
        update_config_def switched_off_def)
qed (simp_all add: expects_continue_def dispatch_def Let_def switch_header_def admin_request_def api_request_def
    kApiBlacklistPrefix_def kApiSitesPrefix_def kApiPagesStatusPrefix_def kApiUsersPrefix_def kApiWebauthnPrefix_def route_def route_auth_def route_accounts_def route_settings_def actions)

text \<open>The first account is set up over one connection; over another its owner throws the emergency switch.\<close>

lemma operator_run:
  fixes services :: "service list"
  defines "pf \<equiv> operator_platform"
  assumes "Admin_Service \<in> set services"
  shows "\<exists>p y y' a. atomwall_main pf start_databases start_disk (\<lambda>_. None) start_boot = Running p
    \<and> (system_step pf services)\<^sup>*\<^sup>* (booted (pr_state p)) y \<and> system_step pf services y y'
    \<and> as_config (sy_state y) = default_config \<and> sy_state y' = switched_off (sy_state y)
    \<and> sy_admins y' 1 = Some a \<and> Executed (admin_request pf switch_header []) ''ann'' \<in> set (am_trace a)"
proof -
  obtain p where p: "atomwall_main pf start_databases start_disk (\<lambda>_. None) start_boot = Running p"
    "as_config (pr_state p) = default_config"
    "as_users (pr_state p) = \<lparr>us_users = [], us_last_totp_step = [], us_file = None\<rparr>" "as_sessions (pr_state p) = []"
    unfolding pf_def using start_runs by blast
  let ?h = "handle_auth_setup pf sample_moment [] 11 ''::1''"
  let ?fresh = "\<lparr>am_client_ip = ''::1'', am_pc = WaitHeader, am_trace = []\<rparr>"
  let ?y0 = "booted (pr_state p)"
  let ?y1 = "?y0\<lparr>sy_admins := (sy_admins ?y0)(0 \<mapsto> ?fresh)\<rparr>"
  have 1: "system_step pf services ?y0 ?y1"
    using assms(2) by (intro system_step.admin_joins) (simp_all add: booted_def)
  note served = first_setup [OF p(3,4,2) operator_fields(1,2), folded pf_def]
  obtain res s where s: "?h (pr_state p) = (Inr res, s)" using served(1) by (metis prod.collapse)
  obtain y2 y3 a where 2: "system_step pf services ?y1 y2" "system_step pf services y2 y3" "sy_state y3 = s"
    "sy_admins y3 = (sy_admins ?y1)(0 \<mapsto> a)"
    using connection_serves [of ?y1 0 ?fresh pf sample_moment setup_header "[]" ?h res s services] s
    by (auto simp: setup_served booted_def)
  let ?y4 = "y3\<lparr>sy_admins := (sy_admins y3)(1 \<mapsto> ?fresh)\<rparr>"
  have 3: "system_step pf services y3 ?y4"
    using assms(2) 2(4) by (intro system_step.admin_joins) (simp_all add: booted_def)
  have "session_gate pf sample_moment switch_header (sy_state ?y4) = Inr ''ann''"
    using served(2) s by (intro switch_admitted) (simp add: 2(3) operator_token_def sample_moment_def)
  moreover obtain res' where "handle_emergency_off_update pf [] 11 (sy_state ?y4) = (Inr res', switched_off (sy_state ?y4))"
    unfolding pf_def using switch_served(3) by blast
  ultimately obtain y5 y6 a' where 4: "system_step pf services ?y4 y5" "sy_state y5 = sy_state ?y4"
    "system_step pf services y5 y6" "sy_state y6 = switched_off (sy_state ?y4)" "sy_admins y6 = (sy_admins ?y4)(1 \<mapsto> a')"
    "Executed (admin_request pf switch_header []) ''ann'' \<in> set (am_trace a')"
    using connection_serves [of ?y4 1 ?fresh pf sample_moment switch_header "''ann''"
        "handle_emergency_off_update pf [] 11" res' "switched_off (sy_state ?y4)" services]
      switch_served(1) switch_served(2) [folded pf_def] by auto
  have "(system_step pf services)\<^sup>*\<^sup>* ?y0 y5"
    using 1 2(1,2) 3 4(1) by (meson converse_rtranclp_into_rtranclp rtranclp.rtrancl_refl)
  moreover have "as_config (sy_state y5) = default_config" using served(3) s by (simp add: 4(2) 2(3))
  ultimately show ?thesis using p(1) 4(2-6) by (intro exI [of _ p] exI [of _ y5] exI [of _ y6] exI [of _ a']) simp
qed

theorem protected_requests_earned_witness:
  "\<exists>p y. atomwall_main operator_platform start_databases start_disk (\<lambda>_. None) start_boot = Running p
     \<and> authorised operator_platform [Admin_Service] (booted (pr_state p)) y switch_header ''ann''"
proof -
  obtain p y y' a where run:
    "atomwall_main operator_platform start_databases start_disk (\<lambda>_. None) start_boot = Running p"
    "(system_step operator_platform [Admin_Service])\<^sup>*\<^sup>* (booted (pr_state p)) y"
    "system_step operator_platform [Admin_Service] y y'" "sy_admins y' 1 = Some a"
    "Executed (admin_request operator_platform switch_header []) ''ann'' \<in> set (am_trace a)"
    using operator_run [of "[Admin_Service]"] by auto
  have "needs_auth (hd_target (admin_request operator_platform switch_header []))"
    by (simp add: admin_request_def switch_header_def api_request_def protected_targets)
  from protected_requests_earned [OF run(1) rtranclp.rtrancl_into_rtrancl [OF run(2,3)] run(4,5) this] run(1)
  show ?thesis by auto
qed


end
