(* ===== verification/Restarts.thy ===== *)
theory Restarts
  imports System Account_History
begin

text \<open>
  What outlives the process: the accounts across restarts of the server.  A process ends at any moment,
  and the next one finds the file of the accounts that its last step left.  A handler saves the
  accounts at most once and the file is replaced atomically, so a process that ends within a handler
  leaves the file of before it or the one of after it.
\<close>

section \<open>The accounts of a process\<close>

definition keeps_set_up :: "'n yaml_lib \<Rightarrow> AdminState \<Rightarrow> AdminState \<Rightarrow> bool" where
  "keeps_set_up y s s' \<longleftrightarrow> (yaml_ok y \<and> set_up y (as_users s) \<longrightarrow> set_up y (as_users s'))"

interpretation accounts: admin_frame "keeps_set_up (pf_yaml pf)" pf "\<lambda>_. True" "\<lambda>_. True" for pf :: "('n, 'k) platform"
proof unfold_locales
  fix s t u
  show "keeps_set_up (pf_yaml pf) s s" by (simp add: keeps_set_up_def)
  show "keeps_set_up (pf_yaml pf) s t \<Longrightarrow> keeps_set_up (pf_yaml pf) t u \<Longrightarrow> keeps_set_up (pf_yaml pf) s u"
    by (simp add: keeps_set_up_def)
qed (auto simp: keeps_set_up_def intro: user_step_set_up user_step.intros)

lemma with_app_users [simp]: "as_users (with_app st s) = as_users s"
  by (cases s) (simp add: with_app_def AppState.extend_def)

lemma process_step_set_up:
  assumes "process_step pf s s'" and "yaml_ok (pf_yaml pf)" and "set_up (pf_yaml pf) (as_users s)"
  shows "set_up (pf_yaml pf) (as_users s')"
  using assms(1)
proof cases
  case (admin mo request user client_ip h)
  then show ?thesis
    using accounts.frame_dispatch [OF TrueI TrueI admin(2)] assms(2,3) by (simp add: preserves_def keeps_set_up_def)
qed (use assms(3) in simp_all)

lemma process_run_set_up:
  assumes "(process_step pf)\<^sup>*\<^sup>* s s'" and "yaml_ok (pf_yaml pf)" and "set_up (pf_yaml pf) (as_users s)"
  shows "set_up (pf_yaml pf) (as_users s')"
  using assms(1,3) by (induction rule: rtranclp_induct) (simp_all add: process_step_set_up [OF _ assms(2)])

section \<open>The next process\<close>

text \<open>The accounts file the process \<open>b\<close> starts finds is the one \<open>s\<close> left.\<close>

definition finds_accounts_of :: "boot \<Rightarrow> AdminState \<Rightarrow> bool" where
  "finds_accounts_of b s \<longleftrightarrow>
     map_option fst (bt_files b (users_path_of (config_path_of (bt_argv b)))) = us_file (as_users s)"

lemma restart_set_up:
  assumes "atomwall_main pf L D listens b = Running p" and "finds_accounts_of b s" and "set_up (pf_yaml pf) (as_users s)"
  shows "set_up (pf_yaml pf) (as_users (pr_state p))"
proof -
  from assms(1) have "start_process pf L D b = Running p" by (simp add: running_main)
  then obtain store :: config_system and users where
    "load_store (pf_yaml pf) \<lparr>us_users = [], us_last_totp_step = [],
       us_file = map_option fst (bt_files b (users_path_of (config_path_of (bt_argv b))))\<rparr> = (Inr (), users)"
    and p: "pr_state p = fresh_state (cs_current store) users" by (rule running_process)
  then have l: "load_store (pf_yaml pf) (opened (us_file (as_users s))) = (Inr (), users)"
    using assms(2) by (simp add: finds_accounts_of_def opened_def)
  moreover from l assms(3) have "\<not> store_empty users" "unique_users users" by (auto simp: set_up_def)
  ultimately have "set_up (pf_yaml pf) users" by (rule loaded_set_up)
  then show ?thesis by (simp add: p fresh_state_def)
qed

text \<open>What the setup route answers when it is closed; it changes nothing.\<close>

definition setup_closed :: "('n, 'k) platform \<Rightarrow> AdminState \<Rightarrow> bool" where
  "setup_closed pf s \<longleftrightarrow> (\<forall>mo body version client_ip.
     handle_auth_setup pf mo body version client_ip s
       = (Inr (error_response (pf_web pf) 409 ''setup already completed'' version), s))"

lemma set_up_closed: "set_up y (as_users s) \<Longrightarrow> setup_closed pf s"
  by (simp add: setup_closed_def handle_auth_setup_def with_state_def respond_error_def ret_def set_up_def)


section \<open>A server that is started twice\<close>

text \<open>The process of \<open>start_boot\<close>, with an accounts file.\<close>

definition second_boot :: boot where
  "second_boot = start_boot\<lparr>bt_files := (bt_files start_boot)(''config/users.yaml'' \<mapsto> (sample_file, 7))\<rparr>"

lemma second_boot_users: "map_option fst (bt_files second_boot (users_path_of (config_path_of (bt_argv second_boot)))) = Some sample_file"
proof -
  have "users_path_of ''config/atomwall.yaml'' = ''config/users.yaml''" by code_simp
  then show ?thesis by (simp add: second_boot_def start_boot_def config_path_of_def)
qed

lemma second_boot_runs:
  "\<exists>p. atomwall_main (start_platform obj) start_databases start_disk (\<lambda>_. None) second_boot = Running p
     \<and> set_up tree_yaml (as_users (pr_state p)) \<and> us_file (as_users (pr_state p)) = Some sample_file"
proof -
  have users: "users_path_of ''config/atomwall.yaml'' = ''config/users.yaml''" by code_simp
  have pf: "pf_yaml (start_platform obj) = tree_yaml" "pf_address (start_platform obj) = start_address"
    "al_is_loopback (pf_addresses (start_platform obj)) (V4 [127, 0, 0, 1])"
    by (simp_all add: start_platform_def sample_platform_def boost_addresses_def)
  let ?users = "(opened (Some sample_file))\<lparr>us_users := [stored_user sample_user]\<rparr>"
  have load: "load_store tree_yaml \<lparr>us_users = [], us_last_totp_step = [], us_file = Some sample_file\<rparr> = (Inr (), ?users)"
    using sample_file_loads by (simp only: opened_def)
  have "\<exists>p. start_process (start_platform obj) start_databases start_disk second_boot = Running p
      \<and> as_config (pr_state p) = default_config \<and> as_users (pr_state p) = ?users"
    by (simp add: start_process_def second_boot_def start_boot_def config_path_of_def load_or_create_def config_codec_def pf
        empty_file_loads users load fresh_state_def)
  then obtain p where p: "start_process (start_platform obj) start_databases start_disk second_boot = Running p"
    "as_config (pr_state p) = default_config" "as_users (pr_state p) = ?users" by blast
  have "\<forall>svc \<in> set (services_of default_config). open_service (start_platform obj) start_disk (\<lambda>_. None) (pr_state p) svc = None"
    by (simp add: services_of_def default_config_simps run_http_listener_def run_tls_listener_def run_admin_server_def
        bind_listener_def bind_text_def tls_context_error_def admin_uses_tls_def p(2) pf start_address_def start_disk_def Let_def)
  moreover have "set_up tree_yaml ?users"
    by (rule loaded_set_up [OF sample_file_loads]) (simp_all add: store_empty_def unique_users_def keyed_ok_def)
  ultimately show ?thesis using p by (auto simp: running_main)
qed


end
