(* ===== verification/Admin_Departures.thy ===== *)
theory Admin_Departures
  imports Admin_Connection
begin

text \<open>
  Where the administration server does something else than its comments, its messages or the rest of
  its own code say.  Each lemma holds for the model of the code as it is.
\<close>

text \<open>Deleting an account leaves its sessions: the gate judges every request as it did before.\<close>

lemma delete_keeps_sessions: "as_sessions (snd (handle_users_delete pf mo name version s)) = as_sessions s"
  by (auto simp: handle_users_delete_def catch_invalid_def and_do_def on_users_def actions split_def
      split: sum.split error.split)

lemma delete_keeps_session_of: "session_of mo t (snd (handle_users_delete pf mo' name version s)) = session_of mo t s"
  by (cases t) (simp_all add: session_of_def delete_keeps_sessions)

lemma deleted_account_keeps_access:
  "session_gate pf mo header (snd (handle_users_delete pf mo' name version s)) = session_gate pf mo header s"
  by (simp add: session_gate_def delete_keeps_session_of)

text \<open>The history of logins with a limit is no route: the request is answered by a static file.\<close>

lemma login_history_limit_unreachable:
  assumes "hd_method_string request = ''GET''" and "hd_target request = ''/api/login-history?limit=5''"
  shows "route pf mo request user client_ip s =
    (Inr (serve_static_file pf (fs_path (admin_static_dir (cfg_admin (as_config s)))) (hd_target request)
            (hd_version request)), s)"
  using assms
  by (simp add: route_def route_auth_def route_accounts_def route_settings_def route_lists_def names_requests_def kApiRequests_def
      Let_def actions)

text \<open>Two edits that are accepted leave the method check enabled with no method allowed.\<close>

lemma empty_method_list_enabled:
  "\<exists>mc mc'. method_edit [(''enabled'', JBool False), (''allowed_methods'', JArray [])] default_method_check = Inr mc
     \<and> method_edit [(''enabled'', JBool True)] mc = Inr mc' \<and> mc_enabled mc' \<and> mc_allowed_methods mc' = []"
  by (simp add: method_edit_def set_if_def set_checked_def json_bool_field_def json_array_field_def
      default_method_check_def List.map_filter_simps Let_def)

lemma status_code_suffix_ignored: "from_chars_int ''404abc'' = Some 404"
  by (simp add: from_chars_int_def isdigit_def read_nat_def digit_value_def int_min_def int_max_def Let_def)

text \<open>The \<open>Host\<close> header of a download has no port.\<close>

lemma host_header_without_port:
  "\<exists>parsed. parse_url ''http://lists.example:8080/ips'' = Some parsed \<and> pu_port parsed = ''8080''
     \<and> (\<forall>nw ep n t request tls. Send tls request \<in> set (snd (connect_and_get nw parsed ep n t)) \<longrightarrow>
          gr_host request = ''lists.example'')"
  by (simp add: parse_url_def parse_after_scheme_def parse_authority_def find_char_def substr_to_def
      connect_and_get_def exchange_request_def Let_def split: option.splits)

text \<open>Under \<open>require_2fa\<close> the authenticator cannot be removed, whatever passkeys the account has.\<close>

lemma passkeys_do_not_free_totp:
  assumes "require_2fa (cfg_security (as_config s))" and b: "beast_ok (wb_beast (pf_web pf))"
  shows "snd (handle_auth_2fa_totp_disable pf mo user body version s) = s
    \<and> (case fst (handle_auth_2fa_totp_disable pf mo user body version s) of
         Inl e \<Rightarrow> True | Inr res \<Rightarrow> server_status res \<noteq> 200)"
  using assms(1) error_response_simps [OF b]
  by (auto simp: handle_auth_2fa_totp_disable_def verify_current_password_def and_do_def actions
      split: option.split sum.split)

text \<open>A list for the whitelist may not be larger than any other request.\<close>

lemma whitelist_import_limit:
  "admin_body_limit (api_request ''POST'' ''/api/blacklist/ips/import'' h) = kImportUrlMaxBytes"
  "admin_body_limit (api_request ''POST'' ''/api/whitelist/import'' h) = kAdminMaxBodyBytes"
  by (simp_all add: admin_body_limit_def is_list_import_def api_request_def kApiBlacklistPrefix_def
      kImportSuffix_def suffix_to_prefix)

end
