(* ===== verification/Spec2Isabelle.thy ===== *)
theory Spec2Isabelle
  imports
    Prelude
    Runtime_Config
    Net_Utils
    Robots_Txt
    Score_Tracker
    Request_Rate_Tracker
    Ip_Block_Tracker
    Checks
    Event_Logs
    Time_Format
    Request_Log
    Blacklist_Ops
    Keyed_Lists
    Site_Ops
    Codecs
    Totp
    Passwords
    Token_Stores
    Yaml_Lib
    User_Store
    Account_History
    Json_Lib
    Webauthn
    Upstream
    Http_Session
    Atomic_File
    Config_Store
    Http_Util
    Url_Fetch
    Json_View
    Yaml_Codec
    Admin_Base
    Admin_Auth
    Admin_Config
    Admin_Settings
    Admin_Routes
    Admin_Connection
    Admin_Frame
    Admin_Safety
    Admin_Soundness
    Admin_Login
    Admin_Answers
    Globe_Server
    Tls_Sites
    Geoip
    Listeners
    Startup
    Process
    System
    System_Safety
    Restarts
    Admin_Departures
begin

text \<open>
  A verification development for \<^bold>\<open>atomwall\<close>, a web application firewall and reverse proxy in C++.
  Paths below are relative to \<^verbatim>\<open>src/source/src\<close>.

  \<^bold>\<open>The program.\<close>  Visitors connect to an HTTP or a TLS listener; each connection runs the session
  loop of \<^verbatim>\<open>listener/http_session.hpp\<close>, which judges every request by the current configuration
  snapshot, the bans, the scores and the request rates, answers it itself or forwards it to the origin
  of its site, and records it.  Administrators log in with password, one-time code, recovery code
  or passkey and edit the configuration, the bans and the accounts, which are kept in files.  The
  services are shared between all connections and each protects its state by a mutex; the model makes
  each critical section one step.

  \<^bold>\<open>Theories and the code they model.\<close>
  \<^item> \<open>Prelude\<close>: machine words, clock arithmetic, exceptions as \<open>error + 'a\<close>, characters and strings,
    \<open>std::unordered_map\<close> as an association list; the collections \<open>umap\<close> and \<open>strs\<close>.
    \<open>Keyed_Lists\<close>: lists with a unique key.  \<open>Yaml_Lib\<close> and \<open>Json_Lib\<close>: what the code asks of yaml-cpp
    and of the JSON library.
  \<^item> \<open>Runtime_Config\<close>: the records of \<^verbatim>\<open>config/runtime_config.hpp\<close> and \<^verbatim>\<open>util/numeric.hpp\<close>.
  \<^item> \<open>Net_Utils\<close>, \<open>Robots_Txt\<close>, \<open>Checks\<close>: \<^verbatim>\<open>pipeline/\<close>.  CIDR ranges against the bits of an address,
    the spoof-proof string comparisons, the body of robots.txt, and every check with the order of blame.
  \<^item> \<open>Score_Tracker\<close>, \<open>Request_Rate_Tracker\<close>, \<open>Ip_Block_Tracker\<close>: the trackers of \<^verbatim>\<open>history/\<close>, each with
    an invariant and a specification by what a history of operations leaves behind.
  \<^item> \<open>Event_Logs\<close>, \<open>Time_Format\<close>, \<open>Request_Log\<close>: ring buffers, event streams, ISO timestamps, the CSV
    file and its writer thread.  The locale \<open>sequenced_log\<close> is what a stream needs of a buffer; the
    globe's buffer and the request log both provide it.
  \<^item> \<open>Blacklist_Ops\<close>, \<open>Site_Ops\<close>: the mutating operations of \<^verbatim>\<open>config/\<close> on blacklists, whitelists, sites and
    status pages, and the lookup of a site by host.  The locale \<open>entry_store\<close> is the contract of add,
    remove, clear and import, met by the blacklist categories and both whitelists.
  \<^item> \<open>Codecs\<close>, \<open>Totp\<close>, \<open>Passwords\<close>: base64url, base32, hex, one-time codes, password hashes, recovery
    codes of \<^verbatim>\<open>auth/\<close>; HMAC, PBKDF2 and random bytes are parameters.
  \<^item> \<open>Token_Stores\<close>: sessions, pending logins, pending enrolments and WebAuthn challenges; the locale
    \<open>expiring_store\<close> is the contract of the first three.
  \<^item> \<open>User_Store\<close>: \<^verbatim>\<open>auth/user_store.*\<close>, accounts with their file, with a step relation for histories.
    \<open>Account_History\<close>: what a restart finds in that file after a history of calls, failed ones included.
  \<^item> \<open>Webauthn\<close>: CBOR conversion, COSE keys and the two ceremonies of \<^verbatim>\<open>auth/webauthn/\<close>.
  \<^item> \<open>Upstream\<close>, \<open>Http_Session\<close>: \<^verbatim>\<open>upstream/upstream.cpp\<close> and \<^verbatim>\<open>listener/http_session.hpp\<close>.  The loop
    is cut into the phases between its suspension points; \<open>decide\<close> is the policy the header phase
    refines, and \<open>session_step\<close> interleaves a session with everything else that changes the state.
  \<^item> \<open>Atomic_File\<close>, \<open>Config_Store\<close>: \<^verbatim>\<open>util/atomic_file.*\<close>, with the file system after every call, and
    \<^verbatim>\<open>config/config_store.*\<close>, with updates, poll and writer thread as interleaved steps.
  \<^item> \<open>Yaml_Codec\<close>: \<^verbatim>\<open>config/yaml_codec.cpp\<close>, the reader and the writer of the configuration file over the
    interface \<open>Yaml_Lib\<close>.
  \<^item> \<open>Http_Util\<close>, \<open>Json_View\<close>, \<open>Url_Fetch\<close>: \<^verbatim>\<open>admin/http_util.*\<close>, \<^verbatim>\<open>static_files.*\<close>, \<^verbatim>\<open>json_view.*\<close> and
    \<^verbatim>\<open>url_fetch.*\<close>.
  \<^item> \<open>Admin_Base\<close>, \<open>Admin_Auth\<close>, \<open>Admin_Config\<close>, \<open>Admin_Settings\<close>, \<open>Admin_Routes\<close>, \<open>Admin_Connection\<close>:
    \<^verbatim>\<open>admin/admin_server.cpp\<close> in the order of its parts.  A handler is a function from the state of the
    services to its answer, or the exception that escapes it, and the state it leaves;
    \<open>admin_step\<close> is the connection loop between the gate, the body, the handler and the answer.
  \<^item> \<open>Admin_Frame\<close>, \<open>Admin_Safety\<close>, \<open>Admin_Soundness\<close>, \<open>Admin_Login\<close>, \<open>Admin_Answers\<close>: what holds of every
    handler, route and connection.  \<open>Admin_Frame\<close> has the locales: \<open>frame\<close> is a predicate of a step that
    the actions preserve, and its extensions say which handlers follow; each is interpreted once for
    each property (\<open>anonymous\<close>, \<open>sound\<close>, \<open>settings\<close>, \<open>quiet\<close>, \<open>listener\<close>, \<open>order\<close>, \<open>accounts\<close>).
  \<^item> \<open>Globe_Server\<close>: \<^verbatim>\<open>globe/globe_server.cpp\<close>, the public listener without logins, its routes and its
    connection loop \<open>globe_step\<close>.
  \<^item> \<open>Geoip\<close>: \<^verbatim>\<open>geoip/\<close>, the two address databases over the interface \<open>mmdb_lib\<close>.
  \<^item> \<open>Tls_Sites\<close>, \<open>Listeners\<close>: \<^verbatim>\<open>listener/tls_site_contexts.*\<close>, the certificates of the sites shared by the
    handshakes of all threads, cut at its locks, and \<^verbatim>\<open>listener/accept_util.hpp\<close>, \<^verbatim>\<open>listener.cpp\<close>,
    \<^verbatim>\<open>tls_listener.cpp\<close>: accept loops and what happens to a connection around its session.
  \<^item> \<open>Startup\<close>, \<open>Process\<close>: \<^verbatim>\<open>main.cpp\<close>, from the files the process finds to the services that wait, and
    \<open>process_step\<close>, the requests of visitors and administrators on the state that \<open>main\<close> put together.
  \<^item> \<open>System\<close>, \<open>System_Safety\<close>: the server with all its connections.  \<open>system_step\<close> is a step of one visitor's,
    one administrator's or one globe reader's connection, a connection that joins, or a background
    loop; it is simulated by \<open>process_step\<close> and, seen from one connection, by the step relation of that
    connection.  The locale \<open>login_history\<close> of \<open>Process\<close> says how sessions are earned in any such system and
    is interpreted for the process and for the server.
  \<^item> \<open>Restarts\<close>: one process after the other on the accounts file.
  \<^item> \<open>Admin_Departures\<close>: where the administration server does something else than its comments say.

  \<^bold>\<open>What is shown.\<close>  Of the pipeline: no request reaches an origin without passing every gate, the
  header phase is exactly the policy with one event per answer, requests and replies alternate, a
  ban comes exactly at the threshold and lasts exactly its time, whitelisted visitors are never refused
  by it, and no history reaches the one place where the code could use a dangling reference.  Of the
  checks, trackers and logs: exact characterisations and invariants.  Of the accounts: nobody is locked
  out, no code, challenge or recovery code is used twice, sessions end when they should, files read
  back what was saved, and a restart finds no older accounts than those of the last change that
  returned.  Of the files: replacement is atomic at every moment, updates serialise,
  shutdown persists, and a configuration that was written reads back.  Of the administration: no
  protected request is executed without a valid session, sessions and pending logins come only from
  their evidence, anonymous requests change nothing else, a refused edit leaves no trace, every edit
  keeps the configuration within the bounds the traffic side relies on, and what the edits leave
  survives a restart; downloads stay outside the internal network, static files below their
  directory, and no view shows a secret.  Of the public globe: it sends nothing but its own files and the
  snapshot, and what it sends depends on a visitor only through time, place and verdict.  Of the
  listeners: no failed accept ends one, no handshake waits for another, and the certificates in use
  belong to the files they were stamped with.  Of the process: one that runs has a typed configuration,
  nobody logged in and no plaintext administration in reach, every state it reaches keeps the
  invariants its parts assume, every session in it was earned, and an edit of the configuration by hand
  takes effect; what a handler does to the configuration at once is a run of the store.  Of the server as a
  whole: once it has accounts its setup route stays closed over every restart, every connection runs
  its own protocol whatever the others do, a request is forwarded under a
  configuration the server really had, no protected request is executed whose session was not earned over
  a connection of the same run, and only such requests and the configuration file change settings.
  Some lemmas
  record where the code departs from its comments: those of \<open>Admin_Departures\<close>, and
  \<open>poll_loses_update\<close>, \<open>disabled_queue_grows\<close>, \<open>robots_txt_group_split\<close>,
  \<open>noncanonical_ip_entry_inert\<close>, \<open>negative_ban_duration_wraps\<close>, \<open>score_ban_replaces_longer_ban\<close>, \<open>pipelined_request_lost\<close>,
  \<open>score_dropped_below_cap\<close>,
  \<open>find_int_throws\<close>, \<open>domain_with_line_feed_accepted\<close>, \<open>base64url_decode_not_injective\<close>,
  \<open>set_totp_half_enrolled\<close>, \<open>unsaved_account_blocks_retry\<close>, \<open>renewed_certificate_missed\<close>, \<open>unreadable_accounts_terminate\<close>.

  \<^bold>\<open>Conventions and bounds.\<close>  There is no fuel: every loop is a structural or measured recursion, or a
  step relation with its own termination lemma.  Time points are signed 64-bit nanosecond counts and sums
  go through \<open>tick_add\<close>; theorems that need an exact sum state the range of the clock.  Sequence
  numbers are 64-bit words, and theorems that need them not to wrap bound the number of operations by
  \<open>2^64\<close>.  A phase of a session runs without interleaving, since each service call in it is atomic and the
  calls of one request touch different services, except that scoring and banning are two calls.  In the
  same way the handler of an admin request runs as one step, although its calls of different services
  could interleave with those of another connection; a download suspends, but before its handler has
  read the state.  A configuration file edited by hand while the server runs is the step \<open>others\<close> of
  a connection; theorems about histories of requests start a new history there.

  \<^bold>\<open>Not modelled.\<close>  Sockets, TLS, threads and their scheduling, and the libraries (Boost, OpenSSL, libcbor,
  yaml-cpp, libmaxminddb, spdlog), which are parameters with the documented behaviour the proofs use as
  hypotheses.  The certificates assume of the file system that writing a file moves its time forward
  (\<open>disk_advances\<close>), and look at the two files of one site in one step.  Of the handshakes only the choice of
  the certificate and their outcome are modelled, of \<open>main\<close> not the signals, the log messages and the
  pool of threads.  \<open>process_step\<close> and \<open>system_step\<close> run each phase of a visitor's request and each handler of
  the administration as one step.  The
  capped allocator of libcbor and the best-effort flush of a directory are left out.
\<close>

end
